(* ===== verification/Ong_Prelude.thy ===== *)
theory Ong_Prelude
  imports Main "HOL-Library.Word" "HOL-Library.Monad_Syntax"
begin

unbundle bit_operations_syntax

section \<open>Prelude: C memory, machine integers and shared lemmas\<close>

text \<open>
  Shared vocabulary of the development. The C integers are words of their width. A C
  operation that may run into undefined behaviour (an access outside an array, a dereferenced
  \<open>NULL\<close>) has type \<open>'a exec\<close>, that is \<open>'a option\<close>: \<open>None\<close> is the undefined behaviour, so a
  theorem of the form \<open>op x = Some y\<close> says in particular that the access was in bounds.
  Arrays are lists; \<open>memread\<close> and \<open>memcpy_at\<close> are the bounds-checked reads and writes
  every component uses.
\<close>

type_synonym u8 = "8 word"
type_synonym u16 = "16 word"
type_synonym u32 = "32 word"
type_synonym bytes = "u8 list"
type_synonym 'a exec = "'a option"

named_theorems mem_simps \<open>evaluation of in-bounds memory accesses\<close>
named_theorems const_defs \<open>the numeric constants of the C headers\<close>

subsection \<open>Array reads and writes\<close>

definition memread :: "nat \<Rightarrow> nat \<Rightarrow> 'a list \<Rightarrow> 'a list exec" where
  "memread off n src = (if off + n \<le> length src then Some (take n (drop off src)) else None)"

definition memcpy_at :: "nat \<Rightarrow> 'a list \<Rightarrow> 'a list \<Rightarrow> 'a list exec" where
  "memcpy_at off d dst =
     (if off + length d \<le> length dst
      then Some (take off dst @ d @ drop (off + length d) dst) else None)"

definition idx :: "'a list \<Rightarrow> nat \<Rightarrow> 'a exec" where
  "idx xs i = (if i < length xs then Some (xs ! i) else None)"

lemma memread_in [mem_simps]:
  "off + n \<le> length src \<Longrightarrow> memread off n src = Some (take n (drop off src))"
  by (simp add: memread_def)

lemma memread_SomeD: "memread off n src = Some d \<Longrightarrow> off + n \<le> length src \<and> length d = n"
  by (auto simp: memread_def split: if_splits)

lemma memcpy_at_in [mem_simps]:
  "off + length d \<le> length dst \<Longrightarrow>
   memcpy_at off d dst = Some (take off dst @ d @ drop (off + length d) dst)"
  by (simp add: memcpy_at_def)

lemma length_memcpy_at: "memcpy_at off d dst = Some dst' \<Longrightarrow> length dst' = length dst"
  by (auto simp: memcpy_at_def split: if_splits)

lemma memcpy_at_0 [mem_simps]:
  "length d \<le> length dst \<Longrightarrow> memcpy_at 0 d dst = Some (d @ drop (length d) dst)"
  by (simp add: memcpy_at_def)

lemma memcpy_at_after:
  "n = length p \<Longrightarrow> length d \<le> length r \<Longrightarrow> memcpy_at n d (p @ r) = Some (p @ d @ drop (length d) r)"
  by (simp add: memcpy_at_def)

lemma idx_in [mem_simps]: "i < length xs \<Longrightarrow> idx xs i = Some (xs ! i)"
  by (simp add: idx_def)

lemma idx_None_iff [simp]: "idx xs i = None \<longleftrightarrow> length xs \<le> i"
  by (auto simp: idx_def)

lemma idx_Nil [simp]: "idx [] i = None"
  by simp

subsection \<open>Words as naturals\<close>

text \<open>C promotes to \<open>int\<close>; the models write \<open>int (unat x)\<close>, and proofs stay on naturals.\<close>

declare of_nat_unat [simp del]

lemma unat_u16_bound: "unat (x :: u16) < 65536"
  using unsigned_less [of x] by simp

lemma unat_u8_bound: "unat (x :: u8) < 256"
  using unsigned_less [of x] by simp

lemma unat_add_u16: "unat (a :: u16) + unat b < 65536 \<Longrightarrow> unat (a + b) = unat a + unat b"
  by (simp add: unat_word_ariths)

lemma unat_sub_u16: "b \<le> a \<Longrightarrow> unat (a - b :: u16) = unat a - unat b"
  by (simp add: unat_sub)

lemma unat_add_u8: "unat (a :: u8) + unat b < 256 \<Longrightarrow> unat (a + b) = unat a + unat b"
  by (simp add: unat_word_ariths)

lemma unat_of_nat_u16: "n < 65536 \<Longrightarrow> unat (of_nat n :: u16) = n"
  by (simp add: unat_of_nat take_bit_nat_eq_self)

lemma unat_of_nat_u8: "n < 256 \<Longrightarrow> unat (of_nat n :: u8) = n"
  by (simp add: unat_of_nat take_bit_nat_eq_self)

lemma of_nat_unat_same [simp]: "(of_nat (unat x) :: 'a::len word) = x"
  by (simp add: of_nat_unat)

lemma unat_ucast_u8_u16 [simp]: "unat (ucast (x :: u8) :: u16) = unat x"
proof -
  have "unat x < 2 ^ 16" using unat_u8_bound [of x] by simp
  then show ?thesis by (simp add: unsigned_ucast_eq take_bit_nat_eq_self)
qed

lemma word_eq_unat_iff: "(a :: 'a::len word) = b \<longleftrightarrow> unat a = unat b"
  by (simp add: word_unat_eq_iff)

subsection \<open>Lists\<close>

text \<open>The segment of a list between two positions.\<close>

definition seg :: "nat \<Rightarrow> nat \<Rightarrow> 'a list \<Rightarrow> 'a list" where
  "seg i j xs = take (j - i) (drop i xs)"

lemma length_seg: "i \<le> j \<Longrightarrow> j \<le> length xs \<Longrightarrow> length (seg i j xs) = j - i"
  by (simp add: seg_def)

lemma seg_append_seg:
  "i \<le> j \<Longrightarrow> j \<le> k \<Longrightarrow> k \<le> length xs \<Longrightarrow> seg i j xs @ seg j k xs = seg i k xs"
proof -
  assume h: "i \<le> j" "j \<le> k" "k \<le> length xs"
  have "take (j - i) (drop i xs) @ take (k - j) (drop (j - i) (drop i xs))
      = take ((j - i) + (k - j)) (drop i xs)"
    by (rule take_add [symmetric])
  with h show ?thesis by (simp add: seg_def)
qed

lemma seg_whole_drop: "seg i (length xs) xs = drop i xs"
  by (simp add: seg_def)

lemma seg_0_take: "seg 0 j xs = take j xs"
  by (simp add: seg_def)

lemma take_seg: "n \<le> j - i \<Longrightarrow> take n (seg i j xs) = seg i (i + n) xs"
  by (simp add: seg_def min_def)

lemma drop_seg: "drop n (seg i j xs) = seg (i + n) j xs"
  by (simp add: seg_def drop_take add.commute)

lemma map_nth_upt_take: "n \<le> length xs \<Longrightarrow> map ((!) xs) [0 ..< n] = take n xs"
  by (intro nth_equalityI) simp_all

lemma map_nth_upt_seg: "i \<le> n \<Longrightarrow> n \<le> length xs \<Longrightarrow> map ((!) xs) [i ..< n] = drop i (take n xs)"
  by (intro nth_equalityI) simp_all

text \<open>Removing the last element that satisfies a predicate (a scan that keeps overwriting
  its candidate, then unlinks it).\<close>

fun find_last :: "('a \<Rightarrow> bool) \<Rightarrow> 'a list \<Rightarrow> 'a option" where
  "find_last P [] = None"
| "find_last P (x # xs) =
     (case find_last P xs of Some y \<Rightarrow> Some y | None \<Rightarrow> (if P x then Some x else None))"

fun remove_last :: "('a \<Rightarrow> bool) \<Rightarrow> 'a list \<Rightarrow> 'a list" where
  "remove_last P [] = []"
| "remove_last P (x # xs) =
     (if find_last P xs = None \<and> P x then xs else x # remove_last P xs)"

lemma find_last_None_iff: "find_last P xs = None \<longleftrightarrow> (\<forall>x \<in> set xs. \<not> P x)"
  by (induction xs) (auto split: option.splits)

lemma find_last_SomeD: "find_last P xs = Some y \<Longrightarrow> y \<in> set xs \<and> P y"
  by (induction xs) (auto split: option.splits if_splits)

lemma remove_last_None: "find_last P xs = None \<Longrightarrow> remove_last P xs = xs"
  by (induction xs) (auto split: option.splits if_splits)

lemma remove_last_Some:
  "find_last P xs = Some y \<Longrightarrow>
   \<exists>us vs. xs = us @ y # vs \<and> remove_last P xs = us @ vs \<and> (\<forall>v \<in> set vs. \<not> P v)"
proof (induction xs)
  case Nil
  then show ?case by simp
next
  case (Cons x xs)
  show ?case
  proof (cases "find_last P xs")
    case None
    with Cons.prems have "P x" "y = x" by (auto split: if_splits)
    with None show ?thesis
      by (intro exI [of _ "[]"] exI [of _ xs]) (simp add: find_last_None_iff)
  next
    case (Some z)
    with Cons.prems have z: "z = y" by simp
    from Cons.IH [OF Some [unfolded z]] obtain us vs where
      "xs = us @ y # vs" "remove_last P xs = us @ vs" "\<forall>v \<in> set vs. \<not> P v" by blast
    with Some show ?thesis
      by (intro exI [of _ "x # us"] exI [of _ vs]) simp
  qed
qed

subsection \<open>The exclusive-or checksum\<close>

definition xor_list :: "u8 list \<Rightarrow> u8" where
  "xor_list xs = foldl (\<lambda>f b. f XOR b) 0 xs"

lemma foldl_xor_acc: "foldl (\<lambda>f b. f XOR b) (a :: u8) xs = a XOR xor_list xs"
proof (induction xs arbitrary: a)
  case Nil
  then show ?case by (simp add: xor_list_def)
next
  case (Cons x xs)
  from Cons [of "a XOR x"] Cons [of "0 XOR x"] show ?case
    by (simp add: xor_list_def ac_simps)
qed

lemma xor_list_Nil [simp]: "xor_list [] = 0"
  by (simp add: xor_list_def)

lemma xor_list_Cons [simp]: "xor_list (x # xs) = x XOR xor_list xs"
  using foldl_xor_acc [of x xs] by (simp add: xor_list_def)

lemma xor_list_append [simp]: "xor_list (xs @ ys) = xor_list xs XOR xor_list ys"
  by (induction xs) (simp_all add: ac_simps)

subsection \<open>Characters of the C library\<close>

text \<open>\<open>isspace\<close> and \<open>isdigit\<close> in the C locale, and the value of a row of decimal digits.\<close>

definition c_isspace :: "u8 \<Rightarrow> bool" where
  "c_isspace c = (c = 32 \<or> 9 \<le> c \<and> c \<le> 13)"

definition c_isdigit :: "u8 \<Rightarrow> bool" where
  "c_isdigit c = (48 \<le> c \<and> c \<le> 57)"

definition c_digits_value :: "bytes \<Rightarrow> int" where
  "c_digits_value ds = foldl (\<lambda>n d. n * 10 + (uint d - 48)) 0 ds"

lemma digits_nonneg: "\<forall>d \<in> set ds. c_isdigit d \<Longrightarrow> 0 \<le> n \<Longrightarrow> 0 \<le> foldl (\<lambda>n d. n * 10 + (uint d - 48)) n ds"
proof (induction ds arbitrary: n)
  case (Cons d ds)
  then have "48 \<le> uint d" by (simp add: c_isdigit_def word_le_def)
  with Cons show ?case by simp
qed simp

end
