(* ===== verification/Rtl_Base64.thy ===== *)
theory Rtl_Base64
  imports Ong_Prelude
begin

unbundle bit_operations_syntax

section \<open>Base64 (rtbase/lib/base64.c)\<close>

text \<open>
  The encoder and the decoder of the runtime library. A pointer that only moves forward is the
  list of the bytes from it on; the output is an array with the write position, and a write
  behind its end is \<open>None\<close>. The lengths count down from a 32-bit number and never wrap. The decoder
  skips white space between groups of four characters only, ignores an incomplete last group,
  and subtracts the padding it saw since the last character that is none.
  The reference encoder \<open>base64_ref\<close> regroups the bits of the input by six.
\<close>

subsection \<open>The code\<close>

definition b64string :: bytes where
  "b64string = map of_char ''ABCDEFGHIJKLMNOPQRSTUVWXYZabcdefghijklmnopqrstuvwxyz0123456789+/''"

type_synonym outbuf = "bytes \<times> nat"

definition emit :: "u8 \<Rightarrow> outbuf \<Rightarrow> outbuf exec" where
  "emit c m = do { to \<leftarrow> memcpy_at (snd m) [c] (fst m); Some (to, Suc (snd m)) }"

definition emit64 :: "u8 \<Rightarrow> outbuf \<Rightarrow> outbuf exec" where
  "emit64 x m = do { c \<leftarrow> idx b64string (unat x); emit c m }"

fun encode_loop :: "bytes \<Rightarrow> nat \<Rightarrow> outbuf \<Rightarrow> (bytes \<times> nat \<times> outbuf) exec" where
  "encode_loop fromp len m =
    (if len \<ge> 3 then
       (case fromp of
          c0 # c1 # c2 # fromp' \<Rightarrow> do {
            m \<leftarrow> emit64 (drop_bit 2 c0) m;
            m \<leftarrow> emit64 ((push_bit 4 c0 AND 0x30) OR drop_bit 4 c1) m;
            m \<leftarrow> emit64 ((push_bit 2 c1 AND 0x3C) OR drop_bit 6 c2) m;
            m \<leftarrow> emit64 (c2 AND 0x3F) m;
            encode_loop fromp' (len - 3) m
          }
        | _ \<Rightarrow> None)
     else Some (fromp, len, m))"

definition encode_end :: "bytes \<Rightarrow> nat \<Rightarrow> outbuf \<Rightarrow> outbuf exec" where
  "encode_end fromp len m =
    (if len \<noteq> 0 then do {
       end0 \<leftarrow> idx fromp 0;
       let len = len - 1;
       end1 \<leftarrow> (if len \<noteq> 0 then idx fromp 1 else Some 0);
       m \<leftarrow> emit64 (drop_bit 2 end0) m;
       m \<leftarrow> emit64 ((push_bit 4 end0 AND 0x30) OR drop_bit 4 end1) m;
       m \<leftarrow> (if len \<noteq> 0 then emit64 (push_bit 2 end1 AND 0x3C) m else emit 0x3D m);
       emit 0x3D m
     } else Some m)"

definition rtl_base64_encode :: "bytes \<Rightarrow> bytes \<Rightarrow> u32 \<Rightarrow> (int \<times> bytes) exec" where
  "rtl_base64_encode to from len = do {
     (fromp, len, m) \<leftarrow> encode_loop from (unat len) (to, 0);
     m \<leftarrow> encode_end fromp len m;
     (to', top) \<leftarrow> emit 0 m;
     Some (int (snd m), to')
   }"

fun memchr :: "bytes \<Rightarrow> u8 \<Rightarrow> nat option" where
  "memchr [] c = None"
| "memchr (x # xs) c = (if x = c then Some 0 else map_option Suc (memchr xs c))"

definition isspace :: "u8 \<Rightarrow> bool" where
  "isspace c \<longleftrightarrow> c = 0x20 \<or> (0x09 \<le> c \<and> c \<le> 0x0D)"

definition sextet :: "u8 \<Rightarrow> u8 option" where
  "sextet c = (if c = 0x3D then Some 0 else map_option of_nat (memchr b64string c))"

text \<open>One group: four characters to three bytes; \<open>None\<close> in the first component is the early
  \<open>return -1\<close>, after the bytes written so far.\<close>

definition decode_group :: "u8 \<Rightarrow> u8 \<Rightarrow> u8 \<Rightarrow> u8 \<Rightarrow> nat \<Rightarrow> outbuf \<Rightarrow> (nat option \<times> outbuf) exec" where
  "decode_group c0 c1 c2 c3 padding m =
    (case (sextet c0, sextet c1) of
       (Some x0, Some x1) \<Rightarrow> do {
         m \<leftarrow> emit (push_bit 2 x0 OR drop_bit 4 x1) m;
         let pad2 = (if c2 = 0x3D then Suc padding else 0);
         case sextet c2 of
           None \<Rightarrow> Some (None, m)
         | Some x2 \<Rightarrow> do {
             m \<leftarrow> emit (push_bit 4 x1 OR drop_bit 2 x2) m;
             let pad3 = (if c3 = 0x3D then Suc pad2 else 0);
             case sextet c3 of
               None \<Rightarrow> Some (None, m)
             | Some x3 \<Rightarrow> do {
                 m \<leftarrow> emit (push_bit 6 x2 OR x3) m;
                 Some (Some pad3, m)
               }
           }
       }
     | _ \<Rightarrow> Some (None, m))"

fun decode_loop :: "bytes \<Rightarrow> nat \<Rightarrow> nat \<Rightarrow> outbuf \<Rightarrow> (nat option \<times> outbuf) exec" where
  "decode_loop fromp len padding m =
    (if len \<ge> 4 then
       (case fromp of
          [] \<Rightarrow> None
        | c0 # fromp0 \<Rightarrow>
            if isspace c0 then decode_loop fromp0 (len - 1) padding m
            else (case fromp0 of
                    c1 # c2 # c3 # fromp' \<Rightarrow> do {
                      (r, m) \<leftarrow> decode_group c0 c1 c2 c3 padding m;
                      case r of None \<Rightarrow> Some (None, m)
                              | Some padding \<Rightarrow> decode_loop fromp' (len - 4) padding m
                    }
                  | _ \<Rightarrow> None))
     else Some (Some padding, m))"

definition rtl_base64_decode :: "bytes \<Rightarrow> bytes \<Rightarrow> u32 \<Rightarrow> (int \<times> bytes) exec" where
  "rtl_base64_decode to from len = do {
     (r, m) \<leftarrow> decode_loop from (unat len) 0 (to, 0);
     case r of
       None \<Rightarrow> Some (-1, fst m)
     | Some padding \<Rightarrow> do {
         (to', top) \<leftarrow> emit 0 m;
         Some (int (snd m) - int padding, to')
       }
   }"

subsection \<open>The reference encoder\<close>

definition byte_bits :: "u8 \<Rightarrow> bool list" where
  "byte_bits b = rev (map (bit b) [0 ..< 8])"

definition sextet_value :: "bool list \<Rightarrow> nat" where
  "sextet_value bs = horner_sum of_bool 2 (rev (take 6 (bs @ replicate 6 False)))"

fun sextets :: "bool list \<Rightarrow> nat list" where
  "sextets bs = (if bs = [] then [] else sextet_value bs # sextets (drop 6 bs))"

declare sextets.simps [simp del]

definition base64_ref :: "bytes \<Rightarrow> bytes" where
  "base64_ref xs =
     (let cs = map ((!) b64string) (sextets (concat (map byte_bits xs)))
      in cs @ replicate ((4 - length cs mod 4) mod 4) 0x3D)"

subsection \<open>The table\<close>

lemma b64string_props:
  "length b64string = 64" "distinct b64string" "0x3D \<notin> set b64string" "list_all (\<lambda>c. \<not> isspace c) b64string"
  by (simp_all add: b64string_def isspace_def)

lemma b64_char: "n < 64 \<Longrightarrow> b64string ! n \<noteq> 0x3D \<and> \<not> isspace (b64string ! n)"
  using b64string_props(1,3,4) nth_mem [of n b64string] by (metis list_all_iff)

lemma memchr_nth: "distinct xs \<Longrightarrow> n < length xs \<Longrightarrow> memchr xs (xs ! n) = Some n"
proof (induction xs arbitrary: n)
  case (Cons x xs)
  then show ?case by (cases n) auto
qed simp

lemma sextet_char: "x < 64 \<Longrightarrow> sextet (b64string ! unat x) = Some x"
  using b64_char [of "unat x"] memchr_nth [OF b64string_props(2), of "unat x"] b64string_props(1)
  by (simp add: sextet_def word_less_nat_alt)

subsection \<open>Writing\<close>

lemma emit_next: "r \<noteq> [] \<Longrightarrow> emit c (p @ r, length p) = Some ((p @ [c]) @ tl r, length (p @ [c]))"
  by (cases r) (simp_all add: emit_def memcpy_at_def)

lemma emit64_next:
  "x < 64 \<Longrightarrow> r \<noteq> [] \<Longrightarrow>
   emit64 x (p @ r, length p) = Some ((p @ [b64string ! unat x]) @ tl r, length (p @ [b64string ! unat x]))"
  using b64string_props(1) by (simp add: emit64_def emit_next word_less_nat_alt mem_simps del: append_assoc)

subsection \<open>Groups of six bits\<close>

definition split3 :: "u8 \<Rightarrow> u8 \<Rightarrow> u8 \<Rightarrow> u8 list" where
  "split3 a b c = [drop_bit 2 a, (push_bit 4 a AND 0x30) OR drop_bit 4 b, (push_bit 2 b AND 0x3C) OR drop_bit 6 c, c AND 0x3F]"

lemma bit_u8_beyond [simp]: "8 \<le> n \<Longrightarrow> \<not> bit (x :: u8) n"
  by (auto dest: bit_imp_le_length)

lemma u8_eqI:
  assumes "bit x 0 = bit y 0" "bit x 1 = bit y 1" "bit x 2 = bit y 2" "bit x 3 = bit y 3"
    "bit x 4 = bit y 4" "bit x 5 = bit y 5" "bit x 6 = bit y 6" "bit x 7 = bit y 7"
  shows "(x :: u8) = y"
proof (rule bit_word_eqI)
  fix n assume "n < LENGTH(8)"
  then have "n \<in> {0, 1, 2, 3, 4, 5, 6, 7}" by auto
  then show "bit x n = bit y n" using assms by auto
qed

lemma less64I: "\<not> bit x 6 \<Longrightarrow> \<not> bit x 7 \<Longrightarrow> (x :: u8) < 64"
proof -
  assume "\<not> bit x 6" "\<not> bit x 7"
  then have "take_bit 6 x = x" by (intro u8_eqI) (simp_all add: bit_take_bit_iff)
  then show ?thesis by (simp add: word_less_nat_alt word_eq_unat_iff unsigned_take_bit_eq take_bit_nat_eq_self_iff)
qed

lemma split3_less: "x \<in> set (split3 a b c) \<Longrightarrow> x < 64"
  by (auto simp: split3_def bit_simps intro!: less64I)

lemma sextet_value_word:
  assumes "x < 64" "take 6 (bs @ replicate 6 False) = rev (map (bit x) [0 ..< 6])"
  shows "sextet_value bs = unat (x :: u8)"
proof -
  have "sextet_value bs = horner_sum of_bool 2 (map (bit x) [0 ..< 6])"
    using assms(2) by (simp add: sextet_value_def)
  also have "map (bit x) [0 ..< 6] = map (bit (unat x)) [0 ..< 6]" by (simp add: bit_unsigned_iff)
  also have "horner_sum of_bool 2 (map (bit (unat x)) [0 ..< 6]) = take_bit 6 (unat x)"
    by (rule horner_sum_bit_eq_take_bit)
  finally show ?thesis using assms(1) by (simp add: word_less_nat_alt take_bit_nat_eq_self)
qed

lemma byte_bits_eq: "byte_bits b = [bit b 7, bit b 6, bit b 5, bit b 4, bit b 3, bit b 2, bit b 1, bit b 0]"
  by (simp add: byte_bits_def upt_rec numeral_eq_Suc)

definition six_bits :: "u8 \<Rightarrow> bool list" where
  "six_bits x = [bit x 5, bit x 4, bit x 3, bit x 2, bit x 1, bit x 0]"

lemma six_bits_rev: "six_bits x = rev (map (bit x) [0 ..< 6])"
  by (simp add: six_bits_def upt_rec numeral_eq_Suc)

lemma sextets_step: "x < 64 \<Longrightarrow> sextets (six_bits x @ bs) = unat x # sextets bs"
  by (subst sextets.simps) (simp add: sextet_value_word six_bits_rev)

lemma sextets_last:
  assumes "x < 64" "bs \<noteq> []" "length bs \<le> 6" "take 6 (bs @ replicate 6 False) = six_bits x"
  shows "sextets bs = [unat x]"
  using assms by (subst sextets.simps) (simp add: sextet_value_word six_bits_rev sextets.simps [of "[]"])

lemma three_bytes_six_bits:
  "byte_bits a @ byte_bits b @ byte_bits c = concat (map six_bits (split3 a b c))"
  by (simp add: byte_bits_eq six_bits_def split3_def bit_simps)

lemma sextets_groups: "(\<And>x. x \<in> set xs \<Longrightarrow> x < 64) \<Longrightarrow> sextets (concat (map six_bits xs) @ bs) = map unat xs @ sextets bs"
  by (induction xs) (simp_all add: sextets_step)

lemma sextets_three:
  "sextets (byte_bits a @ byte_bits b @ byte_bits c @ bs) = map unat (split3 a b c) @ sextets bs"
  using sextets_groups [of "split3 a b c" bs] split3_less [of _ a b c] three_bytes_six_bits [of a b c]
  by (metis append_assoc)

lemma replicate_False: "replicate 2 False = [False, False]" "replicate 4 False = [False, False, False, False]"
  by (simp_all add: numeral_eq_Suc)

lemma sextets_two: "sextets (byte_bits a @ byte_bits b) = map unat (take 3 (split3 a b 0))"
proof -
  let ?x = "split3 a b 0"
  have "byte_bits a @ byte_bits b = six_bits (?x ! 0) @ six_bits (?x ! 1) @ take 4 (six_bits (?x ! 2))"
    by (simp add: byte_bits_eq six_bits_def split3_def bit_simps)
  moreover have "sextets (take 4 (six_bits (?x ! 2))) = [unat (?x ! 2)]"
    by (rule sextets_last) (auto simp: six_bits_def split3_def bit_simps replicate_False intro!: less64I)
  moreover have "?x ! 0 < 64" "?x ! 1 < 64" by (auto simp: split3_def bit_simps intro!: less64I)
  ultimately have "sextets (byte_bits a @ byte_bits b) = [unat (?x ! 0), unat (?x ! 1), unat (?x ! 2)]"
    by (simp add: sextets_step)
  then show ?thesis by (simp add: split3_def)
qed

lemma sextets_one: "sextets (byte_bits a) = map unat (take 2 (split3 a 0 0))"
proof -
  have "byte_bits a = six_bits (split3 a 0 0 ! 0) @ take 2 (six_bits (split3 a 0 0 ! 1))"
    by (simp add: byte_bits_eq six_bits_def split3_def bit_simps)
  moreover have "sextets (take 2 (six_bits (split3 a 0 0 ! 1))) = [unat (split3 a 0 0 ! 1)]"
    by (rule sextets_last) (auto simp: six_bits_def split3_def bit_simps replicate_False intro!: less64I)
  ultimately show ?thesis using sextets_step [of "split3 a 0 0 ! 0"] split3_less [of "split3 a 0 0 ! 0" a 0 0]
    by (simp add: split3_def)
qed

lemma base64_ref_three: "base64_ref (a # b # c # xs) = map (\<lambda>x. b64string ! unat x) (split3 a b c) @ base64_ref xs"
proof -
  have "length (split3 a b c) = 4" by (simp add: split3_def)
  then show ?thesis by (simp add: base64_ref_def sextets_three Let_def)
qed

lemma base64_ref_ends:
  "base64_ref [] = []"
  "base64_ref [a] = map (\<lambda>x. b64string ! unat x) (take 2 (split3 a 0 0)) @ [0x3D, 0x3D]"
  "base64_ref [a, b] = map (\<lambda>x. b64string ! unat x) (take 3 (split3 a b 0)) @ [0x3D]"
  by (simp_all add: base64_ref_def sextets_one sextets_two sextets.simps [of "[]"] split3_def Let_def numeral_2_eq_2)

lemma three_induct [case_names Nil One Two Three]:
  "P [] \<Longrightarrow> (\<And>a. P [a]) \<Longrightarrow> (\<And>a b. P [a, b]) \<Longrightarrow> (\<And>a b c xs. P xs \<Longrightarrow> P (a # b # c # xs)) \<Longrightarrow> P xs"
  by (rule induct_list012 [of "\<lambda>ys. P ys \<and> (\<forall>a. P (a # ys)) \<and> (\<forall>a b. P (a # b # ys))", THEN conjunct1])
    (auto simp: neq_Nil_conv)

lemma length_base64_ref: "length (base64_ref xs) = 4 * ((length xs + 2) div 3)"
proof (induction xs rule: three_induct)
  case (Three a b c xs)
  have "length (base64_ref (a # b # c # xs)) = 4 + length (base64_ref xs)"
    by (simp add: base64_ref_three split3_def)
  with Three show ?case by (simp add: algebra_simps, presburger)
qed (simp_all add: base64_ref_ends split3_def)

subsection \<open>The encoder\<close>

definition filled :: "bytes \<Rightarrow> bytes \<Rightarrow> bytes \<Rightarrow> outbuf" where
  "filled p cs r = ((p @ cs) @ drop (length cs) r, length (p @ cs))"

lemma filled_Nil: "(p @ r, length p) = filled p [] r"
  by (simp add: filled_def)

lemma filled_filled: "filled (p @ cs) ds (drop (length cs) r) = filled p (cs @ ds) r"
  by (simp add: filled_def add.commute)

lemma emit_filled: "length cs < length r \<Longrightarrow> emit c (filled p cs r) = Some (filled p (cs @ [c]) r)"
  using emit_next [of "drop (length cs) r" c "p @ cs"] by (simp add: filled_def tl_drop drop_Suc)

lemma emit64_filled:
  "x < 64 \<Longrightarrow> length cs < length r \<Longrightarrow> emit64 x (filled p cs r) = Some (filled p (cs @ [b64string ! unat x]) r)"
  using emit_filled [of cs r "b64string ! unat x" p] b64string_props(1)
  by (simp add: emit64_def word_less_nat_alt mem_simps)

lemma split3_bounds:
  "drop_bit 2 a < 64" "(push_bit 4 a AND 0x30) OR drop_bit 4 b < 64"
  "(push_bit 2 b AND 0x3C) OR drop_bit 6 c < 64" "(push_bit 2 b AND 0x3C) < 64" "c AND 0x3F < (64 :: u8)"
  by (auto simp: bit_simps intro!: less64I)

declare encode_loop.simps [simp del]

lemma encode_loop_eq:
  assumes "3 dvd length xs" "n < 3" "length cs + length (base64_ref xs) \<le> length r"
  shows "encode_loop (xs @ ys) (length xs + n) (filled p cs r) = Some (ys, n, filled p (cs @ base64_ref xs) r)"
  using assms
proof (induction xs arbitrary: cs rule: three_induct)
  case Nil
  then show ?case by (subst encode_loop.simps) (simp add: base64_ref_ends)
next
  case (Three a b c xs)
  let ?d = "cs @ map (\<lambda>x. b64string ! unat x) (split3 a b c)"
  from Three.prems have "3 dvd length xs" by simp presburger
  moreover have "length ?d + length (base64_ref xs) \<le> length r" using Three.prems(3) by (simp add: base64_ref_three)
  ultimately have "encode_loop (xs @ ys) (length xs + n) (filled p ?d r) = Some (ys, n, filled p (?d @ base64_ref xs) r)"
    using Three.IH [OF _ assms(2)] by blast
  moreover have "length cs + 4 \<le> length r" using Three.prems(3) by (simp add: base64_ref_three split3_def)
  ultimately show ?case
    by (subst encode_loop.simps) (simp add: base64_ref_three emit64_filled split3_bounds, simp add: split3_def)
qed (presburger | simp)+

lemma base64_ref_append: "3 dvd length ys \<Longrightarrow> base64_ref (ys @ zs) = base64_ref ys @ base64_ref zs"
proof (induction ys rule: three_induct)
  case (Three a b c xs)
  from Three.prems have "3 dvd length xs" by simp presburger
  with Three.IH show ?case by (simp add: base64_ref_three)
qed (presburger | simp add: base64_ref_ends)+

lemma encode_end_eq:
  assumes "length zs < 3" "length cs + length (base64_ref zs) \<le> length r"
  shows "encode_end (zs @ ws) (length zs) (filled p cs r) = Some (filled p (cs @ base64_ref zs) r)"
proof -
  consider "zs = []" | a where "zs = [a]" | a b where "zs = [a, b]"
    using assms(1) by (cases zs; cases "tl zs"; cases "tl (tl zs)") auto
  then show ?thesis
  proof cases
    case 2
    with assms(2) have "length cs + 4 \<le> length r" by (simp add: base64_ref_ends split3_def)
    with 2 show ?thesis using split3_bounds(2) [of a 0]
      by (simp add: encode_end_def mem_simps emit64_filled emit_filled split3_bounds base64_ref_ends split3_def)
  next
    case 3
    with assms(2) have "length cs + 4 \<le> length r" by (simp add: base64_ref_ends split3_def)
    with 3 show ?thesis
      by (simp add: encode_end_def mem_simps emit64_filled emit_filled split3_bounds base64_ref_ends split3_def)
  qed (simp add: encode_end_def base64_ref_ends)
qed

lemma encode_eq:
  assumes "length (base64_ref xs) < length to" "length xs = unat len"
  shows "rtl_base64_encode to (xs @ ws) len
    = Some (int (length (base64_ref xs)), base64_ref xs @ [0] @ drop (Suc (length (base64_ref xs))) to)"
proof -
  define ys zs where "ys = take (3 * (length xs div 3)) xs" and "zs = drop (3 * (length xs div 3)) xs"
  then have xs: "xs = ys @ zs" "3 dvd length ys" "length zs < 3" by simp_all
  then have n: "unat len = length ys + length zs" "base64_ref xs = base64_ref ys @ base64_ref zs"
    using assms(2) by (simp_all add: base64_ref_append)
  have "encode_loop (ys @ zs @ ws) (length ys + length zs) (filled [] [] to)
      = Some (zs @ ws, length zs, filled [] (base64_ref ys) to)"
    using encode_loop_eq [OF xs(2,3), of "[]" to "zs @ ws" "[]"] assms(1) n(2) by simp
  moreover have "(to, 0) = filled [] [] to" by (simp add: filled_def)
  moreover have "encode_end (zs @ ws) (length zs) (filled [] (base64_ref ys) to) = Some (filled [] (base64_ref xs) to)"
    using encode_end_eq [OF xs(3), of "base64_ref ys" to ws "[]"] assms(1) n(2) by simp
  ultimately have "rtl_base64_encode to (xs @ ws) len
      = Some (int (snd (filled [] (base64_ref xs) to)), fst (filled [] (base64_ref xs @ [0]) to))"
    using emit_filled [OF assms(1), of 0 "[]"] n(1) xs(1) by (simp add: rtl_base64_encode_def split_beta)
  then show ?thesis by (simp add: filled_def)
qed

subsection \<open>The decoder\<close>

lemma join3:
  "push_bit 2 (drop_bit 2 a) OR drop_bit 4 ((push_bit 4 a AND 0x30) OR drop_bit 4 b) = (a :: u8)"
  "push_bit 4 ((push_bit 4 a AND 0x30) OR drop_bit 4 b) OR drop_bit 2 ((push_bit 2 b AND 0x3C) OR drop_bit 6 c) = (b :: u8)"
  "push_bit 6 ((push_bit 2 b AND 0x3C) OR drop_bit 6 c) OR (c AND 0x3F) = (c :: u8)"
  by (rule u8_eqI; simp add: bit_simps)+

lemma sextet_pad: "sextet 0x3D = Some 0"
  by (simp add: sextet_def)

lemma b64_not_pad: "(x :: u8) < 64 \<Longrightarrow> b64string ! unat x \<noteq> 0x3D"
  using b64_char [of "unat x"] by (simp add: word_less_nat_alt)

lemmas decode_simps = sextet_char sextet_pad b64_not_pad split3_bounds emit_filled

lemma decode_groups:
  assumes "length cs + 3 \<le> length r"
  shows "decode_group (b64string ! unat (split3 a b c ! 0)) (b64string ! unat (split3 a b c ! 1))
      (b64string ! unat (split3 a b c ! 2)) (b64string ! unat (split3 a b c ! 3)) pad (filled p cs r)
    = Some (Some 0, filled p (cs @ [a, b, c]) r)"
    and "decode_group (b64string ! unat (split3 a b 0 ! 0)) (b64string ! unat (split3 a b 0 ! 1))
      (b64string ! unat (split3 a b 0 ! 2)) 0x3D pad (filled p cs r)
    = Some (Some 1, filled p (cs @ [a, b, 0]) r)"
    and "decode_group (b64string ! unat (split3 a 0 0 ! 0)) (b64string ! unat (split3 a 0 0 ! 1)) 0x3D 0x3D 0 (filled p cs r)
    = Some (Some 2, filled p (cs @ [a, 0, 0]) r)"
  using assms join3(1) [of a b] join3(2) [of a b c] join3(3) [of b c] join3(2) [of a b 0] join3(3) [of b 0]
    join3(1) [of a 0] join3(2) [of a 0 0] split3_bounds(2) [of a 0] split3_bounds(3) [of b 0]
  by (simp_all add: decode_group_def split3_def decode_simps)

declare decode_loop.simps [simp del]

lemma decode_step:
  assumes "\<not> isspace c0" "decode_group c0 c1 c2 c3 pad m = Some (Some pad', m')"
  shows "decode_loop (c0 # c1 # c2 # c3 # fromp) (Suc (Suc (Suc (Suc n)))) pad m = decode_loop fromp n pad' m'"
  using assms by (subst decode_loop.simps) (simp add: numeral_eq_Suc)

definition pads :: "bytes \<Rightarrow> nat" where
  "pads xs = (3 - length xs mod 3) mod 3"

lemma split3_nth_less: "i < 4 \<Longrightarrow> split3 a b c ! i < 64"
proof -
  assume "i < 4"
  then have "split3 a b c ! i \<in> set (split3 a b c)" by (intro nth_mem) (simp add: split3_def)
  then show ?thesis by (rule split3_less)
qed

lemma split3_not_space: "i < 4 \<Longrightarrow> \<not> isspace (b64string ! unat (split3 a b c ! i))"
  using b64_char [of "unat (split3 a b c ! i)"] split3_nth_less [of i a b c] by (simp add: word_less_nat_alt)

lemma base64_ref_nth:
  "base64_ref (a # b # c # xs) = b64string ! unat (split3 a b c ! 0) # b64string ! unat (split3 a b c ! 1)
     # b64string ! unat (split3 a b c ! 2) # b64string ! unat (split3 a b c ! 3) # base64_ref xs"
  "base64_ref [a, b] = [b64string ! unat (split3 a b 0 ! 0), b64string ! unat (split3 a b 0 ! 1),
     b64string ! unat (split3 a b 0 ! 2), 0x3D]"
  "base64_ref [a] = [b64string ! unat (split3 a 0 0 ! 0), b64string ! unat (split3 a 0 0 ! 1), 0x3D, 0x3D]"
  by (simp_all add: base64_ref_three base64_ref_ends split3_def)

lemma decode_loop_eq:
  assumes "length cs + length xs + pads xs \<le> length r" "n < 4"
  shows "decode_loop (base64_ref xs @ ws) (length (base64_ref xs) + n) 0 (filled p cs r)
    = Some (Some (pads xs), filled p (cs @ xs @ replicate (pads xs) 0) r)"
  using assms(1)
proof (induction xs arbitrary: cs rule: three_induct)
  case Nil
  with assms(2) show ?case by (subst decode_loop.simps) (simp add: base64_ref_ends pads_def)
next
  case (One a)
  then have "length cs + 3 \<le> length r" by (simp add: pads_def)
  from decode_step [OF split3_not_space decode_groups(3) [OF this], of a ws n p] assms(2)
  show ?case by (simp add: base64_ref_nth pads_def numeral_2_eq_2 decode_loop.simps [of _ n])
next
  case (Two a b)
  then have "length cs + 3 \<le> length r" by (simp add: pads_def)
  from decode_step [OF split3_not_space decode_groups(2) [OF this], of a b ws n 0 p] assms(2)
  show ?case by (simp add: base64_ref_nth pads_def decode_loop.simps [of _ n])
next
  case (Three a b c xs)
  then have l: "length cs + 3 \<le> length r" "length (cs @ [a, b, c]) + length xs + pads xs \<le> length r"
    by (simp_all add: pads_def)
  have "pads (a # b # c # xs) = pads xs" by (simp add: pads_def)
  with decode_step [OF split3_not_space decode_groups(1) [OF l(1)], of a b c "base64_ref xs @ ws" "length (base64_ref xs) + n" 0 p]
    Three.IH [OF l(2)] show ?case
    by (simp add: base64_ref_nth)
qed

lemma decode_eq:
  assumes "length xs + pads xs < length to" "unat len = length (base64_ref xs)"
  shows "rtl_base64_decode to (base64_ref xs @ ws) len
    = Some (int (length xs), (xs @ replicate (pads xs) 0 @ [0]) @ drop (length xs + pads xs + 1) to)"
proof -
  have "decode_loop (base64_ref xs @ ws) (unat len) 0 (to, 0)
      = Some (Some (pads xs), filled [] (xs @ replicate (pads xs) 0) to)"
    using decode_loop_eq [of "[]" xs to 0 ws "[]"] assms by (simp add: filled_def)
  moreover have "length (xs @ replicate (pads xs) 0) < length to" using assms(1) by simp
  ultimately show ?thesis
    by (simp add: rtl_base64_decode_def emit_filled split_beta) (simp add: filled_def)
qed

lemma length_xs_pads: "length xs + pads xs = 3 * ((length xs + 2) div 3)"
proof (induction xs rule: three_induct)
  case (Three a b c xs)
  moreover have "(5 + n) div 3 = Suc (Suc (Suc n) div 3)" for n :: nat by presburger
  then have "(length (a # b # c # xs) + 2) div 3 = Suc ((length xs + 2) div 3)" by simp
  ultimately show ?case by (simp add: pads_def)
qed (simp_all add: pads_def)

subsection \<open>Arbitrary input to the decoder\<close>

lemma decode_group_total:
  assumes "length cs + 3 \<le> length r"
  shows "\<exists>res cs'. decode_group c0 c1 c2 c3 pad (filled p cs r) = Some (res, filled p cs' r) \<and> length cs' \<le> length cs + 3 \<and>
     (\<forall>pad'. res = Some pad' \<longrightarrow> pad' \<le> pad + 2 \<and> length cs' = length cs + 3)"
  using assms by (auto simp: decode_group_def emit_filled Let_def split: option.split)

lemma decode_loop_total:
  "len \<le> length fromp \<Longrightarrow> length cs + 3 * (len div 4) \<le> length r \<Longrightarrow> pad \<le> length cs \<Longrightarrow>
   \<exists>res cs'. decode_loop fromp len pad (filled p cs r) = Some (res, filled p cs' r) \<and>
     length cs' \<le> length cs + 3 * (len div 4) \<and> (\<forall>q. res = Some q \<longrightarrow> q \<le> length cs')"
proof (induction len arbitrary: fromp cs pad rule: less_induct)
  case (less len)
  show ?case
  proof (cases "4 \<le> len")
    case False
    with less.prems show ?thesis by (subst decode_loop.simps) auto
  next
    case True
    with less.prems(1) obtain c0 c1 c2 c3 fromp' where f: "fromp = c0 # c1 # c2 # c3 # fromp'"
      by (cases fromp; cases "tl fromp"; cases "tl (tl fromp)"; cases "tl (tl (tl fromp))") auto
    show ?thesis
    proof (cases "isspace c0")
      case sp: True
      have "3 * ((len - 1) div 4) \<le> 3 * (len div 4)" by (simp add: div_le_mono)
      with less.IH [of "len - 1" "c1 # c2 # c3 # fromp'" cs pad] less.prems f True sp show ?thesis
        by (subst decode_loop.simps) fastforce
    next
      case ns: False
      have d: "len div 4 = Suc ((len - 4) div 4)" using True by presburger
      with less.prems(2) have "length cs + 3 \<le> length r" by simp
      from decode_group_total [OF this] obtain res cs' where
        g: "decode_group c0 c1 c2 c3 pad (filled p cs r) = Some (res, filled p cs' r)" "length cs' \<le> length cs + 3"
          "\<And>pad'. res = Some pad' \<Longrightarrow> pad' \<le> pad + 2 \<and> length cs' = length cs + 3" by blast
      show ?thesis
      proof (cases res)
        case None
        with g ns f True d show ?thesis by (subst decode_loop.simps) auto
      next
        case (Some pad')
        with g(3) have p: "pad' \<le> pad + 2" "length cs' = length cs + 3" by simp_all
        then have "length cs' + 3 * ((len - 4) div 4) \<le> length r" "pad' \<le> length cs'" "len - 4 \<le> length fromp'"
          using less.prems d f by simp_all
        from less.IH [OF _ this(3,1,2)] True obtain res2 cs2 where
          "decode_loop fromp' (len - 4) pad' (filled p cs' r) = Some (res2, filled p cs2 r)"
          "length cs2 \<le> length cs' + 3 * ((len - 4) div 4)" "\<forall>q. res2 = Some q \<longrightarrow> q \<le> length cs2" by auto
        with True g(1) Some ns f p(2) d show ?thesis
          by (subst decode_loop.simps, simp) (rule exI [of _ cs2], simp)
      qed
    qed
  qed
qed


subsection \<open>Properties\<close>

text \<open>C18: the encoder computes the reference encoding (regroup the bits by six, complete the last
  group with zero bits and the text with \<open>=\<close>), writes it with its terminating zero, touches nothing
  behind it and returns its length, given an output array with room for both.\<close>

theorem base64_encode_reference:
  assumes "unat len \<le> length from" "length (base64_ref (take (unat len) from)) < length to"
  shows "rtl_base64_encode to from len =
     (let out = base64_ref (take (unat len) from)
      in Some (int (length out), out @ [0] @ drop (Suc (length out)) to))"
  using encode_eq [OF assms(2), of len "drop (unat len) from"] assms(1) by (simp add: Let_def)

theorem base64_encode_reference_witness:
  "rtl_base64_encode (replicate 6 9) [0x4F, 0x4E, 0x47] 2 = Some (4, [0x54, 0x30, 0x34, 0x3D, 0, 9])"
proof -
  have "base64_ref [0x4F, 0x4E] = [0x54, 0x30, 0x34, 0x3D]" by code_simp
  moreover have "replicate 6 (9 :: u8) = [9, 9, 9, 9, 9, 9]" by (simp add: numeral_eq_Suc)
  ultimately show ?thesis using base64_encode_reference [of 2 "[0x4F, 0x4E, 0x47]" "replicate 6 9"] by simp
qed

text \<open>C19: decoding what was encoded gives the original bytes back, and their number, whatever the
  length modulo three.\<close>

theorem base64_roundtrip:
  assumes "unat len \<le> length from" "4 * ((unat len + 2) div 3) < length out" "3 * ((unat len + 2) div 3) < length to"
    "4 * ((unat len + 2) div 3) < 2 ^ 32"
  shows "\<exists>n out' to'. rtl_base64_encode out from len = Some (n, out') \<and>
     rtl_base64_decode to out' (word_of_int n) = Some (int (unat len), to') \<and> take (unat len) to' = take (unat len) from"
proof -
  let ?xs = "take (unat len) from"
  have l: "length ?xs = unat len" "length (base64_ref ?xs) = 4 * ((unat len + 2) div 3)"
    "length ?xs + pads ?xs = 3 * ((unat len + 2) div 3)"
    using assms(1) length_xs_pads [of ?xs] by (simp_all add: length_base64_ref)
  have u: "unat (of_nat n :: u32) = n" if "n < 2 ^ 32" for n using that by (simp add: unat_of_nat take_bit_nat_eq_self)
  from u [OF assms(4)] have "unat (of_nat (length (base64_ref ?xs)) :: u32) = length (base64_ref ?xs)"
    by (simp only: l(2))
  from decode_eq [OF _ this] encode_eq [of ?xs out len "drop (unat len) from"] assms l show ?thesis by simp
qed

theorem base64_roundtrip_witness:
  "\<exists>n out' to'. rtl_base64_encode (replicate 9 7) [1, 2, 3, 4] 4 = Some (n, out') \<and>
     rtl_base64_decode (replicate 7 8) out' (word_of_int n) = Some (4, to') \<and> take 4 to' = [1, 2, 3, 4]"
  using base64_roundtrip [of 4 "[1, 2, 3, 4]" "replicate 9 7" "replicate 7 8"] by simp

text \<open>On arbitrary characters the decoder ends, reads inside its input, writes at most three
  bytes for four characters and a zero, and returns -1 or a number of bytes that it wrote.\<close>

theorem base64_decode_bounds:
  assumes "unat len \<le> length from" "3 * (unat len div 4) < length to"
  shows "\<exists>r to'. rtl_base64_decode to from len = Some (r, to') \<and> length to' = length to \<and>
     -1 \<le> r \<and> r \<le> int (3 * (unat len div 4))"
proof -
  have "(to, 0) = filled [] [] to" by (simp add: filled_def)
  moreover from decode_loop_total [OF assms(1), of "[]" to 0 "[]"] assms(2) obtain res cs where
    d: "decode_loop from (unat len) 0 (filled [] [] to) = Some (res, filled [] cs to)"
      "length cs \<le> 3 * (unat len div 4)" "\<And>q. res = Some q \<Longrightarrow> q \<le> length cs" by auto
  ultimately have eq: "rtl_base64_decode to from len = (case res of None \<Rightarrow> Some (-1, fst (filled [] cs to))
      | Some padding \<Rightarrow> do { (to', top) \<leftarrow> emit 0 (filled [] cs to); Some (int (snd (filled [] cs to)) - int padding, to') })"
    by (simp add: rtl_base64_decode_def)
  have l: "length cs < length to" using d(2) assms(2) by simp
  show ?thesis
  proof (cases res)
    case None
    with eq l show ?thesis by (simp add: filled_def)
  next
    case (Some q)
    with eq l emit_filled [OF l, of 0 "[]"] have
      "rtl_base64_decode to from len = Some (int (length cs) - int q, fst (filled [] (cs @ [0]) to))"
      by (simp add: split_beta) (simp add: filled_def)
    with d(2) d(3) [OF Some] l show ?thesis by (simp add: filled_def)
  qed
qed

theorem base64_decode_bounds_witness:
  "\<exists>r to'. rtl_base64_decode (replicate 7 0) [0x20, 0x51, 0x51, 0x3D, 0x3D, 0xFF, 0, 0, 0] 8 = Some (r, to') \<and> -1 \<le> r \<and> r \<le> 6"
  using base64_decode_bounds [of 8 "[0x20, 0x51, 0x51, 0x3D, 0x3D, 0xFF, 0, 0, 0]" "replicate 7 0"] by auto

end
