(* ===== verification/Rtl_Htbl.thy ===== *)
theory Rtl_Htbl
  imports Ong_Prelude "HOL-Library.Multiset"
begin

unbundle bit_operations_syntax

section \<open>Hash tables (rtbase/lib/hashtbl.c)\<close>

text \<open>
  The chained hash table of the runtime library. A bucket is the list of its nodes in chain order, a
  node its key and its data pointer (\<open>None\<close> for \<open>NULL\<close>). A \<open>void *\<close> key is a C string or an
  unsigned number, \<open>NULL\<close> being the number 0; \<open>keyAt d off\<close> is the key found at offset \<open>off\<close> of the
  user's data. The removal callback and the \<open>free\<close> of the user's data are logged. The mutex is left
  out (the operations run one after the other), and so is \<open>htbl_dump\<close>, which only calls the
  user's function. Undefined behaviour (a key of the wrong kind, a bucket outside the array, a
  division by a zero size, \<open>abort\<close>) is \<open>None\<close>.
  The locale \<open>unique_dict\<close> is the contract of a dictionary with unique insertion, which the table
  implements; \<open>dict_run\<close> is its abstract machine.
\<close>

subsection \<open>Data\<close>

datatype hkey = KStr bytes | KUint u32

abbreviation "KNULL \<equiv> KUint 0"

datatype 'd hevent = RmovFunc hkey 'd | FreeData 'd

type_synonym 'd hnode = "hkey \<times> 'd option"

record 'd htbl_t =
  hflags :: u32
  hoffset :: int
  hsize :: u32
  hcount :: u32
  hentries :: "'d hnode list list"
  hashfunc :: "hkey \<Rightarrow> u32 exec"
  rmovfunc :: bool
  hlog :: "'d hevent list"

definition HTBL_KEY_STRING :: u32 where [const_defs]: "HTBL_KEY_STRING = 1"
definition HTBL_KEY_UINT :: u32 where [const_defs]: "HTBL_KEY_UINT = 2"
definition HTBL_KEY_INCLUDED :: u32 where [const_defs]: "HTBL_KEY_INCLUDED = 4"
definition HTBL_FREE_DATA :: u32 where [const_defs]: "HTBL_FREE_DATA = 8"

definition hflag :: "'d htbl_t \<Rightarrow> u32 \<Rightarrow> bool" where
  "hflag h m = (hflags h AND m = m)"

definition DATA_INCLUDE_KEY :: "'d htbl_t \<Rightarrow> bool" where
  "DATA_INCLUDE_KEY h = (hoffset h \<ge> 0 \<and> hflag h HTBL_KEY_INCLUDED)"

subsection \<open>Operations\<close>

definition def_hashfunc :: "hkey \<Rightarrow> u32 exec" where
  "def_hashfunc key = (case key of KStr s \<Rightarrow> Some (foldl (\<lambda>hash c. hash + ucast c) 0 s) | KUint n \<Rightarrow> None)"

definition uint_hashfunc :: "hkey \<Rightarrow> u32 exec" where
  "uint_hashfunc key = (case key of KStr s \<Rightarrow> None | KUint n \<Rightarrow> Some n)"

definition def_compfunc :: "'d htbl_t \<Rightarrow> hkey \<Rightarrow> hkey \<Rightarrow> bool exec" where
  "def_compfunc h nodeKey key =
    (if hflag h HTBL_KEY_STRING
     then (case (nodeKey, key) of (KStr a, KStr b) \<Rightarrow> Some (a \<noteq> b) | _ \<Rightarrow> None)
     else if hflag h HTBL_KEY_UINT
     then (case (nodeKey, key) of (KUint a, KUint b) \<Rightarrow> Some (a \<noteq> b) | _ \<Rightarrow> None)
     else None)"

definition freekeydata :: "'d htbl_t \<Rightarrow> 'd option \<Rightarrow> 'd hevent list" where
  "freekeydata h d =
    (case d of None \<Rightarrow> [] | Some x \<Rightarrow> if hflag h HTBL_FREE_DATA then [FreeData x] else [])"

definition htbl_create ::
    "bool \<Rightarrow> bool \<Rightarrow> u32 \<Rightarrow> (hkey \<Rightarrow> u32 exec) option \<Rightarrow> u32 \<Rightarrow> 'd htbl_t option" where
  "htbl_create mallocOk callocOk sz hf flags =
    (if \<not> mallocOk \<or> \<not> callocOk then None
     else Some \<lparr>hflags = flags, hoffset = -1, hsize = sz, hcount = 0,
                hentries = replicate (unat sz) [],
                hashfunc = (case hf of Some f \<Rightarrow> f
                            | None \<Rightarrow> if flags AND HTBL_KEY_UINT = HTBL_KEY_UINT then uint_hashfunc else def_hashfunc),
                rmovfunc = False, hlog = []\<rparr>)"

definition bucket_of :: "'d htbl_t \<Rightarrow> hkey \<Rightarrow> nat exec" where
  "bucket_of h key = do {
     hash \<leftarrow> hashfunc h key;
     if hsize h = 0 then None else Some (unat (hash mod hsize h))
   }"

fun find_node :: "'d htbl_t \<Rightarrow> hkey \<Rightarrow> 'd hnode list \<Rightarrow> 'd hnode option exec" where
  "find_node h key [] = Some None"
| "find_node h key (node # ns) = do {
     differs \<leftarrow> def_compfunc h (fst node) key;
     if \<not> differs then Some (Some node) else find_node h key ns
   }"

definition releaseNode :: "'d hnode \<Rightarrow> 'd htbl_t \<Rightarrow> 'd htbl_t" where
  "releaseNode node h =
    (case node of (key, data) \<Rightarrow>
       (case data of
          Some d \<Rightarrow> if rmovfunc h then h\<lparr>hlog := hlog h @ [RmovFunc key d]\<rparr>
                    else h\<lparr>hlog := hlog h @ freekeydata h data\<rparr>
        | None \<Rightarrow> h\<lparr>hlog := hlog h @ freekeydata h None\<rparr>))"

definition htbl_destroy :: "'d htbl_t \<Rightarrow> 'd htbl_t exec" where
  "htbl_destroy h = do {
     buckets \<leftarrow> memread 0 (unat (hsize h)) (hentries h);
     Some (fold (fold (\<lambda>node h. (releaseNode node h)\<lparr>hcount := hcount h - 1\<rparr>)) buckets h)
   }"

definition htbl_insert ::
    "bool \<Rightarrow> bool \<Rightarrow> ('d \<Rightarrow> int \<Rightarrow> hkey) \<Rightarrow> 'd htbl_t \<Rightarrow> hkey \<Rightarrow> 'd option \<Rightarrow> (int \<times> 'd htbl_t) exec" where
  "htbl_insert mallocOk strdupOk keyAt h key0 data =
    (if DATA_INCLUDE_KEY h \<and> key0 \<noteq> KNULL then Some (-10, h)
     else do {
       key \<leftarrow> (if DATA_INCLUDE_KEY h \<and> (hflag h HTBL_KEY_STRING \<or> hflag h HTBL_KEY_UINT)
              then do { d \<leftarrow> data; Some (keyAt d (hoffset h)) } else Some key0);
       hash \<leftarrow> bucket_of h key;
       bucket \<leftarrow> idx (hentries h) hash;
       found \<leftarrow> find_node h key bucket;
       if \<not> Option.is_none found then Some (-1, h)
       else if \<not> mallocOk then Some (-2, h)
       else if hflag h HTBL_KEY_STRING \<and> \<not> DATA_INCLUDE_KEY h \<and> \<not> strdupOk then Some (-3, h)
       else if \<not> hflag h HTBL_KEY_STRING \<and> \<not> hflag h HTBL_KEY_UINT then Some (-4, h)
       else let h' = h\<lparr>hentries := (hentries h)[hash := (key, data) # bucket], hcount := hcount h + 1\<rparr>
            in Some (sint (hcount h'), h')
     })"

fun unlink_node :: "'d htbl_t \<Rightarrow> hkey \<Rightarrow> 'd hnode list \<Rightarrow> ('d hnode \<times> 'd hnode list) option exec" where
  "unlink_node h key [] = Some None"
| "unlink_node h key (node # ns) = do {
     differs \<leftarrow> def_compfunc h (fst node) key;
     if \<not> differs then Some (Some (node, ns))
     else do {
       r \<leftarrow> unlink_node h key ns;
       Some (map_option (\<lambda>(n, ns'). (n, node # ns')) r)
     }
   }"

definition htbl_remove :: "'d htbl_t \<Rightarrow> hkey \<Rightarrow> bool \<Rightarrow> (int \<times> 'd htbl_t) exec" where
  "htbl_remove h key internal = do {
     hash \<leftarrow> bucket_of h key;
     bucket \<leftarrow> idx (hentries h) hash;
     r \<leftarrow> unlink_node h key bucket;
     case r of
       None \<Rightarrow> Some (-1, h)
     | Some (node, ns) \<Rightarrow>
         let h1 = h\<lparr>hentries := (hentries h)[hash := ns]\<rparr>;
             h2 = (if \<not> internal then releaseNode node h1 else h1);
             h3 = h2\<lparr>hcount := hcount h2 - 1\<rparr>
         in Some (sint (hcount h3), h3)
   }"

definition htbl_get :: "'d htbl_t \<Rightarrow> hkey \<Rightarrow> 'd option exec" where
  "htbl_get h key = do {
     hash \<leftarrow> bucket_of h key;
     bucket \<leftarrow> idx (hentries h) hash;
     found \<leftarrow> find_node h key bucket;
     Some (case found of Some (k, d) \<Rightarrow> d | None \<Rightarrow> None)
   }"

text \<open>\<open>htbl_resize\<close> copies the whole struct over the new size it has just stored, so the new table keeps
  the old size. The nodes of a bucket are visited as they were chained when the scan reached it
  (each turn unlinks the node it is at).\<close>

fun resize_nodes ::
    "bool \<Rightarrow> bool \<Rightarrow> ('d \<Rightarrow> int \<Rightarrow> hkey) \<Rightarrow> 'd hnode list \<Rightarrow> 'd htbl_t \<times> 'd htbl_t \<Rightarrow> ('d htbl_t \<times> 'd htbl_t) exec" where
  "resize_nodes mallocOk strdupOk keyAt [] s = Some s"
| "resize_nodes mallocOk strdupOk keyAt ((key, data) # ns) (newtbl, h) = do {
     (r1, newtbl') \<leftarrow> htbl_insert mallocOk strdupOk keyAt newtbl key data;
     (r2, h') \<leftarrow> htbl_remove h key True;
     resize_nodes mallocOk strdupOk keyAt ns (newtbl', h')
   }"

fun resize_buckets ::
    "bool \<Rightarrow> bool \<Rightarrow> ('d \<Rightarrow> int \<Rightarrow> hkey) \<Rightarrow> nat list \<Rightarrow> 'd htbl_t \<times> 'd htbl_t \<Rightarrow> ('d htbl_t \<times> 'd htbl_t) exec" where
  "resize_buckets mallocOk strdupOk keyAt [] s = Some s"
| "resize_buckets mallocOk strdupOk keyAt (n # is) (newtbl, h) = do {
     bucket \<leftarrow> idx (hentries h) n;
     s \<leftarrow> resize_nodes mallocOk strdupOk keyAt bucket (newtbl, h);
     resize_buckets mallocOk strdupOk keyAt is s
   }"

definition htbl_resize ::
    "bool \<Rightarrow> bool \<Rightarrow> bool \<Rightarrow> ('d \<Rightarrow> int \<Rightarrow> hkey) \<Rightarrow> 'd htbl_t \<Rightarrow> u32 \<Rightarrow> (int \<times> 'd htbl_t) exec" where
  "htbl_resize callocOk mallocOk strdupOk keyAt h sz =
    (if \<not> callocOk then Some (-1, h)
     else do {
       (newtbl, h') \<leftarrow> resize_buckets mallocOk strdupOk keyAt [0 ..< unat (hsize h)]
                         (h\<lparr>hentries := replicate (unat sz) []\<rparr>, h);
       let h'' = h'\<lparr>hsize := hsize newtbl, hentries := hentries newtbl\<rparr>;
       Some (sint (hcount h''), h'')
     })"

fun walk_nodes :: "(hkey \<Rightarrow> 'd option \<Rightarrow> 's \<Rightarrow> int \<times> 's) \<Rightarrow> 'd hnode list \<Rightarrow> 's \<Rightarrow> int \<times> 's" where
  "walk_nodes fct [] u = (0, u)"
| "walk_nodes fct ((key, data) # ns) u =
    (case fct key data u of (ret, u') \<Rightarrow> if ret \<noteq> 0 then (ret, u') else walk_nodes fct ns u')"

definition htbl_walk :: "'d htbl_t \<Rightarrow> (hkey \<Rightarrow> 'd option \<Rightarrow> 's \<Rightarrow> int \<times> 's) \<Rightarrow> 's \<Rightarrow> (int \<times> 's) exec" where
  "htbl_walk h fct u = do {
     buckets \<leftarrow> memread 0 (unat (hsize h)) (hentries h);
     Some (walk_nodes fct (concat buckets) u)
   }"

subsection \<open>The public interface\<close>

definition rtl_htblNew :: "bool \<Rightarrow> bool \<Rightarrow> u32 \<Rightarrow> 'd htbl_t option" where
  "rtl_htblNew mallocOk callocOk sz = htbl_create mallocOk callocOk sz None HTBL_KEY_STRING"

definition rtl_htblCreateSpec ::
    "bool \<Rightarrow> bool \<Rightarrow> u32 \<Rightarrow> (hkey \<Rightarrow> u32 exec) option \<Rightarrow> u32 \<Rightarrow> 'd htbl_t option" where
  "rtl_htblCreateSpec mallocOk callocOk sz hf flags = htbl_create mallocOk callocOk sz hf flags"

definition rtl_htblAdd :: "bool \<Rightarrow> bool \<Rightarrow> ('d \<Rightarrow> int \<Rightarrow> hkey) \<Rightarrow> 'd htbl_t \<Rightarrow> 'd option \<Rightarrow> (int \<times> 'd htbl_t) exec" where
  "rtl_htblAdd mallocOk strdupOk keyAt h data = htbl_insert mallocOk strdupOk keyAt h KNULL data"

definition rtl_htblRemove :: "'d htbl_t \<Rightarrow> hkey \<Rightarrow> (int \<times> 'd htbl_t) exec" where
  "rtl_htblRemove h key = htbl_remove h key False"

definition rtl_htblSetRmovFunc :: "'d htbl_t \<Rightarrow> bool \<Rightarrow> int \<times> 'd htbl_t" where
  "rtl_htblSetRmovFunc h f = (0, h\<lparr>rmovfunc := f\<rparr>)"

definition rtl_htblSetKeyOffset :: "'d htbl_t \<Rightarrow> int \<Rightarrow> int \<times> 'd htbl_t" where
  "rtl_htblSetKeyOffset h off =
    (if \<not> hflag h HTBL_KEY_INCLUDED then (-1, h) else (0, h\<lparr>hoffset := off\<rparr>))"

subsection \<open>Abstract dictionary\<close>

text \<open>A dictionary that refuses to overwrite: a map with the number of its entries, as the operations
  return it.\<close>

type_synonym ('k, 'v) dict = "('k \<rightharpoonup> 'v) \<times> nat"

definition dict_insert :: "'k \<Rightarrow> 'v \<Rightarrow> ('k, 'v) dict \<Rightarrow> int \<times> ('k, 'v) dict" where
  "dict_insert k v D =
    (case D of (m, n) \<Rightarrow>
       if m k = None then (sint (of_nat (Suc n) :: u32), m(k \<mapsto> v), Suc n) else (-1, D))"

definition dict_remove :: "'k \<Rightarrow> ('k, 'v) dict \<Rightarrow> int \<times> ('k, 'v) dict" where
  "dict_remove k D =
    (case D of (m, n) \<Rightarrow>
       if m k = None then (-1, D) else (sint (of_nat (n - 1) :: u32), m(k := None), n - 1))"

definition dict_get :: "'k \<Rightarrow> ('k, 'd option) dict \<Rightarrow> 'd option" where
  "dict_get k D = (case fst D k of None \<Rightarrow> None | Some d \<Rightarrow> d)"

datatype ('k, 'd) dictOp = Insert 'k "'d option" | Remove 'k | Get 'k
datatype 'd dictRes = RInt int | RData "'d option"

fun opKey :: "('k, 'd) dictOp \<Rightarrow> 'k" where
  "opKey (Insert k d) = k" | "opKey (Remove k) = k" | "opKey (Get k) = k"

fun dict_step :: "('k, 'd) dictOp \<Rightarrow> ('k, 'd option) dict \<Rightarrow> 'd dictRes \<times> ('k, 'd option) dict" where
  "dict_step (Insert k d) D = (case dict_insert k d D of (r, D') \<Rightarrow> (RInt r, D'))"
| "dict_step (Remove k) D = (case dict_remove k D of (r, D') \<Rightarrow> (RInt r, D'))"
| "dict_step (Get k) D = (RData (dict_get k D), D)"

fun dict_run :: "('k, 'd) dictOp list \<Rightarrow> ('k, 'd option) dict \<Rightarrow> 'd dictRes list \<times> ('k, 'd option) dict" where
  "dict_run [] D = ([], D)"
| "dict_run (op # ops) D =
    (case dict_step op D of (r, D') \<Rightarrow> case dict_run ops D' of (rs, D'') \<Rightarrow> (r # rs, D''))"

fun run_ops :: "('op \<Rightarrow> 'h \<Rightarrow> ('r \<times> 'h) exec) \<Rightarrow> 'op list \<Rightarrow> 'h \<Rightarrow> ('r list \<times> 'h) exec" where
  "run_ops step [] h = Some ([], h)"
| "run_ops step (op # ops) h = do {
     (r, h') \<leftarrow> step op h;
     (rs, h'') \<leftarrow> run_ops step ops h';
     Some (r # rs, h'')
   }"

definition op_step ::
    "('h \<Rightarrow> 'k \<Rightarrow> 'd option \<Rightarrow> (int \<times> 'h) exec) \<Rightarrow> ('h \<Rightarrow> 'k \<Rightarrow> (int \<times> 'h) exec) \<Rightarrow> ('h \<Rightarrow> 'k \<Rightarrow> 'd option exec) \<Rightarrow>
     ('k, 'd) dictOp \<Rightarrow> 'h \<Rightarrow> ('d dictRes \<times> 'h) exec" where
  "op_step ins rmv get op h = (case op of
      Insert k d \<Rightarrow> do { (r, h') \<leftarrow> ins h k d; Some (RInt r, h') }
    | Remove k \<Rightarrow> do { (r, h') \<leftarrow> rmv h k; Some (RInt r, h') }
    | Get k \<Rightarrow> do { r \<leftarrow> get h k; Some (RData r, h) })"

locale unique_dict =
  fixes inv :: "'h \<Rightarrow> bool" and ok :: "'k \<Rightarrow> bool" and alpha :: "'h \<Rightarrow> ('k, 'd option) dict"
    and ins :: "'h \<Rightarrow> 'k \<Rightarrow> 'd option \<Rightarrow> (int \<times> 'h) exec"
    and rmv :: "'h \<Rightarrow> 'k \<Rightarrow> (int \<times> 'h) exec" and get :: "'h \<Rightarrow> 'k \<Rightarrow> 'd option exec"
  assumes ins_law: "inv h \<Longrightarrow> ok k \<Longrightarrow>
      \<exists>h'. ins h k d = Some (fst (dict_insert k d (alpha h)), h') \<and> inv h' \<and> alpha h' = snd (dict_insert k d (alpha h))"
    and rmv_law: "inv h \<Longrightarrow> ok k \<Longrightarrow>
      \<exists>h'. rmv h k = Some (fst (dict_remove k (alpha h)), h') \<and> inv h' \<and> alpha h' = snd (dict_remove k (alpha h))"
    and get_law: "inv h \<Longrightarrow> ok k \<Longrightarrow> get h k = Some (dict_get k (alpha h))"
begin

lemma step_refines:
  assumes "inv h" "ok (opKey op)"
  shows "\<exists>h'. op_step ins rmv get op h = Some (fst (dict_step op (alpha h)), h') \<and> inv h' \<and> alpha h' = snd (dict_step op (alpha h))"
proof (cases op)
  case (Insert k d)
  with ins_law [of h k d] assms show ?thesis by (auto simp: op_step_def split_beta)
next
  case (Remove k)
  with rmv_law [of h k] assms show ?thesis by (auto simp: op_step_def split_beta)
next
  case (Get k)
  with get_law [of h k] assms show ?thesis by (simp add: op_step_def)
qed

lemma run_refines:
  "inv h \<Longrightarrow> (\<And>op. op \<in> set ops \<Longrightarrow> ok (opKey op)) \<Longrightarrow>
   \<exists>h'. run_ops (op_step ins rmv get) ops h = Some (fst (dict_run ops (alpha h)), h') \<and> inv h' \<and> alpha h' = snd (dict_run ops (alpha h))"
proof (induction ops arbitrary: h)
  case (Cons op ops)
  from step_refines [of h op] Cons.prems obtain h1 where
    1: "op_step ins rmv get op h = Some (fst (dict_step op (alpha h)), h1)" "inv h1" "alpha h1 = snd (dict_step op (alpha h))" by auto
  from Cons.IH [OF 1(2)] Cons.prems obtain h2 where
    "run_ops (op_step ins rmv get) ops h1 = Some (fst (dict_run ops (alpha h1)), h2)" "inv h2" "alpha h2 = snd (dict_run ops (alpha h1))" by auto
  with 1 show ?case by (simp add: split_beta)
qed simp

lemma insert_then_get:
  assumes "inv h" "ok k" "fst (alpha h) k = None"
  shows "\<exists>r h'. ins h k d = Some (r, h') \<and> get h' k = Some d"
proof -
  from ins_law [OF assms(1,2)] obtain h' where
    "ins h k d = Some (fst (dict_insert k d (alpha h)), h')" "inv h'" "alpha h' = snd (dict_insert k d (alpha h))" by blast
  moreover from this get_law [OF this(2) assms(2)] assms(3) have "get h' k = Some d"
    by (simp add: dict_insert_def dict_get_def split_beta)
  ultimately show ?thesis by blast
qed

end

subsection \<open>Well-formed tables\<close>

definition hmap :: "'d htbl_t \<Rightarrow> hkey \<rightharpoonup> 'd option" where
  "hmap h k = do { i \<leftarrow> bucket_of h k; b \<leftarrow> idx (hentries h) i; map_of b k }"

definition hnodes :: "'d htbl_t \<Rightarrow> nat" where
  "hnodes h = length (concat (hentries h))"

definition habs :: "'d htbl_t \<Rightarrow> (hkey, 'd option) dict" where
  "habs h = (hmap h, hnodes h)"

lemma fst_habs: "fst (habs h) = hmap h"
  by (simp add: habs_def)

text \<open>\<open>keys_ok P h\<close>: the keys of kind \<open>P\<close> have a hash value and are compared by equality.\<close>

definition keys_ok :: "(hkey \<Rightarrow> bool) \<Rightarrow> 'd htbl_t \<Rightarrow> bool" where
  "keys_ok P h \<longleftrightarrow> (\<forall>k. P k \<longrightarrow> hashfunc h k \<noteq> None) \<and> (\<forall>a b. P a \<longrightarrow> P b \<longrightarrow> def_compfunc h a b = Some (a \<noteq> b)) \<and>
     (hflag h HTBL_KEY_STRING \<or> hflag h HTBL_KEY_UINT)"

definition bucket_ok :: "(hkey \<Rightarrow> bool) \<Rightarrow> 'd htbl_t \<Rightarrow> nat \<Rightarrow> 'd hnode list \<Rightarrow> bool" where
  "bucket_ok P h i b \<longleftrightarrow> distinct (map fst b) \<and> (\<forall>k \<in> fst ` set b. P k \<and> bucket_of h k = Some i)"

definition htbl_shape :: "(hkey \<Rightarrow> bool) \<Rightarrow> 'd htbl_t \<Rightarrow> bool" where
  "htbl_shape P h \<longleftrightarrow> hsize h \<noteq> 0 \<and> unat (hsize h) \<le> length (hentries h) \<and> \<not> DATA_INCLUDE_KEY h \<and> keys_ok P h \<and>
     (\<forall>i < length (hentries h). bucket_ok P h i (hentries h ! i))"

definition htbl_wf :: "(hkey \<Rightarrow> bool) \<Rightarrow> 'd htbl_t \<Rightarrow> bool" where
  "htbl_wf P h \<longleftrightarrow> htbl_shape P h \<and> length (hentries h) = unat (hsize h) \<and> hcount h = of_nat (hnodes h)"

lemma htbl_wf_shape: "htbl_wf P h \<Longrightarrow> htbl_shape P h"
  by (simp add: htbl_wf_def)

lemma find_node_eq:
  "keys_ok P h \<Longrightarrow> P key \<Longrightarrow> \<forall>k \<in> fst ` set b. P k \<Longrightarrow> find_node h key b = Some (map_option (Pair key) (map_of b key))"
  by (induction b) (auto simp: keys_ok_def)

lemma unlink_node_eq:
  "keys_ok P h \<Longrightarrow> P key \<Longrightarrow> \<forall>k \<in> fst ` set b. P k \<Longrightarrow> distinct (map fst b) \<Longrightarrow>
   unlink_node h key b = Some (map_option (\<lambda>d. ((key, d), filter (\<lambda>n. fst n \<noteq> key) b)) (map_of b key))"
proof (induction b)
  case (Cons n b)
  have "filter (\<lambda>n. fst n \<noteq> key) b = b" if "key \<notin> fst ` set b" using that by (auto simp: filter_id_conv)
  with Cons show ?case by (cases n) (auto simp: keys_ok_def option.map_comp comp_def)
qed simp

lemma bucket_of_in:
  assumes "htbl_shape P h" "P k"
  obtains i where "bucket_of h k = Some i" "i < length (hentries h)" "bucket_ok P h i (hentries h ! i)"
proof -
  from assms obtain v where v: "hashfunc h k = Some v" "hsize h \<noteq> 0" "unat (hsize h) \<le> length (hentries h)"
    by (auto simp: htbl_shape_def keys_ok_def)
  have "unat (v mod hsize h) < unat (hsize h)"
    using v(2) by (simp add: unat_mod word_neq_0_conv unat_gt_0)
  with v assms(1) show ?thesis by (intro that [of "unat (v mod hsize h)"]) (simp_all add: bucket_of_def htbl_shape_def)
qed

lemma hmap_at: "bucket_of h k = Some i \<Longrightarrow> i < length (hentries h) \<Longrightarrow> hmap h k = map_of (hentries h ! i) k"
  by (simp add: hmap_def mem_simps)

lemma length_concat_update:
  "i < length xs \<Longrightarrow> length (concat (xs[i := b])) + length (xs ! i) = length (concat xs) + length b"
proof (induction xs arbitrary: i)
  case (Cons x xs)
  then show ?case by (cases i) auto
qed simp

lemma map_of_unlinked: "map_of (filter (\<lambda>n. fst n \<noteq> key) b) = (map_of b)(key := None)"
  by (induction b) (auto simp: fun_eq_iff)

lemma filter_eq_nodes: "distinct (map fst b) \<Longrightarrow> map_of b k = Some d \<Longrightarrow> filter (\<lambda>n. fst n = k) b = [(k, d)]"
proof (induction b)
  case (Cons n b)
  have "filter (\<lambda>n. fst n = k) b = []" if "k \<notin> fst ` set b" using that by (auto simp: filter_empty_conv)
  with Cons show ?case by (cases n) (auto split: if_splits)
qed simp

lemma mset_unlinked:
  "distinct (map fst b) \<Longrightarrow> map_of b k = Some d \<Longrightarrow> mset b = add_mset (k, d) (mset (filter (\<lambda>n. fst n \<noteq> k) b))"
proof (induction b)
  case (Cons n b)
  have "filter (\<lambda>n. fst n \<noteq> k) b = b" if "k \<notin> fst ` set b" using that by (auto simp: filter_id_conv)
  with Cons show ?case by (cases n) (auto simp del: mset_filter split: if_splits)
qed simp

subsection \<open>Changing one bucket\<close>

definition with_bucket :: "'d htbl_t \<Rightarrow> nat \<Rightarrow> 'd hnode list \<Rightarrow> u32 \<Rightarrow> 'd hevent list \<Rightarrow> 'd htbl_t" where
  "with_bucket h i b c l = h\<lparr>hentries := (hentries h)[i := b], hcount := c, hlog := l\<rparr>"

lemma with_bucket_simps [simp]:
  "hentries (with_bucket h i b c l) = (hentries h)[i := b]" "hcount (with_bucket h i b c l) = c"
  "hsize (with_bucket h i b c l) = hsize h" "hlog (with_bucket h i b c l) = l"
  "DATA_INCLUDE_KEY (with_bucket h i b c l) = DATA_INCLUDE_KEY h" "keys_ok P (with_bucket h i b c l) = keys_ok P h"
  "bucket_of (with_bucket h i b c l) = bucket_of h" "bucket_ok P (with_bucket h i b c l) = bucket_ok P h"
  "rmovfunc (with_bucket h i b c l) = rmovfunc h" "hflag (with_bucket h i b c l) = hflag h"
  by (simp_all add: with_bucket_def DATA_INCLUDE_KEY_def hflag_def keys_ok_def def_compfunc_def bucket_of_def bucket_ok_def fun_eq_iff cong: if_cong)

lemma hmap_with_bucket:
  "i < length (hentries h) \<Longrightarrow> hmap (with_bucket h i b c l) k = (if bucket_of h k = Some i then map_of b k else hmap h k)"
  by (cases "bucket_of h k") (auto simp: hmap_def idx_def)

lemma shape_with_bucket:
  "htbl_shape P h \<Longrightarrow> i < length (hentries h) \<Longrightarrow> bucket_ok P h i b \<Longrightarrow> htbl_shape P (with_bucket h i b c l)"
  by (auto simp: htbl_shape_def nth_list_update)

lemma wf_with_bucket:
  "htbl_wf P h \<Longrightarrow> i < length (hentries h) \<Longrightarrow> bucket_ok P h i b \<Longrightarrow>
   c = of_nat (hnodes (with_bucket h i b c l)) \<Longrightarrow> htbl_wf P (with_bucket h i b c l)"
  by (simp add: htbl_wf_def shape_with_bucket)

lemma hnodes_with_bucket:
  "i < length (hentries h) \<Longrightarrow> hnodes (with_bucket h i b c l) + length (hentries h ! i) = hnodes h + length b"
  by (simp add: hnodes_def length_concat_update)

definition hnodeset :: "'d htbl_t \<Rightarrow> 'd hnode multiset" where
  "hnodeset h = mset (concat (hentries h))"

definition same_release :: "'d htbl_t \<Rightarrow> 'd htbl_t \<Rightarrow> bool" where
  "same_release h h' \<longleftrightarrow> rmovfunc h' = rmovfunc h \<and> hflags h' = hflags h"

lemma same_release_simps [simp]: "same_release h h" "same_release h (with_bucket h i b c l)"
  by (simp_all add: same_release_def with_bucket_def)

lemma mset_concat_update: "i < length xs \<Longrightarrow> mset (concat (xs[i := b])) + mset (xs ! i) = mset (concat xs) + mset b"
proof (induction xs arbitrary: i)
  case (Cons x xs)
  then show ?case by (cases i) (auto simp: ac_simps)
qed simp

lemma hnodeset_with_bucket:
  "i < length (hentries h) \<Longrightarrow> hnodeset (with_bucket h i b c l) + mset (hentries h ! i) = hnodeset h + mset b"
  by (simp add: hnodeset_def mset_concat_update)

definition release_events :: "'d htbl_t \<Rightarrow> 'd hnode \<Rightarrow> 'd hevent list" where
  "release_events h n =
    (case snd n of None \<Rightarrow> [] | Some d \<Rightarrow> if rmovfunc h then [RmovFunc (fst n) d] else if hflag h HTBL_FREE_DATA then [FreeData d] else [])"

lemma release_events_entries [simp]: "release_events (h\<lparr>hentries := es\<rparr>) n = release_events h n"
  by (cases "snd n") (simp_all add: release_events_def hflag_def)

lemma releaseNode_eq: "releaseNode n h = h\<lparr>hlog := hlog h @ release_events h n\<rparr>"
  by (cases n) (simp add: releaseNode_def release_events_def freekeydata_def split: option.splits)

subsection \<open>The table implements the dictionary\<close>

lemma find_in_bucket:
  assumes "htbl_shape P h" "P k" "bucket_of h k = Some i" "i < length (hentries h)"
  shows "find_node h k (hentries h ! i) = Some (map_option (Pair k) (hmap h k))"
  using assms find_node_eq [of P h k "hentries h ! i"] by (auto simp: htbl_shape_def bucket_ok_def hmap_at)

lemma htbl_insert_new:
  assumes "htbl_shape P h" "P k" "hmap h k = None"
  obtains i h' where "bucket_of h k = Some i" "i < length (hentries h)"
    "h' = with_bucket h i ((k, d) # hentries h ! i) (hcount h + 1) (hlog h)"
    "htbl_insert True True keyAt h k d = Some (sint (hcount h'), h')" "htbl_shape P h'" "hmap h' = (hmap h)(k \<mapsto> d)"
proof -
  from bucket_of_in [OF assms(1,2)] obtain i where
    i: "bucket_of h k = Some i" "i < length (hentries h)" "bucket_ok P h i (hentries h ! i)" .
  let ?b = "hentries h ! i" and ?h = "with_bucket h i ((k, d) # hentries h ! i) (hcount h + 1) (hlog h)"
  from assms(1) have ok: "\<not> DATA_INCLUDE_KEY h" "hflag h HTBL_KEY_STRING \<or> hflag h HTBL_KEY_UINT"
    by (auto simp: htbl_shape_def keys_ok_def)
  from assms(3) i have new: "k \<notin> fst ` set ?b" by (simp add: hmap_at map_of_eq_None_iff)
  have "htbl_shape P ?h"
    using shape_with_bucket [OF assms(1) i(2), of "(k, d) # ?b"] new i(1,3) assms(2) by (simp add: bucket_ok_def)
  moreover have "hmap ?h = (hmap h)(k \<mapsto> d)" using i by (auto simp: hmap_with_bucket hmap_at fun_eq_iff)
  moreover have "h\<lparr>hentries := (hentries h)[i := (k, d) # ?b], hcount := hcount h + 1\<rparr> = ?h" by (simp add: with_bucket_def)
  then have "htbl_insert True True keyAt h k d = Some (sint (hcount ?h), ?h)"
    using find_in_bucket [OF assms(1,2) i(1,2)] assms(3) i ok by (auto simp: htbl_insert_def mem_simps Let_def)
  ultimately show ?thesis using that i by blast
qed

lemma htbl_insert_old:
  assumes "htbl_shape P h" "P k" "hmap h k \<noteq> None"
  shows "htbl_insert mallocOk strdupOk keyAt h k d = Some (-1, h)"
proof -
  from bucket_of_in [OF assms(1,2)] obtain i where i: "bucket_of h k = Some i" "i < length (hentries h)" by blast
  with find_in_bucket [OF assms(1,2)] assms(1,3) show ?thesis
    by (auto simp: htbl_insert_def mem_simps htbl_shape_def)
qed

lemma htbl_insert_eq:
  assumes "htbl_wf P h" "P k"
  shows "\<exists>h'. htbl_insert True True keyAt h k d = Some (fst (dict_insert k d (habs h)), h') \<and>
    htbl_wf P h' \<and> habs h' = snd (dict_insert k d (habs h)) \<and> hlog h' = hlog h \<and> same_release h h' \<and>
    hnodeset h' = hnodeset h + (if hmap h k = None then {#(k, d)#} else {#})"
proof (cases "hmap h k")
  case (Some x)
  with htbl_insert_old [OF htbl_wf_shape [OF assms(1)] assms(2)] assms(1) show ?thesis
    by (simp add: dict_insert_def habs_def)
next
  case None
  from htbl_insert_new [OF htbl_wf_shape [OF assms(1)] assms(2) None] obtain i h' where
    i: "bucket_of h k = Some i" "i < length (hentries h)"
    and h': "h' = with_bucket h i ((k, d) # hentries h ! i) (hcount h + 1) (hlog h)"
    and ins: "htbl_insert True True keyAt h k d = Some (sint (hcount h'), h')" "htbl_shape P h'" "hmap h' = (hmap h)(k \<mapsto> d)" .
  have n: "hnodes h' = Suc (hnodes h)" using hnodes_with_bucket [OF i(2), of "(k, d) # hentries h ! i"] by (simp add: h')
  from assms(1) have c: "hcount h' = of_nat (hnodes h')" "length (hentries h') = unat (hsize h')"
    unfolding n by (simp_all add: htbl_wf_def h')
  have "hnodeset h' = hnodeset h + {#(k, d)#}"
    using hnodeset_with_bucket [OF i(2), of "(k, d) # hentries h ! i"] by (simp add: h')
  moreover have "hlog h' = hlog h" "same_release h h'" by (simp_all add: h')
  ultimately show ?thesis using None ins n c by (simp add: htbl_wf_def dict_insert_def habs_def)
qed

lemma of_nat_pred: "c = of_nat n \<Longrightarrow> Suc m = n \<Longrightarrow> c - 1 = (of_nat m :: u32)"
  by auto

lemma mset_exchange: "X + Y = Z + W \<Longrightarrow> Y = add_mset e W \<Longrightarrow> Z = X + {#e#}"
  by simp

lemma htbl_remove_eq:
  assumes "htbl_wf P h" "P k"
  shows "\<exists>h'. htbl_remove h k internal = Some (fst (dict_remove k (habs h)), h') \<and>
    htbl_wf P h' \<and> habs h' = snd (dict_remove k (habs h)) \<and>
    hlog h' = hlog h @ (if internal then [] else case hmap h k of None \<Rightarrow> [] | Some d \<Rightarrow> release_events h (k, d)) \<and> same_release h h' \<and>
    hnodeset h = hnodeset h' + (case hmap h k of None \<Rightarrow> {#} | Some d \<Rightarrow> {#(k, d)#})"
proof -
  from bucket_of_in [OF htbl_wf_shape [OF assms(1)] assms(2)] obtain i where
    i: "bucket_of h k = Some i" "i < length (hentries h)" "bucket_ok P h i (hentries h ! i)" .
  let ?b = "hentries h ! i" and ?b' = "filter (\<lambda>n. fst n \<noteq> k) (hentries h ! i)"
  from assms(1) have ok: "keys_ok P h" by (simp add: htbl_wf_def htbl_shape_def)
  have unlink: "unlink_node h k ?b = Some (map_option (\<lambda>d. ((k, d), ?b')) (hmap h k))"
    using unlink_node_eq [OF ok assms(2), of ?b] i by (simp add: bucket_ok_def hmap_at)
  show ?thesis
  proof (cases "hmap h k")
    case None
    with unlink i assms show ?thesis by (simp add: htbl_remove_def mem_simps dict_remove_def habs_def)
  next
    case (Some d)
    let ?l = "hlog h @ (if internal then [] else release_events h (k, d))"
    let ?h = "with_bucket h i ?b' (hcount h - 1) ?l"
    have single: "filter (\<lambda>n. fst n = k) ?b = [(k, d)]"
      using Some i by (intro filter_eq_nodes) (auto simp: bucket_ok_def hmap_at)
    then have "Suc (length ?b') = length ?b" using sum_length_filter_compl [of "\<lambda>n. fst n = k" ?b] by simp
    with hnodes_with_bucket [OF i(2), of ?b' "hcount h - 1" ?l] have n: "Suc (hnodes ?h) = hnodes h" by simp
    from assms(1) have c: "hcount h = of_nat (hnodes h)" by (simp add: htbl_wf_def)
    have "bucket_ok P h i ?b'" using i(3) by (auto simp: bucket_ok_def distinct_map_filter)
    moreover have c': "hcount h - 1 = of_nat (hnodes ?h)"
      by (rule of_nat_pred [OF c n])
    ultimately have "htbl_wf P ?h" using wf_with_bucket [OF assms(1) i(2)] by blast
    moreover have "hmap ?h = (hmap h)(k := None)" using i by (auto simp: hmap_with_bucket hmap_at map_of_unlinked fun_eq_iff)
    moreover have "hnodes h - 1 = hnodes ?h" using n by simp
    moreover have "htbl_remove h k internal = Some (sint (hcount ?h), ?h)"
      using Some unlink i by (simp add: htbl_remove_def mem_simps Let_def releaseNode_eq with_bucket_def)
    moreover have "mset ?b = add_mset (k, d) (mset ?b')"
      using Some i by (intro mset_unlinked) (auto simp: bucket_ok_def hmap_at)
    then have "hnodeset h = hnodeset ?h + {#(k, d)#}" by (rule mset_exchange [OF hnodeset_with_bucket [OF i(2)]])
    moreover have "hlog ?h = ?l" "same_release h ?h" by simp_all
    moreover from c' have "hcount ?h = of_nat (hnodes ?h)" by simp
    moreover define h1 where "h1 = ?h"
    ultimately have "htbl_wf P h1 \<and> hmap h1 = (hmap h)(k := None) \<and> hnodes h - 1 = hnodes h1 \<and>
       htbl_remove h k internal = Some (sint (hcount h1), h1) \<and> hnodeset h = hnodeset h1 + {#(k, d)#} \<and>
       hlog h1 = ?l \<and> same_release h h1 \<and> hcount h1 = of_nat (hnodes h1)" by blast
    then show ?thesis using Some by (intro exI [of _ h1]) (simp add: dict_remove_def habs_def)
  qed
qed

lemma htbl_get_eq: "htbl_wf P h \<Longrightarrow> P k \<Longrightarrow> htbl_get h k = Some (dict_get k (habs h))"
proof -
  assume "htbl_wf P h" and k: "P k"
  then have sh: "htbl_shape P h" by (simp add: htbl_wf_def)
  from bucket_of_in [OF this k] obtain i where "bucket_of h k = Some i" "i < length (hentries h)" by blast
  with find_in_bucket [OF sh k] show ?thesis
    by (cases "hmap h k") (simp_all add: htbl_get_def mem_simps dict_get_def habs_def)
qed

definition str_key :: "hkey \<Rightarrow> bool" where
  "str_key k = (case k of KStr s \<Rightarrow> True | KUint n \<Rightarrow> False)"

definition uint_key :: "hkey \<Rightarrow> bool" where
  "uint_key k = (case k of KStr s \<Rightarrow> False | KUint n \<Rightarrow> True)"

lemma htbl_dict_laws:
  assumes "htbl_wf P h" "P k"
  shows "\<exists>h'. htbl_insert True True keyAt h k d = Some (fst (dict_insert k d (habs h)), h') \<and>
      htbl_wf P h' \<and> habs h' = snd (dict_insert k d (habs h))"
    and "\<exists>h'. rtl_htblRemove h k = Some (fst (dict_remove k (habs h)), h') \<and>
      htbl_wf P h' \<and> habs h' = snd (dict_remove k (habs h))"
  using htbl_insert_eq [OF assms] htbl_remove_eq [OF assms] unfolding rtl_htblRemove_def by blast+

interpretation str_tbl: unique_dict "htbl_wf str_key" str_key habs "htbl_insert True True keyAt" rtl_htblRemove htbl_get
  for keyAt :: "'d \<Rightarrow> int \<Rightarrow> hkey"
  by unfold_locales (rule htbl_dict_laws htbl_get_eq; assumption)+

interpretation uint_tbl: unique_dict "htbl_wf uint_key" uint_key habs "htbl_insert True True keyAt" rtl_htblRemove htbl_get
  for keyAt :: "'d \<Rightarrow> int \<Rightarrow> hkey"
  by unfold_locales (rule htbl_dict_laws htbl_get_eq; assumption)+

subsection \<open>What happens to the data\<close>

definition opt_mset :: "'d option \<Rightarrow> 'd multiset" where
  "opt_mset d = (case d of None \<Rightarrow> {#} | Some x \<Rightarrow> {#x#})"

fun event_data :: "'d hevent \<Rightarrow> 'd" where
  "event_data (RmovFunc k d) = d" | "event_data (FreeData d) = d"

definition stored :: "'d htbl_t \<Rightarrow> 'd multiset" where
  "stored h = (\<Sum>n \<in># hnodeset h. opt_mset (snd n))"

definition released :: "'d htbl_t \<Rightarrow> 'd multiset" where
  "released h = mset (map event_data (hlog h))"

definition releases :: "'d htbl_t \<Rightarrow> bool" where
  "releases h \<longleftrightarrow> rmovfunc h \<or> hflag h HTBL_FREE_DATA"

fun accepted :: "('k, 'd) dictOp list \<Rightarrow> ('k, 'd option) dict \<Rightarrow> 'd multiset" where
  "accepted [] D = {#}"
| "accepted (op # ops) D =
    (case op of Insert k d \<Rightarrow> if fst D k = None then opt_mset d else {#} | _ \<Rightarrow> {#}) + accepted ops (snd (dict_step op D))"

lemma release_events_data: "releases h \<Longrightarrow> mset (map event_data (release_events h n)) = opt_mset (snd n)"
  by (cases n) (auto simp: releases_def release_events_def opt_mset_def split: option.splits)

lemma same_release_releases: "same_release h h' \<Longrightarrow> releases h' = releases h"
  by (simp add: same_release_def releases_def hflag_def)

abbreviation "htbl_step keyAt \<equiv> op_step (htbl_insert True True keyAt) rtl_htblRemove htbl_get"

lemma htbl_step_conserves:
  assumes "htbl_wf P h" "P (opKey op)" "releases h"
  shows "\<exists>h'. htbl_step keyAt op h = Some (fst (dict_step op (habs h)), h') \<and> htbl_wf P h' \<and> habs h' = snd (dict_step op (habs h)) \<and>
     releases h' \<and> stored h' + released h' = stored h + released h +
       (case op of Insert k d \<Rightarrow> if hmap h k = None then opt_mset d else {#} | _ \<Rightarrow> {#})"
proof (cases op)
  case (Insert k d)
  with htbl_insert_eq [of P h k keyAt d] assms show ?thesis
    by (fastforce simp: op_step_def stored_def released_def same_release_releases split_beta)
next
  case (Remove k)
  with htbl_remove_eq [of P h k False] assms obtain h' where
    r: "htbl_remove h k False = Some (fst (dict_remove k (habs h)), h')" "htbl_wf P h'" "habs h' = snd (dict_remove k (habs h))"
      "hlog h' = hlog h @ (case hmap h k of None \<Rightarrow> [] | Some d \<Rightarrow> release_events h (k, d))" "same_release h h'"
      "hnodeset h = hnodeset h' + (case hmap h k of None \<Rightarrow> {#} | Some d \<Rightarrow> {#(k, d)#})" by auto
  have "stored h' + released h' = stored h + released h"
    using r(4,6) release_events_data [OF assms(3)] by (cases "hmap h k") (simp_all add: stored_def released_def)
  with r Remove assms(3) show ?thesis by (simp add: op_step_def rtl_htblRemove_def same_release_releases split_beta)
next
  case (Get k)
  with htbl_get_eq [of P h k] assms show ?thesis by (simp add: op_step_def)
qed

lemma htbl_run_conserves:
  "htbl_wf P h \<Longrightarrow> releases h \<Longrightarrow> (\<And>op. op \<in> set ops \<Longrightarrow> P (opKey op)) \<Longrightarrow>
   \<exists>h'. run_ops (htbl_step keyAt) ops h = Some (fst (dict_run ops (habs h)), h') \<and> htbl_wf P h' \<and> releases h' \<and>
     stored h' + released h' = stored h + released h + accepted ops (habs h)"
proof (induction ops arbitrary: h)
  case (Cons op ops)
  from htbl_step_conserves [OF Cons.prems(1) _ Cons.prems(2), of op keyAt] Cons.prems(3) obtain h1 where
    1: "htbl_step keyAt op h = Some (fst (dict_step op (habs h)), h1)" "htbl_wf P h1" "habs h1 = snd (dict_step op (habs h))"
      "releases h1" "stored h1 + released h1 = stored h + released h +
       (case op of Insert k d \<Rightarrow> if hmap h k = None then opt_mset d else {#} | _ \<Rightarrow> {#})" by auto
  from Cons.IH [OF 1(2,4)] Cons.prems(3) obtain h2 where
    2: "run_ops (htbl_step keyAt) ops h1 = Some (fst (dict_run ops (habs h1)), h2)" "htbl_wf P h2" "releases h2"
      "stored h2 + released h2 = stored h1 + released h1 + accepted ops (habs h1)" by auto
  have "accepted (op # ops) (habs h) = (case op of Insert k d \<Rightarrow> if hmap h k = None then opt_mset d else {#} | _ \<Rightarrow> {#})
      + accepted ops (habs h1)" unfolding accepted.simps 1(3) fst_habs ..
  with 1(5) 2(4) have "stored h2 + released h2 = stored h + released h + accepted (op # ops) (habs h)"
    by (simp add: ac_simps)
  moreover have "run_ops (htbl_step keyAt) (op # ops) h = Some (fst (dict_run (op # ops) (habs h)), h2)"
    using 1(1,3) 2(1) by (simp add: split_beta)
  ultimately show ?case using 2(2,3) by blast
qed simp

subsection \<open>Destroying a table\<close>

lemma release_loop:
  "fold (\<lambda>node h. (releaseNode node h)\<lparr>hcount := hcount h - 1\<rparr>) ns h
     = h\<lparr>hlog := hlog h @ concat (map (release_events h) ns), hcount := hcount h - of_nat (length ns)\<rparr>"
proof (induction ns arbitrary: h)
  case (Cons n ns)
  have "release_events (h\<lparr>hlog := l, hcount := c\<rparr>) = release_events h" for l c
    by (rule ext) (simp add: release_events_def hflag_def split: option.splits)
  with Cons show ?case by (simp add: releaseNode_eq algebra_simps)
qed simp

lemma fold_fold_concat: "fold (fold f) xss = fold f (concat xss)"
  by (induction xss) simp_all

lemma htbl_destroy_eq:
  assumes "htbl_wf P h"
  shows "htbl_destroy h = Some (h\<lparr>hlog := hlog h @ concat (map (release_events h) (concat (hentries h))), hcount := 0\<rparr>)"
proof -
  from assms have "length (hentries h) = unat (hsize h)" "hcount h = of_nat (length (concat (hentries h)))"
    by (simp_all add: htbl_wf_def hnodes_def)
  then show ?thesis by (simp add: htbl_destroy_def mem_simps fold_fold_concat release_loop del: length_concat)
qed

lemma htbl_destroy_releases:
  assumes "htbl_wf P h" "releases h"
  shows "\<exists>h'. htbl_destroy h = Some h' \<and> released h' = stored h + released h"
proof -
  have "mset (map event_data (concat (map (release_events h) ns))) = (\<Sum>n \<in># mset ns. opt_mset (snd n))" for ns
    using release_events_data [OF assms(2)] by (induction ns) simp_all
  with htbl_destroy_eq [OF assms(1)] show ?thesis by (simp add: released_def stored_def hnodeset_def)
qed

subsection \<open>Fresh tables\<close>

lemma create_wf:
  assumes "sz \<noteq> 0" "htbl_create True True sz hf flags = Some h" "flags AND HTBL_KEY_INCLUDED \<noteq> HTBL_KEY_INCLUDED" "keys_ok P h"
  shows "htbl_wf P h \<and> habs h = (\<lambda>k. None, 0) \<and> hlog h = [] \<and> stored h = {#} \<and> released h = {#}"
proof -
  from assms(2) have h: "hentries h = replicate (unat sz) []" "hsize h = sz" "hcount h = 0" "hlog h = []" "hflags h = flags"
    by (auto simp: htbl_create_def)
  have c: "concat (replicate n []) = ([] :: 'b list)" for n by (induction n) simp_all
  have "hmap h = (\<lambda>k. None)" by (rule ext) (simp add: hmap_def bucket_of_def h idx_def split: bind_splits)
  with h c assms(1,3,4) show ?thesis
    by (simp add: htbl_wf_def htbl_shape_def hnodes_def DATA_INCLUDE_KEY_def hflag_def bucket_ok_def habs_def stored_def released_def hnodeset_def)
qed

lemma create_keys_ok:
  "htbl_create True True sz None HTBL_KEY_STRING = Some h \<Longrightarrow> keys_ok str_key h"
  "htbl_create True True sz None (HTBL_KEY_STRING OR HTBL_FREE_DATA) = Some h \<Longrightarrow> keys_ok str_key h"
  "htbl_create True True sz None HTBL_KEY_UINT = Some h \<Longrightarrow> keys_ok uint_key h"
  by (auto simp: htbl_create_def keys_ok_def const_defs str_key_def uint_key_def def_compfunc_def hflag_def def_hashfunc_def
      uint_hashfunc_def split: hkey.splits)

subsection \<open>Resizing\<close>

definition same_conf :: "'d htbl_t \<Rightarrow> 'd htbl_t \<Rightarrow> bool" where
  "same_conf h h' \<longleftrightarrow> hashfunc h' = hashfunc h \<and> hflags h' = hflags h \<and> hoffset h' = hoffset h \<and> hsize h' = hsize h"

lemma same_conf_simps [simp]: "same_conf h h" "same_conf h (with_bucket h i b c l)" "same_conf h (h\<lparr>hentries := es\<rparr>)"
  by (simp_all add: same_conf_def with_bucket_def)

lemma same_conf_trans: "same_conf a b \<Longrightarrow> same_conf b c \<Longrightarrow> same_conf a c"
  by (simp add: same_conf_def)

lemma same_conf_cong:
  assumes "same_conf h h'"
  shows "bucket_of h' = bucket_of h" "keys_ok P h' = keys_ok P h" "DATA_INCLUDE_KEY h' = DATA_INCLUDE_KEY h"
    "hentries h' = hentries h \<Longrightarrow> hmap h' = hmap h" "hentries h' = hentries h \<Longrightarrow> htbl_shape P h' = htbl_shape P h"
proof -
  have f: "hflag h' = hflag h" using assms by (simp add: same_conf_def hflag_def fun_eq_iff)
  show b: "bucket_of h' = bucket_of h" using assms by (simp add: same_conf_def bucket_of_def fun_eq_iff cong: if_cong)
  show k: "keys_ok P h' = keys_ok P h" using assms f by (simp add: same_conf_def keys_ok_def def_compfunc_def)
  show d: "DATA_INCLUDE_KEY h' = DATA_INCLUDE_KEY h" using assms f by (simp add: same_conf_def DATA_INCLUDE_KEY_def)
  show "hmap h' = hmap h" if "hentries h' = hentries h" using b that by (simp add: hmap_def fun_eq_iff)
  show "htbl_shape P h' = htbl_shape P h" if "hentries h' = hentries h"
    using b k d that assms by (simp add: htbl_shape_def bucket_ok_def same_conf_def)
qed

lemma remove_first:
  assumes "keys_ok P h" "P k" "bucket_of h k = Some n" "n < length (hentries h)" "hentries h ! n = (k, d) # ns"
  shows "htbl_remove h k True = Some (sint (hcount h - 1), with_bucket h n ns (hcount h - 1) (hlog h))"
  using assms by (simp add: htbl_remove_def mem_simps keys_ok_def Let_def with_bucket_def)

lemma resize_nodes_eq:
  assumes "htbl_shape P N" "keys_ok P h" "n < length (hentries h)" "hentries h ! n = ns" "bucket_ok P h n ns"
    "\<forall>k \<in> fst ` set ns. hmap N k = None"
  shows "\<exists>N'. resize_nodes True True keyAt ns (N, h) = Some (N', with_bucket h n [] (hcount h - of_nat (length ns)) (hlog h)) \<and>
     htbl_shape P N' \<and> hmap N' = hmap N ++ map_of ns \<and> same_conf N N'"
  using assms
proof (induction ns arbitrary: N h)
  case Nil
  moreover from Nil have "(hentries h)[n := []] = hentries h" by (metis list_update_id)
  ultimately show ?case by (simp add: with_bucket_def)
next
  case (Cons x ns)
  obtain k d where x: "x = (k, d)" by fastforce
  with Cons.prems have k: "P k" "bucket_of h k = Some n" "hmap N k = None" "k \<notin> fst ` set ns" "hentries h ! n = (k, d) # ns"
    by (auto simp: bucket_ok_def)
  from htbl_insert_new [OF Cons.prems(1) k(1,3)] obtain i N1 where
    1: "N1 = with_bucket N i ((k, d) # hentries N ! i) (hcount N + 1) (hlog N)"
      "htbl_insert True True keyAt N k d = Some (sint (hcount N1), N1)" "htbl_shape P N1" "hmap N1 = (hmap N)(k \<mapsto> d)" by metis
  let ?h = "with_bucket h n ns (hcount h - 1) (hlog h)"
  have "keys_ok P ?h" "n < length (hentries ?h)" "hentries ?h ! n = ns" "bucket_ok P ?h n ns"
    "\<forall>k \<in> fst ` set ns. hmap N1 k = None"
    using Cons.prems x 1(4) k(4) by (auto simp: bucket_ok_def)
  from Cons.IH [OF 1(3) this] obtain N' where
    2: "resize_nodes True True keyAt ns (N1, ?h)
      = Some (N', with_bucket ?h n [] (hcount ?h - of_nat (length ns)) (hlog ?h))"
      "htbl_shape P N'" "hmap N' = hmap N1 ++ map_of ns" "same_conf N1 N'" by blast
  have conf: "same_conf N N'" using same_conf_trans [OF _ 2(4)] 1(1) by simp
  have m: "hmap N1 ++ map_of ns = hmap N ++ map_of (x # ns)"
  proof (rule ext)
    fix y
    have "map_of ns k = None" using k(4) by (simp add: map_of_eq_None_iff)
    then show "(hmap N1 ++ map_of ns) y = (hmap N ++ map_of (x # ns)) y"
      by (cases "y = k") (simp_all add: x 1(4) map_add_def split: option.split)
  qed
  have "with_bucket ?h n [] (hcount ?h - of_nat (length ns)) (hlog ?h)
      = with_bucket h n [] (hcount h - of_nat (length (x # ns))) (hlog h)"
    by (simp add: with_bucket_def algebra_simps)
  then have "resize_nodes True True keyAt (x # ns) (N, h)
      = Some (N', with_bucket h n [] (hcount h - of_nat (length (x # ns))) (hlog h))"
    using remove_first [OF Cons.prems(2) k(1,2) Cons.prems(3) k(5)] 1(2) 2(1) by (simp add: x)
  with 2(2) trans [OF 2(3) m] conf show ?case by blast
qed

lemma resize_buckets_eq:
  assumes "htbl_shape P N" "keys_ok P h" "distinct is" "\<forall>i \<in> set is. i < length (hentries h) \<and> bucket_ok P h i (hentries h ! i)"
    "\<forall>k i. bucket_of h k = Some i \<longrightarrow> i \<in> set is \<longrightarrow> hmap N k = None"
  shows "\<exists>N' h'. resize_buckets True True keyAt is (N, h) = Some (N', h') \<and> htbl_shape P N' \<and> same_conf N N' \<and> same_conf h h' \<and>
     (\<forall>k. hmap N' k = (case bucket_of h k of Some i \<Rightarrow> if i \<in> set is then map_of (hentries h ! i) k else hmap N k | None \<Rightarrow> hmap N k)) \<and>
     hcount h' = hcount h - of_nat (\<Sum>i\<leftarrow>is. length (hentries h ! i))"
  using assms
proof (induction "is" arbitrary: N h)
  case Nil
  then show ?case by (simp split: option.split)
next
  case (Cons n ns)
  let ?b = "hentries h ! n"
  let ?h = "with_bucket h n [] (hcount h - of_nat (length ?b)) (hlog h)"
  from Cons.prems(4) have n: "n < length (hentries h)" "bucket_ok P h n ?b" by simp_all
  have b: "bucket_of h k = Some n" if "k \<in> fst ` set ?b" for k using n(2) that by (auto simp: bucket_ok_def)
  with Cons.prems(5) have "\<forall>k \<in> fst ` set ?b. hmap N k = None" by simp
  from resize_nodes_eq [OF Cons.prems(1,2) n(1) refl n(2) this] obtain N1 where
    1: "resize_nodes True True keyAt ?b (N, h) = Some (N1, ?h)" "htbl_shape P N1" "hmap N1 = hmap N ++ map_of ?b" "same_conf N N1"
    by blast
  have other: "map_of ?b k = None" if "bucket_of h k \<noteq> Some n" for k using b that by (auto simp: map_of_eq_None_iff)
  have same: "hentries ?h ! i = hentries h ! i" if "i \<in> set ns" for i
    using Cons.prems(3) that by (cases "i = n") simp_all
  have a: "keys_ok P ?h" "distinct ns" "\<forall>i \<in> set ns. i < length (hentries ?h) \<and> bucket_ok P ?h i (hentries ?h ! i)"
    using Cons.prems(2,3,4) same by simp_all
  have "\<forall>k i. bucket_of ?h k = Some i \<longrightarrow> i \<in> set ns \<longrightarrow> hmap N1 k = None"
  proof (intro allI impI)
    fix k i assume "bucket_of ?h k = Some i" "i \<in> set ns"
    with Cons.prems(3,5) other [of k] have "map_of ?b k = None" "hmap N k = None" by auto
    then show "hmap N1 k = None" by (simp add: 1(3) map_add_def)
  qed
  from Cons.IH [OF 1(2) a this] obtain N' h' where
    2: "resize_buckets True True keyAt ns (N1, ?h) = Some (N', h')" "htbl_shape P N'" "same_conf N1 N'" "same_conf ?h h'"
      "\<forall>k. hmap N' k = (case bucket_of ?h k of Some i \<Rightarrow> if i \<in> set ns then map_of (hentries ?h ! i) k else hmap N1 k | None \<Rightarrow> hmap N1 k)"
      "hcount h' = hcount ?h - of_nat (\<Sum>i\<leftarrow>ns. length (hentries ?h ! i))"
    by blast
  have "hmap N' k = (case bucket_of h k of Some i \<Rightarrow> if i \<in> set (n # ns) then map_of (hentries h ! i) k else hmap N k | None \<Rightarrow> hmap N k)" for k
  proof (cases "bucket_of h k")
    case None
    with 2(5) other [of k] show ?thesis by (simp add: 1(3) map_add_def)
  next
    case (Some i)
    with 2(5) other [of k] same [of i] Cons.prems(5) show ?thesis
      by (cases "i = n"; cases "i \<in> set ns") (simp_all add: 1(3) map_add_def split: option.split)
  qed
  moreover have "(\<Sum>i\<leftarrow>ns. length (hentries ?h ! i)) = (\<Sum>i\<leftarrow>ns. length (hentries h ! i))"
    using same by (simp cong: map_cong)
  then have "hcount h' = hcount h - of_nat (\<Sum>i\<leftarrow>n # ns. length (hentries h ! i))"
    using 2(6) by (simp add: algebra_simps)
  moreover have "same_conf N N'" "same_conf h h'" using same_conf_trans [OF 1(4) 2(3)] same_conf_trans [OF _ 2(4)] by simp_all
  ultimately show ?case using 1(1) 2(1,2) n(1) by (simp add: mem_simps)
qed

lemma htbl_resize_eq:
  assumes "htbl_wf P h" "hsize h \<le> sz"
  shows "\<exists>h'. htbl_resize True True True keyAt h sz = Some (0, h') \<and> hmap h' = hmap h \<and> same_conf h h' \<and>
    hcount h' = 0 \<and> htbl_shape P h'"
proof -
  let ?N = "h\<lparr>hentries := replicate (unat sz) []\<rparr>"
  from assms(1) have h: "htbl_shape P h" "length (hentries h) = unat (hsize h)" "hcount h = of_nat (hnodes h)" "keys_ok P h"
    "hsize h \<noteq> 0" "\<not> DATA_INCLUDE_KEY h" by (auto simp: htbl_wf_def htbl_shape_def)
  have empty: "hmap ?N = Map.empty" by (rule ext) (simp add: hmap_def idx_def split: bind_splits)
  have "keys_ok P ?N" "\<not> DATA_INCLUDE_KEY ?N" using h(4,6) same_conf_cong [OF same_conf_simps(3)] by blast+
  then have sh: "htbl_shape P ?N" using assms(2) h(5) by (simp add: htbl_shape_def bucket_ok_def word_le_nat_alt)
  have s2: "\<forall>i \<in> set [0 ..< unat (hsize h)]. i < length (hentries h) \<and> bucket_ok P h i (hentries h ! i)"
    "\<forall>k i. bucket_of h k = Some i \<longrightarrow> i \<in> set [0 ..< unat (hsize h)] \<longrightarrow> hmap ?N k = None"
    using h(1,2) empty by (simp_all add: htbl_shape_def)
  from resize_buckets_eq [OF sh h(4) distinct_upt s2] obtain N' h' where
    r: "resize_buckets True True keyAt [0 ..< unat (hsize h)] (?N, h) = Some (N', h')" "htbl_shape P N'" "same_conf ?N N'" "same_conf h h'"
      "\<forall>k. hmap N' k = (case bucket_of h k of Some i \<Rightarrow> if i \<in> set [0 ..< unat (hsize h)] then map_of (hentries h ! i) k else hmap ?N k
         | None \<Rightarrow> hmap ?N k)"
      "hcount h' = hcount h - of_nat (\<Sum>i\<leftarrow>[0 ..< unat (hsize h)]. length (hentries h ! i))"
    by blast
  have "(\<Sum>i\<leftarrow>[0 ..< unat (hsize h)]. length (hentries h ! i)) = hnodes h"
    by (simp add: hnodes_def length_concat h(2) [symmetric] map_nth_upt_take [of "length (hentries h)", simplified] flip: map_map
        [of length "(!) (hentries h)", unfolded comp_def])
  with r(6) h(3) have c: "hcount h' = 0" by simp
  have m: "hmap N' = hmap h"
  proof (rule ext)
    show "hmap N' k = hmap h k" for k
      using r(5) [rule_format, of k] empty by (cases "bucket_of h k") (simp_all add: hmap_def [of h] idx_def h(2))
  qed
  let ?h = "h'\<lparr>hsize := hsize N', hentries := hentries N'\<rparr>"
  have s: "same_conf N' ?h" "same_conf h ?h" using r(3,4) by (simp_all add: same_conf_def)
  from same_conf_cong(4,5) [OF s(1)] r(2) m s(2) c r(1) show ?thesis by (simp add: htbl_resize_def Let_def)
qed

subsection \<open>Failing allocations\<close>

lemma htbl_insert_cases:
  assumes "htbl_wf P h" "P k"
  shows "htbl_insert mallocOk strdupOk keyAt h k d \<in> {htbl_insert True True keyAt h k d, Some (-2, h), Some (-3, h)}"
proof -
  from htbl_wf_shape [OF assms(1)] have sh: "htbl_shape P h" .
  then have ok: "\<not> DATA_INCLUDE_KEY h" "hflag h HTBL_KEY_STRING \<or> hflag h HTBL_KEY_UINT"
    by (auto simp: htbl_shape_def keys_ok_def)
  from bucket_of_in [OF sh assms(2)] obtain i where i: "bucket_of h k = Some i" "i < length (hentries h)" by blast
  with find_in_bucket [OF sh assms(2) this] ok show ?thesis by (auto simp: htbl_insert_def mem_simps)
qed

lemma htbl_insert_no_memory:
  assumes "htbl_wf P h" "P k" "hmap h k = None"
  shows "htbl_insert False strdupOk keyAt h k d = Some (-2, h)"
proof -
  from htbl_wf_shape [OF assms(1)] have sh: "htbl_shape P h" .
  from bucket_of_in [OF sh assms(2)] obtain i where i: "bucket_of h k = Some i" "i < length (hentries h)" by blast
  with find_in_bucket [OF sh assms(2) this] sh assms(3) show ?thesis
    by (auto simp: htbl_insert_def mem_simps htbl_shape_def)
qed

subsection \<open>Properties\<close>

text \<open>C10: a new table with string keys or with number keys behaves as a dictionary that refuses to
  overwrite, for every sequence of insertions, removals and lookups with keys of its kind,
  whatever its size and however the keys collide: the operations return the same results
  (new count, -1, data), and the table ends with the contents and the count of the dictionary.\<close>

theorem hash_table_is_dictionary:
  assumes "sz \<noteq> 0" "flags = HTBL_KEY_STRING \<and> P = str_key \<or> flags = HTBL_KEY_UINT \<and> P = uint_key"
    "rtl_htblCreateSpec True True sz None flags = Some h" "\<forall>op \<in> set ops. P (opKey op)"
  shows "\<exists>h'. run_ops (htbl_step keyAt) ops h = Some (fst (dict_run ops (Map.empty, 0)), h') \<and>
     htbl_wf P h' \<and> habs h' = snd (dict_run ops (Map.empty, 0))"
proof -
  have c: "htbl_create True True sz None flags = Some h" using assms(3) by (simp add: rtl_htblCreateSpec_def)
  with assms(2) create_keys_ok have k: "keys_ok P h" by blast
  have "flags AND HTBL_KEY_INCLUDED \<noteq> HTBL_KEY_INCLUDED" using assms(2) by (auto simp: const_defs)
  from create_wf [OF assms(1) c this k] have wf: "htbl_wf P h" "habs h = (Map.empty, 0)" by auto
  from assms(2) show ?thesis
    using str_tbl.run_refines [of h ops keyAt] uint_tbl.run_refines [of h ops keyAt] wf assms(4) by metis
qed

theorem hash_table_is_dictionary_witness:
  "\<exists>h h'. rtl_htblCreateSpec True True 1 None HTBL_KEY_UINT = Some h \<and>
     run_ops (htbl_step (\<lambda>d i. KNULL)) [Insert (KUint 4) (Some 10), Insert (KUint 7) None, Insert (KUint 4) (Some (11 :: nat)),
        Get (KUint 4), Remove (KUint 4), Get (KUint 4)] h
     = Some ([RInt 1, RInt 2, RInt (-1), RData (Some 10), RInt 1, RData None], h')"
proof -
  obtain h :: "nat htbl_t" where h: "rtl_htblCreateSpec True True 1 None HTBL_KEY_UINT = Some h"
    by (simp add: rtl_htblCreateSpec_def htbl_create_def)
  from hash_table_is_dictionary [OF _ _ this, of uint_key "[Insert (KUint 4) (Some 10), Insert (KUint 7) None,
        Insert (KUint 4) (Some 11), Get (KUint 4), Remove (KUint 4), Get (KUint 4)]" "\<lambda>d i. KNULL"] h
  show ?thesis by (auto simp: uint_key_def dict_insert_def dict_remove_def dict_get_def)
qed

text \<open>C28: a table that owns its data releases each accepted data pointer exactly once, by the time
  it is destroyed: what was stored by successful insertions is, as a multiset, what has been freed
  or handed to the removal callback.\<close>

theorem hash_table_releases_once:
  assumes "sz \<noteq> 0" "rtl_htblCreateSpec True True sz None (HTBL_KEY_STRING OR HTBL_FREE_DATA) = Some h"
    "\<forall>op \<in> set ops. str_key (opKey op)"
  shows "\<exists>rs h1 h2. run_ops (htbl_step keyAt) ops h = Some (rs, h1) \<and> htbl_destroy h1 = Some h2 \<and>
     released h2 = accepted ops (Map.empty, 0)"
proof -
  have c: "htbl_create True True sz None (HTBL_KEY_STRING OR HTBL_FREE_DATA) = Some h" using assms(2) by (simp add: rtl_htblCreateSpec_def)
  from create_wf [OF assms(1) c _ create_keys_ok(2) [OF c]] have
    wf: "htbl_wf str_key h" "habs h = (Map.empty, 0)" "stored h = {#}" "released h = {#}" by (auto simp: const_defs)
  from c have "releases h" by (auto simp: htbl_create_def releases_def hflag_def const_defs)
  from htbl_run_conserves [OF wf(1) this] assms(3) obtain h1 where
    "run_ops (htbl_step keyAt) ops h = Some (fst (dict_run ops (habs h)), h1)" "htbl_wf str_key h1" "releases h1"
    "stored h1 + released h1 = accepted ops (Map.empty, 0)" using wf(2-4) by fastforce
  with htbl_destroy_releases [of str_key h1] show ?thesis by fastforce
qed

theorem hash_table_releases_once_witness:
  "\<exists>h rs h1 h2. rtl_htblCreateSpec True True 8 None (HTBL_KEY_STRING OR HTBL_FREE_DATA) = Some h \<and>
     run_ops (htbl_step (\<lambda>d i. KNULL)) [Insert (KStr [1]) (Some 5), Insert (KStr [1]) (Some 6), Insert (KStr [2]) (Some 7),
        Remove (KStr [1])] h = Some (rs, h1) \<and> htbl_destroy h1 = Some h2 \<and> released h2 = {#5, 7 :: nat#}"
proof -
  obtain h :: "nat htbl_t" where h: "rtl_htblCreateSpec True True 8 None (HTBL_KEY_STRING OR HTBL_FREE_DATA) = Some h"
    by (simp add: rtl_htblCreateSpec_def htbl_create_def)
  from hash_table_releases_once [OF _ h, of "[Insert (KStr [1]) (Some 5), Insert (KStr [1]) (Some 6), Insert (KStr [2]) (Some 7),
        Remove (KStr [1])]" "\<lambda>d i. KNULL"] h
  show ?thesis by (auto simp: str_key_def dict_insert_def dict_remove_def opt_mset_def)
qed

text \<open>Every operation on a well-formed table ends without undefined behaviour and leaves a
  well-formed table (every key in the bucket of its hash, no key twice, the count right), also
  when an allocation fails: then the insertion reports it and the table is as before.\<close>

theorem hash_table_stays_well_formed:
  assumes "htbl_wf P h" "P k"
  shows "(\<exists>r h'. htbl_insert mallocOk strdupOk keyAt h k d = Some (r, h') \<and> htbl_wf P h' \<and>
       (\<not> mallocOk \<and> hmap h k = None \<longrightarrow> r = -2 \<and> h' = h)) \<and>
    (\<exists>r h'. rtl_htblRemove h k = Some (r, h') \<and> htbl_wf P h') \<and> (\<exists>d'. htbl_get h k = Some d')"
proof (intro conjI)
  from htbl_insert_eq [OF assms] obtain r h' where "htbl_insert True True keyAt h k d = Some (r, h')" "htbl_wf P h'" by blast
  with htbl_insert_cases [OF assms, of mallocOk strdupOk keyAt d] htbl_insert_no_memory [OF assms, of strdupOk keyAt d] assms(1)
  show "\<exists>r h'. htbl_insert mallocOk strdupOk keyAt h k d = Some (r, h') \<and> htbl_wf P h' \<and>
       (\<not> mallocOk \<and> hmap h k = None \<longrightarrow> r = -2 \<and> h' = h)" by (cases mallocOk; cases "hmap h k") auto
qed (use htbl_dict_laws(2) [OF assms] htbl_get_eq [OF assms] in blast)+

theorem hash_table_stays_well_formed_witness:
  "\<exists>h r h'. rtl_htblCreateSpec True True 2 None HTBL_KEY_STRING = Some (h :: nat htbl_t) \<and>
     htbl_insert False True (\<lambda>d i. KNULL) h (KStr [65]) (Some 1) = Some (r, h') \<and> htbl_wf str_key h' \<and> r = -2"
proof -
  obtain h :: "nat htbl_t" where h: "htbl_create True True 2 None HTBL_KEY_STRING = Some h"
    by (simp add: htbl_create_def)
  from create_wf [OF _ h _ create_keys_ok(1) [OF h]] have "htbl_wf str_key h" "hmap h = Map.empty"
    by (simp_all add: const_defs habs_def)
  with hash_table_stays_well_formed [of str_key h "KStr [65]" False True "\<lambda>d i. KNULL" "Some 1"] h show ?thesis
    by (auto simp: str_key_def rtl_htblCreateSpec_def)
qed

text \<open>Resizing a table keeps its contents but neither resizes nor keeps the count: the struct
  copy restores the old size before the new array is filled, and the removals from the old array
  bring the count down to zero, which is also returned.\<close>

theorem resize_forgets_count:
  assumes "htbl_wf P h" "hsize h \<le> sz"
  shows "\<exists>h'. htbl_resize True True True keyAt h sz = Some (0, h') \<and> hmap h' = hmap h \<and> hsize h' = hsize h \<and> hcount h' = 0"
  using htbl_resize_eq [OF assms, of keyAt] by (auto simp: same_conf_def)

definition sampleTbl :: "nat htbl_t" where
  "sampleTbl = \<lparr>hflags = HTBL_KEY_UINT, hoffset = -1, hsize = 1, hcount = 2,
     hentries = [[(KUint 4, Some 8), (KUint 9, Some 3)]], hashfunc = uint_hashfunc, rmovfunc = False, hlog = []\<rparr>"

theorem resize_forgets_count_witness:
  "\<exists>h'. htbl_resize True True True (\<lambda>d i. KNULL) sampleTbl 16 = Some (0, h') \<and> hmap h' (KUint 9) = Some (Some 3) \<and>
     hcount sampleTbl = 2 \<and> hcount h' = 0 \<and> hsize h' = 1"
proof -
  have b: "bucket_of sampleTbl k = (case k of KUint n \<Rightarrow> Some 0 | KStr s \<Rightarrow> None)" for k
    by (simp add: bucket_of_def sampleTbl_def uint_hashfunc_def split: hkey.split)
  have "keys_ok uint_key sampleTbl"
    by (auto simp: keys_ok_def sampleTbl_def uint_key_def uint_hashfunc_def def_compfunc_def hflag_def const_defs split: hkey.splits)
  then have "htbl_wf uint_key sampleTbl"
    by (simp add: htbl_wf_def htbl_shape_def bucket_ok_def b uint_key_def)
      (simp add: sampleTbl_def DATA_INCLUDE_KEY_def hnodes_def uint_key_def)
  moreover have "hmap sampleTbl (KUint 9) = Some (Some 3)" by (simp add: hmap_def b) (simp add: sampleTbl_def idx_def)
  moreover have "hsize sampleTbl = 1" "hcount sampleTbl = 2" by (simp_all add: sampleTbl_def)
  ultimately show ?thesis using resize_forgets_count [of uint_key sampleTbl 16 "\<lambda>d i. KNULL"] by auto
qed

end
