(* ===== verification/Rtl_Imsg.thy ===== *)
theory Rtl_Imsg
  imports Ong_Prelude "HOL-Library.Multiset" "HOL-Library.Signed_Division" "HOL-Library.Product_Lexorder"
begin

section \<open>Internal messages and timers (rtbase/lib/message.c)\<close>

text \<open>
  The queue of internal messages that each driver runs on: a list of messages in order of arrival and a
  list of timers and delayed messages in order of their deadlines. The chained lists are HOL lists;
  \<open>im_id\<close> is the address of a message, which identifies it. Times are unbounded integers (seconds
  and nanoseconds), \<open>/\<close> and \<open>%\<close> truncate. The clock is an argument, as is the outcome of \<open>malloc\<close>.
  The serial counter, a file-scope variable of the source, is kept in the queue. Freed messages are
  logged. The mutex and the two waiting functions (condition variables) are left out.
  The locale \<open>stable_queue\<close> is the contract of the timer list: kept sorted, first in first out
  among equal deadlines.
\<close>

subsection \<open>Data\<close>

datatype msgData = NoData | UserData nat | OwnData | AllocData nat

record t_imsg =
  im_id :: nat
  im_serial :: u32
  im_timer :: bool
  im_delayed :: bool
  im_start :: int
  im_end :: int
  im_datasz :: int
  im_dataptr :: msgData
  im_class :: int
  im_type :: int
  im_to :: nat
  im_serialto :: u32
  im_data :: bytes
  im_startns :: int
  im_endns :: int
  im_diffms :: int

record t_iqmsg =
  iq_msglist :: "t_imsg list"
  iq_timerlist :: "t_imsg list"
  iq_msgcount :: int
  iq_timercount :: int
  iq_count :: int
  iq_CSDone :: bool
  MsgSerialVar :: u32
  iq_freed :: "t_imsg list"

definition IMSG_DATA_SZ :: nat where "IMSG_DATA_SZ = 128"

datatype imsgMode = IMSG_MSG | IMSG_TIMER | IMSG_BOTH

subsection \<open>Messages\<close>

definition MsgSerial :: "t_iqmsg \<Rightarrow> u32 \<times> t_iqmsg" where
  "MsgSerial iq =
    (let s1 = MsgSerialVar iq + 1; s2 = (if s1 = 0 then s1 + 1 else s1) in (s2, iq\<lparr>MsgSerialVar := s2\<rparr>))"

definition deadline :: "int \<times> int \<Rightarrow> int \<Rightarrow> int \<times> int" where
  "deadline now delta =
    (case now of (s, ns) \<Rightarrow>
       let e = s + delta sdiv 1000; ens = ns + (delta smod 1000) * 1000000
       in if ens \<ge> 1000000000 then (e + 1, ens - 1000000000) else (e, ens))"

definition rtl_timerAlloc ::
    "nat option \<Rightarrow> int \<times> int \<Rightarrow> int \<Rightarrow> int \<Rightarrow> int \<Rightarrow> nat \<Rightarrow> u32 \<Rightarrow> t_imsg option" where
  "rtl_timerAlloc mem now class type delta to serialto =
    (case mem of
       None \<Rightarrow> None
     | Some a \<Rightarrow> Some \<lparr>im_id = a, im_serial = 0, im_timer = True, im_delayed = False, im_start = fst now,
         im_end = fst (deadline now delta), im_datasz = 0, im_dataptr = NoData, im_class = class, im_type = type,
         im_to = to, im_serialto = serialto, im_data = replicate IMSG_DATA_SZ 0, im_startns = snd now,
         im_endns = snd (deadline now delta), im_diffms = delta\<rparr>)"

definition rtl_imsgAlloc :: "nat option \<Rightarrow> int \<times> int \<Rightarrow> int \<Rightarrow> int \<Rightarrow> nat \<Rightarrow> u32 \<Rightarrow> t_imsg option" where
  "rtl_imsgAlloc mem now class type to serialto =
    (case mem of
       None \<Rightarrow> None
     | Some a \<Rightarrow> Some \<lparr>im_id = a, im_serial = 0, im_timer = False, im_delayed = False, im_start = fst now,
         im_end = fst now, im_datasz = 0, im_dataptr = NoData, im_class = class, im_type = type,
         im_to = to, im_serialto = serialto, im_data = replicate IMSG_DATA_SZ 0, im_startns = snd now,
         im_endns = snd now, im_diffms = 0\<rparr>)"

definition rtl_imsgSetData :: "t_imsg \<Rightarrow> nat \<Rightarrow> t_imsg" where
  "rtl_imsgSetData msg p = msg\<lparr>im_datasz := 0, im_dataptr := UserData p\<rparr>"

definition rtl_imsgCpyData :: "t_imsg \<Rightarrow> bytes \<Rightarrow> int \<Rightarrow> t_imsg option exec" where
  "rtl_imsgCpyData msg src sz =
    (if sz < 0 \<or> sz > int IMSG_DATA_SZ then Some None
     else do {
       d \<leftarrow> memread 0 (nat sz) src;
       dst \<leftarrow> memcpy_at 0 d (im_data msg);
       Some (Some (msg\<lparr>im_datasz := 0, im_dataptr := OwnData, im_data := dst\<rparr>))
     })"

definition rtl_imsgDupData :: "nat option \<Rightarrow> t_imsg \<Rightarrow> bytes \<Rightarrow> int \<Rightarrow> t_imsg option exec" where
  "rtl_imsgDupData mem msg src sz =
    (if sz < 0 then Some None
     else case mem of
         None \<Rightarrow> Some None
       | Some a \<Rightarrow> do {
           d \<leftarrow> memread 0 (nat sz) src;
           Some (Some (msg\<lparr>im_datasz := sz, im_dataptr := AllocData a\<rparr>))
         })"

definition CMP_TIME :: "t_imsg \<Rightarrow> t_imsg \<Rightarrow> int" where
  "CMP_TIME m1 m2 =
    (if im_end m1 > im_end m2 then 1000000000
     else if im_end m1 < im_end m2 then -1000000000
     else im_endns m1 - im_endns m2)"

subsection \<open>Adding\<close>

fun list_add_sorted :: "t_imsg \<Rightarrow> t_imsg list \<Rightarrow> t_imsg list" where
  "list_add_sorted msg [] = [msg]"
| "list_add_sorted msg (cur # ms) =
    (if CMP_TIME cur msg > 0 then msg # cur # ms else cur # list_add_sorted msg ms)"

text \<open>The timer list is scanned only if its last element is later than the new one.\<close>

definition timer_add :: "t_imsg \<Rightarrow> t_imsg list \<Rightarrow> t_imsg list" where
  "timer_add msg ts =
    (if ts \<noteq> [] \<and> CMP_TIME (last ts) msg > 0 then list_add_sorted msg ts else ts @ [msg])"

definition MsgAdd :: "t_iqmsg \<Rightarrow> t_imsg option \<Rightarrow> int \<times> t_iqmsg" where
  "MsgAdd iq m =
    (case m of
       None \<Rightarrow> (-1, iq)
     | Some msg0 \<Rightarrow>
         (case MsgSerial iq of (serial, iq1) \<Rightarrow>
            let msg = msg0\<lparr>im_serial := serial\<rparr> in
            if im_timer msg \<or> im_delayed msg
            then (iq_timercount iq1 + 1,
                  iq1\<lparr>iq_timerlist := timer_add msg (iq_timerlist iq1), iq_timercount := iq_timercount iq1 + 1,
                      iq_count := iq_count iq1 + 1\<rparr>)
            else (iq_msgcount iq1 + 1,
                  iq1\<lparr>iq_msglist := iq_msglist iq1 @ [msg], iq_msgcount := iq_msgcount iq1 + 1,
                      iq_count := iq_count iq1 + 1\<rparr>)))"

definition rtl_imsgAdd :: "t_iqmsg \<Rightarrow> t_imsg option \<Rightarrow> int \<times> t_iqmsg" where
  "rtl_imsgAdd iq m = (if m = None then (-1, iq) else MsgAdd iq m)"

definition rtl_imsgAddDelayed :: "int \<times> int \<Rightarrow> t_iqmsg \<Rightarrow> t_imsg option \<Rightarrow> int \<Rightarrow> int \<times> t_iqmsg" where
  "rtl_imsgAddDelayed now iq m delta =
    (case m of
       None \<Rightarrow> (-1, iq)
     | Some msg \<Rightarrow>
         MsgAdd iq (Some (msg\<lparr>im_delayed := True, im_end := fst (deadline now delta),
                              im_endns := snd (deadline now delta), im_diffms := delta\<rparr>)))"

subsection \<open>Getting\<close>

definition Anticip :: int where "Anticip = 550"

definition time_diff :: "int \<times> int \<Rightarrow> t_imsg \<Rightarrow> int" where
  "time_diff now msg =
    (if fst now > im_end msg then 1000000000
     else if fst now < im_end msg then -1000000000
     else snd now - im_endns msg)"

definition is_due :: "int \<times> int \<Rightarrow> t_imsg \<Rightarrow> bool" where
  "is_due now msg = (time_diff now msg \<ge> - (Anticip * 1000))"

text \<open>The scan of the timer list: \<open>seen\<close> are the entries that it has passed and left in the list.
  A due delayed message becomes a normal message and the scan goes on; a due timer is returned.\<close>

fun timer_scan :: "int \<times> int \<Rightarrow> t_imsg list \<Rightarrow> t_imsg list \<Rightarrow> t_iqmsg \<Rightarrow> t_imsg option \<times> t_iqmsg" where
  "timer_scan now seen [] iq = (None, iq\<lparr>iq_timerlist := seen\<rparr>)"
| "timer_scan now seen (msg # ms) iq =
    (if is_due now msg
     then
       let iq1 = iq\<lparr>iq_timerlist := seen @ ms, iq_timercount := iq_timercount iq - 1, iq_count := iq_count iq - 1\<rparr>;
           msg1 = msg\<lparr>im_diffms := time_diff now msg sdiv 1000000\<rparr>
       in if \<not> im_delayed msg1 then (Some msg1, iq1)
          else timer_scan now seen ms (snd (MsgAdd iq1 (Some (msg1\<lparr>im_timer := False, im_delayed := False\<rparr>))))
     else timer_scan now (seen @ [msg]) ms iq)"

definition MsgGet :: "int \<times> int \<Rightarrow> t_iqmsg \<Rightarrow> imsgMode \<Rightarrow> t_imsg option \<times> t_iqmsg" where
  "MsgGet now iq mode =
    (let (r, iq1) = (if mode = IMSG_TIMER \<or> mode = IMSG_BOTH then timer_scan now [] (iq_timerlist iq) iq else (None, iq))
     in case r of
          Some m \<Rightarrow> (Some m, iq1)
        | None \<Rightarrow>
            if mode = IMSG_TIMER then (None, iq1)
            else case iq_msglist iq1 of
                [] \<Rightarrow> (None, iq1)
              | m # ms \<Rightarrow> (Some m, iq1\<lparr>iq_msglist := ms, iq_msgcount := iq_msgcount iq1 - 1, iq_count := iq_count iq1 - 1\<rparr>))"

definition rtl_imsgGet :: "int \<times> int \<Rightarrow> t_iqmsg \<Rightarrow> imsgMode \<Rightarrow> t_imsg option \<times> t_iqmsg" where
  "rtl_imsgGet now iq mode = MsgGet now iq mode"

subsection \<open>Removing\<close>

definition rtl_imsgFree :: "t_imsg \<Rightarrow> t_iqmsg \<Rightarrow> t_iqmsg" where
  "rtl_imsgFree msg iq = iq\<lparr>iq_freed := iq_freed iq @ [msg]\<rparr>"

text \<open>\<open>rtl_imsgFastRemove\<close> unlinks without looking for the message; on one that is not queued
  the links it follows are stale.\<close>

definition rtl_imsgFastRemove :: "t_iqmsg \<Rightarrow> t_imsg \<Rightarrow> (int \<times> t_iqmsg) exec" where
  "rtl_imsgFastRemove iq rmv =
    (if im_timer rmv \<or> im_delayed rmv
     then do {
       (us, m, vs) \<leftarrow> List.extract (\<lambda>m. im_id m = im_id rmv) (iq_timerlist iq);
       Some (1, (rtl_imsgFree m iq)\<lparr>iq_timerlist := us @ vs, iq_timercount := iq_timercount iq - 1, iq_count := iq_count iq - 1\<rparr>)
     }
     else do {
       (us, m, vs) \<leftarrow> List.extract (\<lambda>m. im_id m = im_id rmv) (iq_msglist iq);
       Some (1, (rtl_imsgFree m iq)\<lparr>iq_msglist := us @ vs, iq_msgcount := iq_msgcount iq - 1, iq_count := iq_count iq - 1\<rparr>)
     })"

definition rtl_imsgRemove :: "t_iqmsg \<Rightarrow> t_imsg \<Rightarrow> int \<times> t_iqmsg" where
  "rtl_imsgRemove iq rmv =
    (if im_timer rmv \<or> im_delayed rmv
     then (case List.extract (\<lambda>m. im_id m = im_id rmv) (iq_timerlist iq) of
             None \<Rightarrow> (0, iq)
           | Some (us, m, vs) \<Rightarrow>
               (1, (rtl_imsgFree m iq)\<lparr>iq_timerlist := us @ vs, iq_timercount := iq_timercount iq - 1, iq_count := iq_count iq - 1\<rparr>))
     else (case List.extract (\<lambda>m. im_id m = im_id rmv) (iq_msglist iq) of
             None \<Rightarrow> (0, iq)
           | Some (us, m, vs) \<Rightarrow>
               (1, (rtl_imsgFree m iq)\<lparr>iq_msglist := us @ vs, iq_msgcount := iq_msgcount iq - 1, iq_count := iq_count iq - 1\<rparr>)))"

definition sent_to :: "nat \<Rightarrow> int \<Rightarrow> int \<Rightarrow> t_imsg \<Rightarrow> bool" where
  "sent_to to class type m =
    (im_to m = to \<and> (class = -1 \<or> im_class m = class) \<and> (type = -1 \<or> im_type m = type))"

fun remove_msgs :: "(t_imsg \<Rightarrow> bool) \<Rightarrow> t_imsg list \<Rightarrow> int \<times> t_iqmsg \<Rightarrow> int \<times> t_iqmsg" where
  "remove_msgs P [] s = s"
| "remove_msgs P (m # ms) (nb, iq) =
    (if P m
     then remove_msgs P ms (nb + 1, (rtl_imsgFree m iq)\<lparr>iq_msglist := filter (\<lambda>x. im_id x \<noteq> im_id m) (iq_msglist iq),
            iq_msgcount := iq_msgcount iq - 1, iq_count := iq_count iq - 1\<rparr>)
     else remove_msgs P ms (nb, iq))"

fun remove_timers :: "(t_imsg \<Rightarrow> bool) \<Rightarrow> t_imsg list \<Rightarrow> int \<times> t_iqmsg \<Rightarrow> int \<times> t_iqmsg" where
  "remove_timers P [] s = s"
| "remove_timers P (m # ms) (nb, iq) =
    (if P m
     then remove_timers P ms (nb + 1, (rtl_imsgFree m iq)\<lparr>iq_timerlist := filter (\<lambda>x. im_id x \<noteq> im_id m) (iq_timerlist iq),
            iq_timercount := iq_timercount iq - 1, iq_count := iq_count iq - 1\<rparr>)
     else remove_timers P ms (nb, iq))"

definition rtl_imsgRemoveToType :: "t_iqmsg \<Rightarrow> nat \<Rightarrow> int \<Rightarrow> int \<Rightarrow> int \<times> t_iqmsg" where
  "rtl_imsgRemoveToType iq to class type =
    (case remove_msgs (sent_to to class type) (iq_msglist iq) (0, iq) of
       (nb, iq1) \<Rightarrow> remove_timers (sent_to to class type) (iq_timerlist iq1) (nb, iq1))"

definition rtl_imsgRemoveTo :: "t_iqmsg \<Rightarrow> nat \<Rightarrow> int \<times> t_iqmsg" where
  "rtl_imsgRemoveTo iq to = rtl_imsgRemoveToType iq to (-1) (-1)"

definition MsgRemoveAll :: "t_iqmsg \<Rightarrow> int \<times> t_iqmsg" where
  "MsgRemoveAll iq =
    (case remove_msgs (\<lambda>m. True) (iq_msglist iq) (0, iq) of
       (nb, iq1) \<Rightarrow> remove_timers (\<lambda>m. True) (iq_timerlist iq1) (nb, iq1))"

definition rtl_imsgRemoveAll :: "t_iqmsg \<Rightarrow> int \<times> t_iqmsg" where
  "rtl_imsgRemoveAll iq = MsgRemoveAll iq"

subsection \<open>The queue\<close>

definition rtl_imsgInitIq :: "bool \<Rightarrow> u32 \<Rightarrow> t_iqmsg option" where
  "rtl_imsgInitIq mallocOk serial =
    (if \<not> mallocOk then None
     else Some \<lparr>iq_msglist = [], iq_timerlist = [], iq_msgcount = 0, iq_timercount = 0, iq_count = 0,
                iq_CSDone = True, MsgSerialVar = serial, iq_freed = []\<rparr>)"

definition rtl_imsgFreeIq :: "t_iqmsg option \<Rightarrow> int \<times> t_imsg list" where
  "rtl_imsgFreeIq piq =
    (case piq of None \<Rightarrow> (-1, []) | Some iq \<Rightarrow> (case MsgRemoveAll iq of (ret, iq1) \<Rightarrow> (ret, iq_freed iq1)))"

definition rtl_imsgCount :: "t_iqmsg \<Rightarrow> int" where
  "rtl_imsgCount iq = (if \<not> iq_CSDone iq then -1 else iq_msgcount iq)"

definition rtl_timerCount :: "t_iqmsg \<Rightarrow> int" where
  "rtl_timerCount iq = (if \<not> iq_CSDone iq then -1 else iq_timercount iq)"

definition rtl_imsgVerifCount :: "t_iqmsg \<Rightarrow> int" where
  "rtl_imsgVerifCount iq = (if \<not> iq_CSDone iq then -1 else foldl (\<lambda>nb m. nb + 1) 0 (iq_msglist iq))"

definition rtl_timerVerifCount :: "t_iqmsg \<Rightarrow> int" where
  "rtl_timerVerifCount iq = (if \<not> iq_CSDone iq then -1 else foldl (\<lambda>nb m. nb + 1) 0 (iq_timerlist iq))"

subsection \<open>Queues ordered by a key\<close>

locale stable_queue =
  fixes ins :: "'m \<Rightarrow> 'm list \<Rightarrow> 'm list" and key :: "'m \<Rightarrow> 'k :: linorder"
  assumes ins_place: "sorted (map key xs) \<Longrightarrow>
      ins x xs = takeWhile (\<lambda>y. key y \<le> key x) xs @ x # dropWhile (\<lambda>y. key y \<le> key x) xs"
begin

lemma mset_ins: "sorted (map key xs) \<Longrightarrow> mset (ins x xs) = add_mset x (mset xs)"
  by (simp add: ins_place) (metis mset_append takeWhile_dropWhile_id)

lemma set_ins: "sorted (map key xs) \<Longrightarrow> set (ins x xs) = insert x (set xs)"
  using mset_ins [of xs x] by (metis set_mset_add_mset_insert set_mset_mset)

lemma sorted_ins: "sorted (map key xs) \<Longrightarrow> sorted (map key (ins x xs))"
proof (induction xs)
  case (Cons y ys)
  then have "sorted (map key ys)" "\<forall>z \<in> set ys. key y \<le> key z" by simp_all
  with Cons set_ins [of ys x] show ?case
    by (auto simp: ins_place [of "y # ys"] ins_place [of ys])
qed (simp add: ins_place)

lemma filter_ins:
  assumes "sorted (map key xs)"
  shows "filter (\<lambda>y. key y = k) (ins x xs) = filter (\<lambda>y. key y = k) xs @ (if key x = k then [x] else [])"
  using assms
proof (induction xs)
  case (Cons y ys)
  then have s: "sorted (map key ys)" "\<forall>z \<in> set ys. key y \<le> key z" by simp_all
  show ?case
  proof (cases "key y \<le> key x")
    case True
    with Cons s show ?thesis by (simp add: ins_place [of "y # ys"] ins_place [of ys])
  next
    case False
    with s have "filter (\<lambda>z. key z = key x) (y # ys) = []" by (auto simp: filter_empty_conv)
    with Cons.prems False show ?thesis by (auto simp: ins_place)
  qed
qed (simp add: ins_place)

lemma fold_ins:
  "sorted (map key xs) \<Longrightarrow> sorted (map key (fold ins ms xs)) \<and> mset (fold ins ms xs) = mset ms + mset xs \<and>
     filter (\<lambda>y. key y = k) (fold ins ms xs) = filter (\<lambda>y. key y = k) xs @ filter (\<lambda>y. key y = k) ms"
  by (induction ms arbitrary: xs) (simp_all add: sorted_ins mset_ins filter_ins)

lemma fold_ins_sort: "fold ins ms [] = sort_key key ms"
  using fold_ins [of "[]" ms] by (intro properties_for_sort_key [symmetric]) (simp_all add: eq_commute)

end

definition due_key :: "t_imsg \<Rightarrow> int \<times> int" where
  "due_key m = (im_end m, im_endns m)"

lemma CMP_TIME_pos: "CMP_TIME a b > 0 \<longleftrightarrow> due_key b < due_key a"
  by (auto simp: CMP_TIME_def due_key_def less_prod_def)

lemma list_add_sorted_place:
  "list_add_sorted x xs = takeWhile (\<lambda>y. due_key y \<le> due_key x) xs @ x # dropWhile (\<lambda>y. due_key y \<le> due_key x) xs"
  by (induction xs) (auto simp: CMP_TIME_pos)

interpretation timers: stable_queue timer_add due_key
proof unfold_locales
  fix xs :: "t_imsg list" and x
  assume s: "sorted (map due_key xs)"
  show "timer_add x xs = takeWhile (\<lambda>y. due_key y \<le> due_key x) xs @ x # dropWhile (\<lambda>y. due_key y \<le> due_key x) xs"
  proof (cases "xs \<noteq> [] \<and> CMP_TIME (last xs) x > 0")
    case True
    then show ?thesis by (simp add: timer_add_def list_add_sorted_place)
  next
    case False
    have "due_key y \<le> due_key x" if "y \<in> set xs" for y
    proof -
      from that s have "due_key y \<le> due_key (last xs)" by (cases xs rule: rev_cases) (auto simp: sorted_append)
      with False that show ?thesis by (auto simp: CMP_TIME_pos)
    qed
    then have "takeWhile (\<lambda>y. due_key y \<le> due_key x) xs = xs" "dropWhile (\<lambda>y. due_key y \<le> due_key x) xs = []"
      by (simp_all add: takeWhile_eq_all_conv)
    moreover from False have "timer_add x xs = xs @ [x]" by (auto simp: timer_add_def)
    ultimately show ?thesis by metis
  qed
qed

subsection \<open>The invariant\<close>

definition iq_ids :: "t_iqmsg \<Rightarrow> nat multiset" where
  "iq_ids iq = mset (map im_id (iq_msglist iq)) + mset (map im_id (iq_timerlist iq))"

definition iq_ok :: "t_iqmsg \<Rightarrow> bool" where
  "iq_ok iq \<longleftrightarrow> sorted (map due_key (iq_timerlist iq)) \<and> distinct (map im_id (iq_msglist iq @ iq_timerlist iq)) \<and>
     (\<forall>m \<in> set (iq_timerlist iq). im_timer m \<or> im_delayed m) \<and> (\<forall>m \<in> set (iq_msglist iq). \<not> im_timer m \<and> \<not> im_delayed m) \<and>
     iq_msgcount iq = int (length (iq_msglist iq)) \<and> iq_timercount iq = int (length (iq_timerlist iq)) \<and>
     iq_count iq = iq_msgcount iq + iq_timercount iq \<and> iq_CSDone iq"

lemma due_key_serial [simp]: "due_key (m\<lparr>im_serial := s\<rparr>) = due_key m" "due_key (m\<lparr>im_diffms := d\<rparr>) = due_key m"
  by (simp_all add: due_key_def)

lemma MsgAdd_ok:
  assumes "iq_ok iq" "im_id m \<notin># iq_ids iq"
  shows "iq_ok (snd (MsgAdd iq (Some m)))" "iq_ids (snd (MsgAdd iq (Some m))) = add_mset (im_id m) (iq_ids iq)"
    "iq_freed (snd (MsgAdd iq (Some m))) = iq_freed iq"
proof -
  let ?s = "fst (MsgSerial iq)" and ?m = "m\<lparr>im_serial := fst (MsgSerial iq)\<rparr>"
  from assms(1) have s: "sorted (map due_key (iq_timerlist iq))" by (simp add: iq_ok_def)
  have t: "mset (timer_add ?m (iq_timerlist iq)) = add_mset ?m (mset (iq_timerlist iq))" by (rule timers.mset_ins [OF s])
  then have l: "length (timer_add ?m (iq_timerlist iq)) = Suc (length (iq_timerlist iq))"
    and st: "set (timer_add ?m (iq_timerlist iq)) = insert ?m (set (iq_timerlist iq))"
    and ids: "mset (map im_id (timer_add ?m (iq_timerlist iq))) = add_mset (im_id m) (mset (map im_id (iq_timerlist iq)))"
    using timers.set_ins [OF s] by (metis size_add_mset size_mset, simp, simp)
  have d: "distinct (map im_id (timer_add ?m (iq_timerlist iq))) \<longleftrightarrow> im_id m \<notin> im_id ` set (iq_timerlist iq) \<and> distinct (map im_id (iq_timerlist iq))"
    using ids by (metis distinct.simps(2) mset.simps(2) mset_eq_imp_distinct_iff set_map)
  have a: "snd (MsgAdd iq (Some m)) = (if im_timer m \<or> im_delayed m
      then iq\<lparr>MsgSerialVar := ?s, iq_timerlist := timer_add ?m (iq_timerlist iq), iq_timercount := iq_timercount iq + 1, iq_count := iq_count iq + 1\<rparr>
      else iq\<lparr>MsgSerialVar := ?s, iq_msglist := iq_msglist iq @ [?m], iq_msgcount := iq_msgcount iq + 1, iq_count := iq_count iq + 1\<rparr>)"
    by (simp add: MsgAdd_def MsgSerial_def Let_def)
  show "iq_ids (snd (MsgAdd iq (Some m))) = add_mset (im_id m) (iq_ids iq)" using ids by (simp add: a iq_ids_def)
  show "iq_freed (snd (MsgAdd iq (Some m))) = iq_freed iq" by (simp add: a)
  show "iq_ok (snd (MsgAdd iq (Some m)))"
    using assms l st d timers.sorted_ins [OF s, of ?m] unfolding a by (auto simp: iq_ok_def iq_ids_def)
qed

lemma drop_timer_ok:
  assumes "iq_ok iq" "iq_timerlist iq = us @ m # vs"
  defines "iq' \<equiv> iq\<lparr>iq_timerlist := us @ vs, iq_timercount := iq_timercount iq - 1, iq_count := iq_count iq - 1\<rparr>"
  shows "iq_ok iq'" "iq_ids iq = add_mset (im_id m) (iq_ids iq')" "im_id m \<notin># iq_ids iq'"
  using assms(1,2) by (auto simp: iq'_def iq_ok_def iq_ids_def sorted_append)

lemma drop_msg_ok:
  assumes "iq_ok iq" "iq_msglist iq = us @ m # vs"
  defines "iq' \<equiv> iq\<lparr>iq_msglist := us @ vs, iq_msgcount := iq_msgcount iq - 1, iq_count := iq_count iq - 1\<rparr>"
  shows "iq_ok iq'" "iq_ids iq = add_mset (im_id m) (iq_ids iq')" "im_id m \<notin># iq_ids iq'"
  using assms(1,2) by (auto simp: iq'_def iq_ok_def iq_ids_def)

text \<open>The messages that the queue has, plus those that it has freed.\<close>

definition iq_held :: "t_iqmsg \<Rightarrow> nat multiset" where
  "iq_held iq = iq_ids iq + mset (map im_id (iq_freed iq))"

subsection \<open>Getting keeps the invariant\<close>

lemma timer_scan_ok:
  "iq_ok iq \<Longrightarrow> iq_timerlist iq = seen @ ms \<Longrightarrow> timer_scan now seen ms iq = (r, iq') \<Longrightarrow>
   iq_ok iq' \<and> iq_held iq = (case r of None \<Rightarrow> {#} | Some m \<Rightarrow> {#im_id m#}) + iq_held iq'"
proof (induction ms arbitrary: seen iq)
  case Nil
  then show ?case by auto
next
  case (Cons m ms)
  let ?iq = "iq\<lparr>iq_timerlist := seen @ ms, iq_timercount := iq_timercount iq - 1, iq_count := iq_count iq - 1\<rparr>"
  let ?m = "m\<lparr>im_diffms := time_diff now m sdiv 1000000\<rparr>"
  note d = drop_timer_ok [OF Cons.prems(1,2)]
  have freed: "iq_freed ?iq = iq_freed iq" by simp
  show ?case
  proof (cases "is_due now m \<and> im_delayed m")
    case True
    let ?n = "?m\<lparr>im_timer := False, im_delayed := False\<rparr>"
    let ?iq2 = "snd (MsgAdd ?iq (Some ?n))"
    have "im_id ?n \<notin># iq_ids ?iq" using d(3) by simp
    note a = MsgAdd_ok [OF d(1) this]
    have "iq_timerlist ?iq2 = seen @ ms" by (simp add: MsgAdd_def MsgSerial_def Let_def)
    moreover have "timer_scan now seen ms ?iq2 = (r, iq')" using Cons.prems(3) True by (simp add: Let_def)
    moreover have "iq_held ?iq2 = iq_held iq" using a(2,3) d(2) by (simp add: iq_held_def)
    ultimately show ?thesis using Cons.IH [OF a(1)] by metis
  next
    case False
    show ?thesis
    proof (cases "is_due now m")
      case True
      with False Cons.prems(3) have "r = Some ?m" "iq' = ?iq" by (auto simp: Let_def)
      with d show ?thesis by (simp add: iq_held_def)
    next
      case f: False
      with Cons show ?thesis by simp
    qed
  qed
qed

lemma MsgGet_ok:
  assumes "iq_ok iq" "MsgGet now iq mode = (r, iq')"
  shows "iq_ok iq' \<and> iq_held iq = (case r of None \<Rightarrow> {#} | Some m \<Rightarrow> {#im_id m#}) + iq_held iq'"
proof -
  obtain r1 iq1 where s: "(if mode = IMSG_TIMER \<or> mode = IMSG_BOTH then timer_scan now [] (iq_timerlist iq) iq else (None, iq)) = (r1, iq1)"
    by fastforce
  then have ok: "iq_ok iq1" "iq_held iq = (case r1 of None \<Rightarrow> {#} | Some m \<Rightarrow> {#im_id m#}) + iq_held iq1"
    using timer_scan_ok [OF assms(1), of "[]" "iq_timerlist iq" now r1 iq1] assms(1) by (auto split: if_splits)
  show ?thesis
  proof (cases "r1 \<noteq> None \<or> mode = IMSG_TIMER \<or> iq_msglist iq1 = []")
    case True
    with assms(2) s have "r = r1 \<and> iq' = iq1" by (auto simp: MsgGet_def split: option.splits list.splits)
    with ok show ?thesis by simp
  next
    case False
    then obtain m ms where ms: "iq_msglist iq1 = [] @ m # ms" by (cases "iq_msglist iq1") auto
    with False assms(2) s have "r = Some m \<and> iq' = iq1\<lparr>iq_msglist := ms, iq_msgcount := iq_msgcount iq1 - 1, iq_count := iq_count iq1 - 1\<rparr>"
      by (auto simp: MsgGet_def)
    with drop_msg_ok [OF ok(1) ms] ok(2) False show ?thesis by (simp add: iq_held_def)
  qed
qed

subsection \<open>Removing keeps the invariant\<close>

lemma filter_split: "distinct (map f xs) \<Longrightarrow> xs = us @ m # vs \<Longrightarrow> filter (\<lambda>x. f x \<noteq> f m) xs = us @ vs"
proof -
  assume "distinct (map f xs)" and xs: "xs = us @ m # vs"
  then have "\<forall>x \<in> set us. f x \<noteq> f m" "\<forall>x \<in> set vs. f x \<noteq> f m" by (force simp: image_iff)+
  then show ?thesis by (simp add: xs)
qed

lemma iq_ok_freed [simp]: "iq_ok (iq\<lparr>iq_freed := fs\<rparr>) = iq_ok iq" "iq_ids (iq\<lparr>iq_freed := fs\<rparr>) = iq_ids iq"
  by (simp_all add: iq_ok_def iq_ids_def)

lemma free_msg_ok:
  assumes "iq_ok iq" "iq_msglist iq = us @ m # vs"
  defines "iq' \<equiv> (rtl_imsgFree m iq)\<lparr>iq_msglist := us @ vs, iq_msgcount := iq_msgcount iq - 1, iq_count := iq_count iq - 1\<rparr>"
  shows "iq_ok iq' \<and> iq_held iq' = iq_held iq"
proof -
  have "iq' = (iq\<lparr>iq_msglist := us @ vs, iq_msgcount := iq_msgcount iq - 1, iq_count := iq_count iq - 1\<rparr>)\<lparr>iq_freed := iq_freed iq @ [m]\<rparr>"
    by (simp add: iq'_def rtl_imsgFree_def)
  with drop_msg_ok [OF assms(1,2)] show ?thesis by (simp add: iq_held_def)
qed

lemma free_timer_ok:
  assumes "iq_ok iq" "iq_timerlist iq = us @ m # vs"
  defines "iq' \<equiv> (rtl_imsgFree m iq)\<lparr>iq_timerlist := us @ vs, iq_timercount := iq_timercount iq - 1, iq_count := iq_count iq - 1\<rparr>"
  shows "iq_ok iq' \<and> iq_held iq' = iq_held iq"
proof -
  have "iq' = (iq\<lparr>iq_timerlist := us @ vs, iq_timercount := iq_timercount iq - 1, iq_count := iq_count iq - 1\<rparr>)\<lparr>iq_freed := iq_freed iq @ [m]\<rparr>"
    by (simp add: iq'_def rtl_imsgFree_def)
  with drop_timer_ok [OF assms(1,2)] show ?thesis by (simp add: iq_held_def)
qed

lemma remove_msgs_ok:
  "iq_ok iq \<Longrightarrow> distinct ms \<Longrightarrow> set ms \<subseteq> set (iq_msglist iq) \<Longrightarrow> remove_msgs P ms (nb, iq) = (nb', iq') \<Longrightarrow>
   iq_ok iq' \<and> iq_held iq' = iq_held iq \<and> iq_timerlist iq' = iq_timerlist iq \<and> nb' = nb + int (length (filter P ms)) \<and>
   iq_msglist iq' = filter (\<lambda>x. \<not> (x \<in> set ms \<and> P x)) (iq_msglist iq)"
proof (induction ms arbitrary: nb iq)
  case (Cons m ms)
  show ?case
  proof (cases "P m")
    case True
    from Cons.prems(3) obtain us vs where l: "iq_msglist iq = us @ m # vs" by (auto dest: split_list)
    let ?iq = "(rtl_imsgFree m iq)\<lparr>iq_msglist := us @ vs, iq_msgcount := iq_msgcount iq - 1, iq_count := iq_count iq - 1\<rparr>"
    from Cons.prems(1) have dist: "distinct (map im_id (iq_msglist iq))" by (simp add: iq_ok_def)
    from filter_split [OF this l] Cons.prems(4) True have "remove_msgs P ms (nb + 1, ?iq) = (nb', iq')" by simp
    moreover have "m \<notin> set us" "m \<notin> set vs" using dist l by (auto simp: distinct_map)
    then have "set ms \<subseteq> set (iq_msglist ?iq)" using Cons.prems(2,3) l by auto
    ultimately have "iq_ok iq' \<and> iq_held iq' = iq_held iq \<and> iq_timerlist iq' = iq_timerlist iq \<and> nb' = nb + 1 + int (length (filter P ms)) \<and>
       iq_msglist iq' = filter (\<lambda>x. \<not> (x \<in> set ms \<and> P x)) (us @ vs)"
      using Cons.IH [of ?iq "nb + 1"] free_msg_ok [OF Cons.prems(1) l] Cons.prems(2) by (simp add: rtl_imsgFree_def)
    moreover have "filter (\<lambda>x. \<not> (x \<in> set (m # ms) \<and> P x)) (us @ vs) = filter (\<lambda>x. \<not> (x \<in> set ms \<and> P x)) (us @ vs)"
      using \<open>m \<notin> set us\<close> \<open>m \<notin> set vs\<close> by (intro filter_cong) auto
    then have "filter (\<lambda>x. \<not> (x \<in> set (m # ms) \<and> P x)) (iq_msglist iq) = filter (\<lambda>x. \<not> (x \<in> set ms \<and> P x)) (us @ vs)"
      using True by (simp add: l)
    ultimately show ?thesis using True by simp
  next
    case False
    with Cons.prems Cons.IH [of iq nb] show ?thesis by (auto intro!: filter_cong)
  qed
qed simp

lemma remove_timers_ok:
  "iq_ok iq \<Longrightarrow> distinct ms \<Longrightarrow> set ms \<subseteq> set (iq_timerlist iq) \<Longrightarrow> remove_timers P ms (nb, iq) = (nb', iq') \<Longrightarrow>
   iq_ok iq' \<and> iq_held iq' = iq_held iq \<and> iq_msglist iq' = iq_msglist iq \<and> nb' = nb + int (length (filter P ms)) \<and>
   iq_timerlist iq' = filter (\<lambda>x. \<not> (x \<in> set ms \<and> P x)) (iq_timerlist iq)"
proof (induction ms arbitrary: nb iq)
  case (Cons m ms)
  show ?case
  proof (cases "P m")
    case True
    from Cons.prems(3) obtain us vs where l: "iq_timerlist iq = us @ m # vs" by (auto dest: split_list)
    let ?iq = "(rtl_imsgFree m iq)\<lparr>iq_timerlist := us @ vs, iq_timercount := iq_timercount iq - 1, iq_count := iq_count iq - 1\<rparr>"
    from Cons.prems(1) have dist: "distinct (map im_id (iq_timerlist iq))" by (simp add: iq_ok_def)
    from filter_split [OF this l] Cons.prems(4) True have "remove_timers P ms (nb + 1, ?iq) = (nb', iq')" by simp
    moreover have "m \<notin> set us" "m \<notin> set vs" using dist l by (auto simp: distinct_map)
    then have "set ms \<subseteq> set (iq_timerlist ?iq)" using Cons.prems(2,3) l by auto
    ultimately have "iq_ok iq' \<and> iq_held iq' = iq_held iq \<and> iq_msglist iq' = iq_msglist iq \<and> nb' = nb + 1 + int (length (filter P ms)) \<and>
       iq_timerlist iq' = filter (\<lambda>x. \<not> (x \<in> set ms \<and> P x)) (us @ vs)"
      using Cons.IH [of ?iq "nb + 1"] free_timer_ok [OF Cons.prems(1) l] Cons.prems(2) by (simp add: rtl_imsgFree_def)
    moreover have "filter (\<lambda>x. \<not> (x \<in> set (m # ms) \<and> P x)) (us @ vs) = filter (\<lambda>x. \<not> (x \<in> set ms \<and> P x)) (us @ vs)"
      using \<open>m \<notin> set us\<close> \<open>m \<notin> set vs\<close> by (intro filter_cong) auto
    then have "filter (\<lambda>x. \<not> (x \<in> set (m # ms) \<and> P x)) (iq_timerlist iq) = filter (\<lambda>x. \<not> (x \<in> set ms \<and> P x)) (us @ vs)"
      using True by (simp add: l)
    ultimately show ?thesis using True by simp
  next
    case False
    with Cons.prems Cons.IH [of iq nb] show ?thesis by (auto intro!: filter_cong)
  qed
qed simp

lemma extract_id:
  "List.extract (\<lambda>m. im_id m = i) ms = Some (us, m, vs) \<Longrightarrow> ms = us @ m # vs \<and> im_id m = i"
  by (simp add: extract_Some_iff)

lemma rtl_imsgRemove_ok:
  assumes "iq_ok iq" "rtl_imsgRemove iq rmv = (nb, iq')"
  shows "iq_ok iq' \<and> iq_held iq' = iq_held iq"
  using assms free_timer_ok [OF assms(1)] free_msg_ok [OF assms(1)]
  by (auto simp: rtl_imsgRemove_def dest!: extract_id split: option.splits if_splits)

lemma iq_ok_distinct: "iq_ok iq \<Longrightarrow> distinct (iq_msglist iq)" "iq_ok iq \<Longrightarrow> distinct (iq_timerlist iq)"
  by (auto simp: iq_ok_def distinct_map)

lemma remove_both_ok:
  assumes "iq_ok iq"
  shows "\<exists>nb iq'. (case remove_msgs P (iq_msglist iq) (0, iq) of (nb, iq1) \<Rightarrow> remove_timers P (iq_timerlist iq1) (nb, iq1)) = (nb, iq') \<and>
     iq_ok iq' \<and> iq_held iq' = iq_held iq \<and> iq_msglist iq' = filter (\<lambda>m. \<not> P m) (iq_msglist iq) \<and>
     iq_timerlist iq' = filter (\<lambda>m. \<not> P m) (iq_timerlist iq) \<and>
     nb = int (length (filter P (iq_msglist iq)) + length (filter P (iq_timerlist iq)))"
proof -
  obtain nb1 iq1 where 1: "remove_msgs P (iq_msglist iq) (0, iq) = (nb1, iq1)" by fastforce
  obtain nb2 iq2 where 2: "remove_timers P (iq_timerlist iq1) (nb1, iq1) = (nb2, iq2)" by fastforce
  note a = remove_msgs_ok [OF assms iq_ok_distinct(1) [OF assms] order_refl 1]
  then have ok: "iq_ok iq1" by blast
  note b = remove_timers_ok [OF ok iq_ok_distinct(2) [OF ok] order_refl 2]
  have f: "filter (\<lambda>x. x \<in> set xs \<longrightarrow> \<not> P x) xs = filter (\<lambda>m. \<not> P m) xs" for xs by (rule filter_cong) auto
  from 1 2 a b show ?thesis by (simp add: f)
qed

subsection \<open>The order of expiry\<close>

lemma is_due_iff:
  "is_due now m \<longleftrightarrow> im_end m < fst now \<or> im_end m = fst now \<and> im_endns m \<le> snd now + 550000"
  by (auto simp: is_due_def time_diff_def Anticip_def)

lemma is_due_mono: "is_due now b \<Longrightarrow> due_key a \<le> due_key b \<Longrightarrow> is_due now a"
  by (auto simp: is_due_iff due_key_def less_eq_prod_def)

lemma timer_scan_none:
  "\<forall>m \<in> set ms. \<not> is_due now m \<Longrightarrow> timer_scan now seen ms iq = (None, iq\<lparr>iq_timerlist := seen @ ms\<rparr>)"
  by (induction ms arbitrary: seen) simp_all

lemma MsgAdd_normal:
  "\<not> im_timer m \<Longrightarrow> \<not> im_delayed m \<Longrightarrow> map im_id (iq_msglist (snd (MsgAdd iq (Some m)))) = map im_id (iq_msglist iq) @ [im_id m]"
  by (simp add: MsgAdd_def MsgSerial_def Let_def)

lemma timer_scan_spec:
  assumes "sorted (map due_key ts)"
  shows "\<exists>r iq'. timer_scan now [] ts iq = (r, iq') \<and>
     map im_id (iq_msglist iq') = map im_id (iq_msglist iq) @ map im_id (takeWhile (\<lambda>m. is_due now m \<and> im_delayed m) ts) \<and>
     (case dropWhile (\<lambda>m. is_due now m \<and> im_delayed m) ts of
        m # ms \<Rightarrow> if is_due now m then map_option im_id r = Some (im_id m) \<and> iq_timerlist iq' = ms
                  else r = None \<and> iq_timerlist iq' = m # ms
      | [] \<Rightarrow> r = None \<and> iq_timerlist iq' = [])"
  using assms
proof (induction ts arbitrary: iq)
  case (Cons m ms)
  show ?case
  proof (cases "is_due now m")
    case True
    let ?iq = "snd (MsgAdd (iq\<lparr>iq_timerlist := ms, iq_timercount := iq_timercount iq - 1, iq_count := iq_count iq - 1\<rparr>)
      (Some (m\<lparr>im_diffms := time_diff now m sdiv 1000000, im_timer := False, im_delayed := False\<rparr>)))"
    have "map im_id (iq_msglist ?iq) = map im_id (iq_msglist iq) @ [im_id m]" by (simp add: MsgAdd_normal)
    with True Cons.IH [of ?iq] Cons.prems show ?thesis by (cases "im_delayed m") (simp_all add: Let_def)
  next
    case False
    then have "\<not> is_due now x" if "x \<in> set (m # ms)" for x
      using is_due_mono [of now x m] Cons.prems that by auto
    with timer_scan_none [of "m # ms" now "[]" iq] False show ?thesis by simp
  qed
qed simp

subsection \<open>All runs of a queue\<close>

type_synonym iqConf = "t_iqmsg \<times> nat multiset \<times> nat multiset"

text \<open>A configuration is a queue with the messages given to it so far and those it returned.\<close>

inductive iq_step :: "iqConf \<Rightarrow> iqConf \<Rightarrow> bool" where
  Add: "im_id m \<notin># iq_ids iq \<Longrightarrow> rtl_imsgAdd iq (Some m) = (r, iq') \<Longrightarrow> iq_step (iq, g, t) (iq', add_mset (im_id m) g, t)"
| AddDelayed: "im_id m \<notin># iq_ids iq \<Longrightarrow> rtl_imsgAddDelayed now iq (Some m) delta = (r, iq') \<Longrightarrow>
    iq_step (iq, g, t) (iq', add_mset (im_id m) g, t)"
| Get: "rtl_imsgGet now iq mode = (r, iq') \<Longrightarrow> iq_step (iq, g, t) (iq', g, t + (case r of None \<Rightarrow> {#} | Some m \<Rightarrow> {#im_id m#}))"
| Remove: "rtl_imsgRemove iq m = (nb, iq') \<Longrightarrow> iq_step (iq, g, t) (iq', g, t)"
| RemoveToType: "rtl_imsgRemoveToType iq to cls ty = (nb, iq') \<Longrightarrow> iq_step (iq, g, t) (iq', g, t)"
| RemoveAll: "rtl_imsgRemoveAll iq = (nb, iq') \<Longrightarrow> iq_step (iq, g, t) (iq', g, t)"

inductive iq_reach :: "iqConf \<Rightarrow> bool" where
  Init: "rtl_imsgInitIq True serial = Some iq \<Longrightarrow> iq_reach (iq, {#}, {#})"
| Step: "iq_reach c \<Longrightarrow> iq_step c c' \<Longrightarrow> iq_reach c'"

inductive_cases iq_stepE: "iq_step (iq, g, t) c"

definition iq_inv :: "iqConf \<Rightarrow> bool" where
  "iq_inv c = (case c of (iq, g, t) \<Rightarrow> iq_ok iq \<and> g = t + iq_held iq)"

lemma iq_step_inv: "iq_step c c' \<Longrightarrow> iq_inv c \<Longrightarrow> iq_inv c'"
proof (induction rule: iq_step.induct)
  case (Add m iq r iq' g t)
  then have "iq_ok iq" "iq' = snd (MsgAdd iq (Some m))" by (auto simp: iq_inv_def rtl_imsgAdd_def)
  with Add MsgAdd_ok [of iq m] show ?case by (simp add: iq_inv_def iq_held_def)
next
  case (AddDelayed m iq now delta r iq' g t)
  let ?m = "m\<lparr>im_delayed := True, im_end := fst (deadline now delta), im_endns := snd (deadline now delta), im_diffms := delta\<rparr>"
  from AddDelayed have "iq_ok iq" "iq' = snd (MsgAdd iq (Some ?m))" by (auto simp: iq_inv_def rtl_imsgAddDelayed_def)
  with AddDelayed MsgAdd_ok [of iq ?m] show ?case by (simp add: iq_inv_def iq_held_def)
next
  case (Get now iq mode r iq' g t)
  with MsgGet_ok [of iq now mode r iq'] show ?case by (simp add: iq_inv_def rtl_imsgGet_def ac_simps)
next
  case (Remove iq m nb iq' g t)
  with rtl_imsgRemove_ok [of iq m nb iq'] show ?case by (simp add: iq_inv_def)
next
  case (RemoveToType iq to cls ty nb iq' g t)
  with remove_both_ok [of iq "sent_to to cls ty"] show ?case by (auto simp: iq_inv_def rtl_imsgRemoveToType_def)
next
  case (RemoveAll iq nb iq' g t)
  with remove_both_ok [of iq "\<lambda>m. True"] show ?case by (auto simp: iq_inv_def rtl_imsgRemoveAll_def MsgRemoveAll_def)
qed

lemma iq_reach_inv: "iq_reach c \<Longrightarrow> iq_inv c"
proof (induction rule: iq_reach.induct)
  case (Init serial iq)
  then show ?case by (auto simp: iq_inv_def rtl_imsgInitIq_def iq_ok_def iq_held_def iq_ids_def)
qed (rule iq_step_inv)

subsection \<open>Properties\<close>

lemma add_timers:
  "\<forall>m \<in> set ms. im_timer m \<Longrightarrow>
   \<exists>ss. length ss = length ms \<and> iq_timerlist (fold (\<lambda>m iq. snd (rtl_imsgAdd iq (Some m))) ms iq)
      = fold timer_add (map2 (\<lambda>m s. m\<lparr>im_serial := s\<rparr>) ms ss) (iq_timerlist iq)"
proof (induction ms arbitrary: iq)
  case (Cons m ms)
  let ?s = "fst (MsgSerial iq)" and ?iq = "snd (rtl_imsgAdd iq (Some m))"
  have "iq_timerlist ?iq = timer_add (m\<lparr>im_serial := ?s\<rparr>) (iq_timerlist iq)"
    using Cons.prems by (simp add: rtl_imsgAdd_def MsgAdd_def MsgSerial_def Let_def)
  moreover from Cons obtain ss where "length ss = length ms"
    "iq_timerlist (fold (\<lambda>m iq. snd (rtl_imsgAdd iq (Some m))) ms ?iq)
      = fold timer_add (map2 (\<lambda>m s. m\<lparr>im_serial := s\<rparr>) ms ss) (iq_timerlist ?iq)" by fastforce
  ultimately show ?case by (intro exI [of _ "?s # ss"]) simp
qed simp

text \<open>C11: in every state that a queue reaches by additions, delayed additions, gets and removals, the
  timers are in order of their deadlines, each message is in the list of its kind, no message is
  queued twice, the three counters are right, and no message is lost or duplicated: those given
  to the queue are those returned, those freed and those still queued.\<close>

theorem imsg_queue_conserves:
  assumes "iq_reach (iq, given, taken)"
  shows "iq_ok iq \<and> given = taken + mset (map im_id (iq_freed iq)) + mset (map im_id (iq_msglist iq @ iq_timerlist iq)) \<and>
     rtl_imsgCount iq = rtl_imsgVerifCount iq \<and> rtl_timerCount iq = rtl_timerVerifCount iq"
proof -
  have n: "foldl (\<lambda>nb m. nb + 1) k ms = (k :: int) + int (length ms)" for k and ms :: "t_imsg list"
    by (induction ms arbitrary: k) simp_all
  from iq_reach_inv [OF assms] show ?thesis
    by (auto simp: iq_inv_def iq_held_def iq_ids_def n iq_ok_def rtl_imsgCount_def rtl_imsgVerifCount_def rtl_timerCount_def
        rtl_timerVerifCount_def ac_simps)
qed

definition sampleMsg :: t_imsg where
  "sampleMsg = \<lparr>im_id = 1, im_serial = 0, im_timer = False, im_delayed = False, im_start = 0, im_end = 0, im_datasz = 0,
     im_dataptr = NoData, im_class = 0, im_type = 100, im_to = 7, im_serialto = 0, im_data = [], im_startns = 0, im_endns = 0,
     im_diffms = 0\<rparr>"

definition sampleIq :: t_iqmsg where
  "sampleIq = \<lparr>iq_msglist = [], iq_timerlist = [], iq_msgcount = 0, iq_timercount = 0, iq_count = 0, iq_CSDone = True,
     MsgSerialVar = 0xFFFFFFFF, iq_freed = []\<rparr>"

lemma sampleIq_init: "rtl_imsgInitIq True 0xFFFFFFFF = Some sampleIq"
  by (simp add: rtl_imsgInitIq_def sampleIq_def)

theorem imsg_queue_conserves_witness:
  "\<exists>iq. rtl_imsgAdd sampleIq (Some sampleMsg) = (1, iq) \<and> map im_serial (iq_msglist iq) = [1] \<and> iq_ok iq"
proof -
  obtain r iq where a: "rtl_imsgAdd sampleIq (Some sampleMsg) = (r, iq)" by fastforce
  have "iq_reach (iq, {#1#}, {#})"
    using iq_reach.Step [OF iq_reach.Init [OF sampleIq_init] iq_step.Add [OF _ a]]
    by (simp add: sampleMsg_def sampleIq_def iq_ids_def)
  from imsg_queue_conserves [OF this] a show ?thesis
    by (auto simp: rtl_imsgAdd_def MsgAdd_def MsgSerial_def sampleIq_def sampleMsg_def)
qed

text \<open>Timers expire in the order of their deadlines, and in the order of their addition when the
  deadlines are equal: adding timers to an empty queue sorts them by deadline, stably, in spite of
  the shortcut for a timer that is not earlier than the last one.\<close>

theorem timers_sorted_stably:
  assumes "rtl_imsgInitIq True serial = Some iq" "\<forall>m \<in> set ms. im_timer m"
  shows "\<exists>ss. length ss = length ms \<and>
     iq_timerlist (fold (\<lambda>m iq. snd (rtl_imsgAdd iq (Some m))) ms iq) = sort_key due_key (map2 (\<lambda>m s. m\<lparr>im_serial := s\<rparr>) ms ss)"
proof -
  have "iq_timerlist iq = []" using assms(1) by (auto simp: rtl_imsgInitIq_def)
  with add_timers [OF assms(2), of iq] show ?thesis by (auto simp: timers.fold_ins_sort)
qed

theorem timers_sorted_stably_witness:
  "\<exists>ss. length ss = 2 \<and> iq_timerlist (fold (\<lambda>m iq. snd (rtl_imsgAdd iq (Some m)))
       [sampleMsg\<lparr>im_timer := True, im_end := 9\<rparr>, sampleMsg\<lparr>im_timer := True, im_end := 4\<rparr>] sampleIq)
     = sort_key due_key (map2 (\<lambda>m s. m\<lparr>im_serial := s\<rparr>) [sampleMsg\<lparr>im_timer := True, im_end := 9\<rparr>, sampleMsg\<lparr>im_timer := True, im_end := 4\<rparr>] ss)"
  using timers_sorted_stably [OF sampleIq_init, of "[sampleMsg\<lparr>im_timer := True, im_end := 9\<rparr>, sampleMsg\<lparr>im_timer := True, im_end := 4\<rparr>]"]
  by (simp add: numeral_2_eq_2)

text \<open>A get of timers on a queue in order first turns the delayed messages that are due and
  precede the first due timer into normal messages, in order, at the end of the message list; it returns
  that timer, which is the earliest, and keeps the others; without a due timer it returns
  nothing and keeps exactly the entries that are not due.\<close>

theorem get_timer_earliest:
  assumes "iq_ok iq"
  shows "\<exists>r iq'. rtl_imsgGet now iq IMSG_TIMER = (r, iq') \<and>
     map im_id (iq_msglist iq') = map im_id (iq_msglist iq @ takeWhile (\<lambda>m. is_due now m \<and> im_delayed m) (iq_timerlist iq)) \<and>
     (case dropWhile (\<lambda>m. is_due now m \<and> im_delayed m) (iq_timerlist iq) of
        m # ms \<Rightarrow> if is_due now m then map_option im_id r = Some (im_id m) \<and> iq_timerlist iq' = ms \<and> (\<forall>x \<in> set ms. due_key m \<le> due_key x)
                  else r = None \<and> iq_timerlist iq' = m # ms \<and> (\<forall>x \<in> set (m # ms). \<not> is_due now x)
      | [] \<Rightarrow> r = None \<and> iq_timerlist iq' = [])"
proof -
  let ?ts = "iq_timerlist iq" and ?P = "\<lambda>m. is_due now m \<and> im_delayed m"
  from assms have s: "sorted (map due_key ?ts)" by (simp add: iq_ok_def)
  then have "sorted (map due_key (dropWhile ?P ?ts))" by (simp add: dropWhile_eq_drop sorted_wrt_drop flip: drop_map)
  then have o1: "\<forall>x \<in> set ms. due_key m \<le> due_key x" if "dropWhile ?P ?ts = m # ms" for m ms using that by simp
  then have o2: "\<forall>x \<in> set (m # ms). \<not> is_due now x" if "dropWhile ?P ?ts = m # ms" "\<not> is_due now m" for m ms
    using that is_due_mono [of now _ m] by fastforce
  from timer_scan_spec [OF s, of now iq] obtain r iq' where sp: "timer_scan now [] ?ts iq = (r, iq')"
     "map im_id (iq_msglist iq') = map im_id (iq_msglist iq) @ map im_id (takeWhile ?P ?ts)"
     "case dropWhile ?P ?ts of
        m # ms \<Rightarrow> if is_due now m then map_option im_id r = Some (im_id m) \<and> iq_timerlist iq' = ms
                  else r = None \<and> iq_timerlist iq' = m # ms
      | [] \<Rightarrow> r = None \<and> iq_timerlist iq' = []" by blast
  from sp(1) have g: "rtl_imsgGet now iq IMSG_TIMER = (r, iq')" by (simp add: rtl_imsgGet_def MsgGet_def split: option.split)
  show ?thesis
  proof (cases "dropWhile ?P ?ts")
    case Nil
    from g sp(2) sp(3) [unfolded Nil] show ?thesis unfolding Nil by simp
  next
    case (Cons m ms)
    with g sp(2,3) o1 [OF Cons] o2 [OF Cons] show ?thesis by (cases "is_due now m") simp_all
  qed
qed

definition timerIq :: t_iqmsg where
  "timerIq = sampleIq\<lparr>iq_timerlist := [sampleMsg\<lparr>im_id := 2, im_delayed := True, im_end := 3\<rparr>, sampleMsg\<lparr>im_timer := True, im_end := 4\<rparr>],
     iq_timercount := 2, iq_count := 2\<rparr>"

theorem get_timer_earliest_witness:
  "\<exists>r iq'. rtl_imsgGet (3, 999999999) timerIq IMSG_TIMER = (r, iq') \<and> map im_id (iq_msglist iq') = [2] \<and>
     r = None \<and> map im_id (iq_timerlist iq') = [1]"
proof -
  have "iq_ok timerIq" by (simp add: iq_ok_def timerIq_def sampleIq_def sampleMsg_def due_key_def)
  from get_timer_earliest [OF this, of "(3, 999999999)"] show ?thesis
    by (auto simp: timerIq_def sampleIq_def sampleMsg_def is_due_iff)
qed

end
