(* ===== verification/Uart_Buf.thy ===== *)
theory Uart_Buf
  imports Ong_Prelude
begin

unbundle bit_operations_syntax

section \<open>The UART buffer controller (AZAP/lib/uart\_buf\_control.c)\<close>

text \<open>
  The circular byte buffer between the TTY and the ZNP layer, and the incremental ZNP frame
  parser that drains it. \<open>uartBufControl_t\<close> keeps the struct's data members (its method
  pointers always hold the functions below). \<open>malloc\<close> is a parameter: the block it returned,
  \<open>None\<close> for \<open>NULL\<close>. The clock read by \<open>rtl_tmms\<close> is an argument.
  The abstract view is a byte queue: \<open>uart_contents\<close> is the queue, \<open>uart_wf\<close> the invariant,
  and the locale \<open>byte_fifo\<close> states the contract that the ring buffer implements.
\<close>

subsection \<open>Data\<close>

datatype znpMsgState_t =
    ST_WAITING_SOP | ST_WAITING_LEN | ST_WAITING_CMD0 | ST_WAITING_CMD1
  | ST_WAITING_DATA_AND_FCS

record uartBufControl_t =
  bufHead :: u16
  bufTail :: u16
  bufSize :: u16
  pBuffer :: "bytes option"
  statePending :: znpMsgState_t
  cmd0Pending :: u8
  cmd1Pending :: u8
  lenPending :: u8
  startDate :: int

definition MT_UART_SOF :: u8 where [const_defs]: "MT_UART_SOF = 0xFE"

subsection \<open>Constructors\<close>

definition uartBufControl_t_init :: uartBufControl_t where
  "uartBufControl_t_init =
     \<lparr>bufHead = 0, bufTail = 0, bufSize = 0, pBuffer = None, statePending = ST_WAITING_SOP,
      cmd0Pending = 0, cmd1Pending = 0, lenPending = 0, startDate = 0\<rparr>"

definition uartBufControl_t_create :: "u16 \<Rightarrow> (nat \<Rightarrow> bytes option) \<Rightarrow> uartBufControl_t" where
  "uartBufControl_t_create sz mal =
     (let s = sz + 1
      in uartBufControl_t_init\<lparr>bufSize := s, pBuffer := mal (unat s)\<rparr>)"

definition new_uartBufControl_t ::
    "u16 \<Rightarrow> bool \<Rightarrow> (nat \<Rightarrow> bytes option) \<Rightarrow> uartBufControl_t option" where
  "new_uartBufControl_t sz structAllocated mal =
     (if \<not> structAllocated then None
      else let s = sz + 1
           in Some (uartBufControl_t_init\<lparr>bufSize := s, pBuffer := mal (unat s)\<rparr>))"

subsection \<open>The circular buffer\<close>

definition uartBufControl_t_getBufferedSize :: "uartBufControl_t \<Rightarrow> u16" where
  "uartBufControl_t_getBufferedSize This =
     (let res = int (unat (bufTail This)) - int (unat (bufHead This))
      in word_of_int (if res < 0 then res + int (unat (bufSize This)) else res))"

definition uartBufControl_t_put ::
    "uartBufControl_t \<Rightarrow> u16 \<Rightarrow> bytes option \<Rightarrow> (u16 \<times> uartBufControl_t) exec" where
  "uartBufControl_t_put This len pData =
    (case pData of
       None \<Rightarrow> Some (0, This)
     | Some src \<Rightarrow>
         if len \<noteq> 0 \<and>
            int (unat len) \<le> int (unat (bufSize This))
                              - int (unat (uartBufControl_t_getBufferedSize This)) - 1
         then
           (if bufTail This < bufHead This \<or>
               int (unat len) \<le> int (unat (bufSize This)) - int (unat (bufTail This))
            then do {
              mem \<leftarrow> pBuffer This;
              d \<leftarrow> memread 0 (unat len) src;
              mem' \<leftarrow> memcpy_at (unat (bufTail This)) d mem;
              let t = bufTail This + len;
              Some (len, This\<lparr>pBuffer := Some mem',
                              bufTail := (if t = bufSize This then 0 else t)\<rparr>)
            }
            else do {
              mem \<leftarrow> pBuffer This;
              let l = bufSize This - bufTail This;
              d1 \<leftarrow> memread 0 (unat l) src;
              mem1 \<leftarrow> memcpy_at (unat (bufTail This)) d1 mem;
              d2 \<leftarrow> memread (unat l) (unat (len - l)) src;
              mem2 \<leftarrow> memcpy_at 0 d2 mem1;
              Some (len, This\<lparr>pBuffer := Some mem2, bufTail := len - l\<rparr>)
            })
         else Some (0, This))"

definition uartBufControl_t_get ::
    "uartBufControl_t \<Rightarrow> u16 \<Rightarrow> bytes option \<Rightarrow> (u16 \<times> uartBufControl_t \<times> bytes option) exec"
where
  "uartBufControl_t_get This len pData =
    (case pData of
       None \<Rightarrow> Some (0, This, None)
     | Some dst \<Rightarrow>
         if len \<noteq> 0 \<and> len \<le> uartBufControl_t_getBufferedSize This
         then
           (if bufHead This < bufTail This \<or>
               int (unat len) \<le> int (unat (bufSize This)) - int (unat (bufHead This))
            then do {
              mem \<leftarrow> pBuffer This;
              d \<leftarrow> memread (unat (bufHead This)) (unat len) mem;
              dst' \<leftarrow> memcpy_at 0 d dst;
              let h = bufHead This + len;
              Some (len, This\<lparr>bufHead := (if h = bufSize This then 0 else h)\<rparr>, Some dst')
            }
            else do {
              mem \<leftarrow> pBuffer This;
              let l = bufSize This - bufHead This;
              d1 \<leftarrow> memread (unat (bufHead This)) (unat l) mem;
              dst1 \<leftarrow> memcpy_at 0 d1 dst;
              d2 \<leftarrow> memread 0 (unat (len - l)) mem;
              dst2 \<leftarrow> memcpy_at (unat l) d2 dst1;
              Some (len, This\<lparr>bufHead := len - l\<rparr>, Some dst2)
            })
         else Some (0, This, Some dst))"

subsection \<open>Frame check sequence\<close>

definition isFcsValid :: "u8 \<Rightarrow> u8 \<Rightarrow> u8 \<Rightarrow> bytes \<Rightarrow> u8 \<Rightarrow> bool" where
  "isFcsValid len cmd0 cmd1 pData fcs =
     (foldl (\<lambda>f i. f XOR pData ! i) (len XOR cmd0 XOR cmd1) [0 ..< unat len] = fcs)"

subsection \<open>The ZNP frame parser\<close>

text \<open>What \<open>getNextZNPMsg\<close> gives back: the buffer, the by-reference outputs
  (\<open>None\<close> while the code has not written them), the message buffer, the result, and
  \<open>oFcsError\<close>: whether the wrong-FCS trace was emitted (the code's only use of the check).\<close>

record znpMsgOut =
  oThis :: uartBufControl_t
  oLenCmd :: "(u8 \<times> u8 \<times> u8) option"
  oData :: bytes
  oRes :: bool
  oFcsError :: bool

text \<open>One turn of the \<open>while\<close> loop: the new output and the \<open>stop\<close> flag. \<open>sofDate\<close> is the
  value \<open>rtl_tmms\<close> returns when a start-of-frame byte is read; the loop stops in
  \<open>ST_WAITING_DATA_AND_FCS\<close>, so this happens once per call at most.\<close>

definition getNextZNPMsg_turn :: "int \<Rightarrow> znpMsgOut \<Rightarrow> (znpMsgOut \<times> bool) exec" where
  "getNextZNPMsg_turn sofDate out =
    (let This = oThis out in
     case statePending This of
       ST_WAITING_SOP \<Rightarrow> do {
         (r, This', dst) \<leftarrow> uartBufControl_t_get This 1 (Some [0]);
         d \<leftarrow> dst;
         Some (if MT_UART_SOF = hd d
               then out\<lparr>oThis := This'\<lparr>startDate := sofDate, statePending := ST_WAITING_LEN\<rparr>\<rparr>
               else out\<lparr>oThis := This'\<rparr>, False)
       }
     | ST_WAITING_LEN \<Rightarrow> do {
         (r, This', dst) \<leftarrow> uartBufControl_t_get This 1 (Some [lenPending This]);
         d \<leftarrow> dst;
         Some (out\<lparr>oThis := This'\<lparr>lenPending := hd d, statePending := ST_WAITING_CMD0\<rparr>\<rparr>, False)
       }
     | ST_WAITING_CMD0 \<Rightarrow> do {
         (r, This', dst) \<leftarrow> uartBufControl_t_get This 1 (Some [cmd0Pending This]);
         d \<leftarrow> dst;
         Some (out\<lparr>oThis := This'\<lparr>cmd0Pending := hd d, statePending := ST_WAITING_CMD1\<rparr>\<rparr>, False)
       }
     | ST_WAITING_CMD1 \<Rightarrow> do {
         (r, This', dst) \<leftarrow> uartBufControl_t_get This 1 (Some [cmd1Pending This]);
         d \<leftarrow> dst;
         Some (out\<lparr>oThis := This'\<lparr>cmd1Pending := hd d,
                                statePending := ST_WAITING_DATA_AND_FCS\<rparr>\<rparr>, False)
       }
     | ST_WAITING_DATA_AND_FCS \<Rightarrow>
         if unat (uartBufControl_t_getBufferedSize This) \<ge> unat (lenPending This) + 1
         then do {
           (r1, This1, dst1) \<leftarrow> uartBufControl_t_get This (ucast (lenPending This)) (Some (oData out));
           d1 \<leftarrow> dst1;
           if r1 = ucast (lenPending This)
           then do {
             (r2, This2, dst2) \<leftarrow> uartBufControl_t_get This1 1 (Some [0]);
             d2 \<leftarrow> dst2;
             if r2 = 1
             then Some (out\<lparr>oThis := This2\<lparr>statePending := ST_WAITING_SOP\<rparr>,
                          oLenCmd := Some (lenPending This, cmd0Pending This, cmd1Pending This),
                          oData := d1, oRes := True,
                          oFcsError := \<not> isFcsValid (lenPending This) (cmd0Pending This)
                                          (cmd1Pending This) d1 (hd d2)\<rparr>, True)
             else Some (out\<lparr>oThis := This2, oData := d1\<rparr>, True)
           }
           else Some (out\<lparr>oThis := This1, oData := d1\<rparr>, True)
         }
         else Some (out, True))"

text \<open>The loop, with fuel; \<open>uartBufControl_t_getNextZNPMsg\<close> supplies one turn more than
  the buffered size, and \<open>getNextZNPMsg_loop_scan\<close> below shows that this is enough.\<close>

fun getNextZNPMsg_loop :: "nat \<Rightarrow> int \<Rightarrow> znpMsgOut \<Rightarrow> znpMsgOut exec" where
  "getNextZNPMsg_loop 0 sofDate out = None"
| "getNextZNPMsg_loop (Suc fuel) sofDate out =
     (if uartBufControl_t_getBufferedSize (oThis out) = 0 then Some out
      else (case getNextZNPMsg_turn sofDate out of
              None \<Rightarrow> None
            | Some (out', stop) \<Rightarrow> if stop then Some out' else getNextZNPMsg_loop fuel sofDate out'))"

definition uartBufControl_t_getNextZNPMsg ::
    "int \<Rightarrow> int \<Rightarrow> uartBufControl_t \<Rightarrow> bytes option \<Rightarrow> znpMsgOut exec" where
  "uartBufControl_t_getNextZNPMsg now sofDate This pMsgData =
     (let This' = (if statePending This \<noteq> ST_WAITING_SOP \<and> now - startDate This \<ge> 5000
                   then This\<lparr>statePending := ST_WAITING_SOP\<rparr> else This)
      in case pMsgData of
           None \<Rightarrow> Some \<lparr>oThis = This', oLenCmd = None, oData = [], oRes = False, oFcsError = False\<rparr>
         | Some d \<Rightarrow> getNextZNPMsg_loop (Suc (unat (uartBufControl_t_getBufferedSize This'))) sofDate
                       \<lparr>oThis = This', oLenCmd = None, oData = d, oRes = False, oFcsError = False\<rparr>)"

subsection \<open>Specification: a bounded byte queue\<close>

text \<open>The contract a client of the buffer relies on: a bounded first-in first-out queue of
  bytes whose \<open>put\<close> and \<open>get\<close> are all-or-nothing.\<close>

locale byte_fifo =
  fixes invar :: "'q \<Rightarrow> bool"
    and contents :: "'q \<Rightarrow> bytes"
    and capacity :: "'q \<Rightarrow> nat"
    and size_of :: "'q \<Rightarrow> u16"
    and put :: "'q \<Rightarrow> u16 \<Rightarrow> bytes option \<Rightarrow> (u16 \<times> 'q) exec"
    and get :: "'q \<Rightarrow> u16 \<Rightarrow> bytes option \<Rightarrow> (u16 \<times> 'q \<times> bytes option) exec"
  assumes size_of_contents: "invar q \<Longrightarrow> unat (size_of q) = length (contents q)"
    and contents_bounded: "invar q \<Longrightarrow> length (contents q) \<le> capacity q"
    and put_fits:
      "invar q \<Longrightarrow> 0 < unat len \<Longrightarrow> unat len \<le> length src \<Longrightarrow>
       length (contents q) + unat len \<le> capacity q \<Longrightarrow>
       \<exists>q'. put q len (Some src) = Some (len, q') \<and> invar q' \<and> capacity q' = capacity q \<and>
            contents q' = contents q @ take (unat len) src"
    and put_refused:
      "invar q \<Longrightarrow> capacity q < length (contents q) + unat len \<Longrightarrow>
       put q len (Some src) = Some (0, q)"
    and get_available:
      "invar q \<Longrightarrow> 0 < unat len \<Longrightarrow> unat len \<le> length (contents q) \<Longrightarrow>
       unat len \<le> length dst \<Longrightarrow>
       \<exists>q'. get q len (Some dst)
              = Some (len, q', Some (take (unat len) (contents q) @ drop (unat len) dst)) \<and>
            invar q' \<and> capacity q' = capacity q \<and> contents q' = drop (unat len) (contents q)"
    and get_short:
      "invar q \<Longrightarrow> length (contents q) < unat len \<Longrightarrow>
       get q len (Some dst) = Some (0, q, Some dst)"
begin

text \<open>Bytes put into an empty queue come back from one \<open>get\<close>, whatever was in the
  destination before.\<close>

lemma put_get:
  assumes "invar q" "contents q = []" "0 < unat len" "unat len \<le> length src"
    "unat len \<le> capacity q" "unat len \<le> length dst"
  shows "\<exists>q1 q2. put q len (Some src) = Some (len, q1) \<and>
           get q1 len (Some dst) = Some (len, q2, Some (take (unat len) src @ drop (unat len) dst)) \<and>
           contents q2 = [] \<and> invar q2"
proof -
  from put_fits [OF assms(1,3,4)] assms(2,5) obtain q1 where q1:
    "put q len (Some src) = Some (len, q1)" "invar q1" "contents q1 = take (unat len) src"
    by auto
  with assms(4) have "unat len \<le> length (contents q1)" by simp
  from get_available [OF q1(2) assms(3) this assms(6)] q1(3) assms(4) obtain q2 where
    "get q1 len (Some dst) = Some (len, q2, Some (take (unat len) src @ drop (unat len) dst))"
    "invar q2" "contents q2 = []" by auto
  with q1 show ?thesis by blast
qed

text \<open>Filling the queue chunk by chunk, as the TTY poll does, appends the chunks in order.\<close>

fun put_chunks :: "'q \<Rightarrow> bytes list \<Rightarrow> 'q exec" where
  "put_chunks q [] = Some q"
| "put_chunks q (c # cs) =
     (case put q (of_nat (length c)) (Some c) of
        None \<Rightarrow> None
      | Some (r, q') \<Rightarrow> put_chunks q' cs)"

lemma put_chunks_append:
  assumes "invar q" "\<forall>c \<in> set cs. 0 < length c \<and> length c < 65536"
    "length (contents q) + length (concat cs) \<le> capacity q"
  shows "\<exists>q'. put_chunks q cs = Some q' \<and> invar q' \<and> capacity q' = capacity q \<and>
              contents q' = contents q @ concat cs"
  using assms
proof (induction cs arbitrary: q)
  case Nil
  then show ?case by simp
next
  case (Cons c cs)
  then have len: "unat (of_nat (length c) :: u16) = length c"
    by (simp add: unat_of_nat_u16)
  from put_fits [OF Cons.prems(1), of "of_nat (length c)" c] Cons.prems(2,3) obtain q1 where
    q1: "put q (of_nat (length c)) (Some c) = Some (of_nat (length c), q1)" "invar q1"
      "capacity q1 = capacity q" "contents q1 = contents q @ c"
    by (auto simp: len)
  from Cons.IH [OF q1(2)] Cons.prems(2,3) q1(3,4) obtain q' where
    "put_chunks q1 cs = Some q'" "invar q'" "capacity q' = capacity q1"
    "contents q' = contents q1 @ concat cs" by auto
  with q1 show ?case by auto
qed

end

subsection \<open>The ring buffer implements the queue\<close>

definition ring :: "nat \<Rightarrow> nat \<Rightarrow> 'a list \<Rightarrow> 'a list" where
  "ring h t mem = (if h \<le> t then drop h (take t mem) else drop h mem @ take t mem)"

definition uart_contents :: "uartBufControl_t \<Rightarrow> bytes" where
  "uart_contents This =
     (case pBuffer This of None \<Rightarrow> []
      | Some mem \<Rightarrow> ring (unat (bufHead This)) (unat (bufTail This)) mem)"

definition uart_wf :: "uartBufControl_t \<Rightarrow> bool" where
  "uart_wf This =
     (case pBuffer This of None \<Rightarrow> False
      | Some mem \<Rightarrow> length mem = unat (bufSize This) \<and>
                    bufHead This < bufSize This \<and> bufTail This < bufSize This)"

definition uart_capacity :: "uartBufControl_t \<Rightarrow> nat" where
  "uart_capacity This = unat (bufSize This) - 1"

lemma uart_wfE:
  assumes "uart_wf This"
  obtains mem where "pBuffer This = Some mem" "length mem = unat (bufSize This)"
    "unat (bufHead This) < unat (bufSize This)" "unat (bufTail This) < unat (bufSize This)"
  using assms by (auto simp: uart_wf_def word_less_nat_alt split: option.splits)

lemma uart_wf_written:
  "length mem = unat (bufSize This) \<Longrightarrow> unat (bufHead This) < unat (bufSize This) \<Longrightarrow>
   unat t < unat (bufSize This) \<Longrightarrow> uart_wf (This\<lparr>pBuffer := Some mem, bufTail := t\<rparr>)"
  by (simp add: uart_wf_def word_less_nat_alt)

lemma length_ring:
  "h < length mem \<Longrightarrow> t < length mem \<Longrightarrow>
   length (ring h t mem) = (if h \<le> t then t - h else length mem - h + t)"
  by (simp add: ring_def)

lemma ring_distance:
  "h < s \<Longrightarrow> t < s \<Longrightarrow>
   (if int t - int h < 0 then int t - int h + int s else int t - int h)
     = int (if h \<le> t then t - h else s - h + t)"
  by auto

lemma unat_getBufferedSize:
  assumes "uart_wf This"
  shows "unat (uartBufControl_t_getBufferedSize This) = length (uart_contents This)"
proof -
  from assms obtain mem where m: "pBuffer This = Some mem" "length mem = unat (bufSize This)"
    "unat (bufHead This) < unat (bufSize This)" "unat (bufTail This) < unat (bufSize This)"
    by (rule uart_wfE)
  let ?h = "unat (bufHead This)" and ?t = "unat (bufTail This)" and ?s = "unat (bufSize This)"
  have s: "?s < 65536" by (rule unat_u16_bound)
  have "(if int ?t - int ?h < 0 then int ?t - int ?h + int ?s else int ?t - int ?h)
      = int (if ?h \<le> ?t then ?t - ?h else ?s - ?h + ?t)"
    using m(3,4) by (rule ring_distance)
  then have "uartBufControl_t_getBufferedSize This
      = of_nat (if ?h \<le> ?t then ?t - ?h else ?s - ?h + ?t)"
    unfolding uartBufControl_t_getBufferedSize_def Let_def by (simp only: of_int_of_nat_eq)
  moreover have "(if ?h \<le> ?t then ?t - ?h else ?s - ?h + ?t) < 65536"
    using m(3,4) s by auto
  ultimately show ?thesis
    using m by (simp add: uart_contents_def length_ring unat_of_nat_u16)
qed

text \<open>The three shapes of a write, on natural-number positions.\<close>

lemma ring_write_linear:
  assumes "h \<le> t" "t + length d \<le> length mem" "h < length mem" "t + length d = length mem \<Longrightarrow> 0 < h"
  shows "ring h (if t + length d = length mem then 0 else t + length d)
           (take t mem @ d @ drop (t + length d) mem) = ring h t mem @ d"
  using assms by (auto simp: ring_def)

lemma ring_write_below:
  assumes "t < h" "t + length d < h" "h < length mem"
  shows "ring h (t + length d) (take t mem @ d @ drop (t + length d) mem) = ring h t mem @ d"
  using assms by (auto simp: ring_def min_def)

lemma ring_write_wrapped:
  assumes "h \<le> t" "t < length mem" "length d1 = length mem - t" "length d2 < h"
  shows "ring h (length d2)
           (d2 @ drop (length d2) (take t mem @ d1)) = ring h t mem @ d1 @ d2"
  using assms by (auto simp: ring_def)

lemma ring_read_linear:
  assumes "h + n \<le> t" "t < length mem"
  shows "take n (drop h mem) = take n (ring h t mem)"
    and "ring (h + n) t mem = drop n (ring h t mem)"
proof -
  from assms have "h \<le> t" by simp
  then have r: "ring h t mem = take (t - h) (drop h mem)" by (simp add: ring_def drop_take)
  from assms show "take n (drop h mem) = take n (ring h t mem)" by (simp add: r min_def)
  from assms show "ring (h + n) t mem = drop n (ring h t mem)"
    by (simp add: ring_def add.commute)
qed

lemma ring_read_once:
  assumes "h < length mem" "t < length mem" "n \<le> length (ring h t mem)" "h + n \<le> length mem"
  shows "take n (drop h mem) = take n (ring h t mem)"
    and "ring (if h + n = length mem then 0 else h + n) t mem = drop n (ring h t mem)"
proof -
  have "take n (drop h mem) = take n (ring h t mem) \<and>
    ring (if h + n = length mem then 0 else h + n) t mem = drop n (ring h t mem)"
  proof (cases "h \<le> t")
    case True
    with assms have "h + n \<le> t" by (simp add: length_ring)
    with ring_read_linear [OF this assms(2)] assms(2) show ?thesis by simp
  next
    case False
    with assms(4) show ?thesis by (auto simp: ring_def add.commute)
  qed
  then show "take n (drop h mem) = take n (ring h t mem)"
    and "ring (if h + n = length mem then 0 else h + n) t mem = drop n (ring h t mem)" by auto
qed

lemma uart_contents_bounded: "uart_wf This \<Longrightarrow> length (uart_contents This) \<le> uart_capacity This"
  by (elim uart_wfE) (auto simp: uart_contents_def uart_capacity_def length_ring)

lemma uart_put_fits:
  assumes wf: "uart_wf This" and len: "0 < unat len" "unat len \<le> length src"
    and room: "length (uart_contents This) + unat len \<le> uart_capacity This"
  shows "\<exists>This'. uartBufControl_t_put This len (Some src) = Some (len, This') \<and> uart_wf This' \<and>
           uart_capacity This' = uart_capacity This \<and>
           uart_contents This' = uart_contents This @ take (unat len) src"
proof -
  from wf obtain mem where m: "pBuffer This = Some mem" "length mem = unat (bufSize This)"
    "unat (bufHead This) < unat (bufSize This)" "unat (bufTail This) < unat (bufSize This)"
    by (rule uart_wfE)
  let ?h = "unat (bufHead This)" and ?t = "unat (bufTail This)" and ?s = "unat (bufSize This)"
  let ?n = "unat len" and ?d = "take (unat len) src"
  have s: "?s < 65536" by (rule unat_u16_bound)
  have r: "length (ring ?h ?t mem) + ?n < ?s"
    using room m by (simp add: uart_capacity_def uart_contents_def)
  have guard: "len \<noteq> 0" "int ?n \<le> int ?s - int (unat (uartBufControl_t_getBufferedSize This)) - 1"
    using len(1) r m(1) by (auto simp: unat_getBufferedSize [OF wf] uart_contents_def)
  have rd: "memread 0 ?n src = Some ?d" using len(2) by (simp add: mem_simps)
  have dlen: "length ?d = ?n" using len(2) by simp
  show ?thesis
  proof (cases "bufTail This < bufHead This \<or> int ?n \<le> int ?s - int ?t")
    case True
    then have fit: "?t + ?n \<le> ?s"
      using r m by (auto simp: length_ring word_less_nat_alt)
    have ta: "unat (bufTail This + len) = (if ?t + ?n = 65536 then 0 else ?t + ?n)"
      using fit s by (simp add: unat_add_u16)
    let ?mem' = "take ?t mem @ ?d @ drop (?t + ?n) mem"
    let ?t' = "if bufTail This + len = bufSize This then 0 else bufTail This + len"
    have wr: "memcpy_at ?t ?d mem = Some ?mem'"
      using fit m(2) dlen by (simp add: memcpy_at_def)
    have t': "unat ?t' = (if ?t + ?n = ?s then 0 else ?t + ?n)"
      using fit s by (auto simp: word_eq_unat_iff unat_add_u16)
    have "uartBufControl_t_put This len (Some src)
        = Some (len, This\<lparr>pBuffer := Some ?mem', bufTail := ?t'\<rparr>)"
      unfolding uartBufControl_t_put_def using guard True m(1) rd wr by simp
    moreover have "uart_wf (This\<lparr>pBuffer := Some ?mem', bufTail := ?t'\<rparr>)"
      using m fit t' dlen by (auto simp: uart_wf_def word_less_nat_alt)
    moreover have "ring ?h (unat ?t') ?mem' = ring ?h ?t mem @ ?d"
    proof (cases "?h \<le> ?t")
      case True
      then show ?thesis unfolding t'
        using ring_write_linear [of ?h ?t ?d mem] fit m r dlen by (auto simp: length_ring)
    next
      case False
      then show ?thesis unfolding t'
        using ring_write_below [of ?t ?h ?d mem] m r dlen by (auto simp: length_ring)
    qed
    ultimately show ?thesis
      using m(1) by (simp add: uart_contents_def uart_capacity_def)
  next
    case False
    let ?l = "bufSize This - bufTail This"
    from False m have ord: "?h \<le> ?t" "?s < ?t + ?n" by (auto simp: word_less_nat_alt)
    have l: "unat ?l = ?s - ?t"
      using m(4) by (simp add: unat_sub_u16 word_le_nat_alt)
    have ll: "unat (len - ?l) = ?n - (?s - ?t)"
      using ord l by (simp add: unat_sub_u16 word_le_nat_alt)
    let ?d1 = "take (?s - ?t) src" and ?d2 = "take (?n - (?s - ?t)) (drop (?s - ?t) src)"
    have d: "?d1 @ ?d2 = ?d"
      using ord m(4) by (simp flip: take_add)
    have lens: "length ?d1 = ?s - ?t" "length ?d2 = ?n - (?s - ?t)"
      using ord m(4) len(2) by simp_all
    have small: "length ?d2 < ?h" using lens ord r m by (simp add: length_ring)
    have rd1: "memread 0 (unat ?l) src = Some ?d1"
      using l ord m(4) len(2) by (simp add: mem_simps)
    have rd2: "memread (unat ?l) (unat (len - ?l)) src = Some ?d2"
      unfolding l ll using ord m(4) len(2) by (simp add: mem_simps)
    have wr1: "memcpy_at ?t ?d1 mem = Some (take ?t mem @ ?d1)"
      using m lens by (simp add: memcpy_at_def)
    have wr2: "memcpy_at 0 ?d2 (take ?t mem @ ?d1)
        = Some (?d2 @ drop (length ?d2) (take ?t mem @ ?d1))"
      by (rule memcpy_at_0) (use m lens small ord in simp)
    let ?mem2 = "?d2 @ drop (length ?d2) (take ?t mem @ ?d1)"
    have "uartBufControl_t_put This len (Some src)
        = Some (len, This\<lparr>pBuffer := Some ?mem2, bufTail := len - ?l\<rparr>)"
      unfolding uartBufControl_t_put_def Let_def
      using guard False m(1) rd1 rd2 wr1 wr2 by simp
    moreover have "length ?mem2 = ?s"
      using length_memcpy_at [OF wr2] length_memcpy_at [OF wr1] m(2) by (simp only:)
    then have "uart_wf (This\<lparr>pBuffer := Some ?mem2, bufTail := len - ?l\<rparr>)"
      by (rule uart_wf_written [OF _ m(3)]) (use m(3) lens(2) small ll in linarith)
    moreover have "ring ?h (unat (len - ?l)) ?mem2 = ring ?h ?t mem @ ?d"
      using ring_write_wrapped [of ?h ?t mem ?d1 ?d2] ord m lens small ll d by simp
    ultimately show ?thesis
      using m(1) by (simp add: uart_contents_def uart_capacity_def)
  qed
qed

lemma uart_put_refused:
  assumes wf: "uart_wf This" and room: "uart_capacity This < length (uart_contents This) + unat len"
  shows "uartBufControl_t_put This len (Some src) = Some (0, This)"
  using room by (auto simp: uartBufControl_t_put_def unat_getBufferedSize [OF wf] uart_capacity_def)

lemma uart_get_available:
  assumes wf: "uart_wf This" and len: "0 < unat len" "unat len \<le> length (uart_contents This)"
    and room: "unat len \<le> length dst"
  shows "\<exists>h. uartBufControl_t_get This len (Some dst)
             = Some (len, This\<lparr>bufHead := h\<rparr>,
                     Some (take (unat len) (uart_contents This) @ drop (unat len) dst)) \<and>
           uart_wf (This\<lparr>bufHead := h\<rparr>) \<and>
           uart_contents (This\<lparr>bufHead := h\<rparr>) = drop (unat len) (uart_contents This)"
proof -
  from wf obtain mem where m: "pBuffer This = Some mem" "length mem = unat (bufSize This)"
    "unat (bufHead This) < unat (bufSize This)" "unat (bufTail This) < unat (bufSize This)"
    by (rule uart_wfE)
  let ?h = "unat (bufHead This)" and ?t = "unat (bufTail This)" and ?s = "unat (bufSize This)"
  let ?n = "unat len"
  have s: "?s < 65536" by (rule unat_u16_bound)
  have c: "uart_contents This = ring ?h ?t mem" using m(1) by (simp add: uart_contents_def)
  have n: "?n \<le> length (ring ?h ?t mem)" using len(2) c by simp
  have guard: "len \<noteq> 0 \<and> len \<le> uartBufControl_t_getBufferedSize This"
    using len by (auto simp: word_le_nat_alt unat_getBufferedSize [OF wf])
  show ?thesis
  proof (cases "bufHead This < bufTail This \<or> int ?n \<le> int ?s - int ?h")
    case True
    then have fit: "?h + ?n \<le> ?s"
      using n m by (auto simp: length_ring word_less_nat_alt)
    let ?d = "take ?n (drop ?h mem)"
    let ?h' = "if bufHead This + len = bufSize This then 0 else bufHead This + len"
    have h': "unat ?h' = (if ?h + ?n = ?s then 0 else ?h + ?n)"
      using fit s by (auto simp: word_eq_unat_iff unat_add_u16)
    have d: "?d = take ?n (ring ?h ?t mem)" "ring (unat ?h') ?t mem = drop ?n (ring ?h ?t mem)"
      unfolding h' using ring_read_once [of ?h mem ?t ?n] n fit m by simp_all
    have rd: "memread ?h ?n mem = Some ?d" using fit m(2) by (simp add: mem_simps)
    have "length ?d = ?n" using fit m(2) by simp
    then have wr: "memcpy_at 0 ?d dst = Some (?d @ drop ?n dst)"
      using memcpy_at_0 [of ?d dst] room by (simp only:)
    have "uartBufControl_t_get This len (Some dst)
        = Some (len, This\<lparr>bufHead := ?h'\<rparr>, Some (?d @ drop ?n dst))"
      unfolding uartBufControl_t_get_def using guard True m(1) rd wr by simp
    moreover have "uart_wf (This\<lparr>bufHead := ?h'\<rparr>)"
      using m fit h' by (auto simp: uart_wf_def word_less_nat_alt)
    ultimately show ?thesis
      using d m(1) unfolding c by (intro exI [of _ ?h']) (simp add: uart_contents_def)
  next
    case False
    then have ord: "?t \<le> ?h" "?s < ?h + ?n" by (auto simp: word_less_nat_alt)
    have lt: "?t < ?h" using ord n m by (cases "?t = ?h") (auto simp: length_ring)
    let ?l = "bufSize This - bufHead This"
    have l: "unat ?l = ?s - ?h" using m(3) by (simp add: unat_sub_u16 word_le_nat_alt)
    have ll: "unat (len - ?l) = ?n - (?s - ?h)"
      using ord l by (simp add: unat_sub_u16 word_le_nat_alt)
    let ?d1 = "drop ?h mem" and ?d2 = "take (?n - (?s - ?h)) mem"
    have small: "?n - (?s - ?h) \<le> ?t" using n lt m by (simp add: length_ring)
    have rc: "take ?n (ring ?h ?t mem) = ?d1 @ ?d2" "drop ?n (ring ?h ?t mem) = ring (unat (len - ?l)) ?t mem"
      unfolding ll using lt m ord small by (auto simp: ring_def min_def drop_take)
    have rd1: "memread ?h (unat ?l) mem = Some ?d1" using l m by (simp add: mem_simps)
    have rd2: "memread 0 (unat (len - ?l)) mem = Some ?d2"
      unfolding ll using small m by (simp add: mem_simps)
    have lens: "length ?d1 = ?s - ?h" "length ?d2 = ?n - (?s - ?h)" using m small by simp_all
    have "length ?d1 \<le> length dst" using lens room ord m by simp
    then have wr1: "memcpy_at 0 ?d1 dst = Some (?d1 @ drop (?s - ?h) dst)"
      using lens(1) by (simp add: memcpy_at_0)
    have wr2: "memcpy_at (unat ?l) ?d2 (?d1 @ drop (?s - ?h) dst)
        = Some (?d1 @ ?d2 @ drop ?n dst)"
      unfolding l memcpy_at_def using lens room ord m by simp
    have "uartBufControl_t_get This len (Some dst)
        = Some (len, This\<lparr>bufHead := len - ?l\<rparr>, Some (?d1 @ ?d2 @ drop ?n dst))"
      unfolding uartBufControl_t_get_def Let_def using guard False m(1) rd1 rd2 wr1 wr2 by simp
    moreover have "uart_wf (This\<lparr>bufHead := len - ?l\<rparr>)"
      using m small ll by (auto simp: uart_wf_def word_less_nat_alt)
    ultimately show ?thesis
      using rc m(1) unfolding c by (intro exI [of _ "len - ?l"]) (simp add: uart_contents_def)
  qed
qed

lemma uart_get_short:
  assumes wf: "uart_wf This" and "length (uart_contents This) < unat len"
  shows "uartBufControl_t_get This len (Some dst) = Some (0, This, Some dst)"
  using assms(2) by (auto simp: uartBufControl_t_get_def word_le_nat_alt unat_getBufferedSize [OF wf])

lemma uart_put_cases:
  assumes wf: "uart_wf This" and src: "unat len \<le> length src"
  shows "\<exists>r This'. uartBufControl_t_put This len (Some src) = Some (r, This') \<and> uart_wf This' \<and>
           (if length (uart_contents This) + unat len \<le> uart_capacity This
            then r = len \<and> uart_contents This' = uart_contents This @ take (unat len) src
            else r = 0 \<and> This' = This)"
proof -
  consider (zero) "len = 0" | (fits) "0 < unat len" "length (uart_contents This) + unat len \<le> uart_capacity This"
    | (full) "uart_capacity This < length (uart_contents This) + unat len"
    by (auto simp: unat_gt_0 not_less) (meson not_less)
  then show ?thesis
  proof cases
    case zero
    with wf show ?thesis by (simp add: uartBufControl_t_put_def)
  next
    case fits
    from uart_put_fits [OF wf fits(1) src fits(2)] fits(2) show ?thesis by auto
  next
    case full
    with uart_put_refused [OF wf full, of src] wf show ?thesis by simp
  qed
qed

interpretation uart: byte_fifo uart_wf uart_contents uart_capacity
  uartBufControl_t_getBufferedSize uartBufControl_t_put uartBufControl_t_get
proof (unfold_locales, goal_cases)
  case (1 q)
  then show ?case by (rule unat_getBufferedSize)
next
  case (2 q)
  then show ?case by (rule uart_contents_bounded)
next
  case (3 q len src)
  then show ?case by (rule uart_put_fits)
next
  case (4 q len src)
  then show ?case by (rule uart_put_refused)
next
  case (5 q len dst)
  then show ?case
    using uart_get_available [OF 5] by (auto simp: uart_capacity_def)
next
  case (6 q len dst)
  then show ?case by (rule uart_get_short)
qed

subsection \<open>The frame parser as a function of the byte stream\<close>

text \<open>The reference parser: from a pending state and a byte string, the new pending state, the
  bytes left, and the message extracted (length, commands, payload, received FCS).\<close>

type_synonym pending = "znpMsgState_t \<times> u8 \<times> u8 \<times> u8"
type_synonym znpMsg = "u8 \<times> u8 \<times> u8 \<times> bytes \<times> u8"

fun znp_scan :: "znpMsgState_t \<Rightarrow> u8 \<Rightarrow> u8 \<Rightarrow> u8 \<Rightarrow> bytes \<Rightarrow> pending \<times> bytes \<times> znpMsg option" where
  "znp_scan st l c0 c1 [] = ((st, l, c0, c1), [], None)"
| "znp_scan ST_WAITING_SOP l c0 c1 (b # bs) =
     (if b = MT_UART_SOF then znp_scan ST_WAITING_LEN l c0 c1 bs
      else znp_scan ST_WAITING_SOP l c0 c1 bs)"
| "znp_scan ST_WAITING_LEN l c0 c1 (b # bs) = znp_scan ST_WAITING_CMD0 b c0 c1 bs"
| "znp_scan ST_WAITING_CMD0 l c0 c1 (b # bs) = znp_scan ST_WAITING_CMD1 l b c1 bs"
| "znp_scan ST_WAITING_CMD1 l c0 c1 (b # bs) = znp_scan ST_WAITING_DATA_AND_FCS l c0 b bs"
| "znp_scan ST_WAITING_DATA_AND_FCS l c0 c1 (b # bs) =
     (if unat l < length (b # bs)
      then ((ST_WAITING_SOP, l, c0, c1), drop (unat l + 1) (b # bs),
            Some (l, c0, c1, take (unat l) (b # bs), (b # bs) ! unat l))
      else ((ST_WAITING_DATA_AND_FCS, l, c0, c1), b # bs, None))"

definition uart_pending :: "uartBufControl_t \<Rightarrow> pending" where
  "uart_pending This = (statePending This, lenPending This, cmd0Pending This, cmd1Pending This)"

definition uart_scan :: "uartBufControl_t \<Rightarrow> pending \<times> bytes \<times> znpMsg option" where
  "uart_scan This = znp_scan (statePending This) (lenPending This) (cmd0Pending This)
                      (cmd1Pending This) (uart_contents This)"

definition give_up_stale :: "int \<Rightarrow> uartBufControl_t \<Rightarrow> uartBufControl_t" where
  "give_up_stale now This =
     (if statePending This \<noteq> ST_WAITING_SOP \<and> now - startDate This \<ge> 5000
      then This\<lparr>statePending := ST_WAITING_SOP\<rparr> else This)"

text \<open>How an output of the code shows a result of the reference parser.\<close>

definition scan_shown :: "znpMsgOut \<Rightarrow> pending \<times> bytes \<times> znpMsg option \<Rightarrow> znpMsgOut \<Rightarrow> bool" where
  "scan_shown out r out' =
     (uart_wf (oThis out') \<and> uart_pending (oThis out') = fst r \<and>
      uart_contents (oThis out') = fst (snd r) \<and>
      bufSize (oThis out') = bufSize (oThis out) \<and>
      (case snd (snd r) of
         None \<Rightarrow> oRes out' = oRes out \<and> oLenCmd out' = oLenCmd out \<and> oData out' = oData out
       | Some (l, c0, c1, d, f) \<Rightarrow>
           oRes out' \<and> oLenCmd out' = Some (l, c0, c1) \<and>
           oData out' = d @ drop (length d) (oData out) \<and>
           oFcsError out' = (f \<noteq> l XOR c0 XOR c1 XOR xor_list d)))"

lemma uart_get_byte:
  assumes "uart_wf This" "uart_contents This = b # bs"
  shows "\<exists>h. uartBufControl_t_get This 1 (Some [x]) = Some (1, This\<lparr>bufHead := h\<rparr>, Some [b]) \<and>
             uart_wf (This\<lparr>bufHead := h\<rparr>) \<and> uart_contents (This\<lparr>bufHead := h\<rparr>) = bs"
  using uart_get_available [OF assms(1), of 1 "[x]"] assms(2) by simp

lemma uart_wf_upd [simp]:
  "uart_wf (This\<lparr>statePending := v\<rparr>) = uart_wf This"
  "uart_wf (This\<lparr>lenPending := l\<rparr>) = uart_wf This"
  "uart_wf (This\<lparr>cmd0Pending := c\<rparr>) = uart_wf This"
  "uart_wf (This\<lparr>cmd1Pending := c\<rparr>) = uart_wf This"
  "uart_wf (This\<lparr>startDate := d\<rparr>) = uart_wf This"
  by (simp_all add: uart_wf_def split: option.splits)

lemma uart_contents_upd [simp]:
  "uart_contents (This\<lparr>statePending := v\<rparr>) = uart_contents This"
  "uart_contents (This\<lparr>lenPending := l\<rparr>) = uart_contents This"
  "uart_contents (This\<lparr>cmd0Pending := c\<rparr>) = uart_contents This"
  "uart_contents (This\<lparr>cmd1Pending := c\<rparr>) = uart_contents This"
  "uart_contents (This\<lparr>startDate := d\<rparr>) = uart_contents This"
  by (simp_all add: uart_contents_def split: option.splits)

lemma isFcsValid_iff:
  assumes "unat len \<le> length d"
  shows "isFcsValid len c0 c1 d f = (f = len XOR c0 XOR c1 XOR xor_list (take (unat len) d))"
proof -
  have "foldl (\<lambda>f i. f XOR d ! i) a [0 ..< unat len]
      = foldl (\<lambda>f b. f XOR b) a (map ((!) d) [0 ..< unat len])" for a
    by (simp add: foldl_map)
  then have "foldl (\<lambda>f i. f XOR d ! i) a [0 ..< unat len] = a XOR xor_list (take (unat len) d)" for a
    using assms by (simp add: map_nth_upt_take foldl_xor_acc)
  then show ?thesis
    by (auto simp: isFcsValid_def xor.assoc)
qed

text \<open>The four header states: one byte is consumed and the scan goes on with the rest.\<close>

lemma turn_header:
  assumes "uart_wf (oThis out)" "uart_contents (oThis out) = b # bs"
    "statePending (oThis out) \<noteq> ST_WAITING_DATA_AND_FCS"
  shows "\<exists>out'. getNextZNPMsg_turn sd out = Some (out', False) \<and> uart_wf (oThis out') \<and>
           uart_contents (oThis out') = bs \<and> uart_scan (oThis out') = uart_scan (oThis out) \<and>
           bufSize (oThis out') = bufSize (oThis out) \<and>
           oRes out' = oRes out \<and> oLenCmd out' = oLenCmd out \<and> oData out' = oData out"
proof -
  from uart_get_byte [OF assms(1,2)] have g: "\<And>x. \<exists>h.
    uartBufControl_t_get (oThis out) 1 (Some [x]) = Some (1, (oThis out)\<lparr>bufHead := h\<rparr>, Some [b]) \<and>
    uart_wf ((oThis out)\<lparr>bufHead := h\<rparr>) \<and> uart_contents ((oThis out)\<lparr>bufHead := h\<rparr>) = bs" .
  show ?thesis
  proof (cases "statePending (oThis out)")
    case ST_WAITING_SOP
    with g [of 0] assms(2) show ?thesis
      by (auto simp: getNextZNPMsg_turn_def uart_scan_def Let_def)
  next
    case ST_WAITING_LEN
    with g [of "lenPending (oThis out)"] assms(2) show ?thesis
      by (auto simp: getNextZNPMsg_turn_def uart_scan_def Let_def)
  next
    case ST_WAITING_CMD0
    with g [of "cmd0Pending (oThis out)"] assms(2) show ?thesis
      by (auto simp: getNextZNPMsg_turn_def uart_scan_def Let_def)
  next
    case ST_WAITING_CMD1
    with g [of "cmd1Pending (oThis out)"] assms(2) show ?thesis
      by (auto simp: getNextZNPMsg_turn_def uart_scan_def Let_def)
  next
    case ST_WAITING_DATA_AND_FCS
    with assms(3) show ?thesis by simp
  qed
qed

text \<open>The last state: the message is extracted when its payload and FCS are buffered.\<close>

lemma turn_data_short:
  assumes "uart_wf (oThis out)" "statePending (oThis out) = ST_WAITING_DATA_AND_FCS"
    "length (uart_contents (oThis out)) \<le> unat (lenPending (oThis out))"
  shows "getNextZNPMsg_turn sd out = Some (out, True)"
  using assms by (simp add: getNextZNPMsg_turn_def unat_getBufferedSize)

lemma uart_get_len:
  assumes "uart_wf This" "unat l \<le> length (uart_contents This)" "unat l \<le> length dst"
  shows "\<exists>h. uartBufControl_t_get This l (Some dst)
             = Some (l, This\<lparr>bufHead := h\<rparr>,
                     Some (take (unat l) (uart_contents This) @ drop (unat l) dst)) \<and>
           uart_wf (This\<lparr>bufHead := h\<rparr>) \<and>
           uart_contents (This\<lparr>bufHead := h\<rparr>) = drop (unat l) (uart_contents This)"
proof (cases "l = 0")
  case True
  with assms(1) show ?thesis
    by (intro exI [of _ "bufHead This"]) (simp add: uartBufControl_t_get_def)
next
  case False
  then have "0 < unat l" by (simp add: unat_gt_0)
  from uart_get_available [OF assms(1) this assms(2,3)] show ?thesis .
qed

lemma turn_data_full:
  assumes wf: "uart_wf (oThis out)" and st: "statePending (oThis out) = ST_WAITING_DATA_AND_FCS"
    and n: "unat (lenPending (oThis out)) < length (uart_contents (oThis out))"
    and room: "255 \<le> length (oData out)"
  shows "\<exists>out'. getNextZNPMsg_turn sd out = Some (out', True) \<and>
           scan_shown out (uart_scan (oThis out)) out'"
proof -
  let ?T = "oThis out" let ?l = "lenPending ?T" let ?c = "uart_contents ?T"
  have l: "unat ?l \<le> length (oData out)" using room unat_u8_bound [of ?l] by simp
  from uart_get_len [OF wf, of "ucast ?l" "oData out"] n l obtain h1 where
    g1: "uartBufControl_t_get ?T (ucast ?l) (Some (oData out))
       = Some (ucast ?l, ?T\<lparr>bufHead := h1\<rparr>, Some (take (unat ?l) ?c @ drop (unat ?l) (oData out)))"
    "uart_wf (?T\<lparr>bufHead := h1\<rparr>)" "uart_contents (?T\<lparr>bufHead := h1\<rparr>) = drop (unat ?l) ?c" by auto
  from n have c: "uart_contents (?T\<lparr>bufHead := h1\<rparr>) = ?c ! unat ?l # drop (Suc (unat ?l)) ?c"
    unfolding g1(3) by (rule Cons_nth_drop_Suc [symmetric])
  from uart_get_byte [OF g1(2) c, of 0] obtain h2 where
    g2: "uartBufControl_t_get (?T\<lparr>bufHead := h1\<rparr>) 1 (Some [0])
       = Some (1, ?T\<lparr>bufHead := h2\<rparr>, Some [?c ! unat ?l])"
    "uart_wf (?T\<lparr>bufHead := h2\<rparr>)" "uart_contents (?T\<lparr>bufHead := h2\<rparr>) = drop (Suc (unat ?l)) ?c"
    by auto
  have fcs: "isFcsValid ?l a b (take (unat ?l) ?c @ drop (unat ?l) (oData out)) f
      = (f = ?l XOR a XOR b XOR xor_list (take (unat ?l) ?c))" for a b f
    using n l by (subst isFcsValid_iff) (simp_all add: min_def)
  obtain b bs where bc: "?c = b # bs" using n by (cases ?c) auto
  have sc: "uart_scan ?T = ((ST_WAITING_SOP, ?l, cmd0Pending ?T, cmd1Pending ?T),
      drop (Suc (unat ?l)) ?c, Some (?l, cmd0Pending ?T, cmd1Pending ?T, take (unat ?l) ?c, ?c ! unat ?l))"
    using n st unfolding uart_scan_def bc by simp
  have "length (take (unat ?l) ?c) = unat ?l" using n by simp
  then show ?thesis
    using g1 g2 n st unat_getBufferedSize [OF wf]
    by (simp add: getNextZNPMsg_turn_def Let_def sc scan_shown_def uart_pending_def fcs)
qed

lemma uart_scan_empty: "uart_contents This = [] \<Longrightarrow> uart_scan This = (uart_pending This, [], None)"
  by (simp add: uart_scan_def uart_pending_def)

lemma uart_scan_short:
  "statePending This = ST_WAITING_DATA_AND_FCS \<Longrightarrow>
   length (uart_contents This) \<le> unat (lenPending This) \<Longrightarrow>
   uart_scan This = (uart_pending This, uart_contents This, None)"
  by (cases "uart_contents This") (simp_all add: uart_scan_def uart_pending_def)

lemma buffered_0_iff: "uart_wf This \<Longrightarrow> uartBufControl_t_getBufferedSize This = 0 \<longleftrightarrow> uart_contents This = []"
  using unat_getBufferedSize [of This] by (auto simp: word_eq_unat_iff)

lemma getNextZNPMsg_loop_scan:
  assumes "uart_wf (oThis out)" "length (uart_contents (oThis out)) < fuel" "255 \<le> length (oData out)"
  shows "\<exists>out'. getNextZNPMsg_loop fuel sd out = Some out' \<and>
           scan_shown out (uart_scan (oThis out)) out'"
  using assms
proof (induction fuel arbitrary: out)
  case 0
  then show ?case by simp
next
  case (Suc fuel)
  note wf = Suc.prems(1) and room = Suc.prems(3)
  show ?case
  proof (cases "uart_contents (oThis out)")
    case Nil
    with wf show ?thesis by (simp add: buffered_0_iff uart_scan_empty scan_shown_def)
  next
    case (Cons b bs)
    with wf have nz: "uartBufControl_t_getBufferedSize (oThis out) \<noteq> 0" by (simp add: buffered_0_iff)
    consider (data) "statePending (oThis out) = ST_WAITING_DATA_AND_FCS"
      | (head) "statePending (oThis out) \<noteq> ST_WAITING_DATA_AND_FCS" by blast
    then show ?thesis
    proof cases
      case data
      show ?thesis
      proof (cases "unat (lenPending (oThis out)) < length (uart_contents (oThis out))")
        case True
        from turn_data_full [OF wf data True room, of sd] nz show ?thesis by auto
      next
        case False
        with turn_data_short [OF wf data, of sd] nz uart_scan_short [OF data] wf show ?thesis
          by (simp add: scan_shown_def)
      qed
    next
      case head
      from turn_header [OF wf Cons head, of sd] obtain out1 where o1:
        "getNextZNPMsg_turn sd out = Some (out1, False)" "uart_wf (oThis out1)"
        "uart_contents (oThis out1) = bs" "uart_scan (oThis out1) = uart_scan (oThis out)"
        "bufSize (oThis out1) = bufSize (oThis out)" "oRes out1 = oRes out"
        "oLenCmd out1 = oLenCmd out" "oData out1 = oData out" by blast
      have "length (uart_contents (oThis out1)) < fuel" using Suc.prems(2) Cons o1(3) by simp
      from Suc.IH [OF o1(2) this] room o1(8) obtain out' where
        "getNextZNPMsg_loop fuel sd out1 = Some out'" "scan_shown out1 (uart_scan (oThis out1)) out'"
        by auto
      with o1 nz show ?thesis by (auto simp: scan_shown_def split: option.splits)
    qed
  qed
qed

subsection \<open>The parser over a stream of reads\<close>

lemma znp_scan_shorter: "znp_scan st l c0 c1 bs = (p, r, Some m) \<Longrightarrow> length r < length bs"
  by (induction st l c0 c1 bs rule: znp_scan.induct) (auto split: if_splits)

lemma znp_scan_len: "znp_scan st l c0 c1 bs = (p, r, Some (l', c0', c1', d, f)) \<Longrightarrow> length d = unat l'"
  by (induction st l c0 c1 bs rule: znp_scan.induct) (auto split: if_splits)

lemma znp_scan_append_None:
  "znp_scan st l c0 c1 xs = ((st', l', c0', c1'), r, None) \<Longrightarrow>
   znp_scan st l c0 c1 (xs @ ys) = znp_scan st' l' c0' c1' (r @ ys)"
  by (induction st l c0 c1 xs rule: znp_scan.induct) (auto split: if_splits)

lemma znp_scan_append_Some:
  "znp_scan st l c0 c1 xs = (p, r, Some m) \<Longrightarrow> znp_scan st l c0 c1 (xs @ ys) = (p, r @ ys, Some m)"
  by (induction st l c0 c1 xs rule: znp_scan.induct) (auto split: if_splits simp: nth_append nth_Cons' take_Cons')

lemma znp_scan_None_again:
  "znp_scan st l c0 c1 xs = ((st', l', c0', c1'), r, None) \<Longrightarrow>
   znp_scan st' l' c0' c1' r = ((st', l', c0', c1'), r, None)"
  using znp_scan_append_None [of st l c0 c1 xs st' l' c0' c1' r "[]"] by simp

text \<open>All the messages of a byte string, with the pending state and the bytes left at its end.\<close>

function znp_stream :: "pending \<Rightarrow> bytes \<Rightarrow> pending \<times> bytes \<times> znpMsg list" where
  "znp_stream (st, l, c0, c1) bs =
     (case znp_scan st l c0 c1 bs of
        (p, r, None) \<Rightarrow> (p, r, [])
      | (p, r, Some m) \<Rightarrow> (case znp_stream p r of (p', r', ms) \<Rightarrow> (p', r', m # ms)))"
  by pat_completeness auto
termination
  by (relation "measure (\<lambda>(p, bs). length bs)") (auto dest: znp_scan_shorter [OF sym])

declare znp_stream.simps [simp del]

definition stream_msgs :: "pending \<Rightarrow> bytes \<Rightarrow> znpMsg list" where
  "stream_msgs p bs = snd (snd (znp_stream p bs))"

lemma stream_msgs_None:
  "znp_scan st l c0 c1 bs = (p', r, None) \<Longrightarrow> stream_msgs (st, l, c0, c1) bs = []"
  by (simp add: stream_msgs_def znp_stream.simps)

lemma stream_msgs_Some:
  "znp_scan st l c0 c1 bs = (p', r, Some m) \<Longrightarrow> stream_msgs (st, l, c0, c1) bs = m # stream_msgs p' r"
  by (simp add: stream_msgs_def znp_stream.simps split: prod.splits)

lemma stream_msgs_append_None:
  assumes "znp_scan st l c0 c1 bs = (p', r, None)"
  shows "stream_msgs (st, l, c0, c1) (bs @ ys) = stream_msgs p' (r @ ys)"
proof -
  obtain st' l' c0' c1' where p: "p' = (st', l', c0', c1')" by (cases p')
  from znp_scan_append_None [OF assms [unfolded p]] show ?thesis
    unfolding p by (simp add: stream_msgs_def znp_stream.simps)
qed

lemma stream_msgs_append_Some:
  "znp_scan st l c0 c1 bs = (p', r, Some m) \<Longrightarrow>
   stream_msgs (st, l, c0, c1) (bs @ ys) = m # stream_msgs p' (r @ ys)"
  by (rule stream_msgs_Some) (rule znp_scan_append_Some)

text \<open>The receive side as the port drives it: \<open>RxBytes\<close> is a read on the TTY followed by
  \<open>put\<close> (a chunk that does not fit is dropped), \<open>RxNext\<close> one call of \<open>getNextZNPMsg\<close> at the
  given clock values. The run gives the messages delivered, the bytes accepted and the buffer.\<close>

datatype rx_event = RxBytes bytes | RxNext int int

type_synonym rxMsg = "u8 \<times> u8 \<times> u8 \<times> bytes"

fun rx_run :: "uartBufControl_t \<Rightarrow> rx_event list \<Rightarrow> (rxMsg list \<times> bytes \<times> uartBufControl_t) exec" where
  "rx_run This [] = Some ([], [], This)"
| "rx_run This (RxBytes c # es) = do {
     (r, This') \<leftarrow> uartBufControl_t_put This (of_nat (length c)) (Some c);
     (ms, acc, This'') \<leftarrow> rx_run This' es;
     Some (ms, if r = 0 then acc else c @ acc, This'')
   }"
| "rx_run This (RxNext now sofDate # es) = do {
     out \<leftarrow> uartBufControl_t_getNextZNPMsg now sofDate This (Some (replicate 255 0));
     (ms, acc, This'') \<leftarrow> rx_run (oThis out) es;
     Some (case (oRes out, oLenCmd out) of
             (True, Some (l, c0, c1)) \<Rightarrow> (l, c0, c1, take (unat l) (oData out)) # ms
           | _ \<Rightarrow> ms, acc, This'')
   }"

fun znp_body :: "znpMsg \<Rightarrow> rxMsg" where
  "znp_body (l, c0, c1, d, f) = (l, c0, c1, d)"

fun rx_in_time :: "int \<Rightarrow> rx_event \<Rightarrow> bool" where
  "rx_in_time t0 (RxBytes c) = (length c < 65536)"
| "rx_in_time t0 (RxNext now sofDate) = (t0 \<le> sofDate \<and> now < t0 + 5000)"

text \<open>The start date of a pending frame is recent when every start-of-frame date was.\<close>

definition date_ok :: "int \<Rightarrow> uartBufControl_t \<Rightarrow> bool" where
  "date_ok t0 This = (statePending This = ST_WAITING_SOP \<or> t0 \<le> startDate This)"

lemma uart_get_frame:
  "uartBufControl_t_get This len d = Some (r, This', d') \<Longrightarrow> \<exists>h. This' = This\<lparr>bufHead := h\<rparr>"
  by (auto simp: uartBufControl_t_get_def Let_def split: option.splits if_splits bind_splits
        intro: exI [of _ "bufHead This"])

lemma uart_put_frame:
  "uartBufControl_t_put This len d = Some (r, This') \<Longrightarrow>
   uart_pending This' = uart_pending This \<and> startDate This' = startDate This"
  by (auto simp: uartBufControl_t_put_def uart_pending_def Let_def
        split: option.splits if_splits bind_splits)

lemma turn_date_ok:
  assumes "getNextZNPMsg_turn sd out = Some (out', stop)" "date_ok t0 (oThis out)" "t0 \<le> sd"
  shows "date_ok t0 (oThis out')"
  using assms
  by (auto simp: getNextZNPMsg_turn_def date_ok_def Let_def dest!: uart_get_frame
        split: znpMsgState_t.splits if_splits bind_splits)

lemma loop_date_ok:
  "getNextZNPMsg_loop fuel sd out = Some out' \<Longrightarrow> date_ok t0 (oThis out) \<Longrightarrow> t0 \<le> sd \<Longrightarrow>
   date_ok t0 (oThis out')"
  by (induction fuel sd out rule: getNextZNPMsg_loop.induct)
    (auto split: if_splits option.splits dest: turn_date_ok)

lemma getNextZNPMsg_scan:
  assumes "uart_wf This" "255 \<le> length d" "statePending This = ST_WAITING_SOP \<or> now < startDate This + 5000"
  shows "\<exists>out. uartBufControl_t_getNextZNPMsg now sd This (Some d) = Some out \<and>
           scan_shown \<lparr>oThis = This, oLenCmd = None, oData = d, oRes = False, oFcsError = False\<rparr>
             (uart_scan This) out \<and>
           (\<forall>t0 \<le> sd. date_ok t0 This \<longrightarrow> date_ok t0 (oThis out))"
proof -
  let ?out = "\<lparr>oThis = This, oLenCmd = None, oData = d, oRes = False, oFcsError = False\<rparr>"
  let ?fuel = "Suc (unat (uartBufControl_t_getBufferedSize This))"
  have "length (uart_contents This) < ?fuel" by (simp add: unat_getBufferedSize [OF assms(1)])
  with getNextZNPMsg_loop_scan [of ?out ?fuel sd] assms(1,2) obtain out where
    out: "getNextZNPMsg_loop ?fuel sd ?out = Some out" "scan_shown ?out (uart_scan This) out" by auto
  have "uartBufControl_t_getNextZNPMsg now sd This (Some d) = Some out"
    using out(1) assms(3) by (auto simp: uartBufControl_t_getNextZNPMsg_def Let_def)
  with out(2) loop_date_ok [OF out(1)] show ?thesis by auto
qed

lemma getNextZNPMsg_scan_stale:
  assumes "uart_wf This" "255 \<le> length d"
  shows "\<exists>out. uartBufControl_t_getNextZNPMsg now sd This (Some d) = Some out \<and>
           scan_shown \<lparr>oThis = give_up_stale now This, oLenCmd = None, oData = d, oRes = False,
                        oFcsError = False\<rparr>
             (uart_scan (give_up_stale now This)) out"
proof -
  let ?T0 = "give_up_stale now This"
  have "uart_wf ?T0" "statePending ?T0 = ST_WAITING_SOP \<or> now < startDate ?T0 + 5000"
    using assms(1) by (auto simp: give_up_stale_def)
  from getNextZNPMsg_scan [OF this(1) assms(2) this(2), of sd] obtain out where
    "uartBufControl_t_getNextZNPMsg now sd ?T0 (Some d) = Some out"
    "scan_shown \<lparr>oThis = ?T0, oLenCmd = None, oData = d, oRes = False, oFcsError = False\<rparr>
       (uart_scan ?T0) out" by blast
  moreover have "uartBufControl_t_getNextZNPMsg now sd ?T0 (Some d)
      = uartBufControl_t_getNextZNPMsg now sd This (Some d)"
    by (simp add: uartBufControl_t_getNextZNPMsg_def give_up_stale_def)
  ultimately show ?thesis by auto
qed

lemma getNextZNPMsg_stream:
  assumes "uart_wf This" "date_ok t0 This" "t0 \<le> sd" "now < t0 + 5000"
  shows "\<exists>out ms. uartBufControl_t_getNextZNPMsg now sd This (Some (replicate 255 0)) = Some out \<and>
     uart_wf (oThis out) \<and> date_ok t0 (oThis out) \<and> bufSize (oThis out) = bufSize This \<and>
     (case (oRes out, oLenCmd out) of
        (True, Some (l, c0, c1)) \<Rightarrow> [(l, c0, c1, take (unat l) (oData out))] | _ \<Rightarrow> []) = map znp_body ms \<and>
     ms = take 1 (stream_msgs (uart_pending This) (uart_contents This)) \<and>
     (\<forall>ys. stream_msgs (uart_pending This) (uart_contents This @ ys)
          = ms @ stream_msgs (uart_pending (oThis out)) (uart_contents (oThis out) @ ys))"
proof -
  from assms(2,4) have "statePending This = ST_WAITING_SOP \<or> now < startDate This + 5000"
    by (auto simp: date_ok_def)
  from getNextZNPMsg_scan [OF assms(1) _ this, of "replicate 255 0" sd] assms(2,3) obtain out where
    out: "uartBufControl_t_getNextZNPMsg now sd This (Some (replicate 255 0)) = Some out"
    "scan_shown \<lparr>oThis = This, oLenCmd = None, oData = replicate 255 0, oRes = False, oFcsError = False\<rparr>
       (uart_scan This) out" "date_ok t0 (oThis out)"
    by auto
  obtain p r om where sc: "uart_scan This = (p, r, om)" by (cases "uart_scan This")
  note sh = out(2) [unfolded sc scan_shown_def]
  show ?thesis
  proof (cases om)
    case None
    with sc have "\<forall>ys. stream_msgs (uart_pending This) (uart_contents This @ ys) = stream_msgs p (r @ ys)"
      unfolding uart_scan_def uart_pending_def by (blast intro: stream_msgs_append_None)
    moreover have "stream_msgs (uart_pending This) (uart_contents This) = []"
      using sc None unfolding uart_scan_def uart_pending_def by (blast intro: stream_msgs_None)
    ultimately show ?thesis using out sh None
      by (intro exI [of _ out] exI [of _ "[]"]) simp
  next
    case (Some m)
    obtain l c0 c1 d f where m: "m = (l, c0, c1, d, f)" by (cases m)
    from sc Some have "\<forall>ys. stream_msgs (uart_pending This) (uart_contents This @ ys) = m # stream_msgs p (r @ ys)"
      unfolding uart_scan_def uart_pending_def by (blast intro: stream_msgs_append_Some)
    moreover have "stream_msgs (uart_pending This) (uart_contents This) = m # stream_msgs p r"
      using sc Some unfolding uart_scan_def uart_pending_def by (blast intro: stream_msgs_Some)
    moreover have "length d = unat l"
      using sc Some m unfolding uart_scan_def by (auto dest: znp_scan_len)
    ultimately show ?thesis using out sh Some m
      by (intro exI [of _ out] exI [of _ "[m]"]) simp
  qed
qed

lemma rx_run_stream:
  assumes "uart_wf This" "date_ok t0 This" "\<forall>e \<in> set es. rx_in_time t0 e"
  shows "\<exists>ms acc This'. rx_run This es = Some (map znp_body ms, acc, This') \<and> uart_wf This' \<and> date_ok t0 This' \<and>
     stream_msgs (uart_pending This) (uart_contents This @ acc)
       = ms @ stream_msgs (uart_pending This') (uart_contents This')"
  using assms
proof (induction es arbitrary: This)
  case Nil
  then show ?case by auto
next
  case (Cons e es)
  show ?case
  proof (cases e)
    case (RxBytes c)
    have len: "unat (of_nat (length c) :: u16) = length c"
      using Cons.prems(3) RxBytes by (simp add: unat_of_nat_u16)
    then have z: "(of_nat (length c) = (0 :: u16)) = (c = [])"
      by (simp only: word_eq_unat_iff) simp
    from uart_put_cases [OF Cons.prems(1), of "of_nat (length c)" c] obtain r This1 where
      p: "uartBufControl_t_put This (of_nat (length c)) (Some c) = Some (r, This1)" "uart_wf This1"
      "uart_contents This1 = uart_contents This @ (if r = 0 then [] else c)"
      by (auto simp: len z split: if_splits)
    note fr = uart_put_frame [OF p(1)]
    have "date_ok t0 This1" using Cons.prems(2) fr by (simp add: date_ok_def uart_pending_def)
    from Cons.IH [OF p(2) this] Cons.prems(3) obtain ms acc This' where
      "rx_run This1 es = Some (map znp_body ms, acc, This')" "uart_wf This'" "date_ok t0 This'"
      "stream_msgs (uart_pending This1) (uart_contents This1 @ acc)
         = ms @ stream_msgs (uart_pending This') (uart_contents This')" by auto
    with p fr RxBytes show ?thesis by (auto split: if_splits)
  next
    case (RxNext now sd)
    with Cons.prems(3) have "t0 \<le> sd" "now < t0 + 5000" by simp_all
    from getNextZNPMsg_stream [OF Cons.prems(1,2) this] obtain out ms1 where g:
      "uartBufControl_t_getNextZNPMsg now sd This (Some (replicate 255 0)) = Some out"
      "uart_wf (oThis out)" "date_ok t0 (oThis out)"
      "(case (oRes out, oLenCmd out) of
        (True, Some (l, c0, c1)) \<Rightarrow> [(l, c0, c1, take (unat l) (oData out))] | _ \<Rightarrow> []) = map znp_body ms1"
      "\<And>ys. stream_msgs (uart_pending This) (uart_contents This @ ys)
          = ms1 @ stream_msgs (uart_pending (oThis out)) (uart_contents (oThis out) @ ys)" by blast
    from Cons.IH [OF g(2,3)] Cons.prems(3) obtain ms acc This' where ih:
      "rx_run (oThis out) es = Some (map znp_body ms, acc, This')" "uart_wf This'" "date_ok t0 This'"
      "stream_msgs (uart_pending (oThis out)) (uart_contents (oThis out) @ acc)
         = ms @ stream_msgs (uart_pending This') (uart_contents This')" by auto
    have "(case (oRes out, oLenCmd out) of
        (True, Some (l, c0, c1)) \<Rightarrow> (l, c0, c1, take (unat l) (oData out)) # map znp_body ms
        | _ \<Rightarrow> map znp_body ms) = map znp_body (ms1 @ ms)"
      using g(4) by (auto split: bool.splits option.splits prod.splits)
    with g ih RxNext show ?thesis by (intro exI [of _ "ms1 @ ms"]) auto
  qed
qed

lemma rx_run_append:
  "rx_run This (es @ fs) =
     (case rx_run This es of None \<Rightarrow> None | Some (ms, acc, This') \<Rightarrow>
        (case rx_run This' fs of None \<Rightarrow> None | Some (ms', acc', This'') \<Rightarrow> Some (ms @ ms', acc @ acc', This'')))"
proof (induction es arbitrary: This)
  case Nil
  then show ?case by (auto split: option.splits)
next
  case (Cons e es)
  then show ?case by (cases e) (auto split: option.splits bind_splits bool.splits)
qed

text \<open>A call of \<open>getNextZNPMsg\<close> never leaves a complete message behind: as many calls as there are
  messages in the buffer deliver them all.\<close>

lemma rx_run_drain:
  assumes "uart_wf This" "date_ok t0 This" "t0 \<le> sd" "now < t0 + 5000"
    "length (stream_msgs (uart_pending This) (uart_contents This)) \<le> n"
  shows "\<exists>This'. rx_run This (replicate n (RxNext now sd))
     = Some (map znp_body (stream_msgs (uart_pending This) (uart_contents This)), [], This')"
  using assms
proof (induction n arbitrary: This)
  case 0
  then show ?case by simp
next
  case (Suc n)
  from getNextZNPMsg_stream [OF Suc.prems(1-4)] obtain out ms1 where g:
    "uartBufControl_t_getNextZNPMsg now sd This (Some (replicate 255 0)) = Some out"
    "uart_wf (oThis out)" "date_ok t0 (oThis out)"
    "(case (oRes out, oLenCmd out) of
      (True, Some (l, c0, c1)) \<Rightarrow> [(l, c0, c1, take (unat l) (oData out))] | _ \<Rightarrow> []) = map znp_body ms1"
    "ms1 = take 1 (stream_msgs (uart_pending This) (uart_contents This))"
    "\<And>ys. stream_msgs (uart_pending This) (uart_contents This @ ys)
        = ms1 @ stream_msgs (uart_pending (oThis out)) (uart_contents (oThis out) @ ys)" by blast
  let ?s = "stream_msgs (uart_pending This) (uart_contents This)"
  let ?s' = "stream_msgs (uart_pending (oThis out)) (uart_contents (oThis out))"
  from g(6) [of "[]"] have s: "?s = ms1 @ ?s'" by simp
  have "length ms1 = min 1 (length ?s)" using g(5) by (metis length_take min.commute)
  moreover have "length ?s = length ms1 + length ?s'" unfolding s by (rule length_append)
  ultimately have "length ?s' \<le> n" using Suc.prems(5) by linarith
  from Suc.IH [OF g(2,3) Suc.prems(3,4) this] obtain This' where
    r: "rx_run (oThis out) (replicate n (RxNext now sd)) = Some (map znp_body ?s', [], This')" by blast
  have "(case (oRes out, oLenCmd out) of
      (True, Some (l, c0, c1)) \<Rightarrow> (l, c0, c1, take (unat l) (oData out)) # map znp_body ?s'
      | _ \<Rightarrow> map znp_body ?s') = map znp_body ?s"
    using g(4) unfolding s by (auto split: bool.splits option.splits prod.splits)
  with g(1) r show ?case by simp
qed

text \<open>A complete frame at the front of the stream is extracted whole.\<close>

lemma znp_scan_frame:
  assumes "length d < 256"
  shows "znp_scan ST_WAITING_SOP l0 a0 a1 (MT_UART_SOF # of_nat (length d) # c0 # c1 # d @ f # rest)
      = ((ST_WAITING_SOP, of_nat (length d), c0, c1), rest, Some (of_nat (length d), c0, c1, d, f))"
proof -
  have l: "unat (of_nat (length d) :: u8) = length d" using assms by (rule unat_of_nat_u8)
  obtain b bs where b: "d @ f # rest = b # bs" by (cases "d @ f # rest") auto
  have "length d < length (b # bs)" "drop (length d + 1) (b # bs) = rest"
    "take (length d) (b # bs) = d" "(b # bs) ! length d = f"
    unfolding b [symmetric] by simp_all
  then show ?thesis unfolding b by (simp add: l)
qed

subsection \<open>Properties\<close>

text \<open>A buffer of eight bytes that has already wrapped around, for the concrete instances.\<close>

definition sampleUart :: uartBufControl_t where
  "sampleUart = uartBufControl_t_init\<lparr>bufHead := 6, bufTail := 6, bufSize := 9,
                                      pBuffer := Some (replicate 9 0)\<rparr>"

lemma sampleUart_simps:
  "uart_wf sampleUart" "uart_contents sampleUart = []" "uart_capacity sampleUart = 8"
  "statePending sampleUart = ST_WAITING_SOP" "startDate sampleUart = 0"
  by (simp_all add: sampleUart_def uart_wf_def uart_contents_def uart_capacity_def ring_def
        uartBufControl_t_init_def)

text \<open>\<open>put\<close> is all or nothing and never touches memory outside the ring: it either
  appends exactly the given bytes to the queue, when they fit, or leaves the buffer as it is and
  returns 0. The buffer invariant is kept.\<close>

theorem put_all_or_nothing:
  assumes "uart_wf This" "unat len \<le> length src"
  shows "\<exists>r This'. uartBufControl_t_put This len (Some src) = Some (r, This') \<and> uart_wf This' \<and>
           (if length (uart_contents This) + unat len \<le> uart_capacity This
            then r = len \<and> uart_contents This' = uart_contents This @ take (unat len) src
            else r = 0 \<and> This' = This)"
  using assms by (rule uart_put_cases)

theorem put_all_or_nothing_witness:
  "\<exists>r T'. uartBufControl_t_put sampleUart 3 (Some [7, 8, 9]) = Some (r, T') \<and> uart_wf T' \<and>
     r = 3 \<and> uart_contents T' = [7, 8, 9]"
  using put_all_or_nothing [of sampleUart 3 "[7, 8, 9]"] by (simp add: sampleUart_simps)

text \<open>Bytes put into a drained buffer come back from \<open>get\<close>, in order and unchanged,
  wherever the head and the tail stand in the ring (the copy may wrap in both directions).\<close>

theorem put_get_roundtrip:
  assumes "uart_wf This" "uart_contents This = []" "0 < unat len" "unat len \<le> length src"
    "unat len \<le> uart_capacity This" "unat len \<le> length dst"
  shows "\<exists>T1 T2. uartBufControl_t_put This len (Some src) = Some (len, T1) \<and>
           uartBufControl_t_get T1 len (Some dst)
             = Some (len, T2, Some (take (unat len) src @ drop (unat len) dst)) \<and>
           uart_contents T2 = [] \<and> uart_wf T2"
  using assms by (rule uart.put_get)

theorem put_get_roundtrip_witness:
  "\<exists>T1 T2. uartBufControl_t_put sampleUart 3 (Some [7, 8, 9]) = Some (3, T1) \<and>
     uartBufControl_t_get T1 3 (Some [0, 0, 0, 0]) = Some (3, T2, Some [7, 8, 9, 0]) \<and>
     uart_contents T2 = [] \<and> uart_wf T2"
  using put_get_roundtrip [of sampleUart 3 "[7, 8, 9]" "[0, 0, 0, 0]"] by (simp add: sampleUart_simps)

text \<open>\<open>getNextZNPMsg\<close> always returns, stays inside its buffers, keeps the invariant and
  computes the reference parser: pending state, bytes left and message are those of
  \<open>znp_scan\<close> on the buffered bytes, restarted from \<open>ST_WAITING_SOP\<close> when the pending frame
  began 5 s ago or more.\<close>

theorem getNextZNPMsg_refines_scan:
  assumes "uart_wf This" "255 \<le> length d"
  shows "\<exists>out. uartBufControl_t_getNextZNPMsg now sd This (Some d) = Some out \<and>
           scan_shown \<lparr>oThis = give_up_stale now This, oLenCmd = None, oData = d, oRes = False,
                        oFcsError = False\<rparr>
             (uart_scan (give_up_stale now This)) out"
  using assms by (rule getNextZNPMsg_scan_stale)

theorem getNextZNPMsg_refines_scan_witness:
  "\<exists>out. uartBufControl_t_getNextZNPMsg 10 10 sampleUart (Some (replicate 255 0)) = Some out \<and>
     \<not> oRes out \<and> uart_wf (oThis out)"
  using getNextZNPMsg_refines_scan [of sampleUart "replicate 255 0" 10 10]
  by (auto simp: sampleUart_simps give_up_stale_def scan_shown_def uart_scan_def)

text \<open>C5: as long as every call of \<open>getNextZNPMsg\<close> comes within 5 s of the date \<open>t0\<close> of the earliest start
  of frame (so that no frame is given up), however the TTY cuts its bytes into reads, and however reads and
  calls interleave, the messages delivered are a prefix of the messages of the byte stream, and those
  still to come are the messages of what is buffered: none is lost, duplicated or reordered. The byte stream
  is what was buffered followed by the reads that the buffer had room for (\<open>acc\<close>; a read that does not fit is
  dropped whole). As many further calls as there are messages buffered deliver all of them.\<close>

theorem rx_run_delivers_stream:
  assumes "uart_wf This" "date_ok t0 This" "\<forall>e \<in> set es. rx_in_time t0 e"
  shows "\<exists>ms acc This'. rx_run This es = Some (ms, acc, This') \<and> uart_wf This' \<and>
     map znp_body (stream_msgs (uart_pending This) (uart_contents This @ acc))
       = ms @ map znp_body (stream_msgs (uart_pending This') (uart_contents This')) \<and>
     (\<forall>n now sd. rx_in_time t0 (RxNext now sd) \<longrightarrow>
        length (stream_msgs (uart_pending This') (uart_contents This')) \<le> n \<longrightarrow>
        (\<exists>This''. rx_run This (es @ replicate n (RxNext now sd))
           = Some (map znp_body (stream_msgs (uart_pending This) (uart_contents This @ acc)), acc, This'')))"
proof -
  from rx_run_stream [OF assms] obtain ms acc This' where
    r: "rx_run This es = Some (map znp_body ms, acc, This')" "uart_wf This'" "date_ok t0 This'"
      "stream_msgs (uart_pending This) (uart_contents This @ acc)
       = ms @ stream_msgs (uart_pending This') (uart_contents This')" by blast
  have "\<exists>This''. rx_run This (es @ replicate n (RxNext now sd))
           = Some (map znp_body (stream_msgs (uart_pending This) (uart_contents This @ acc)), acc, This'')"
    if "rx_in_time t0 (RxNext now sd)" "length (stream_msgs (uart_pending This') (uart_contents This')) \<le> n" for n now sd
    using rx_run_drain [OF r(2,3) _ _ that(2), of sd now] that(1) r(1,4) by (auto simp: rx_run_append)
  with r show ?thesis by auto
qed

definition sampleRx :: uartBufControl_t where
  "sampleRx = uartBufControl_t_init\<lparr>bufHead := 6, bufTail := 6, bufSize := 8, pBuffer := Some (replicate 8 0)\<rparr>"

theorem rx_run_delivers_stream_witness:
  "\<exists>T'. rx_run sampleRx ([RxBytes [7, 0xFE, 1], RxNext 10 10, RxBytes [0x61, 2, 9, 0x6A]] @ replicate 1 (RxNext 12 12))
     = Some ([(1, 0x61, 2, [9])], [7, 0xFE, 1, 0x61, 2, 9, 0x6A], T')"
proof -
  let ?es = "[RxBytes [7, 0xFE, 1], RxNext 10 10, RxBytes [0x61, 2, 9, 0x6A]]"
  have wf: "uart_wf sampleRx" "date_ok 0 sampleRx" "\<forall>e \<in> set ?es. rx_in_time 0 e"
    by (simp_all add: sampleRx_def uart_wf_def uartBufControl_t_init_def date_ok_def)
  have run: "map_option (\<lambda>(ms, acc, T). (ms, acc, uart_pending T, uart_contents T)) (rx_run sampleRx ?es)
      = Some ([], [7, 0xFE, 1, 0x61, 2, 9, 0x6A], (ST_WAITING_CMD0, 1, 0, 0), [0x61, 2, 9, 0x6A])" by code_simp
  have sc: "znp_scan ST_WAITING_SOP 0 0 0 [7, 0xFE, 1, 0x61, 2, 9, 0x6A]
      = ((ST_WAITING_SOP, 1, 0x61, 2), [], Some (1, 0x61, 2, [9], 0x6A))"
    "znp_scan ST_WAITING_CMD0 1 0 0 [0x61, 2, 9, 0x6A] = ((ST_WAITING_SOP, 1, 0x61, 2), [], Some (1, 0x61, 2, [9], 0x6A))"
    "znp_scan ST_WAITING_SOP 1 0x61 2 [] = ((ST_WAITING_SOP, 1, 0x61, 2), [], None)"
    by (simp_all add: MT_UART_SOF_def)
  have "uart_pending sampleRx = (ST_WAITING_SOP, 0, 0, 0)" "uart_contents sampleRx = []"
    by (simp_all add: sampleRx_def uartBufControl_t_init_def uart_pending_def uart_contents_def ring_def)
  with stream_msgs_Some [OF sc(1)] stream_msgs_Some [OF sc(2)] stream_msgs_None [OF sc(3)]
  have st: "stream_msgs (uart_pending sampleRx) (uart_contents sampleRx @ [7, 0xFE, 1, 0x61, 2, 9, 0x6A]) = [(1, 0x61, 2, [9], 0x6A)]"
    "stream_msgs (ST_WAITING_CMD0, 1, 0, 0) [0x61, 2, 9, 0x6A] = [(1, 0x61, 2, [9], 0x6A)]"
    by simp_all
  from run obtain T where T: "rx_run sampleRx ?es = Some ([], [7, 0xFE, 1, 0x61, 2, 9, 0x6A], T)"
    "uart_pending T = (ST_WAITING_CMD0, 1, 0, 0)" "uart_contents T = [0x61, 2, 9, 0x6A]" by auto
  obtain ms acc This' where r: "rx_run sampleRx ?es = Some (ms, acc, This')"
    "\<forall>n now sd. rx_in_time 0 (RxNext now sd) \<longrightarrow>
        length (stream_msgs (uart_pending This') (uart_contents This')) \<le> n \<longrightarrow>
        (\<exists>This''. rx_run sampleRx (?es @ replicate n (RxNext now sd))
           = Some (map znp_body (stream_msgs (uart_pending sampleRx) (uart_contents sampleRx @ acc)), acc, This''))"
    using rx_run_delivers_stream [OF wf] by blast
  from r(1) T(1) have e: "acc = [7, 0xFE, 1, 0x61, 2, 9, 0x6A]" "This' = T" by simp_all
  have "rx_in_time 0 (RxNext 12 12)" "length (stream_msgs (uart_pending T) (uart_contents T)) \<le> 1"
    by (simp_all add: T(2,3) st(2))
  with r(2) [unfolded e] have "\<exists>T'. rx_run sampleRx (?es @ replicate 1 (RxNext 12 12))
     = Some (map znp_body (stream_msgs (uart_pending sampleRx) (uart_contents sampleRx @ [7, 0xFE, 1, 0x61, 2, 9, 0x6A])),
         [7, 0xFE, 1, 0x61, 2, 9, 0x6A], T')" by blast
  then show ?thesis unfolding st(1) by simp
qed

text \<open>The frame check sequence does not protect the caller: a complete frame whose FCS is
  wrong is traced, then delivered as any other message.\<close>

theorem wrong_fcs_delivered:
  assumes "uart_wf This" "255 \<le> length dst" "statePending This = ST_WAITING_SOP"
    "uart_contents This = MT_UART_SOF # of_nat (length d) # c0 # c1 # d @ f # rest"
    "length d < 256" "f \<noteq> of_nat (length d) XOR c0 XOR c1 XOR xor_list d"
  shows "\<exists>out. uartBufControl_t_getNextZNPMsg now sd This (Some dst) = Some out \<and> oRes out \<and>
           oLenCmd out = Some (of_nat (length d), c0, c1) \<and> take (length d) (oData out) = d \<and>
           oFcsError out \<and> uart_contents (oThis out) = rest"
proof -
  have sc: "uart_scan This = ((ST_WAITING_SOP, of_nat (length d), c0, c1), rest,
      Some (of_nat (length d), c0, c1, d, f))"
    using assms(3,4) by (simp only: uart_scan_def znp_scan_frame [OF assms(5)])
  from getNextZNPMsg_scan [OF assms(1,2), of now sd] assms(3) obtain out where
    "uartBufControl_t_getNextZNPMsg now sd This (Some dst) = Some out"
    "scan_shown \<lparr>oThis = This, oLenCmd = None, oData = dst, oRes = False, oFcsError = False\<rparr>
       (uart_scan This) out" by auto
  with sc assms(6) show ?thesis by (auto simp: scan_shown_def)
qed

theorem wrong_fcs_delivered_witness:
  "\<exists>out. uartBufControl_t_getNextZNPMsg 10 10
      (sampleUart\<lparr>pBuffer := Some [1, 5, 5, 5, 5, 5, 0xFE, 0, 0x41], bufTail := 2\<rparr>)
      (Some (replicate 255 0)) = Some out \<and> oRes out \<and> oLenCmd out = Some (0, 0x41, 1) \<and> oFcsError out"
  using wrong_fcs_delivered [of "sampleUart\<lparr>pBuffer := Some [1, 5, 5, 5, 5, 5, 0xFE, 0, 0x41], bufTail := 2\<rparr>"
      "replicate 255 0" "[]" "0x41" 1 5 "[]" 10 10]
  by (auto simp: sampleUart_def uartBufControl_t_init_def uart_wf_def uart_contents_def ring_def MT_UART_SOF_def)

end
