(* ===== verification/Format_Znp.thy ===== *)
theory Format_Znp
  imports Uart_Buf
begin

unbundle bit_operations_syntax

section \<open>ZNP frames and field codecs (AZAP/lib/format\_znp*.c)\<close>

text \<open>
  The field parsers and formatters shared by all ZNP messages, the frame builder \<open>znpSend\<close>, and
  the SYS and ZDO senders of format\_znp\_sys.c and format\_znp\_zdo.c. A parse cursor is the
  pointer passed by reference (the bytes from it on, \<open>None\<close> when the reference is \<open>NULL\<close>) with
  the remaining length; a write cursor is a destination array with the write position (\<open>None\<close>
  when the pointer, or the reference to it, is \<open>NULL\<close>). The outcome of \<open>malloc\<close> is an argument.
\<close>

named_theorems parse_simps \<open>evaluation of the field parsers on long enough data\<close>

subsection \<open>Byte macros\<close>

definition LO_UINT16 :: "u16 \<Rightarrow> u8" where "LO_UINT16 a = ucast (a AND 0xFF)"
definition HI_UINT16 :: "u16 \<Rightarrow> u8" where "HI_UINT16 a = ucast (drop_bit 8 a AND 0xFF)"

definition BUILD_UINT16 :: "u8 \<Rightarrow> u8 \<Rightarrow> u16" where
  "BUILD_UINT16 lo hi = (ucast lo AND 0x00FF) + push_bit 8 (ucast hi AND 0x00FF)"

definition BUILD_UINT32 :: "u8 \<Rightarrow> u8 \<Rightarrow> u8 \<Rightarrow> u8 \<Rightarrow> u32" where
  "BUILD_UINT32 b0 b1 b2 b3 =
     (ucast b0 AND 0x00FF) + push_bit 8 (ucast b1 AND 0x00FF)
     + push_bit 16 (ucast b2 AND 0x00FF) + push_bit 24 (ucast b3 AND 0x00FF)"

definition MAX_ZNP_PAYLOAD_SIZE :: nat where [const_defs]: "MAX_ZNP_PAYLOAD_SIZE = 255"
definition IEEE_ADDR_LEN :: nat where [const_defs]: "IEEE_ADDR_LEN = 8"

definition MT_SYS_NV_READ_SREQ :: u16 where [const_defs]: "MT_SYS_NV_READ_SREQ = 0x0821"
definition MT_SYS_NV_WRITE_SREQ :: u16 where [const_defs]: "MT_SYS_NV_WRITE_SREQ = 0x0921"
definition MT_ZDO_MSG_CB_REGISTER_SREQ :: u16 where [const_defs]: "MT_ZDO_MSG_CB_REGISTER_SREQ = 0x3E25"

subsection \<open>Parsing tools\<close>

definition parseUint8AndShift :: "bytes option \<Rightarrow> u8 \<Rightarrow> (u8 \<times> bytes option \<times> u8) exec" where
  "parseUint8AndShift data remainingLen =
     (case data of
        None \<Rightarrow> Some (0, None, remainingLen)
      | Some p \<Rightarrow>
          if remainingLen < 1 then Some (0, Some p, remainingLen)
          else do {
            res \<leftarrow> idx p 0;
            Some (res, Some (drop 1 p), remainingLen - 1)
          })"

definition parseUint16AndShift :: "bytes option \<Rightarrow> u8 \<Rightarrow> (u16 \<times> bytes option \<times> u8) exec" where
  "parseUint16AndShift data remainingLen =
     (case data of
        None \<Rightarrow> Some (0, None, remainingLen)
      | Some p \<Rightarrow>
          if remainingLen < 2 then Some (0, Some p, remainingLen)
          else do {
            b0 \<leftarrow> idx p 0;
            b1 \<leftarrow> idx p 1;
            Some ((0x00FF AND ucast b0) + push_bit 8 (0x00FF AND ucast b1),
                  Some (drop 2 p), remainingLen - 2)
          })"

text \<open>The local that holds the result of \<open>parseUint32AndShift\<close> is an \<open>azap_uint16\<close>.\<close>

definition parseUint32AndShift :: "bytes option \<Rightarrow> u8 \<Rightarrow> (u32 \<times> bytes option \<times> u8) exec" where
  "parseUint32AndShift data remainingLen =
     (case data of
        None \<Rightarrow> Some (0, None, remainingLen)
      | Some p \<Rightarrow>
          if remainingLen < 4 then Some (0, Some p, remainingLen)
          else do {
            b0 \<leftarrow> idx p 0;
            b1 \<leftarrow> idx p 1;
            b2 \<leftarrow> idx p 2;
            b3 \<leftarrow> idx p 3;
            let res = (ucast (BUILD_UINT32 b0 b1 b2 b3) :: u16);
            Some (ucast res, Some (drop 4 p), remainingLen - 4)
          })"

definition parseExtAddrAndShift ::
    "bytes option \<Rightarrow> bytes option \<Rightarrow> u8 \<Rightarrow> (bytes option \<times> bytes option \<times> u8) exec" where
  "parseExtAddrAndShift extAddr data remainingLen =
     (case (data, extAddr) of
        (Some p, Some dst) \<Rightarrow>
          if remainingLen < 8 then Some (extAddr, data, remainingLen)
          else do {
            d \<leftarrow> memread 0 IEEE_ADDR_LEN p;
            dst' \<leftarrow> memcpy_at 0 d dst;
            Some (Some dst', Some (drop IEEE_ADDR_LEN p), remainingLen - of_nat IEEE_ADDR_LEN)
          }
      | _ \<Rightarrow> Some (extAddr, data, remainingLen))"

text \<open>The loops that fill an array: \<open>n\<close> elements still to read.\<close>

fun parse_loop ::
    "(bytes option \<Rightarrow> u8 \<Rightarrow> ('a \<times> bytes option \<times> u8) exec) \<Rightarrow> nat \<Rightarrow> bytes option \<Rightarrow> u8 \<Rightarrow>
     ('a list \<times> bytes option \<times> u8) exec" where
  "parse_loop f 0 data len = Some ([], data, len)"
| "parse_loop f (Suc n) data len = do {
     (x, data1, len1) \<leftarrow> f data len;
     (xs, data2, len2) \<leftarrow> parse_loop f n data1 len1;
     Some (x # xs, data2, len2)
   }"

definition parseUint8ArrayAndShift ::
    "bool \<Rightarrow> bytes option \<Rightarrow> u8 \<Rightarrow> u8 \<Rightarrow> (bytes option \<times> bytes option \<times> u8) exec" where
  "parseUint8ArrayAndShift mallocOk data num remainingLen =
     (if num = 0 then Some (None, data, remainingLen)
      else case data of
        None \<Rightarrow> Some (None, data, remainingLen)
      | Some p \<Rightarrow>
          if unat remainingLen < unat num * 1 then Some (None, data, remainingLen)
          else if \<not> mallocOk then None
          else do {
            (res, data', len') \<leftarrow> parse_loop parseUint8AndShift (unat num) data remainingLen;
            Some (Some res, data', len')
          })"

definition parseUint16ArrayAndShift ::
    "bool \<Rightarrow> bytes option \<Rightarrow> u8 \<Rightarrow> u8 \<Rightarrow> (u16 list option \<times> bytes option \<times> u8) exec" where
  "parseUint16ArrayAndShift mallocOk data num remainingLen =
     (if num = 0 then Some (None, data, remainingLen)
      else case data of
        None \<Rightarrow> Some (None, data, remainingLen)
      | Some p \<Rightarrow>
          if unat remainingLen < unat num * 2 then Some (None, data, remainingLen)
          else if \<not> mallocOk then None
          else do {
            (res, data', len') \<leftarrow> parse_loop parseUint16AndShift (unat num) data remainingLen;
            Some (Some res, data', len')
          })"

subsection \<open>Formatting tools\<close>

type_synonym wcursor = "(bytes \<times> nat) option"

definition azap_uint8CpyPayloadAndShift :: "u8 \<Rightarrow> wcursor \<Rightarrow> wcursor exec" where
  "azap_uint8CpyPayloadAndShift val dataPtr =
     (case dataPtr of
        None \<Rightarrow> Some None
      | Some (buf, pos) \<Rightarrow> do {
          buf' \<leftarrow> memcpy_at pos [val] buf;
          Some (Some (buf', pos + 1))
        })"

definition azap_uint8ArrayCpyPayloadAndShift :: "bytes option \<Rightarrow> u8 \<Rightarrow> wcursor \<Rightarrow> wcursor exec" where
  "azap_uint8ArrayCpyPayloadAndShift val num dataPtr =
     (case (dataPtr, val) of
        (Some (buf, pos), Some v) \<Rightarrow>
          if num = 0 then Some dataPtr
          else do {
            d \<leftarrow> memread 0 (unat num) v;
            buf' \<leftarrow> memcpy_at pos d buf;
            Some (Some (buf', pos + unat num))
          }
      | _ \<Rightarrow> Some dataPtr)"

definition azap_uint16CpyPayloadAndShift :: "u16 \<Rightarrow> wcursor \<Rightarrow> wcursor exec" where
  "azap_uint16CpyPayloadAndShift val dataPtr =
     (case dataPtr of
        None \<Rightarrow> Some None
      | Some (buf, pos) \<Rightarrow> do {
          buf1 \<leftarrow> memcpy_at pos [LO_UINT16 val] buf;
          buf2 \<leftarrow> memcpy_at (pos + 1) [HI_UINT16 val] buf1;
          Some (Some (buf2, pos + 2))
        })"

fun cpy16_loop :: "u16 list \<Rightarrow> wcursor \<Rightarrow> wcursor exec" where
  "cpy16_loop [] dataPtr = Some dataPtr"
| "cpy16_loop (v # vs) dataPtr = do {
     dataPtr' \<leftarrow> azap_uint16CpyPayloadAndShift v dataPtr;
     cpy16_loop vs dataPtr'
   }"

definition azap_uint16ArrayCpyPayloadAndShift :: "u16 list option \<Rightarrow> u8 \<Rightarrow> wcursor \<Rightarrow> wcursor exec" where
  "azap_uint16ArrayCpyPayloadAndShift val num dataPtr =
     (case (dataPtr, val) of
        (Some _, Some v) \<Rightarrow>
          if num = 0 then Some dataPtr
          else do {
            vs \<leftarrow> memread 0 (unat num) v;
            cpy16_loop vs dataPtr
          }
      | _ \<Rightarrow> Some dataPtr)"

definition azap_extAddrCpyPayloadAndShift :: "bytes option \<Rightarrow> wcursor \<Rightarrow> wcursor exec" where
  "azap_extAddrCpyPayloadAndShift val dataPtr =
     (case (dataPtr, val) of
        (Some (buf, pos), Some v) \<Rightarrow> do {
          d \<leftarrow> memread 0 IEEE_ADDR_LEN v;
          buf' \<leftarrow> memcpy_at pos d buf;
          Some (Some (buf', pos + IEEE_ADDR_LEN))
        }
      | _ \<Rightarrow> Some dataPtr)"

subsection \<open>Building and sending a frame\<close>

text \<open>\<open>bool\<close> is \<open>unsigned char\<close>: the \<open>azap_uint16\<close> that \<open>put\<close> returns is truncated, then
  tested by the callers. The local array \<open>msg\<close> has 255 bytes.\<close>

definition znpSend :: "uartBufControl_t \<Rightarrow> u16 \<Rightarrow> u8 \<Rightarrow> bytes \<Rightarrow> (bool \<times> uartBufControl_t) exec" where
  "znpSend buf cmd len payload =
     (if unat len > MAX_ZNP_PAYLOAD_SIZE - 5 then Some (False, buf)
      else do {
        let msg0 = [MT_UART_SOF, len, LO_UINT16 cmd, HI_UINT16 cmd]
                   @ replicate (MAX_ZNP_PAYLOAD_SIZE - 4) 0;
        msg1 \<leftarrow> (if len > 0 then do { d \<leftarrow> memread 0 (unat len) payload; memcpy_at 4 d msg0 }
                 else Some msg0);
        let fcs = foldl (\<lambda>f i. f XOR msg1 ! i) 0 [1 ..< unat len + 4];
        msg2 \<leftarrow> memcpy_at (unat len + 4) [fcs] msg1;
        (r, buf') \<leftarrow> uartBufControl_t_put buf (ucast len + 5) (Some msg2);
        Some ((ucast r :: u8) \<noteq> 0, buf')
      })"

definition znpSendSysNvRead ::
    "uartBufControl_t \<Rightarrow> u16 \<Rightarrow> u8 \<Rightarrow> (bool \<times> uartBufControl_t) exec" where
  "znpSendSysNvRead buf nvId offset =
     znpSend buf MT_SYS_NV_READ_SREQ 3 [LO_UINT16 nvId, HI_UINT16 nvId, offset]"

definition znpSendSysNvWrite ::
    "uartBufControl_t \<Rightarrow> u16 \<Rightarrow> u8 \<Rightarrow> u8 \<Rightarrow> bytes \<Rightarrow> (bool \<times> uartBufControl_t) exec" where
  "znpSendSysNvWrite buf nvId offset len val =
     (if len > 16 then Some (False, buf)
      else do {
        d \<leftarrow> memread 0 (unat len) val;
        msg \<leftarrow> memcpy_at 4 d ([LO_UINT16 nvId, HI_UINT16 nvId, offset, len] @ replicate 16 0);
        znpSend buf MT_SYS_NV_WRITE_SREQ (4 + len) msg
      })"

definition znpSendZdoMsgCbRegister ::
    "uartBufControl_t \<Rightarrow> u16 \<Rightarrow> (bool \<times> uartBufControl_t) exec" where
  "znpSendZdoMsgCbRegister buf cbId =
     znpSend buf MT_ZDO_MSG_CB_REGISTER_SREQ 2 [LO_UINT16 cbId, HI_UINT16 cbId]"

text \<open>\<open>sprintf\<close> with \<open>%d\<close> and \<open>%03d\<close> on a byte.\<close>

definition digit :: "nat \<Rightarrow> char" where "digit n = char_of (48 + n mod 10)"

definition dec_pad :: "nat \<Rightarrow> u8 \<Rightarrow> string" where
  "dec_pad w b =
     (let n = unat b in
      if n \<ge> 100 then [digit (n div 100), digit (n div 10), digit n]
      else if n \<ge> 10 then replicate (w - 2) (digit 0) @ [digit (n div 10), digit n]
      else replicate (w - 1) (digit 0) @ [digit n])"

definition parseSysResetIndVersion :: "bytes option \<Rightarrow> u8 \<Rightarrow> bool \<Rightarrow> (bool \<times> string option) exec" where
  "parseSysResetIndVersion resetIndPayload len hasBuf =
     (if resetIndPayload = None \<or> \<not> hasBuf \<or> len \<noteq> 6 then Some (False, None)
      else do {
        (_, p0, l0) \<leftarrow> parseUint8AndShift resetIndPayload len;
        (transportRev, p1, l1) \<leftarrow> parseUint8AndShift p0 l0;
        (productId, p2, l2) \<leftarrow> parseUint8AndShift p1 l1;
        (majorRel, p3, l3) \<leftarrow> parseUint8AndShift p2 l2;
        (minorRel, p4, l4) \<leftarrow> parseUint8AndShift p3 l3;
        (hwRev, p5, l5) \<leftarrow> parseUint8AndShift p4 l4;
        Some (True, Some (dec_pad 1 majorRel @ ''.'' @ dec_pad 1 minorRel @ ''.'' @ dec_pad 1 hwRev
                          @ ''-'' @ dec_pad 3 transportRev @ ''_'' @ dec_pad 3 productId))
      })"

subsection \<open>Bytes of a 16-bit value\<close>

lemma nat_and_255: "(n :: nat) AND 255 = n mod 256" "(255 :: nat) AND n = n mod 256"
proof -
  have "n AND mask 8 = n mod 2 ^ 8" by (simp only: take_bit_eq_mask [symmetric] take_bit_eq_mod)
  then show "n AND 255 = n mod 256" by (simp add: mask_numeral)
  then show "255 AND n = n mod 256" by (simp add: ac_simps)
qed

lemma unat_LO: "unat (LO_UINT16 v) = unat v mod 256"
  by (simp add: LO_UINT16_def unsigned_ucast_eq unsigned_and_eq nat_and_255)
    (simp add: take_bit_eq_mod)

lemma unat_HI: "unat (HI_UINT16 v) = unat v div 256"
proof -
  have "unat v div 256 < 256" using unat_u16_bound [of v] by simp
  moreover have "unat (drop_bit 8 v) = unat v div 256"
    using unat_u16_bound [of v]
    by (subst unsigned_drop_bit_eq) (simp add: drop_bit_eq_div take_bit_nat_eq_self)
  ultimately show ?thesis
    by (simp add: HI_UINT16_def unsigned_ucast_eq unsigned_and_eq nat_and_255)
      (simp add: take_bit_eq_mod)
qed

lemma and_FF_u16 [simp]: "0xFF AND ucast (b :: u8) = (ucast b :: u16)" "ucast b AND 0xFF = (ucast b :: u16)"
  using unat_u8_bound [of b] by (simp_all add: word_eq_unat_iff unsigned_and_eq nat_and_255)

lemma unat_build16: "unat (ucast (a :: u8) + push_bit 8 (ucast (b :: u8)) :: u16) = unat a + 256 * unat b"
proof -
  have "unat (push_bit 8 (ucast b :: u16)) = take_bit 16 (push_bit 8 (unat b))"
    by (subst unsigned_push_bit_eq) simp
  also have "\<dots> = 256 * unat b"
    using unat_u8_bound [of b] by (simp add: take_bit_nat_eq_self push_bit_eq_mult)
  finally show ?thesis
    using unat_u8_bound [of a] unat_u8_bound [of b] by (subst unat_add_u16) simp_all
qed

lemma unat_ucast_u8_u32 [simp]: "unat (ucast (b :: u8) :: u32) = unat b"
  using unat_u8_bound [of b] by (simp add: unsigned_ucast_eq take_bit_nat_eq_self)

lemma and_FF_u32 [simp]: "ucast (b :: u8) AND 0xFF = (ucast b :: u32)"
  using unat_u8_bound [of b] by (simp add: word_eq_unat_iff unsigned_and_eq nat_and_255)

lemma unat_shift_u32:
  assumes "k \<le> 24"
  shows "unat (push_bit k (ucast (b :: u8) :: u32)) = 2 ^ k * unat b"
proof -
  have "(2 :: nat) ^ k \<le> 2 ^ 24" using assms by (rule power_increasing) simp
  then have "2 ^ k * unat b < (2 ^ 24 * 256 :: nat)"
    using unat_u8_bound [of b] by (intro mult_le_less_imp_less) simp_all
  then have "take_bit 32 (push_bit k (unat b)) = 2 ^ k * unat b"
    by (simp add: push_bit_eq_mult take_bit_nat_eq_self mult.commute)
  then show ?thesis by (subst unsigned_push_bit_eq) simp
qed

lemma unat_BUILD_UINT32:
  "unat (BUILD_UINT32 b0 b1 b2 b3) = unat b0 + 256 * unat b1 + 65536 * unat b2 + 16777216 * unat b3"
  using unat_u8_bound [of b0] unat_u8_bound [of b1] unat_u8_bound [of b2] unat_u8_bound [of b3]
  by (simp add: BUILD_UINT32_def unat_word_ariths unat_shift_u32 del: push_bit_of_0)

lemma build_LO_HI: "ucast (LO_UINT16 v) + push_bit 8 (ucast (HI_UINT16 v)) = v"
  by (simp add: word_eq_unat_iff unat_build16 unat_LO unat_HI)

lemma LO_build: "LO_UINT16 (ucast (a :: u8) + push_bit 8 (ucast (b :: u8))) = a"
  using unat_u8_bound [of a] by (simp add: word_eq_unat_iff unat_build16 unat_LO)

lemma HI_build: "HI_UINT16 (ucast (a :: u8) + push_bit 8 (ucast (b :: u8))) = b"
  using unat_u8_bound [of a] by (simp add: word_eq_unat_iff unat_build16 unat_HI)

subsection \<open>Parsers on long enough data\<close>

lemma unat_ge_word: "unat (n :: u8) \<ge> k \<Longrightarrow> k < 256 \<Longrightarrow> \<not> n < of_nat k"
  by (simp add: word_less_nat_alt unat_of_nat_u8)

lemma unat_diff_u8: "k \<le> unat (n :: u8) \<Longrightarrow> unat (n - of_nat k) = unat n - k"
  using unat_u8_bound [of n] by (simp add: unat_sub word_le_nat_alt unat_of_nat_u8)

lemma parse8_Cons [parse_simps]:
  "1 \<le> unat n \<Longrightarrow> parseUint8AndShift (Some (b # r)) n = Some (b, Some r, n - 1)"
  using unat_ge_word [of 1 n] by (simp add: parseUint8AndShift_def mem_simps)

lemma parse8_short [parse_simps]: "parseUint8AndShift (Some p) 0 = Some (0, Some p, 0)"
  by (simp add: parseUint8AndShift_def)

lemma parse16_Cons:
  "2 \<le> unat n \<Longrightarrow> parseUint16AndShift (Some (a # b # r)) n
     = Some (ucast a + push_bit 8 (ucast b), Some r, n - 2)"
  using unat_ge_word [of 2 n] by (simp add: parseUint16AndShift_def mem_simps)

lemma parse16_LO_HI [parse_simps]:
  "2 \<le> unat n \<Longrightarrow> parseUint16AndShift (Some (LO_UINT16 v # HI_UINT16 v # r)) n = Some (v, Some r, n - 2)"
  by (simp add: parse16_Cons build_LO_HI)

lemma parse16_short [parse_simps]:
  "unat n < 2 \<Longrightarrow> parseUint16AndShift (Some p) n = Some (0, Some p, n)"
  by (simp add: parseUint16AndShift_def word_less_nat_alt)

lemma parseExt_append [parse_simps]:
  "8 \<le> unat n \<Longrightarrow> length d = 8 \<Longrightarrow> length dst = 8 \<Longrightarrow>
   parseExtAddrAndShift (Some dst) (Some (d @ r)) n = Some (Some d, Some r, n - 8)"
  using unat_ge_word [of 8 n] by (simp add: parseExtAddrAndShift_def mem_simps IEEE_ADDR_LEN_def)

text \<open>The remaining length tracks the bytes consumed; a parser never reads past it.\<close>

definition cur_ok :: "bytes option \<Rightarrow> u8 \<Rightarrow> bool" where
  "cur_ok data n = (case data of None \<Rightarrow> True | Some p \<Rightarrow> unat n \<le> length p)"

lemma parse8_total:
  assumes "cur_ok data n"
  shows "\<exists>v data' n'. parseUint8AndShift data n = Some (v, data', n') \<and> cur_ok data' n'"
proof (cases "data = None \<or> n = 0")
  case True
  with assms show ?thesis by (auto simp: parseUint8AndShift_def cur_ok_def split: option.splits)
next
  case False
  then obtain p where p: "data = Some p" "1 \<le> unat n" by (auto simp: unat_gt_0 Suc_le_eq)
  with assms obtain b r where "p = b # r" by (cases p) (auto simp: cur_ok_def)
  with p assms show ?thesis
    using unat_diff_u8 [of 1 n] by (simp add: parse8_Cons cur_ok_def)
qed

lemma parse16_total:
  assumes "cur_ok data n"
  shows "\<exists>v data' n'. parseUint16AndShift data n = Some (v, data', n') \<and> cur_ok data' n'"
proof (cases "data = None \<or> unat n < 2")
  case True
  with assms show ?thesis
    by (auto simp: parseUint16AndShift_def cur_ok_def word_less_nat_alt split: option.splits)
next
  case False
  then obtain p where p: "data = Some p" "2 \<le> unat n" by auto
  with assms have "2 \<le> length p" by (simp add: cur_ok_def)
  then obtain a b r where "p = a # b # r" by (auto simp: numeral_2_eq_2 Suc_le_length_iff)
  with p assms show ?thesis
    using unat_diff_u8 [of 2 n] by (simp add: parse16_Cons cur_ok_def)
qed

lemma parse_loop16:
  "2 * length vs \<le> unat n \<Longrightarrow>
   parse_loop parseUint16AndShift (length vs)
     (Some (concat (map (\<lambda>v. [LO_UINT16 v, HI_UINT16 v]) vs) @ r)) n
   = Some (vs, Some r, n - of_nat (2 * length vs))"
proof (induction vs arbitrary: n)
  case Nil
  then show ?case by simp
next
  case (Cons v vs)
  then have "2 * length vs \<le> unat (n - 2)" using unat_diff_u8 [of 2 n] by simp
  from Cons.IH [OF this] Cons.prems show ?case
    by (simp add: parse_simps diff_diff_eq2 algebra_simps)
qed

lemma parse_loop8:
  "length vs \<le> unat n \<Longrightarrow>
   parse_loop parseUint8AndShift (length vs) (Some (vs @ r)) n = Some (vs, Some r, n - of_nat (length vs))"
proof (induction vs arbitrary: n)
  case Nil
  then show ?case by simp
next
  case (Cons v vs)
  then have "length vs \<le> unat (n - 1)" using unat_diff_u8 [of 1 n] by simp
  from Cons.IH [OF this] Cons.prems show ?case
    by (simp add: parse_simps algebra_simps)
qed

subsection \<open>Formatters on large enough buffers\<close>

text \<open>A write cursor whose first \<open>pos\<close> bytes are \<open>w\<close>, with \<open>room\<close> bytes after them.\<close>

definition written :: "bytes \<Rightarrow> nat \<Rightarrow> wcursor \<Rightarrow> bool" where
  "written w room c =
     (\<exists>rest. c = Some (w @ rest, length w) \<and> length rest = room)"

lemma memcpy_written:
  assumes "written w (length d + room) (Some (buf, pos))"
  shows "\<exists>buf'. memcpy_at pos d buf = Some buf' \<and> written (w @ d) room (Some (buf', pos + length d))"
  using assms by (auto simp: written_def memcpy_at_def intro!: exI [of _ "drop (length d) _"])

lemma cpy8_written:
  assumes "written w (Suc room) c"
  shows "\<exists>c'. azap_uint8CpyPayloadAndShift v c = Some c' \<and> written (w @ [v]) room c'"
proof -
  obtain buf pos where c: "c = Some (buf, pos)" using assms by (auto simp: written_def)
  from memcpy_written [of w "[v]" room buf pos] assms c show ?thesis
    by (auto simp: azap_uint8CpyPayloadAndShift_def)
qed

lemma cpy16_written:
  assumes "written w (room + 2) c"
  shows "\<exists>c'. azap_uint16CpyPayloadAndShift v c = Some c' \<and>
              written (w @ [LO_UINT16 v, HI_UINT16 v]) room c'"
proof -
  obtain buf pos where c: "c = Some (buf, pos)" using assms by (auto simp: written_def)
  from memcpy_written [of w "[LO_UINT16 v]" "Suc room" buf pos] assms c obtain b1 where
    b1: "memcpy_at pos [LO_UINT16 v] buf = Some b1" "written (w @ [LO_UINT16 v]) (Suc room) (Some (b1, Suc pos))"
    by auto
  from memcpy_written [of "w @ [LO_UINT16 v]" "[HI_UINT16 v]" room b1 "Suc pos"] b1 c show ?thesis
    by (auto simp: azap_uint16CpyPayloadAndShift_def)
qed

lemma cpy16_loop_written:
  "written w (room + 2 * length vs) c \<Longrightarrow>
   \<exists>c'. cpy16_loop vs c = Some c' \<and>
        written (w @ concat (map (\<lambda>v. [LO_UINT16 v, HI_UINT16 v]) vs)) room c'"
proof (induction vs arbitrary: w c)
  case Nil
  then show ?case by simp
next
  case (Cons v vs)
  from cpy16_written [of w "room + 2 * length vs" c v] Cons.prems obtain c1 where
    "azap_uint16CpyPayloadAndShift v c = Some c1"
    "written (w @ [LO_UINT16 v, HI_UINT16 v]) (room + 2 * length vs) c1" by (auto simp: algebra_simps)
  with Cons.IH [of "w @ [LO_UINT16 v, HI_UINT16 v]" c1] show ?case by auto
qed

subsection \<open>Frames\<close>

definition znp_frame :: "u16 \<Rightarrow> bytes \<Rightarrow> bytes" where
  "znp_frame cmd d =
     MT_UART_SOF # of_nat (length d) # LO_UINT16 cmd # HI_UINT16 cmd # d @
     [of_nat (length d) XOR LO_UINT16 cmd XOR HI_UINT16 cmd XOR xor_list d]"

lemma length_znp_frame [simp]: "length (znp_frame cmd d) = length d + 5"
  by (simp add: znp_frame_def)

lemma fcs_of_msg:
  assumes "n + 4 \<le> length (MT_UART_SOF # hdr)"
  shows "foldl (\<lambda>f i. f XOR (MT_UART_SOF # hdr) ! i) 0 [1 ..< n + 4] = xor_list (take (n + 3) hdr)"
proof -
  let ?m = "MT_UART_SOF # hdr"
  have "foldl (\<lambda>f i. f XOR ?m ! i) 0 [1 ..< n + 4] = foldl (\<lambda>f b. f XOR b) 0 (map ((!) ?m) [1 ..< n + 4])"
    by (simp add: foldl_map)
  also have "map ((!) ?m) [1 ..< n + 4] = take (n + 3) hdr"
    using assms by (subst map_nth_upt_seg) (simp_all add: drop_take add.commute)
  finally show ?thesis by (simp add: xor_list_def)
qed

lemma msg_with_payload:
  assumes "unat len \<le> 250" "unat len \<le> length payload"
  shows "\<exists>r. (if len > 0 then do { d \<leftarrow> memread 0 (unat len) payload;
                  memcpy_at 4 d ([MT_UART_SOF, len, lo, hi] @ replicate 251 0) }
              else Some ([MT_UART_SOF, len, lo, hi] @ replicate 251 0))
           = Some ([MT_UART_SOF, len, lo, hi] @ take (unat len) payload @ r) \<and> length r = 251 - unat len"
proof (cases "len = 0")
  case True
  then show ?thesis by simp
next
  case False
  then have "0 < len" by (simp add: word_gt_0)
  with assms show ?thesis by (simp add: mem_simps numeral_eq_Suc)
qed

lemma znpSend_built:
  assumes len: "unat len \<le> 250" "unat len \<le> length payload"
  shows "\<exists>r. znpSend buf cmd len payload =
     do { (n, buf') \<leftarrow> uartBufControl_t_put buf (ucast len + 5)
                        (Some (znp_frame cmd (take (unat len) payload) @ r));
          Some ((ucast n :: u8) \<noteq> 0, buf') }"
proof -
  let ?lo = "LO_UINT16 cmd" and ?hi = "HI_UINT16 cmd" and ?d = "take (unat len) payload"
  from msg_with_payload [OF len, of ?lo ?hi] obtain r where
    r: "(if len > 0 then do { d \<leftarrow> memread 0 (unat len) payload;
                  memcpy_at 4 d ([MT_UART_SOF, len, ?lo, ?hi] @ replicate 251 0) }
              else Some ([MT_UART_SOF, len, ?lo, ?hi] @ replicate 251 0))
           = Some ([MT_UART_SOF, len, ?lo, ?hi] @ ?d @ r)" "length r = 251 - unat len" by blast
  have ld: "length ?d = unat len" using len by simp
  let ?h = "len # ?lo # ?hi # ?d @ r"
  have tk: "take (unat len + 3) ?h = len # ?lo # ?hi # ?d"
    using ld by (simp add: numeral_3_eq_3)
  have fcs: "foldl (\<lambda>f i. f XOR (MT_UART_SOF # ?h) ! i) 0 [1 ..< unat len + 4]
      = len XOR ?lo XOR ?hi XOR xor_list ?d"
    using fcs_of_msg [of "unat len" ?h] tk ld by simp
  have lw: "of_nat (length ?d) = len" using ld by (simp add: word_eq_unat_iff unat_of_nat_u8 unat_u8_bound)
  have "memcpy_at (unat len + 4) [len XOR ?lo XOR ?hi XOR xor_list ?d] (MT_UART_SOF # ?h)
      = Some (znp_frame cmd ?d @ drop 1 r)"
    using r(2) len ld lw by (simp add: memcpy_at_def znp_frame_def numeral_eq_Suc)
  moreover have "\<not> MAX_ZNP_PAYLOAD_SIZE - 5 < unat len" "MAX_ZNP_PAYLOAD_SIZE - 4 = 251"
    using len by (simp_all add: MAX_ZNP_PAYLOAD_SIZE_def)
  ultimately show ?thesis
    by (intro exI [of _ "drop 1 r"])
      (simp only: znpSend_def Let_def if_False r(1) [unfolded append_Cons append_Nil] fcs
        append_Cons append_Nil bind.bind_lunit)
qed

lemma znpSend_cases:
  assumes wf: "uart_wf buf" and len: "unat len \<le> length payload"
  shows "\<exists>ok buf'. znpSend buf cmd len payload = Some (ok, buf') \<and> uart_wf buf' \<and>
           (ok \<longleftrightarrow> unat len \<le> 250 \<and> length (uart_contents buf) + unat len + 5 \<le> uart_capacity buf) \<and>
           (if ok then uart_contents buf' = uart_contents buf @ znp_frame cmd (take (unat len) payload)
            else buf' = buf)"
proof (cases "unat len \<le> 250")
  case False
  with wf show ?thesis by (auto simp: znpSend_def MAX_ZNP_PAYLOAD_SIZE_def)
next
  case True
  from znpSend_built [OF True len] obtain r where
    s: "znpSend buf cmd len payload =
     do { (n, buf') \<leftarrow> uartBufControl_t_put buf (ucast len + 5)
                        (Some (znp_frame cmd (take (unat len) payload) @ r));
          Some ((ucast n :: u8) \<noteq> 0, buf') }" by blast
  have l5: "unat (ucast len + 5 :: u16) = unat len + 5" using True by (subst unat_add_u16) simp_all
  have nz: "(ucast (ucast len + 5 :: u16) :: u8) \<noteq> 0"
    using True l5 by (simp add: word_eq_unat_iff unsigned_ucast_eq take_bit_nat_eq_self)
  have "unat (ucast len + 5 :: u16) \<le> length (znp_frame cmd (take (unat len) payload) @ r)"
    using len l5 by simp
  from uart_put_cases [OF wf this] s nz True len l5 show ?thesis
    by (auto split: if_splits)
qed

text \<open>Several messages sent one after the other.\<close>

fun znpSend_run :: "uartBufControl_t \<Rightarrow> (u16 \<times> bytes) list \<Rightarrow> (bool \<times> uartBufControl_t) exec" where
  "znpSend_run buf [] = Some (True, buf)"
| "znpSend_run buf ((cmd, d) # ms) = do {
     (ok, buf1) \<leftarrow> znpSend buf cmd (of_nat (length d)) d;
     (oks, buf2) \<leftarrow> znpSend_run buf1 ms;
     Some (ok \<and> oks, buf2)
   }"

fun frame_of :: "u16 \<times> bytes \<Rightarrow> bytes" where
  "frame_of (cmd, d) = znp_frame cmd d"

fun rx_of :: "u16 \<times> bytes \<Rightarrow> rxMsg" where
  "rx_of (cmd, d) = (of_nat (length d), LO_UINT16 cmd, HI_UINT16 cmd, d)"

lemma znpSend_run_frames:
  assumes "uart_wf buf" "\<forall>m \<in> set ms. length (snd m) < 256" "znpSend_run buf ms = Some (True, buf')"
  shows "uart_wf buf' \<and> uart_contents buf' = uart_contents buf @ concat (map frame_of ms) \<and>
         (\<forall>m \<in> set ms. length (snd m) \<le> 250)"
  using assms
proof (induction ms arbitrary: buf)
  case Nil
  then show ?case by simp
next
  case (Cons m ms)
  obtain cmd d where m: "m = (cmd, d)" by (cases m)
  have len: "unat (of_nat (length d) :: u8) = length d" using Cons.prems(2) m by (simp add: unat_of_nat_u8)
  from znpSend_cases [OF Cons.prems(1), of "of_nat (length d)" d cmd] obtain ok b1 where
    b1: "znpSend buf cmd (of_nat (length d)) d = Some (ok, b1)" "uart_wf b1"
      "ok \<Longrightarrow> length d \<le> 250 \<and> uart_contents b1 = uart_contents buf @ znp_frame cmd d"
    by (auto simp: len split: if_splits)
  from Cons.prems(3) b1(1) m have "ok" "znpSend_run b1 ms = Some (True, buf')"
    by (auto split: bind_splits)
  with Cons.IH [OF b1(2)] Cons.prems(2) b1(3) m show ?case by auto
qed

lemma stream_frames:
  assumes "\<forall>m \<in> set ms. length (snd m) < 256"
  shows "map znp_body (stream_msgs (ST_WAITING_SOP, l, c0, c1) (concat (map frame_of ms))) = map rx_of ms"
  using assms
proof (induction ms arbitrary: l c0 c1)
  case Nil
  then show ?case using stream_msgs_None [of ST_WAITING_SOP l c0 c1 "[]"] by simp
next
  case (Cons m ms)
  obtain cmd d where m: "m = (cmd, d)" by (cases m)
  let ?f = "of_nat (length d) XOR LO_UINT16 cmd XOR HI_UINT16 cmd XOR xor_list d"
  have "concat (map frame_of (m # ms)) = MT_UART_SOF # of_nat (length d) # LO_UINT16 cmd # HI_UINT16 cmd
      # d @ ?f # concat (map frame_of ms)"
    by (simp add: m znp_frame_def)
  note fr = this
  have "znp_scan ST_WAITING_SOP l c0 c1 (concat (map frame_of (m # ms)))
      = ((ST_WAITING_SOP, of_nat (length d), LO_UINT16 cmd, HI_UINT16 cmd), concat (map frame_of ms),
         Some (of_nat (length d), LO_UINT16 cmd, HI_UINT16 cmd, d, ?f))"
    unfolding fr by (rule znp_scan_frame) (use Cons.prems m in simp)
  from stream_msgs_Some [OF this] Cons m show ?case by simp
qed

subsection \<open>Properties\<close>

text \<open>A buffer of 63 bytes about to wrap around, a message sent into it, and its reception in
  two reads.\<close>

definition bigUart :: uartBufControl_t where
  "bigUart = uartBufControl_t_init\<lparr>bufHead := 60, bufTail := 60, bufSize := 64,
                                   pBuffer := Some (replicate 64 0)\<rparr>"

lemma bigUart_simps:
  "uart_wf bigUart" "uart_contents bigUart = []" "uart_capacity bigUart = 63"
  "statePending bigUart = ST_WAITING_SOP"
  by (simp_all add: bigUart_def uart_wf_def uart_contents_def uart_capacity_def ring_def
        uartBufControl_t_init_def)

definition bigUartSent :: uartBufControl_t where
  "bigUartSent = bigUart\<lparr>bufTail := 3, pBuffer := Some ([5, 6, 40] @ replicate 57 0 @ [254, 2, 33, 8])\<rparr>"

definition bigUartDrained :: uartBufControl_t where
  "bigUartDrained = bigUartSent\<lparr>bufHead := 3, cmd0Pending := 33, cmd1Pending := 8,
                                lenPending := 2, startDate := 10\<rparr>"

definition sampleReads :: "rx_event list" where
  "sampleReads = [RxBytes [0xFE, 2], RxNext 10 10, RxBytes [0x21, 8, 5, 6, 0x28], RxNext 12 12]"

lemma bigUart_sent: "znpSend_run bigUart [(0x0821, [5, 6])] = Some (True, bigUartSent)"
  by code_simp

lemma bigUart_received:
  "rx_run bigUart sampleReads = Some ([(2, 33, 8, [5, 6])], uart_contents bigUartSent, bigUartDrained)"
  by code_simp

text \<open>\<open>znpSend\<close> stays inside its 255-byte local array, and either appends exactly the
  frame SOF, length, command (low byte first), payload, exclusive-or checksum to the transmit
  buffer and returns true, or leaves the buffer alone and returns false; it refuses precisely
  the payloads over 250 bytes and the frames that do not fit.\<close>

theorem znpSend_appends_frame:
  assumes "uart_wf buf" "unat len \<le> length payload"
  shows "\<exists>ok buf'. znpSend buf cmd len payload = Some (ok, buf') \<and> uart_wf buf' \<and>
           (ok \<longleftrightarrow> unat len \<le> 250 \<and> length (uart_contents buf) + unat len + 5 \<le> uart_capacity buf) \<and>
           (if ok then uart_contents buf' = uart_contents buf @ znp_frame cmd (take (unat len) payload)
            else buf' = buf)"
  using assms by (rule znpSend_cases)

theorem znpSend_appends_frame_witness:
  "\<exists>ok buf'. znpSend sampleUart 0x0821 2 [5, 6] = Some (ok, buf') \<and> ok \<and>
     uart_contents buf' = znp_frame 0x0821 [5, 6]"
  using znpSend_appends_frame [of sampleUart 2 "[5, 6]" "0x0821"] by (auto simp: sampleUart_simps)

text \<open>C6: end to end. Messages sent one after the other into an empty transmit buffer, each accepted, whose
  bytes then reach an empty receive buffer on the other side in any reads that it has room for, with
  any interleaving of reads and \<open>getNextZNPMsg\<close> calls, all calls within 5 s of the earliest start of
  frame, are delivered in order and unaltered: what is delivered followed by what is still buffered is the
  list of messages sent, and as many further calls as messages were sent complete the delivery.\<close>

theorem frames_end_to_end:
  assumes "uart_wf tx" "uart_contents tx = []" "\<forall>m \<in> set ms. length (snd m) < 256"
    "znpSend_run tx ms = Some (True, tx')"
    "uart_wf rx" "statePending rx = ST_WAITING_SOP" "uart_contents rx = []"
    "\<forall>e \<in> set es. rx_in_time t0 e" "rx_run rx es = Some (delivered, uart_contents tx', rx')"
    "rx_in_time t0 (RxNext now sd)" "length ms \<le> n"
  shows "delivered @ map znp_body (stream_msgs (uart_pending rx') (uart_contents rx')) = map rx_of ms \<and>
     (\<exists>rx''. rx_run rx (es @ replicate n (RxNext now sd)) = Some (map rx_of ms, uart_contents tx', rx''))"
proof -
  have tx': "uart_contents tx' = concat (map frame_of ms)"
    using znpSend_run_frames [OF assms(1,3,4)] assms(2) by simp
  have "date_ok t0 rx" using assms(6) by (simp add: date_ok_def)
  from rx_run_stream [OF assms(5) this assms(8)] assms(9) obtain dm where
    d: "delivered = map znp_body dm" "uart_wf rx'" "date_ok t0 rx'"
      "stream_msgs (uart_pending rx) (uart_contents rx @ uart_contents tx')
         = dm @ stream_msgs (uart_pending rx') (uart_contents rx')" by auto
  then have all: "delivered @ map znp_body (stream_msgs (uart_pending rx') (uart_contents rx')) = map rx_of ms"
    using tx' assms(6,7) stream_frames [OF assms(3)] by (metis append_Nil map_append uart_pending_def)
  then have "length (stream_msgs (uart_pending rx') (uart_contents rx')) \<le> n"
    using assms(11) by (metis length_append length_map le_add2 le_trans)
  from rx_run_drain [OF d(2,3) _ _ this, of sd now] assms(9,10) all show ?thesis
    by (auto simp: rx_run_append)
qed

theorem frames_end_to_end_witness:
  "znpSend_run bigUart [(0x0821, [5, 6])] = Some (True, bigUartSent) \<and>
   (\<exists>rx''. rx_run bigUart (sampleReads @ replicate 1 (RxNext 14 14))
      = Some ([(2, 33, 8, [5, 6])], uart_contents bigUartSent, rx''))"
proof -
  have h: "\<forall>m \<in> set [(0x0821 :: u16, [5, 6 :: u8])]. length (snd m) < 256" "\<forall>e \<in> set sampleReads. rx_in_time 0 e"
    "rx_in_time 0 (RxNext 14 14)" "length [(0x0821 :: u16, [5, 6 :: u8])] \<le> 1" by (simp_all add: sampleReads_def)
  have rx: "map rx_of [(0x0821, [5, 6])] = [(2, 33, 8, [5, 6])]" by (simp add: LO_UINT16_def HI_UINT16_def)
  from frames_end_to_end [OF bigUart_simps(1,2) h(1) bigUart_sent bigUart_simps(1,4,2) h(2) bigUart_received h(3,4), unfolded rx]
    bigUart_sent show ?thesis by blast
qed

text \<open>A list of 16-bit values written by \<open>azap_uint16ArrayCpyPayloadAndShift\<close> is read back by
  \<open>parseUint16ArrayAndShift\<close>, with the cursor behind it and the remaining length decremented.\<close>

theorem uint16_array_roundtrip:
  assumes "0 < length vs" "2 * length vs \<le> 255" "length buf = 2 * length vs"
  shows "\<exists>out. azap_uint16ArrayCpyPayloadAndShift (Some vs) (of_nat (length vs)) (Some (buf, 0))
             = Some (Some (out, 2 * length vs)) \<and>
           parseUint16ArrayAndShift True (Some out) (of_nat (length vs)) (of_nat (2 * length vs))
             = Some (Some vs, Some [], 0)"
proof -
  have n: "unat (of_nat (length vs) :: u8) = length vs" "unat (of_nat (2 * length vs) :: u8) = 2 * length vs"
    by (rule unat_of_nat_u8, use assms(2) in simp)+
  then have nz: "(of_nat (length vs) :: u8) \<noteq> 0" using assms(1) by (auto simp: word_eq_unat_iff)
  have "written [] (0 + 2 * length vs) (Some (buf, 0))" using assms(3) by (simp add: written_def)
  from cpy16_loop_written [OF this] obtain c' where
    c: "cpy16_loop vs (Some (buf, 0)) = Some c'"
      "written ([] @ concat (map (\<lambda>v. [LO_UINT16 v, HI_UINT16 v]) vs)) 0 c'" by blast
  let ?w = "concat (map (\<lambda>v. [LO_UINT16 v, HI_UINT16 v]) vs)"
  have "length ?w = 2 * length vs" by (induction vs) simp_all
  with c(2) have "c' = Some (?w, 2 * length vs)" by (simp add: written_def)
  with c(1) parse_loop16 [of vs "of_nat (2 * length vs)" "[]"] n nz show ?thesis
    by (simp add: azap_uint16ArrayCpyPayloadAndShift_def parseUint16ArrayAndShift_def mem_simps)
qed

theorem uint16_array_roundtrip_witness:
  "\<exists>out. azap_uint16ArrayCpyPayloadAndShift (Some [0x1234, 7]) 2 (Some ([0, 0, 0, 0], 0))
       = Some (Some (out, 4)) \<and>
     parseUint16ArrayAndShift True (Some out) 2 4 = Some (Some [0x1234, 7], Some [], 0)"
  using uint16_array_roundtrip [of "[0x1234, 7]" "[0, 0, 0, 0]"] by simp

text \<open>\<open>parseUint32AndShift\<close> loses the two high bytes of the value it reads: its result
  never exceeds 65535 and is the low half of the encoded value.\<close>

theorem parseUint32_truncates:
  assumes "4 \<le> unat n"
  shows "parseUint32AndShift (Some (b0 # b1 # b2 # b3 # r)) n
           = Some (ucast (BUILD_UINT16 b0 b1), Some r, n - 4)"
proof -
  have e: "unat b0 + 256 * unat b1 + 65536 * unat b2 + 16777216 * unat b3
      = unat b0 + 256 * unat b1 + 65536 * (unat b2 + 256 * unat b3)" by simp
  have "(unat b0 + 256 * unat b1 + 65536 * (unat b2 + 256 * unat b3)) mod 65536
      = (unat b0 + 256 * unat b1) mod 65536" by (rule mod_mult_self2)
  also have "\<dots> = unat b0 + 256 * unat b1"
    using unat_u8_bound [of b0] unat_u8_bound [of b1] by (intro mod_less) simp
  finally have "unat (BUILD_UINT32 b0 b1 b2 b3) mod 65536 = unat (BUILD_UINT16 b0 b1)"
    unfolding unat_BUILD_UINT32 e by (simp add: BUILD_UINT16_def unat_build16)
  then have "(ucast (BUILD_UINT32 b0 b1 b2 b3) :: u16) = BUILD_UINT16 b0 b1"
    by (simp add: word_eq_unat_iff unsigned_ucast_eq take_bit_eq_mod)
  with unat_ge_word [of 4 n] assms show ?thesis
    by (simp add: parseUint32AndShift_def mem_simps Let_def)
qed

theorem parseUint32_truncates_witness:
  "parseUint32AndShift (Some [0x78, 0x56, 0x34, 0x12]) 4 = Some (0x5678, Some [], 0)"
  using parseUint32_truncates [of 4 "0x78" "0x56" "0x34" "0x12" "[]"] by (simp add: BUILD_UINT16_def)

text \<open>An NV write of at most 16 bytes that fits is sent as one SYS\_OSAL\_NV\_WRITE frame
  carrying the item identifier, offset, length and value; a longer value is refused.\<close>

theorem znpSendSysNvWrite_frame:
  assumes "uart_wf buf" "unat len \<le> length val" "length (uart_contents buf) + 25 \<le> uart_capacity buf"
  shows "\<exists>buf'. znpSendSysNvWrite buf nvId offset len val = Some (unat len \<le> 16, buf') \<and> uart_wf buf' \<and>
           uart_contents buf' = uart_contents buf @
             (if unat len \<le> 16
              then znp_frame MT_SYS_NV_WRITE_SREQ
                     ([LO_UINT16 nvId, HI_UINT16 nvId, offset, len] @ take (unat len) val)
              else [])"
proof (cases "unat len \<le> 16")
  case False
  then have "len > 16" by (simp add: word_less_nat_alt)
  with False assms(1) show ?thesis by (simp add: znpSendSysNvWrite_def)
next
  case True
  then have le: "\<not> len > 16" by (simp add: word_less_nat_alt)
  let ?m = "[LO_UINT16 nvId, HI_UINT16 nvId, offset, len] @ take (unat len) val"
  have cpy: "memcpy_at 4 (take (unat len) val) ([LO_UINT16 nvId, HI_UINT16 nvId, offset, len] @ replicate 16 0)
      = Some (?m @ replicate (16 - unat len) 0)"
    using True assms(2) by (subst memcpy_at_after) simp_all
  have l4: "unat (4 + len) = unat len + 4" using True by (subst unat_add_u8) simp_all
  have "take (unat (4 + len)) (?m @ replicate (16 - unat len) 0) = ?m"
    unfolding l4 using assms(2) by (simp add: numeral_eq_Suc)
  with znpSend_cases [OF assms(1), of "4 + len" "?m @ replicate (16 - unat len) 0" MT_SYS_NV_WRITE_SREQ]
    l4 True assms(2,3)
  obtain buf' where "znpSend buf MT_SYS_NV_WRITE_SREQ (4 + len) (?m @ replicate (16 - unat len) 0)
      = Some (True, buf')" "uart_wf buf'"
    "uart_contents buf' = uart_contents buf @ znp_frame MT_SYS_NV_WRITE_SREQ ?m"
    by auto
  with le True cpy assms(2) show ?thesis
    by (simp add: znpSendSysNvWrite_def mem_simps del: append_Cons)
qed

theorem znpSendSysNvWrite_frame_witness:
  "\<exists>buf'. znpSendSysNvWrite bigUart 0x87 0 1 [0] = Some (True, buf') \<and>
     uart_contents buf' = znp_frame MT_SYS_NV_WRITE_SREQ [0x87, 0, 0, 1, 0]"
  using znpSendSysNvWrite_frame [of bigUart 1 "[0]" "0x87" 0]
  by (simp add: bigUart_simps) (auto simp: LO_UINT16_def HI_UINT16_def)

end
