(* ===== verification/Format_Af.thy ===== *)
theory Format_Af
  imports Format_Znp
begin

unbundle bit_operations_syntax

section \<open>AF and ZCL messages (AZAP/lib/format\_znp\_af.c)\<close>

text \<open>
  The AF senders, the ZCL header and the parsers of the ZCL profile commands, with the
  data-length table \<open>azapGetZclDataLength\<close> of azap\_api.c. A \<open>data\<close> pointer is the list of the
  bytes from it to the end of the enclosing array, so \<open>None\<close> (undefined behaviour) is a read
  outside that array; a parsed attribute that keeps a pointer into the payload keeps this list.
  Positions and sizes are \<open>azap_uint8\<close> and wrap. The scanning loops have fuel: 256 turns, more
  than the number of positions; a run that uses them all up is \<open>None\<close> as well, so a theorem that
  concludes \<open>Some\<close> says that the loop ended.
\<close>

subsection \<open>ZCL constants\<close>

abbreviation "ZCL_DATATYPE_DATA8 \<equiv> (0x08 :: u8)"
abbreviation "ZCL_DATATYPE_DATA16 \<equiv> (0x09 :: u8)"
abbreviation "ZCL_DATATYPE_DATA24 \<equiv> (0x0a :: u8)"
abbreviation "ZCL_DATATYPE_DATA32 \<equiv> (0x0b :: u8)"
abbreviation "ZCL_DATATYPE_BOOLEAN \<equiv> (0x10 :: u8)"
abbreviation "ZCL_DATATYPE_BITMAP8 \<equiv> (0x18 :: u8)"
abbreviation "ZCL_DATATYPE_BITMAP16 \<equiv> (0x19 :: u8)"
abbreviation "ZCL_DATATYPE_BITMAP24 \<equiv> (0x1a :: u8)"
abbreviation "ZCL_DATATYPE_BITMAP32 \<equiv> (0x1b :: u8)"
abbreviation "ZCL_DATATYPE_UINT8 \<equiv> (0x20 :: u8)"
abbreviation "ZCL_DATATYPE_UINT16 \<equiv> (0x21 :: u8)"
abbreviation "ZCL_DATATYPE_UINT24 \<equiv> (0x22 :: u8)"
abbreviation "ZCL_DATATYPE_UINT32 \<equiv> (0x23 :: u8)"
abbreviation "ZCL_DATATYPE_UINT40 \<equiv> (0x24 :: u8)"
abbreviation "ZCL_DATATYPE_UINT48 \<equiv> (0x25 :: u8)"
abbreviation "ZCL_DATATYPE_INT8 \<equiv> (0x28 :: u8)"
abbreviation "ZCL_DATATYPE_INT16 \<equiv> (0x29 :: u8)"
abbreviation "ZCL_DATATYPE_INT24 \<equiv> (0x2a :: u8)"
abbreviation "ZCL_DATATYPE_INT32 \<equiv> (0x2b :: u8)"
abbreviation "ZCL_DATATYPE_ENUM8 \<equiv> (0x30 :: u8)"
abbreviation "ZCL_DATATYPE_ENUM16 \<equiv> (0x31 :: u8)"
abbreviation "ZCL_DATATYPE_SEMI_PREC \<equiv> (0x38 :: u8)"
abbreviation "ZCL_DATATYPE_SINGLE_PREC \<equiv> (0x39 :: u8)"
abbreviation "ZCL_DATATYPE_DOUBLE_PREC \<equiv> (0x3a :: u8)"
abbreviation "ZCL_DATATYPE_OCTET_STR \<equiv> (0x41 :: u8)"
abbreviation "ZCL_DATATYPE_CHAR_STR \<equiv> (0x42 :: u8)"
abbreviation "ZCL_DATATYPE_LONG_OCTET_STR \<equiv> (0x43 :: u8)"
abbreviation "ZCL_DATATYPE_LONG_CHAR_STR \<equiv> (0x44 :: u8)"
abbreviation "ZCL_DATATYPE_TOD \<equiv> (0xe0 :: u8)"
abbreviation "ZCL_DATATYPE_DATE \<equiv> (0xe1 :: u8)"
abbreviation "ZCL_DATATYPE_UTC \<equiv> (0xe2 :: u8)"
abbreviation "ZCL_DATATYPE_CLUSTER_ID \<equiv> (0xe8 :: u8)"
abbreviation "ZCL_DATATYPE_ATTR_ID \<equiv> (0xe9 :: u8)"
abbreviation "ZCL_DATATYPE_BAC_OID \<equiv> (0xea :: u8)"
abbreviation "ZCL_DATATYPE_IEEE_ADDR \<equiv> (0xf0 :: u8)"

abbreviation "ZCL_STATUS_SUCCESS \<equiv> (0 :: u8)"
abbreviation "ZCL_SEND_ATTR_REPORTS \<equiv> (0 :: u8)"

definition MT_AF_REGISTER_SREQ :: u16 where [const_defs]: "MT_AF_REGISTER_SREQ = 0x0024"
definition MT_AF_DATA_EXT_SREQ :: u16 where [const_defs]: "MT_AF_DATA_EXT_SREQ = 0x0224"
definition Addr16Bit :: u8 where [const_defs]: "Addr16Bit = 2"
definition AF_TX_OPTIONS_NONE :: u8 where [const_defs]: "AF_TX_OPTIONS_NONE = 0"
definition AF_DEFAULT_RADIUS :: u8 where [const_defs]: "AF_DEFAULT_RADIUS = 30"

subsection \<open>Data lengths\<close>

definition azapGetZclDataLength :: "u8 \<Rightarrow> bytes option \<Rightarrow> u8 exec" where
  "azapGetZclDataLength ty data =
    (if ty \<in> {ZCL_DATATYPE_CHAR_STR, ZCL_DATATYPE_OCTET_STR} then
       (case data of None \<Rightarrow> Some 0 | Some p \<Rightarrow> do { b \<leftarrow> idx p 0; Some (b + 1) })
     else if ty \<in> {ZCL_DATATYPE_LONG_CHAR_STR, ZCL_DATATYPE_LONG_OCTET_STR} then
       (case data of
          None \<Rightarrow> Some 0
        | Some p \<Rightarrow> do { b1 \<leftarrow> idx p 1;
                        if b1 = 0 then do { b0 \<leftarrow> idx p 0; Some (b0 + 2) } else Some 0 })
     else if ty \<in> {ZCL_DATATYPE_DATA8, ZCL_DATATYPE_BOOLEAN, ZCL_DATATYPE_BITMAP8,
                   ZCL_DATATYPE_INT8, ZCL_DATATYPE_UINT8, ZCL_DATATYPE_ENUM8} then Some 1
     else if ty \<in> {ZCL_DATATYPE_DATA16, ZCL_DATATYPE_BITMAP16, ZCL_DATATYPE_UINT16,
                   ZCL_DATATYPE_INT16, ZCL_DATATYPE_ENUM16, ZCL_DATATYPE_SEMI_PREC,
                   ZCL_DATATYPE_CLUSTER_ID, ZCL_DATATYPE_ATTR_ID} then Some 2
     else if ty \<in> {ZCL_DATATYPE_DATA24, ZCL_DATATYPE_BITMAP24, ZCL_DATATYPE_UINT24,
                   ZCL_DATATYPE_INT24} then Some 3
     else if ty \<in> {ZCL_DATATYPE_DATA32, ZCL_DATATYPE_BITMAP32, ZCL_DATATYPE_UINT32,
                   ZCL_DATATYPE_INT32, ZCL_DATATYPE_SINGLE_PREC, ZCL_DATATYPE_TOD,
                   ZCL_DATATYPE_DATE, ZCL_DATATYPE_UTC, ZCL_DATATYPE_BAC_OID} then Some 4
     else if ty = ZCL_DATATYPE_UINT40 then Some 5
     else if ty = ZCL_DATATYPE_UINT48 then Some 6
     else if ty \<in> {ZCL_DATATYPE_DOUBLE_PREC, ZCL_DATATYPE_IEEE_ADDR} then Some 8
     else Some 0)"

definition azapZclIsAnalogDataType :: "u8 \<Rightarrow> bool" where
  "azapZclIsAnalogDataType ty =
     (ty \<in> {ZCL_DATATYPE_UINT8, ZCL_DATATYPE_UINT16, ZCL_DATATYPE_UINT24, ZCL_DATATYPE_UINT32,
             ZCL_DATATYPE_UINT40, ZCL_DATATYPE_UINT48, ZCL_DATATYPE_INT8, ZCL_DATATYPE_INT16,
             ZCL_DATATYPE_INT24, ZCL_DATATYPE_INT32, ZCL_DATATYPE_SEMI_PREC,
             ZCL_DATATYPE_SINGLE_PREC, ZCL_DATATYPE_DOUBLE_PREC, ZCL_DATATYPE_TOD,
             ZCL_DATATYPE_DATE, ZCL_DATATYPE_UTC})"

subsection \<open>Sending\<close>

record azapEndPoint_t =
  epId :: u8
  appProfId :: u16
  appDeviceId :: u16
  appDevVer :: u8
  appNumInClusters :: u8
  appInClusterList :: "u16 list"
  appNumOutClusters :: u8
  appOutClusterList :: "u16 list"

text \<open>The local array of 255 bytes, filled through \<open>msg[len++]\<close>. The index is an
  \<open>azap_uint8\<close>; with at most 255 cluster identifiers in each list it can pass 255 and wrap.\<close>

type_synonym msgbuf = "bytes \<times> u8"

definition msg_push :: "u8 \<Rightarrow> msgbuf \<Rightarrow> msgbuf exec" where
  "msg_push b m = (case m of (msg, len) \<Rightarrow> do {
     msg' \<leftarrow> memcpy_at (unat len) [b] msg;
     Some (msg', len + 1)
   })"

fun msg_pushes :: "bytes \<Rightarrow> msgbuf \<Rightarrow> msgbuf exec" where
  "msg_pushes [] m = Some m"
| "msg_pushes (b # bs) m = do { m' \<leftarrow> msg_push b m; msg_pushes bs m' }"

definition le16 :: "u16 \<Rightarrow> bytes" where "le16 v = [LO_UINT16 v, HI_UINT16 v]"

definition znpSendAfRegister ::
    "uartBufControl_t \<Rightarrow> azapEndPoint_t option \<Rightarrow> (bool \<times> uartBufControl_t) exec" where
  "znpSendAfRegister buf epOpt =
    (case epOpt of
       None \<Rightarrow> Some (False, buf)
     | Some ep \<Rightarrow> do {
         m1 \<leftarrow> msg_pushes ([epId ep] @ le16 (appProfId ep) @ le16 (appDeviceId ep)
                          @ [appDevVer ep, 0, appNumInClusters ep])
                (replicate MAX_ZNP_PAYLOAD_SIZE 0, 0);
         ins \<leftarrow> memread 0 (unat (appNumInClusters ep)) (appInClusterList ep);
         m2 \<leftarrow> msg_pushes (concat (map le16 ins)) m1;
         m3 \<leftarrow> msg_push (appNumOutClusters ep) m2;
         outs \<leftarrow> memread 0 (unat (appNumOutClusters ep)) (appOutClusterList ep);
         (msg, len) \<leftarrow> msg_pushes (concat (map le16 outs)) m3;
         znpSend buf MT_AF_REGISTER_SREQ len msg
       })"

definition znpSendAfDataRequest ::
    "uartBufControl_t \<Rightarrow> u16 \<Rightarrow> u8 \<Rightarrow> u8 \<Rightarrow> u16 \<Rightarrow> u8 \<Rightarrow> u16 \<Rightarrow> bytes \<Rightarrow>
     (bool \<times> uartBufControl_t \<times> u8) exec" where
  "znpSendAfDataRequest buf dstAddr dstEp srcEp clusterId transactionId bufLen afBufCmd = do {
     (msg, len) \<leftarrow> msg_pushes
        ([Addr16Bit] @ le16 dstAddr @ replicate 6 0 @ [dstEp, 0, 0, srcEp] @ le16 clusterId
         @ [transactionId, AF_TX_OPTIONS_NONE, AF_DEFAULT_RADIUS] @ le16 bufLen)
        (replicate MAX_ZNP_PAYLOAD_SIZE 0, 0);
     let transactionId' = transactionId + 1;
     if unat len + unat bufLen < MAX_ZNP_PAYLOAD_SIZE
     then do {
       d \<leftarrow> memread 0 (unat bufLen) afBufCmd;
       msg' \<leftarrow> memcpy_at (unat len) d msg;
       (res, buf') \<leftarrow> znpSend buf MT_AF_DATA_EXT_SREQ (len + ucast bufLen) msg';
       Some (res, buf', transactionId')
     }
     else Some (False, buf, transactionId')
   }"

definition zclFrameControl :: "bool \<Rightarrow> u16 \<Rightarrow> u8 \<Rightarrow> u8" where
  "zclFrameControl specific manuCode direction =
     ((if specific then 1 else 0) AND 0x03)
     OR (if manuCode \<noteq> 0 then push_bit 2 1 else 0)
     OR push_bit 3 (direction AND 0x01)"

text \<open>The state is the transmit buffer and the global \<open>g_zclTransactionId\<close>; \<open>transID\<close> is the
  reference the caller gave.\<close>

definition znpSendZclCommand ::
    "uartBufControl_t \<Rightarrow> u8 \<Rightarrow> u16 \<Rightarrow> u8 \<Rightarrow> u8 \<Rightarrow> u8 \<Rightarrow> bool \<Rightarrow> u16 \<Rightarrow> u8 \<Rightarrow> u16 \<Rightarrow> u16 \<Rightarrow> bytes option \<Rightarrow> u8 \<Rightarrow>
     (bool \<times> uartBufControl_t \<times> u8 \<times> u8) exec" where
  "znpSendZclCommand buf g dstAddr dstEp srcEp zclCmd specific clusterId direction manuCode bufLen
       afBufCmd transID = do {
     let hdr = [zclFrameControl specific manuCode direction]
               @ (if manuCode \<noteq> 0 then le16 manuCode else []) @ [0, zclCmd];
     let msg = hdr @ replicate (MAX_ZNP_PAYLOAD_SIZE - length hdr) 0;
     if length hdr + unat bufLen < MAX_ZNP_PAYLOAD_SIZE
     then do {
       (msg', len) \<leftarrow> (case afBufCmd of
           Some cmdData \<Rightarrow>
             if bufLen > 0 then do {
               d \<leftarrow> memread 0 (unat bufLen) cmdData;
               msg' \<leftarrow> memcpy_at (length hdr) d msg;
               Some (msg', of_nat (length hdr) + bufLen)
             } else Some (msg, of_nat (length hdr))
         | None \<Rightarrow> Some (msg, of_nat (length hdr)));
       (res, buf', g') \<leftarrow> znpSendAfDataRequest buf dstAddr dstEp srcEp clusterId g len msg';
       Some (res, buf', g', g)
     }
     else Some (False, buf, g, transID)
   }"

subsection \<open>The ZCL header\<close>

record azapZclFrameHeader_t =
  fcType :: u8
  fcManuSpecific :: u8
  fcDirection :: u8
  fcDisableDefaultRsp :: u8
  fcReserved :: u8
  hdrManuCode :: u16
  transSeqNum :: u8
  commandId :: u8

definition parseZCLHeader ::
    "bytes option \<Rightarrow> u8 \<Rightarrow> (azapZclFrameHeader_t \<times> bytes option \<times> u8) exec" where
  "parseZCLHeader payload len = do {
     (readByte, p1, l1) \<leftarrow> parseUint8AndShift payload len;
     let manu = drop_bit 2 (readByte AND 0x04);
     (mc, p2, l2) \<leftarrow> (if manu \<noteq> 0 then parseUint16AndShift p1 l1 else Some (0, p1, l1));
     (seq, p3, l3) \<leftarrow> parseUint8AndShift p2 l2;
     (cmd, p4, l4) \<leftarrow> parseUint8AndShift p3 l3;
     Some (\<lparr>fcType = readByte AND 0x03, fcManuSpecific = manu,
            fcDirection = drop_bit 3 (readByte AND 0x08),
            fcDisableDefaultRsp = drop_bit 4 (readByte AND 0x10),
            fcReserved = drop_bit 5 (readByte AND 0xE0),
            hdrManuCode = mc, transSeqNum = seq, commandId = cmd\<rparr>, p4, l4)
   }"

subsection \<open>Parsing the ZCL profile commands\<close>

text \<open>The result is the parsed command, a list of attribute records (\<open>numAttr\<close> is its
  length), or \<open>None\<close> for a returned \<open>NULL\<close>. Fields that the code leaves uninitialised are
  \<open>None\<close>.\<close>

record azapZclReadRspAttr_t =
  rrAttrId :: u16
  rrStatus :: u8
  rrValue :: "(u8 \<times> bytes) option"

fun readRsp_count :: "nat \<Rightarrow> u8 \<Rightarrow> bytes \<Rightarrow> u8 \<Rightarrow> u8 \<Rightarrow> u8 option exec" where
  "readRsp_count 0 len data pos numAttr = None"
| "readRsp_count (Suc fuel) len data pos numAttr =
    (if \<not> pos < len then Some (Some numAttr)
     else do {
       let pos1 = pos + 2;
       st \<leftarrow> idx data (unat pos1);
       if st = ZCL_STATUS_SUCCESS then do {
         ty \<leftarrow> idx data (unat pos1 + 1);
         size \<leftarrow> azapGetZclDataLength ty (Some (drop (unat pos1 + 2) data));
         let pos2 = pos1 + 1;
         if size > len \<or> unat size + unat pos2 + 1 > unat len then Some None
         else readRsp_count fuel len data (pos2 + size + 1) (numAttr + 1)
       }
       else readRsp_count fuel len data (pos1 + 1) (numAttr + 1)
     })"

fun readRsp_fill :: "nat \<Rightarrow> bytes option \<Rightarrow> u8 \<Rightarrow> azapZclReadRspAttr_t list exec" where
  "readRsp_fill 0 data len = Some []"
| "readRsp_fill (Suc n) data len =
    (if len = 0 then Some []
     else do {
       (attrId, data1, len1) \<leftarrow> parseUint16AndShift data len;
       (st, data2, len2) \<leftarrow> parseUint8AndShift data1 len1;
       if st = ZCL_STATUS_SUCCESS then do {
         (ty, data3, len3) \<leftarrow> parseUint8AndShift data2 len2;
         size \<leftarrow> azapGetZclDataLength ty data3;
         p \<leftarrow> data3;
         rest \<leftarrow> readRsp_fill n (Some (drop (unat size) p)) (len3 - size);
         Some (\<lparr>rrAttrId = attrId, rrStatus = st, rrValue = Some (ty, p)\<rparr> # rest)
       }
       else do {
         rest \<leftarrow> readRsp_fill n data2 len2;
         Some (\<lparr>rrAttrId = attrId, rrStatus = st, rrValue = None\<rparr> # rest)
       }
     })"

definition parseZCLReadCmdRsp :: "bool \<Rightarrow> u8 \<Rightarrow> bytes \<Rightarrow> azapZclReadRspAttr_t list option exec" where
  "parseZCLReadCmdRsp mallocOk len data = do {
     cnt \<leftarrow> readRsp_count 256 len data 0 0;
     case cnt of
       None \<Rightarrow> Some None
     | Some numAttr \<Rightarrow>
         if \<not> mallocOk then Some None
         else do { attrs \<leftarrow> readRsp_fill (unat numAttr) (Some data) len; Some (Some attrs) }
   }"

text \<open>The loops of the form \<open>while (len >= need)\<close>; 256 turns cover every \<open>azap_uint8\<close> length.\<close>

fun parse_while ::
    "nat \<Rightarrow> nat \<Rightarrow> (bytes option \<Rightarrow> u8 \<Rightarrow> ('a \<times> bytes option \<times> u8) exec) \<Rightarrow> bytes option \<Rightarrow> u8 \<Rightarrow>
     'a list exec" where
  "parse_while 0 need f data len = None"
| "parse_while (Suc fuel) need f data len =
    (if unat len < need then Some []
     else do {
       (x, data', len') \<leftarrow> f data len;
       xs \<leftarrow> parse_while fuel need f data' len';
       Some (x # xs)
     })"

record azapZclWriteRspAttr_t =
  wrStatus :: u8
  wrAttrId :: "u16 option"

definition writeRsp_attr :: "bytes option \<Rightarrow> u8 \<Rightarrow> (azapZclWriteRspAttr_t \<times> bytes option \<times> u8) exec" where
  "writeRsp_attr data len = do {
     (st, data1, len1) \<leftarrow> parseUint8AndShift data len;
     (attrId, data2, len2) \<leftarrow> parseUint16AndShift data1 len1;
     Some (\<lparr>wrStatus = st, wrAttrId = Some attrId\<rparr>, data2, len2)
   }"

definition parseZCLWriteCmdRsp :: "bool \<Rightarrow> u8 \<Rightarrow> bytes \<Rightarrow> azapZclWriteRspAttr_t list option exec" where
  "parseZCLWriteCmdRsp mallocOk len data =
    (if \<not> mallocOk then Some None
     else if len = 1 then do {
       (st, _, _) \<leftarrow> parseUint8AndShift (Some data) len;
       Some (Some [\<lparr>wrStatus = st, wrAttrId = None\<rparr>])
     }
     else do { attrs \<leftarrow> parse_while 256 3 writeRsp_attr (Some data) len; Some (Some attrs) })"

record azapZclCfgReportRspAttr_t =
  crStatus :: u8
  crDirection :: u8
  crAttrId :: u16

definition cfgReportRsp_attr ::
    "bytes option \<Rightarrow> u8 \<Rightarrow> (azapZclCfgReportRspAttr_t \<times> bytes option \<times> u8) exec" where
  "cfgReportRsp_attr data len = do {
     (st, data1, len1) \<leftarrow> parseUint8AndShift data len;
     (dir, data2, len2) \<leftarrow> parseUint8AndShift data1 len1;
     (attrId, data3, len3) \<leftarrow> parseUint16AndShift data2 len2;
     Some (\<lparr>crStatus = st, crDirection = dir, crAttrId = attrId\<rparr>, data3, len3)
   }"

definition parseZCLConfigureReportCmdRsp ::
    "bool \<Rightarrow> u8 \<Rightarrow> bytes \<Rightarrow> azapZclCfgReportRspAttr_t list option exec" where
  "parseZCLConfigureReportCmdRsp mallocOk len data =
    (if \<not> mallocOk then Some None
     else do { attrs \<leftarrow> parse_while 256 4 cfgReportRsp_attr (Some data) len; Some (Some attrs) })"

record azapZclReportAttr_t =
  raAttrId :: u16
  raDataType :: u8
  raAttrData :: bytes

fun report_count :: "nat \<Rightarrow> u8 \<Rightarrow> bytes \<Rightarrow> u8 \<Rightarrow> u8 \<Rightarrow> u8 option exec" where
  "report_count 0 len data pos numAttr = None"
| "report_count (Suc fuel) len data pos numAttr =
    (if \<not> pos < len then Some (Some numAttr)
     else do {
       let pos1 = pos + 2;
       ty \<leftarrow> idx data (unat pos1);
       size \<leftarrow> azapGetZclDataLength ty (Some (drop (unat pos1 + 1) data));
       let pos2 = pos1 + 1;
       if size > len \<or> unat size + unat pos2 > unat len then Some None
       else report_count fuel len data (pos2 + size) (numAttr + 1)
     })"

fun report_fill :: "nat \<Rightarrow> bytes option \<Rightarrow> u8 \<Rightarrow> azapZclReportAttr_t list exec" where
  "report_fill 0 data len = Some []"
| "report_fill (Suc n) data len =
    (if len = 0 then Some []
     else do {
       (attrId, data1, len1) \<leftarrow> parseUint16AndShift data len;
       (ty, data2, len2) \<leftarrow> parseUint8AndShift data1 len1;
       size \<leftarrow> azapGetZclDataLength ty data2;
       p \<leftarrow> data2;
       rest \<leftarrow> report_fill n (Some (drop (unat size) p)) (len2 - size);
       Some (\<lparr>raAttrId = attrId, raDataType = ty, raAttrData = p\<rparr> # rest)
     })"

definition parseZCLReportCmd :: "bool \<Rightarrow> u8 \<Rightarrow> bytes \<Rightarrow> azapZclReportAttr_t list option exec" where
  "parseZCLReportCmd mallocOk len data = do {
     cnt \<leftarrow> report_count 256 len data 0 0;
     case cnt of
       None \<Rightarrow> Some None
     | Some numAttr \<Rightarrow>
         if \<not> mallocOk then Some None
         else do { attrs \<leftarrow> report_fill (unat numAttr) (Some data) len; Some (Some attrs) }
   }"

record azapZclReportCfgRspAttr_t =
  rcStatus :: u8
  rcDirection :: u8
  rcAttrId :: u16
  rcDataType :: "u8 option"
  rcMinReportInt :: "u16 option"
  rcMaxReportInt :: "u16 option"
  rcTimeoutPeriod :: "u16 option"
  rcReportableChange :: "bytes option"

fun readReportCfg_count :: "nat \<Rightarrow> u8 \<Rightarrow> bytes \<Rightarrow> u8 \<Rightarrow> u8 \<Rightarrow> u8 option exec" where
  "readReportCfg_count 0 len data pos numAttr = None"
| "readReportCfg_count (Suc fuel) len data pos numAttr =
    (if \<not> pos < len then Some (Some numAttr)
     else do {
       st \<leftarrow> idx data (unat pos);
       dir \<leftarrow> idx data (unat pos + 1);
       let pos1 = pos + 4;
       if st = ZCL_STATUS_SUCCESS then
         (if dir = ZCL_SEND_ATTR_REPORTS then do {
            ty \<leftarrow> idx data (unat pos1);
            let pos2 = pos1 + 5;
            if azapZclIsAnalogDataType ty then do {
              size \<leftarrow> azapGetZclDataLength ty None;
              if size > len \<or> unat size + unat pos2 > unat len then Some None
              else readReportCfg_count fuel len data (pos2 + size) (numAttr + 1)
            }
            else readReportCfg_count fuel len data pos2 (numAttr + 1)
          }
          else readReportCfg_count fuel len data (pos1 + 2) (numAttr + 1))
       else readReportCfg_count fuel len data pos1 (numAttr + 1)
     })"

fun readReportCfg_fill :: "nat \<Rightarrow> bytes option \<Rightarrow> u8 \<Rightarrow> azapZclReportCfgRspAttr_t list exec" where
  "readReportCfg_fill 0 data len = Some []"
| "readReportCfg_fill (Suc n) data len =
    (if len = 0 then Some []
     else do {
       (st, data1, len1) \<leftarrow> parseUint8AndShift data len;
       (dir, data2, len2) \<leftarrow> parseUint8AndShift data1 len1;
       (attrId, data3, len3) \<leftarrow> parseUint16AndShift data2 len2;
       if st = ZCL_STATUS_SUCCESS then
         (if dir = ZCL_SEND_ATTR_REPORTS then do {
            (ty, data4, len4) \<leftarrow> parseUint8AndShift data3 len3;
            (mn, data5, len5) \<leftarrow> parseUint16AndShift data4 len4;
            (mx, data6, len6) \<leftarrow> parseUint16AndShift data5 len5;
            size \<leftarrow> azapGetZclDataLength ty data6;
            p \<leftarrow> data6;
            rest \<leftarrow> readReportCfg_fill n (Some (drop (unat size) p)) (len6 - size);
            Some (\<lparr>rcStatus = st, rcDirection = dir, rcAttrId = attrId, rcDataType = Some ty,
                   rcMinReportInt = Some mn, rcMaxReportInt = Some mx, rcTimeoutPeriod = Some 0,
                   rcReportableChange = Some p\<rparr> # rest)
          }
          else do {
            (tmo, data4, len4) \<leftarrow> parseUint16AndShift data3 len3;
            rest \<leftarrow> readReportCfg_fill n data4 len4;
            Some (\<lparr>rcStatus = st, rcDirection = dir, rcAttrId = attrId, rcDataType = Some 0,
                   rcMinReportInt = Some 0, rcMaxReportInt = Some 0, rcTimeoutPeriod = Some tmo,
                   rcReportableChange = None\<rparr> # rest)
          })
       else do {
         rest \<leftarrow> readReportCfg_fill n data3 len3;
         Some (\<lparr>rcStatus = st, rcDirection = dir, rcAttrId = attrId, rcDataType = None,
                rcMinReportInt = None, rcMaxReportInt = None, rcTimeoutPeriod = None,
                rcReportableChange = None\<rparr> # rest)
       }
     })"

definition parseZCLReadReportConfigCmdRsp ::
    "bool \<Rightarrow> u8 \<Rightarrow> bytes \<Rightarrow> azapZclReportCfgRspAttr_t list option exec" where
  "parseZCLReadReportConfigCmdRsp mallocOk len data = do {
     cnt \<leftarrow> readReportCfg_count 256 len data 0 0;
     case cnt of
       None \<Rightarrow> Some None
     | Some numAttr \<Rightarrow>
         if \<not> mallocOk then Some None
         else do { attrs \<leftarrow> readReportCfg_fill (unat numAttr) (Some data) len; Some (Some attrs) }
   }"

record azapZclDiscoverAttr_t =
  daAttrId :: u16
  daDataType :: u8

definition discover_attr :: "bytes option \<Rightarrow> u8 \<Rightarrow> (azapZclDiscoverAttr_t \<times> bytes option \<times> u8) exec" where
  "discover_attr data len = do {
     (attrId, data1, len1) \<leftarrow> parseUint16AndShift data len;
     (ty, data2, len2) \<leftarrow> parseUint8AndShift data1 len1;
     Some (\<lparr>daAttrId = attrId, daDataType = ty\<rparr>, data2, len2)
   }"

definition parseZCLDiscoverRspCmd ::
    "bool \<Rightarrow> u8 \<Rightarrow> bytes \<Rightarrow> (u8 \<times> azapZclDiscoverAttr_t list) option exec" where
  "parseZCLDiscoverRspCmd mallocOk len data =
    (if \<not> mallocOk then Some None
     else do {
       (complete, data1, len1) \<leftarrow> parseUint8AndShift (Some data) len;
       attrs \<leftarrow> parse_while 256 3 discover_attr data1 len1;
       Some (Some (complete, attrs))
     })"

record azapZclCfgReportAttr_t =
  caDirection :: u8
  caAttrId :: u16
  caDataType :: u8
  caMinReportInt :: u16
  caMaxReportInt :: u16
  caTimeoutPeriod :: u16
  caReportableChange :: "bytes option"

fun cfgReport_count :: "nat \<Rightarrow> u8 \<Rightarrow> bytes \<Rightarrow> u8 \<Rightarrow> u8 \<Rightarrow> u8 option exec" where
  "cfgReport_count 0 len data pos numAttr = None"
| "cfgReport_count (Suc fuel) len data pos numAttr =
    (if \<not> pos < len then Some (Some numAttr)
     else do {
       dir \<leftarrow> idx data (unat pos);
       let pos1 = pos + 3;
       if dir = ZCL_SEND_ATTR_REPORTS then do {
         ty \<leftarrow> idx data (unat pos1);
         let pos2 = pos1 + 5;
         if azapZclIsAnalogDataType ty then do {
           size \<leftarrow> azapGetZclDataLength ty None;
           if size > len \<or> unat size + unat pos2 > unat len then Some None
           else cfgReport_count fuel len data (pos2 + size) (numAttr + 1)
         }
         else cfgReport_count fuel len data pos2 (numAttr + 1)
       }
       else cfgReport_count fuel len data (pos1 + 2) (numAttr + 1)
     })"

fun cfgReport_fill :: "nat \<Rightarrow> bytes option \<Rightarrow> u8 \<Rightarrow> azapZclCfgReportAttr_t list exec" where
  "cfgReport_fill 0 data len = Some []"
| "cfgReport_fill (Suc n) data len =
    (if len = 0 then Some []
     else do {
       (dir, data1, len1) \<leftarrow> parseUint8AndShift data len;
       (attrId, data2, len2) \<leftarrow> parseUint16AndShift data1 len1;
       if dir = ZCL_SEND_ATTR_REPORTS then do {
         (ty, data3, len3) \<leftarrow> parseUint8AndShift data2 len2;
         (mn, data4, len4) \<leftarrow> parseUint16AndShift data3 len3;
         (mx, data5, len5) \<leftarrow> parseUint16AndShift data4 len4;
         size \<leftarrow> azapGetZclDataLength ty data5;
         p \<leftarrow> data5;
         rest \<leftarrow> cfgReport_fill n (Some (drop (unat size) p)) (len5 - size);
         Some (\<lparr>caDirection = dir, caAttrId = attrId, caDataType = ty, caMinReportInt = mn,
                caMaxReportInt = mx, caTimeoutPeriod = 0, caReportableChange = Some p\<rparr> # rest)
       }
       else do {
         (tmo, data3, len3) \<leftarrow> parseUint16AndShift data2 len2;
         rest \<leftarrow> cfgReport_fill n data3 len3;
         Some (\<lparr>caDirection = dir, caAttrId = attrId, caDataType = 0, caMinReportInt = 0,
                caMaxReportInt = 0, caTimeoutPeriod = tmo, caReportableChange = None\<rparr> # rest)
       }
     })"

definition parseZCLConfigureReportCmd :: "bool \<Rightarrow> u8 \<Rightarrow> bytes \<Rightarrow> azapZclCfgReportAttr_t list option exec" where
  "parseZCLConfigureReportCmd mallocOk len data = do {
     cnt \<leftarrow> cfgReport_count 256 len data 0 0;
     case cnt of
       None \<Rightarrow> Some None
     | Some numAttr \<Rightarrow>
         if \<not> mallocOk then Some None
         else do { attrs \<leftarrow> cfgReport_fill (unat numAttr) (Some data) len; Some (Some attrs) }
   }"

subsection \<open>Report records\<close>

type_synonym zclRec = "u16 \<times> u8 \<times> bytes"

fun enc_report :: "zclRec \<Rightarrow> bytes" where
  "enc_report (attrId, ty, d) = le16 attrId @ ty # d"

text \<open>The records tile the bytes before \<open>rest\<close>: each value has the length that its type gives
  it at its place.\<close>

fun tiling :: "zclRec list \<Rightarrow> bytes \<Rightarrow> bool" where
  "tiling [] rest = True"
| "tiling ((attrId, ty, d) # rs) rest =
     (azapGetZclDataLength ty (Some (d @ concat (map enc_report rs) @ rest)) = Some (of_nat (length d)) \<and>
      length d < 256 \<and> tiling rs rest)"

fun shows_rec :: "zclRec \<Rightarrow> azapZclReportAttr_t \<Rightarrow> bool" where
  "shows_rec (attrId, ty, d) a =
     (raAttrId a = attrId \<and> raDataType a = ty \<and> take (length d) (raAttrData a) = d)"

lemma length_le16 [simp]: "length (le16 v) = 2"
  by (simp add: le16_def)

lemma le16_append: "le16 v @ r = LO_UINT16 v # HI_UINT16 v # r"
  by (simp add: le16_def)

lemma length_enc_report [simp]: "length (enc_report r) = length (snd (snd r)) + 3"
  by (cases r) simp

text \<open>A value of a fixed-size type, or a string with its length prefix, tiles anywhere.\<close>

lemma dataLength_append:
  assumes "azapGetZclDataLength ty (Some d) = Some n"
  shows "azapGetZclDataLength ty (Some (d @ r)) = Some n"
proof -
  have ix: "idx d i = Some b \<Longrightarrow> idx (d @ r) i = Some b" for i b
    by (auto simp: idx_def nth_append split: if_splits)
  consider (str) "ty \<in> {ZCL_DATATYPE_CHAR_STR, ZCL_DATATYPE_OCTET_STR}"
    | (long) "ty \<in> {ZCL_DATATYPE_LONG_CHAR_STR, ZCL_DATATYPE_LONG_OCTET_STR}"
        "ty \<notin> {ZCL_DATATYPE_CHAR_STR, ZCL_DATATYPE_OCTET_STR}"
    | (fixed) "ty \<notin> {ZCL_DATATYPE_CHAR_STR, ZCL_DATATYPE_OCTET_STR}"
        "ty \<notin> {ZCL_DATATYPE_LONG_CHAR_STR, ZCL_DATATYPE_LONG_OCTET_STR}" by blast
  then show ?thesis
  proof cases
    case str
    with assms ix show ?thesis
      unfolding azapGetZclDataLength_def if_P [OF str] by (auto simp del: idx_None_iff split: bind_splits)
  next
    case long
    with assms ix show ?thesis
      unfolding azapGetZclDataLength_def if_not_P [OF long(2)] if_P [OF long(1)]
      by (auto simp del: idx_None_iff split: bind_splits if_splits)
  next
    case fixed
    from assms show ?thesis
      unfolding azapGetZclDataLength_def if_not_P [OF fixed(1)] if_not_P [OF fixed(2)] .
  qed
qed

lemma tilingI:
  "\<forall>(attrId, ty, d) \<in> set rs. azapGetZclDataLength ty (Some d) = Some (of_nat (length d)) \<and> length d < 256 \<Longrightarrow>
   tiling rs rest"
  by (induction rs rest rule: tiling.induct) (auto intro: dataLength_append)

lemma u8_add_of_nat: "(of_nat a :: u8) + of_nat b = of_nat (a + b)"
  by simp

lemma report_count_step:
  assumes "n + length d + 3 \<le> tot" "tot < 254" "length pre = n"
    "azapGetZclDataLength ty (Some (d @ r)) = Some (of_nat (length d))" "length d < 256"
  shows "report_count (Suc fuel) (of_nat tot) (pre @ enc_report (attrId, ty, d) @ r) (of_nat n) k
       = report_count fuel (of_nat tot) (pre @ enc_report (attrId, ty, d) @ r) (of_nat (n + length d + 3)) (k + 1)"
proof -
  let ?data = "pre @ enc_report (attrId, ty, d) @ r"
  have t: "unat (of_nat tot :: u8) = tot" "unat (of_nat n :: u8) = n"
    "unat (of_nat (length d) :: u8) = length d" using assms by (simp_all add: unat_of_nat_u8)
  have n2: "unat (of_nat n + 2 :: u8) = n + 2" "unat (of_nat n + 2 + 1 :: u8) = n + 3"
    using assms(1,2) unat_of_nat_u8 [of "n + 2"] unat_of_nat_u8 [of "n + 3"] by (simp_all add: ac_simps)
  have lt: "(of_nat n :: u8) < of_nat tot" using assms t by (simp add: word_less_nat_alt)
  have ix: "idx ?data (n + 2) = Some ty" using assms(3) by (simp add: idx_def nth_append le16_def)
  have dr: "drop (Suc (n + 2)) ?data = d @ r" using assms(3) by (simp add: le16_def)
  have "\<not> (of_nat (length d) :: u8) > of_nat tot" using assms(1) t by (simp add: word_less_nat_alt)
  then show ?thesis
    using lt ix dr assms t n2 by (simp add: Let_def algebra_simps)
qed

lemma report_count_tiling:
  assumes "tiling rs rest" "length pre + length (concat (map enc_report rs)) = tot" "tot < 254"
    "length rs < fuel"
  shows "report_count fuel (of_nat tot) (pre @ concat (map enc_report rs) @ rest) (of_nat (length pre)) k
       = Some (Some (k + of_nat (length rs)))"
  using assms
proof (induction rs arbitrary: pre fuel k)
  case Nil
  then show ?case by (cases fuel) auto
next
  case (Cons x rs)
  obtain attrId ty d where x: "x = (attrId, ty, d)" by (cases x)
  obtain f where f: "fuel = Suc f" using Cons.prems(4) by (cases fuel) auto
  let ?r = "concat (map enc_report rs) @ rest"
  have "report_count fuel (of_nat tot) (pre @ enc_report x @ ?r) (of_nat (length pre)) k
      = report_count f (of_nat tot) (pre @ enc_report x @ ?r) (of_nat (length pre + length d + 3)) (k + 1)"
    unfolding f x by (rule report_count_step) (use Cons.prems x in auto)
  also have "\<dots> = Some (Some (k + 1 + of_nat (length rs)))"
    using Cons.IH [of "pre @ enc_report x" f "k + 1"] Cons.prems x f by (simp add: algebra_simps)
  finally show ?case by (simp add: algebra_simps)
qed

lemma report_fill_tiling:
  assumes "tiling rs rest" "length (concat (map enc_report rs)) = tot" "tot < 256"
  shows "\<exists>attrs. report_fill (length rs) (Some (concat (map enc_report rs) @ rest)) (of_nat tot) = Some attrs \<and>
           list_all2 shows_rec rs attrs"
  using assms
proof (induction rs arbitrary: tot)
  case Nil
  then show ?case by simp
next
  case (Cons x rs)
  obtain attrId ty d where x: "x = (attrId, ty, d)" by (cases x)
  let ?r = "concat (map enc_report rs) @ rest"
  let ?t = "length (concat (map enc_report rs))"
  have ttl: "tot = length d + 3 + ?t" using Cons.prems(2) x by simp
  have u: "unat (of_nat tot :: u8) = tot" "unat (of_nat tot - 2 :: u8) = tot - 2"
    "(of_nat tot :: u8) \<noteq> 0"
    using Cons.prems(3) ttl unat_of_nat_u8 [of tot] unat_diff_u8 [of 2 "of_nat tot"]
    by (simp_all add: word_eq_unat_iff)
  have p: "parseUint16AndShift (Some (le16 attrId @ ty # d @ ?r)) (of_nat tot)
      = Some (attrId, Some (ty # d @ ?r), of_nat tot - 2)"
    "parseUint8AndShift (Some (ty # d @ ?r)) (of_nat tot - 2)
      = Some (ty, Some (d @ ?r), of_nat tot - 2 - 1)"
    using u ttl by (simp_all add: le16_append parse_simps)
  have l: "(of_nat tot - 2 - 1 - of_nat (length d) :: u8) = of_nat ?t"
    using ttl by simp
  from Cons.IH [of ?t] Cons.prems ttl x obtain attrs where
    "report_fill (length rs) (Some ?r) (of_nat ?t) = Some attrs" "list_all2 shows_rec rs attrs" by auto
  then show ?case
    using p l u Cons.prems(1) x by (simp add: unat_of_nat_u8)
qed

lemma dataLength_total:
  assumes "2 \<le> length p"
  shows "\<exists>n. azapGetZclDataLength ty (Some p) = Some n"
proof -
  have "idx p 0 = Some (p ! 0)" "idx p 1 = Some (p ! 1)" using assms by (auto simp: idx_def)
  then show ?thesis unfolding azapGetZclDataLength_def by simp
qed

text \<open>One turn of the counting loop on arbitrary bytes: it stops with \<open>NULL\<close>, or a record was
  there and the loop goes on behind it.\<close>

lemma report_count_turn:
  assumes "n < tot" "tot < 254" "tot + 4 \<le> length data"
  obtains (null) "report_count (Suc fuel) (of_nat tot) data (of_nat n) k = Some None"
    | (step) attrId ty d where
        "report_count (Suc fuel) (of_nat tot) data (of_nat n) k
           = report_count fuel (of_nat tot) data (of_nat (n + length d + 3)) (k + 1)"
        "n + length d + 3 \<le> tot" "drop n data = enc_report (attrId, ty, d) @ drop (n + length d + 3) data"
        "azapGetZclDataLength ty (Some (d @ drop (n + length d + 3) data)) = Some (of_nat (length d))"
proof -
  let ?ty = "data ! (n + 2)"
  have "2 \<le> length (drop (n + 3) data)" using assms by simp
  then obtain sz where sz: "azapGetZclDataLength ?ty (Some (drop (n + 3) data)) = Some sz"
    using dataLength_total by blast
  have u: "unat (of_nat tot :: u8) = tot" "unat (of_nat n + 2 :: u8) = n + 2"
    "unat (of_nat n + 2 + 1 :: u8) = n + 3"
    using assms(1,2) unat_of_nat_u8 [of tot] unat_of_nat_u8 [of "n + 2"] unat_of_nat_u8 [of "n + 3"]
    by (simp_all add: ac_simps)
  have lt: "(of_nat n :: u8) < of_nat tot"
    using assms(1,2) u unat_of_nat_u8 [of n] by (simp add: word_less_nat_alt)
  have ix: "idx data (n + 2) = Some ?ty" using assms by (simp add: idx_def)
  have rc: "report_count (Suc fuel) (of_nat tot) data (of_nat n) k =
      (if sz > of_nat tot \<or> unat sz + (n + 3) > tot then Some None
       else report_count fuel (of_nat tot) data (of_nat n + 2 + 1 + sz) (k + 1))"
    using lt ix sz u by (simp add: Let_def numeral_3_eq_3)
  show thesis
  proof (cases "unat sz + (n + 3) > tot")
    case True
    with rc null show ?thesis by simp
  next
    case False
    let ?d = "take (unat sz) (drop (n + 3) data)"
    have d: "length ?d = unat sz" using False assms by simp
    have "drop (n + length ?d + 3) data = drop (unat sz) (drop (n + 3) data)"
      unfolding d by (simp add: ac_simps)
    then have dd: "?d @ drop (n + length ?d + 3) data = drop (n + 3) data"
      by (simp only: append_take_drop_id)
    have "\<not> sz > of_nat tot" using False u by (simp add: word_less_nat_alt)
    with rc False have "report_count (Suc fuel) (of_nat tot) data (of_nat n) k
        = report_count fuel (of_nat tot) data (of_nat (n + length ?d + 3)) (k + 1)"
      unfolding d by (simp add: algebra_simps del: report_count.simps)
    moreover have "n + length ?d + 3 \<le> tot" using False d by simp
    moreover have "drop n data = enc_report (ucast (data ! n) + push_bit 8 (ucast (data ! (n + 1))), ?ty, ?d)
        @ drop (n + length ?d + 3) data"
    proof -
      have "drop n data = data ! n # data ! (n + 1) # ?ty # drop (n + 3) data"
        using assms by (simp add: Cons_nth_drop_Suc numeral_2_eq_2 numeral_3_eq_3)
      also have "drop (n + 3) data = ?d @ drop (n + length ?d + 3) data"
        by (rule dd [symmetric])
      finally show ?thesis by (simp add: le16_def LO_build HI_build)
    qed
    moreover note dd
    moreover have "(of_nat (length ?d) :: u8) = sz"
      unfolding d by (simp add: word_eq_unat_iff unat_of_nat_u8 unat_u8_bound)
    ultimately show ?thesis
      using step [of ?d] sz by (simp only:)
  qed
qed

lemma report_count_sound:
  assumes "report_count fuel (of_nat tot) data (of_nat n) k = Some (Some m)"
    "n \<le> tot" "tot < 254" "tot + 4 \<le> length data"
  shows "\<exists>rs. drop n data = concat (map enc_report rs) @ drop tot data \<and>
              length (concat (map enc_report rs)) = tot - n \<and>
              tiling rs (drop tot data) \<and> m = k + of_nat (length rs)"
  using assms
proof (induction fuel arbitrary: n k)
  case 0
  then show ?case by simp
next
  case (Suc fuel)
  show ?case
  proof (cases "n = tot")
    case True
    with Suc.prems show ?thesis by (intro exI [of _ "[]"]) simp
  next
    case False
    with Suc.prems have "n < tot" by simp
    from this Suc.prems(3,4) show ?thesis
    proof (rule report_count_turn [of n tot data fuel k], goal_cases)
      case 1
      with Suc.prems(1) show ?case by simp
    next
      case (2 attrId ty d)
      from Suc.IH [of "n + length d + 3" "k + 1"] 2 Suc.prems obtain rs where rs:
        "drop (n + length d + 3) data = concat (map enc_report rs) @ drop tot data"
        "length (concat (map enc_report rs)) = tot - (n + length d + 3)"
        "tiling rs (drop tot data)" "m = k + 1 + of_nat (length rs)" by auto
      have "length d < 256" using 2 Suc.prems by simp
      with rs 2 show ?case by (intro exI [of _ "(attrId, ty, d) # rs"]) (simp add: algebra_simps)
    qed
  qed
qed

lemma report_count_total:
  assumes "n \<le> tot" "tot < 254" "tot + 4 \<le> length data" "tot - n < fuel"
  shows "\<exists>r. report_count fuel (of_nat tot) data (of_nat n) k = Some r"
  using assms
proof (induction fuel arbitrary: n k)
  case 0
  then show ?case by simp
next
  case (Suc fuel)
  show ?case
  proof (cases "n = tot")
    case True
    then show ?thesis by simp
  next
    case False
    with Suc.prems have "n < tot" by simp
    from this Suc.prems(2,3) show ?thesis
    proof (rule report_count_turn [of n tot data fuel k], goal_cases)
      case 1
      then show ?case by simp
    next
      case (2 attrId ty d)
      with Suc.IH [of "n + length d + 3" "k + 1"] Suc.prems show ?case by simp
    qed
  qed
qed

lemma parseZCLReportCmd_tiling:
  assumes "tiling rs rest" "length (concat (map enc_report rs)) = tot" "tot < 254"
  shows "\<exists>attrs. parseZCLReportCmd True (of_nat tot) (concat (map enc_report rs) @ rest) = Some (Some attrs) \<and>
           list_all2 shows_rec rs attrs"
proof -
  have "length rs \<le> length (concat (map enc_report rs))" by (induction rs) auto
  with assms(2,3) have n: "length rs < 256" by simp
  then have "report_count 256 (of_nat tot) (concat (map enc_report rs) @ rest) 0 0 = Some (Some (of_nat (length rs)))"
    using report_count_tiling [OF assms(1), of "[]" tot 256 0] assms(2,3) by simp
  with report_fill_tiling [OF assms(1,2)] assms(3) n show ?thesis
    by (auto simp: parseZCLReportCmd_def unat_of_nat_u8)
qed

lemma parseZCLReportCmd_total:
  assumes "unat len < 254" "unat len + 4 \<le> length data"
  shows "\<exists>res. parseZCLReportCmd True len data = Some res \<and>
           (\<forall>attrs. res = Some attrs \<longrightarrow>
              (\<exists>rs. take (unat len) data = concat (map enc_report rs) \<and> list_all2 shows_rec rs attrs))"
proof -
  have len: "len = of_nat (unat len)" by (simp add: word_eq_unat_iff unat_of_nat_u8 unat_u8_bound)
  obtain r where r: "report_count 256 (of_nat (unat len)) data (of_nat 0) 0 = Some r"
    using report_count_total [of 0 "unat len" data 256 0] assms by auto
  show ?thesis
  proof (cases r)
    case None
    with r len show ?thesis by (auto simp: parseZCLReportCmd_def)
  next
    case (Some m)
    from report_count_sound [OF r [unfolded Some]] assms obtain rs where rs:
      "data = concat (map enc_report rs) @ drop (unat len) data"
      "length (concat (map enc_report rs)) = unat len" "tiling rs (drop (unat len) data)" by auto
    from parseZCLReportCmd_tiling [OF rs(3,2) assms(1)] len rs(1) obtain attrs where
      "parseZCLReportCmd True len data = Some (Some attrs)" "list_all2 shows_rec rs attrs"
      by (metis (no_types))
    moreover have "take (unat len) data = concat (map enc_report rs)"
      using rs(1,2) by (metis append_eq_conv_conj)
    ultimately show ?thesis by auto
  qed
qed

subsection \<open>AF data requests and the ZCL header\<close>

lemma msg_pushes_written:
  "length bs \<le> length rest \<Longrightarrow> length pre + length bs < 256 \<Longrightarrow>
   msg_pushes bs (pre @ rest, of_nat (length pre))
     = Some (pre @ bs @ drop (length bs) rest, of_nat (length pre + length bs))"
proof (induction bs arbitrary: pre rest)
  case Nil
  then show ?case by simp
next
  case (Cons b bs)
  then obtain r rs where r: "rest = r # rs" by (cases rest) auto
  have "msg_push b (pre @ rest, of_nat (length pre)) = Some ((pre @ [b]) @ rs, of_nat (length (pre @ [b])))"
    using Cons.prems r by (simp add: msg_push_def unat_of_nat_u8 memcpy_at_def)
  with Cons.IH [of rs "pre @ [b]"] Cons.prems r show ?case by (simp add: algebra_simps)
qed

definition af_header :: "u16 \<Rightarrow> u8 \<Rightarrow> u8 \<Rightarrow> u16 \<Rightarrow> u8 \<Rightarrow> nat \<Rightarrow> bytes" where
  "af_header dstAddr dstEp srcEp clusterId tid n =
     [Addr16Bit] @ le16 dstAddr @ replicate 6 0 @ [dstEp, 0, 0, srcEp] @ le16 clusterId
     @ [tid, AF_TX_OPTIONS_NONE, AF_DEFAULT_RADIUS] @ le16 (of_nat n)"

lemma length_af_header [simp]: "length (af_header a b c d e n) = 20"
  by (simp add: af_header_def)

text \<open>Whatever the payload length and the room left, sending an AF request ends: it is refused
  without a byte written, or its one frame is appended to the buffer. The first happens exactly when
  the frame is longer than a frame may be or the buffer has no room for it.\<close>

lemma af_header_pushed:
  "msg_pushes ([Addr16Bit] @ le16 dstAddr @ replicate 6 0 @ [dstEp, 0, 0, srcEp] @ le16 clusterId
         @ [tid, AF_TX_OPTIONS_NONE, AF_DEFAULT_RADIUS] @ le16 bufLen) (replicate MAX_ZNP_PAYLOAD_SIZE 0, 0)
      = Some (af_header dstAddr dstEp srcEp clusterId tid (unat bufLen) @ replicate 235 0, 20)"
  using msg_pushes_written [of "af_header dstAddr dstEp srcEp clusterId tid (unat bufLen)" "replicate 255 0" "[]"]
  by (simp add: MAX_ZNP_PAYLOAD_SIZE_def af_header_def)

lemma znpSendAfDataRequest_cases:
  assumes "uart_wf buf" "unat bufLen \<le> length cmd"
  shows "\<exists>ok buf'. znpSendAfDataRequest buf dstAddr dstEp srcEp clusterId tid bufLen cmd = Some (ok, buf', tid + 1) \<and>
           uart_wf buf' \<and>
           (ok \<longleftrightarrow> unat bufLen \<le> 230 \<and> length (uart_contents buf) + unat bufLen + 25 \<le> uart_capacity buf) \<and>
           (if ok then uart_contents buf' = uart_contents buf @ znp_frame MT_AF_DATA_EXT_SREQ
                (af_header dstAddr dstEp srcEp clusterId tid (unat bufLen) @ take (unat bufLen) cmd)
            else buf' = buf)"
proof (cases "20 + unat bufLen < 255")
  case False
  with assms(1) show ?thesis
    unfolding znpSendAfDataRequest_def af_header_pushed by (auto simp: MAX_ZNP_PAYLOAD_SIZE_def)
next
  case True
  let ?h = "af_header dstAddr dstEp srcEp clusterId tid (unat bufLen)"
  let ?d = "take (unat bufLen) cmd"
  let ?m = "?h @ ?d @ replicate (235 - unat bufLen) 0"
  have cpy: "memcpy_at 20 ?d (?h @ replicate 235 0) = Some ?m"
    using True assms(2) by (subst memcpy_at_after) simp_all
  have "unat (ucast bufLen :: u8) = unat bufLen"
    using True by (simp add: unsigned_ucast_eq take_bit_nat_eq_self)
  then have l: "unat (20 + ucast bufLen :: u8) = 20 + unat bufLen"
    using True by (subst unat_add_u8) simp_all
  have tk: "take (20 + unat bufLen) ?m = ?h @ ?d" using assms(2) by simp
  have "unat (20 + ucast bufLen :: u8) \<le> length ?m" using True assms(2) by (simp add: l)
  from znpSend_cases [OF assms(1) this, of MT_AF_DATA_EXT_SREQ, unfolded l tk] obtain ok buf' where
    z: "znpSend buf MT_AF_DATA_EXT_SREQ (20 + ucast bufLen) ?m = Some (ok, buf')" "uart_wf buf'"
      "ok \<longleftrightarrow> 20 + unat bufLen \<le> 250 \<and> length (uart_contents buf) + (20 + unat bufLen) + 5 \<le> uart_capacity buf"
      "if ok then uart_contents buf' = uart_contents buf @ znp_frame MT_AF_DATA_EXT_SREQ (?h @ ?d) else buf' = buf"
    by blast
  from z(1) cpy True assms(2) have
    "znpSendAfDataRequest buf dstAddr dstEp srcEp clusterId tid bufLen cmd = Some (ok, buf', tid + 1)"
    unfolding znpSendAfDataRequest_def af_header_pushed by (simp add: MAX_ZNP_PAYLOAD_SIZE_def mem_simps)
  moreover have "ok \<longleftrightarrow> unat bufLen \<le> 230 \<and> length (uart_contents buf) + unat bufLen + 25 \<le> uart_capacity buf"
    using z(3) by (simp add: algebra_simps)
  ultimately show ?thesis using z(2,4) by blast
qed

definition zcl_frame :: "bool \<Rightarrow> u16 \<Rightarrow> u8 \<Rightarrow> u8 \<Rightarrow> u8 \<Rightarrow> bytes \<Rightarrow> bytes" where
  "zcl_frame specific manuCode direction seq cmd d =
     zclFrameControl specific manuCode direction # (if manuCode \<noteq> 0 then le16 manuCode else []) @ [seq, cmd] @ d"

lemma and_1_cases: "(x :: u8) AND 1 = 0 \<or> x AND 1 = 1"
  by (simp add: and_one_eq) (metis odd_iff_mod_2_eq_one even_iff_mod_2_eq_zero)

lemma zclFrameControl_bits:
  "zclFrameControl specific manuCode direction =
     (if specific then 1 else 0) OR (if manuCode \<noteq> 0 then 4 else 0) OR (if direction AND 1 = 1 then 8 else 0)"
  using and_1_cases [of direction] by (elim disjE) (simp_all add: zclFrameControl_def del: push_bit_and)

lemma zclFrameControl_fields:
  "zclFrameControl specific manuCode direction AND 0x03 = (if specific then 1 else 0)"
  "drop_bit 2 (zclFrameControl specific manuCode direction AND 0x04) = (if manuCode \<noteq> 0 then 1 else 0)"
  "drop_bit 3 (zclFrameControl specific manuCode direction AND 0x08) = direction AND 1"
  "drop_bit 4 (zclFrameControl specific manuCode direction AND 0x10) = 0"
  "drop_bit 5 (zclFrameControl specific manuCode direction AND 0xE0) = 0"
  using and_1_cases [of direction] by (auto simp: zclFrameControl_bits)

lemma zcl_payload_built:
  assumes "cmdData = None \<and> bufLen = 0 \<or> (\<exists>c. cmdData = Some c \<and> unat bufLen \<le> length c)"
    "length hdr + unat bufLen < 255"
  shows "\<exists>r. (case cmdData of
           Some c \<Rightarrow>
             if bufLen > 0 then do {
               d \<leftarrow> memread 0 (unat bufLen) c;
               msg' \<leftarrow> memcpy_at (length hdr) d (hdr @ replicate (255 - length hdr) 0);
               Some (msg', of_nat (length hdr) + bufLen)
             } else Some (hdr @ replicate (255 - length hdr) 0, of_nat (length hdr))
         | None \<Rightarrow> Some (hdr @ replicate (255 - length hdr) 0, of_nat (length hdr)))
      = Some (hdr @ take (unat bufLen) (case cmdData of None \<Rightarrow> [] | Some c \<Rightarrow> c) @ r,
              of_nat (length hdr) + bufLen)"
proof (cases "bufLen = 0")
  case True
  then show ?thesis by (auto split: option.splits)
next
  case False
  with assms(1) obtain c where c: "cmdData = Some c" "unat bufLen \<le> length c" by auto
  have "memcpy_at (length hdr) (take (unat bufLen) c) (hdr @ replicate (255 - length hdr) 0)
      = Some (hdr @ take (unat bufLen) c @ replicate (255 - length hdr - unat bufLen) 0)"
    using assms(2) c by (subst memcpy_at_after) simp_all
  with False c show ?thesis by (simp add: word_gt_0 mem_simps)
qed

lemma znpSendZclCommand_cases:
  assumes "uart_wf buf" "cmdData = None \<and> bufLen = 0 \<or> (\<exists>c. cmdData = Some c \<and> unat bufLen \<le> length c)"
    and f_def: "f = zcl_frame specific manuCode direction 0 zclCmd
                 (take (unat bufLen) (case cmdData of None \<Rightarrow> [] | Some c \<Rightarrow> c))"
  shows "\<exists>ok buf' g' tid'. znpSendZclCommand buf g dstAddr dstEp srcEp zclCmd specific clusterId direction
           manuCode bufLen cmdData tid = Some (ok, buf', g', tid') \<and> uart_wf buf' \<and>
           (ok \<longleftrightarrow> length f \<le> 230 \<and> length (uart_contents buf) + length f + 25 \<le> uart_capacity buf) \<and>
           (if ok then g' = g + 1 \<and> tid' = g \<and> uart_contents buf' = uart_contents buf @ znp_frame MT_AF_DATA_EXT_SREQ
                (af_header dstAddr dstEp srcEp clusterId g (length f) @ f)
            else buf' = buf)"
proof -
  define hdr where "hdr = [zclFrameControl specific manuCode direction]
               @ (if manuCode \<noteq> 0 then le16 manuCode else []) @ [0, zclCmd]"
  define d where "d = take (unat bufLen) (case cmdData of None \<Rightarrow> [] | Some c \<Rightarrow> c)"
  have h: "length hdr \<le> 5" by (simp add: hdr_def)
  have f: "f = hdr @ d" by (simp add: f_def zcl_frame_def hdr_def d_def)
  have ld: "length d = unat bufLen" using assms(2) by (auto simp: d_def)
  show ?thesis
  proof (cases "length hdr + unat bufLen < 255")
    case False
    with assms(1) ld show ?thesis
      by (auto simp: f znpSendZclCommand_def MAX_ZNP_PAYLOAD_SIZE_def simp flip: hdr_def append_Cons append_Nil)
  next
    case True
    from zcl_payload_built [OF assms(2) True, folded d_def] obtain r where
      r: "(case cmdData of
           Some c \<Rightarrow>
             if bufLen > 0 then do {
               d \<leftarrow> memread 0 (unat bufLen) c;
               msg' \<leftarrow> memcpy_at (length hdr) d (hdr @ replicate (255 - length hdr) 0);
               Some (msg', of_nat (length hdr) + bufLen)
             } else Some (hdr @ replicate (255 - length hdr) 0, of_nat (length hdr))
         | None \<Rightarrow> Some (hdr @ replicate (255 - length hdr) 0, of_nat (length hdr)))
        = Some (hdr @ d @ r, of_nat (length hdr) + bufLen)" by blast
    have u: "unat (of_nat (length hdr) :: u16) = length hdr" using h by (intro unat_of_nat_u16) simp
    have len: "unat (of_nat (length hdr) + bufLen :: u16) = length f"
      using True ld by (subst unat_add_u16) (simp_all add: u f)
    have tk: "take (length f) (hdr @ d @ r) = f" by (simp add: f)
    have "length f \<le> length (hdr @ d @ r)" by (simp add: f)
    from znpSendAfDataRequest_cases [OF assms(1), of "of_nat (length hdr) + bufLen" "hdr @ d @ r"
      dstAddr dstEp srcEp clusterId g, unfolded len tk, OF this] obtain ok buf' where
      z: "znpSendAfDataRequest buf dstAddr dstEp srcEp clusterId g (of_nat (length hdr) + bufLen) (hdr @ d @ r)
         = Some (ok, buf', g + 1)" "uart_wf buf'"
        "ok \<longleftrightarrow> length f \<le> 230 \<and> length (uart_contents buf) + length f + 25 \<le> uart_capacity buf"
        "if ok then uart_contents buf' = uart_contents buf @ znp_frame MT_AF_DATA_EXT_SREQ
             (af_header dstAddr dstEp srcEp clusterId g (length f) @ f) else buf' = buf" by blast
    from z(1) r True have "znpSendZclCommand buf g dstAddr dstEp srcEp zclCmd specific clusterId direction
           manuCode bufLen cmdData tid = Some (ok, buf', g + 1, g)"
      by (simp add: znpSendZclCommand_def MAX_ZNP_PAYLOAD_SIZE_def flip: hdr_def append_Cons append_Nil)
    with z(2-4) show ?thesis by auto
  qed
qed

subsection \<open>Properties\<close>

text \<open>C32: an attribute report built from attribute identifiers, types and values that have
  the length of their type is parsed back into exactly these records, in order.\<close>

theorem report_roundtrip:
  assumes "\<forall>(attrId, ty, d) \<in> set rs. azapGetZclDataLength ty (Some d) = Some (of_nat (length d)) \<and> length d < 256"
    "length (concat (map enc_report rs)) < 254"
  shows "\<exists>attrs. parseZCLReportCmd True (of_nat (length (concat (map enc_report rs))))
                   (concat (map enc_report rs) @ rest) = Some (Some attrs) \<and>
           list_all2 shows_rec rs attrs"
  using parseZCLReportCmd_tiling [OF tilingI [OF assms(1)] refl assms(2)] .

theorem report_roundtrip_witness:
  "\<exists>attrs. parseZCLReportCmd True 12 ([0, 0, 0x29, 0x34, 0x12, 4, 0, 0x42, 3, 97, 98, 99] @ [])
      = Some (Some attrs) \<and>
     list_all2 shows_rec [(0, ZCL_DATATYPE_INT16, [0x34, 0x12]), (4, ZCL_DATATYPE_CHAR_STR, [3, 97, 98, 99])] attrs"
  using report_roundtrip [of "[(0, ZCL_DATATYPE_INT16, [0x34, 0x12]), (4, ZCL_DATATYPE_CHAR_STR, [3, 97, 98, 99])]" "[]"]
  by (simp add: azapGetZclDataLength_def le16_def LO_UINT16_def HI_UINT16_def mem_simps)

text \<open>C31: on a payload of fewer than 254 bytes, whatever they are, in an array that goes on for at
  least four bytes behind the payload, \<open>parseZCLReportCmd\<close> ends and reads inside the array (it may read
  those four bytes); it returns \<open>NULL\<close>, or a command whose attributes are a decomposition of the whole
  payload into records.\<close>

theorem report_parse_safe:
  assumes "unat len < 254" "unat len + 4 \<le> length data"
  shows "\<exists>res. parseZCLReportCmd True len data = Some res \<and>
           (\<forall>attrs. res = Some attrs \<longrightarrow>
              (\<exists>rs. take (unat len) data = concat (map enc_report rs) \<and> list_all2 shows_rec rs attrs))"
  using assms by (rule parseZCLReportCmd_total)

theorem report_parse_safe_witness:
  "\<exists>res. parseZCLReportCmd True 2 [1, 2, 3, 4, 5, 6] = Some res"
  using report_parse_safe [of 2 "[1, 2, 3, 4, 5, 6]"] by auto

text \<open>\<open>parseZCLConfigureReportCmd\<close> is wrong on a discrete type: its first pass gives no
  reportable change to a boolean, its second pass skips one byte for it, so the record behind
  the boolean one is read one byte too far: direction 0 and attribute 5 in the payload come out as
  direction 5 and attribute 0x2000.\<close>

theorem configure_report_misparsed:
  "parseZCLConfigureReportCmd True 17
     ([0, 1, 0, ZCL_DATATYPE_BOOLEAN, 1, 0, 60, 0] @ [0, 5, 0, ZCL_DATATYPE_UINT8, 1, 0, 60, 0, 9] @ replicate 8 0)
   = Some (Some
      [\<lparr>caDirection = 0, caAttrId = 1, caDataType = ZCL_DATATYPE_BOOLEAN, caMinReportInt = 1,
        caMaxReportInt = 60, caTimeoutPeriod = 0,
        caReportableChange = Some ([0, 5, 0, ZCL_DATATYPE_UINT8, 1, 0, 60, 0, 9] @ replicate 8 0)\<rparr>,
       \<lparr>caDirection = 5, caAttrId = 0x2000, caDataType = 0, caMinReportInt = 0,
        caMaxReportInt = 0, caTimeoutPeriod = 1, caReportableChange = None\<rparr>])"
  by code_simp

text \<open>A ZCL command whose payload fits is sent as one AF\_DATA\_REQUEST\_EXT frame: the AF
  header with the current transaction identifier, then the ZCL header and the payload. The
  caller gets that identifier and the global counter moves on by one (wrapping at 256).\<close>

theorem zcl_command_sent:
  assumes "uart_wf buf" "cmdData = None \<and> bufLen = 0 \<or> (\<exists>c. cmdData = Some c \<and> unat bufLen \<le> length c)"
    "unat bufLen \<le> 225" "length (uart_contents buf) + unat bufLen + 30 \<le> uart_capacity buf"
    "f = zcl_frame specific manuCode direction 0 zclCmd
           (take (unat bufLen) (case cmdData of None \<Rightarrow> [] | Some c \<Rightarrow> c))"
  shows "\<exists>buf'. znpSendZclCommand buf g dstAddr dstEp srcEp zclCmd specific clusterId direction manuCode
             bufLen cmdData tid = Some (True, buf', g + 1, g) \<and> uart_wf buf' \<and>
           uart_contents buf' = uart_contents buf @ znp_frame MT_AF_DATA_EXT_SREQ
             (af_header dstAddr dstEp srcEp clusterId g (length f) @ f)"
proof -
  have "length f \<le> unat bufLen + 5" by (simp add: assms(5) zcl_frame_def min_def)
  with assms(3,4) have "length f \<le> 230 \<and> length (uart_contents buf) + length f + 25 \<le> uart_capacity buf" by linarith
  with znpSendZclCommand_cases [OF assms(1,2,5), of g dstAddr dstEp srcEp clusterId tid] show ?thesis by auto
qed

theorem zcl_command_sent_witness:
  "\<exists>buf'. znpSendZclCommand bigUart 255 0x1234 1 2 0 False 6 0 0 2 (Some [0, 0]) 7 = Some (True, buf', 0, 255) \<and>
     uart_contents buf' = znp_frame MT_AF_DATA_EXT_SREQ
       (af_header 0x1234 1 2 6 255 (length (zcl_frame False 0 0 0 0 [0, 0])) @ zcl_frame False 0 0 0 0 [0, 0])"
  using zcl_command_sent [of bigUart "Some [0, 0]" 2 "zcl_frame False 0 0 0 0 [0, 0]" False 0 0 0
      255 "0x1234" 1 2 6 7]
  by (auto simp: bigUart_simps)

text \<open>The parser \<open>parseZCLHeader\<close> recovers from a frame built by \<open>znpSendZclCommand\<close> the frame type, the
  manufacturer code (zero when absent), the direction, the sequence number and the command, and
  leaves the cursor on the payload.\<close>

theorem zcl_header_roundtrip:
  assumes "5 \<le> unat n"
  shows "parseZCLHeader (Some (zcl_frame specific manuCode direction seq cmd d)) n
       = Some (\<lparr>fcType = (if specific then 1 else 0), fcManuSpecific = (if manuCode \<noteq> 0 then 1 else 0),
                fcDirection = direction AND 1, fcDisableDefaultRsp = 0, fcReserved = 0,
                hdrManuCode = manuCode, transSeqNum = seq, commandId = cmd\<rparr>,
               Some d, n - (if manuCode \<noteq> 0 then 5 else 3))"
proof -
  have u: "unat (n - 1) = unat n - 1" "unat (n - 2) = unat n - 2" "unat (n - 3) = unat n - 3"
    "unat (n - 4) = unat n - 4"
    using assms unat_diff_u8 [of 1 n] unat_diff_u8 [of 2 n] unat_diff_u8 [of 3 n] unat_diff_u8 [of 4 n]
    by simp_all
  then show ?thesis
    using assms by (auto simp: parseZCLHeader_def zcl_frame_def zclFrameControl_fields parse_simps le16_append Let_def
        simp del: drop_bit_and)
qed

theorem zcl_header_roundtrip_witness:
  "parseZCLHeader (Some (zcl_frame True 0x10F2 1 9 2 [7])) 6
     = Some (\<lparr>fcType = 1, fcManuSpecific = 1, fcDirection = 1, fcDisableDefaultRsp = 0, fcReserved = 0,
              hdrManuCode = 0x10F2, transSeqNum = 9, commandId = 2\<rparr>, Some [7], 1)"
  using zcl_header_roundtrip [of 6 True "0x10F2" 1 9 2 "[7]"] by simp

end
