(* ===== verification/Azap_Types.thy ===== *)
theory Azap_Types
  imports Format_Af
begin

section \<open>Data of the request manager, the start procedure and the port context\<close>

text \<open>
  The structs of request\_context.h, postponed\_request\_elts.h, request\_manager.h,
  znp\_start\_sm.h and port\_context.h, without their method pointers and list links: a chained
  list is a HOL list in chain order. Pointers that may be \<open>NULL\<close> are options. The opaque
  \<open>issuerContext\<close> pointer is a number. \<open>azapGlobals\<close> holds the file-scope variables the
  operations touch (for the port at hand) and a log of the calls made through the callback
  table; callbacks do not call back into the library in this model. \<open>pCallbacks\<close> lists the
  members of the callback table that are set.
\<close>

subsection \<open>Requests\<close>

datatype AZAP_REQUEST_TYPE =
    AZAP_ZDO_NWK_ADDR_REQ | AZAP_ZDO_IEEE_ADDR_REQ | AZAP_ZDO_NODE_DESC_REQ
  | AZAP_ZDO_POWER_DESC_REQ | AZAP_ZDO_ACTIVE_EP_REQ | AZAP_ZDO_SIMPLE_DESC_REQ
  | AZAP_ZDO_BIND_REQ | AZAP_ZDO_UNBIND_REQ | AZAP_ZDO_MGMT_RTG_REQ | AZAP_ZDO_MGMT_BIND_REQ
  | AZAP_ZDO_MGMT_PERMIT_JOIN_REQ | AZAP_ZDO_MGMT_LEAVE_REQ
  | AZAP_ZCL_READ_CMD | AZAP_ZCL_WRITE_CMD | AZAP_ZCL_CONFIGURE_REPORTING_CMD
  | AZAP_ZCL_DISCOVER_CMD | AZAP_ZCL_OUTGOING_CMD | AZAP_ZCL_OUTGOING_EXT_CMD
  | AZAP_ZCL_REPORT_CMD | AZAP_ZCL_READ_REPORTING_CONF_CMD

datatype AZAP_REQ_TTL_MGMT_MODE = AZAP_REQ_TTL_START_AT_API | AZAP_REQ_TTL_START_AT_ZB_SEND

record postponedRequestElts_t =
  responseExpected :: bool
  localEndp :: u8
  defaultResponse :: bool
  cmdCode :: u8
  cmdData :: "bytes option"
  dataLen :: u8

record requestContext_t =
  timeToLive :: int
  ttlMode :: AZAP_REQ_TTL_MGMT_MODE
  issuerContext :: nat
  rqType :: AZAP_REQUEST_TYPE
  transactionId :: u8
  nwkAddrDest :: u16
  rqClusterId :: u16
  clusterDir :: u8
  manufacturerCode :: u16
  remoteEndp :: u8
  expectedCmdCode :: u8
  requestParameters :: "postponedRequestElts_t option"

record requestManager_t =
  postponedRequests :: "requestContext_t list"
  pendingRequests :: "requestContext_t list"

subsection \<open>The start procedure\<close>

datatype AZAP_ZNP_START_STATE =
    AZAP_ZNP_NULL
  | AZAP_ZNP_WAIT_INITIAL_RESET_RESP
  | AZAP_ZNP_WAIT_WRITE_PARAM_RESP
  | AZAP_ZNP_WAIT_WRITE_RESET_RESP
  | AZAP_ZNP_WAIT_READ_PARAM_RESP
  | AZAP_ZNP_WAIT_WRITE_NWK_PARAM_RESP
  | AZAP_ZNP_WAIT_REGISTER_ENDPOINTS_RESP
  | AZAP_ZNP_WAIT_REGISTER_ZDO_CALLBACKS_RESP
  | AZAP_ZNP_WAIT_STARTUP_FROM_APP_RESP
  | AZAP_ZNP_STARTING
  | AZAP_ZNP_WAIT_PAN_INFOS
  | AZAP_ZNP_WAIT_WRITE_PAN_ID

record znpStartInstance_t =
  stPortNumber :: u8
  state :: AZAP_ZNP_START_STATE
  elapsedSecondsCurrentState :: u8
  writeParamRespExpected :: u8
  afRegisterEpRespExpected :: u8
  zdoCbRegisterRespExpected :: u8
  deviceInfoRespExpected :: u8
  nbCycles :: u8

subsection \<open>The port context\<close>

text \<open>The members of \<open>t_azap_api_callbacks\<close>.\<close>

datatype azapCallback =
    azapStartedCb | azapZdpBindReqCb | azapZdpUnbindReqCb | azapZdpDeviceAnnceCb
  | azapZdpNwkAddrRspCb | azapZdpIeeeAddrRspCb | azapZdpNodeDescRspCb | azapZdpPowerDescRspCb
  | azapZdpSimpleDescRspCb | azapZdpActiveEPRspCb | azapZdpBindRspCb | azapZdpUnbindRspCb
  | azapZdpMgmtRtgRspCb | azapZdpMgmtBindRspCb | azapZdpMgmtPermitJoinRspCb | azapZdpMgmtLeaveRspCb
  | azapSapiFindDeviceConfCb | azapZclReadCmdRspCb | azapZclWriteCmdRspCb
  | azapZclConfigureReportCmdRspCb | azapZclReportCmdCb | azapZclDiscoverCmdRspCb
  | azapZclIncomingCmdCb | azapZclConfigureReportCmdCb | azapZclReadReportConfigCmdRspCb

record portContext_t =
  portNumber :: u8
  pCallbacks :: "azapCallback list"
  defaultChannel :: u32
  deviceType :: u8
  resetHanAtReboot :: bool
  deviceIeee :: bytes
  shortAddr :: u16
  panIdExt :: bytes
  panId :: u16
  zstackVersion :: string
  deviceFd :: int
  rx :: "uartBufControl_t option"
  tx :: "uartBufControl_t option"
  startInst :: "znpStartInstance_t option"
  started :: bool
  requestManager :: "requestManager_t option"
  endPointList :: "azapEndPoint_t list"

subsection \<open>Globals and the callback log\<close>

record zdoNodeDesc =
  logicalType :: u8
  complexDescriptorAvailable :: u8
  userDescriptorAvailable :: u8
  apsFlags :: u8
  frequencyBand :: u8
  macCapabilityFlags :: u8
  ndManufacturerCode :: u16
  maximumBufferSize :: u8
  maximumIncomingTransferSize :: u16
  serverMask :: u16
  maximumOutgoingTransferSize :: u16
  descriptorCapabilityField :: u8

record zdoSimpleDesc =
  sdEndPointId :: u8
  sdProfileId :: u16
  sdDeviceId :: u16
  sdDeviceVersion :: u8
  sdNumInClusters :: u8
  sdInClusterList :: "u16 list option"
  sdNumOutClusters :: u8
  sdOutClusterList :: "u16 list option"

record zdoRtgEntry_t =
  rtgDstAddress :: u16
  rtgStatus :: u8
  rtgNextHopAddress :: u16

datatype zdoAddr = ShortAddr u16 | ExtAddr bytes

record zdoBindEntry_t =
  beSrcAddr :: bytes
  beSrcEndPoint :: u8
  beClusterId :: u16
  beAddrMode :: u8
  beDstAddr :: zdoAddr
  beDstEndPoint :: "u8 option"

text \<open>What a callback is called with. The ZDO and ZCL response callbacks carry the issuer's
  context (\<open>None\<close> for \<open>NULL\<close>) and the source address first. \<open>RequestFailedCb\<close> stands for the
  response callback of the request's type, called with its failure arguments (status timeout, or
  a \<open>NULL\<close> command).\<close>

datatype azapEvent =
    StartedCb u8 bool
  | RequestFailedCb AZAP_REQUEST_TYPE nat u16 u8 u16
  | SapiFindDeviceConfCb u16 bytes
  | ZdpDeviceAnnceCb u16 bytes u8 u8 u8 u8 u8 u8
  | ZdpNwkAddrRspCb "nat option" u16 u8 bytes u16 u8 u8 "u16 list option"
  | ZdpIeeeAddrRspCb "nat option" u16 u8 bytes u16 u8 u8 "u16 list option"
  | ZdpNodeDescRspCb "nat option" u16 u8 u16 zdoNodeDesc
  | ZdpPowerDescRspCb "nat option" u16 u8 u16 u8 u8 u8 u8
  | ZdpSimpleDescRspCb "nat option" u16 u8 u16 zdoSimpleDesc
  | ZdpActiveEPRspCb "nat option" u16 u8 u16 u8 "bytes option"
  | ZdpBindRspCb "nat option" u16 u8
  | ZdpUnbindRspCb "nat option" u16 u8
  | ZdpMgmtRtgRspCb "nat option" u16 u8 u8 u8 u8 "zdoRtgEntry_t list option"
  | ZdpMgmtBindRspCb "nat option" u16 u8 u8 u8 u8 "zdoBindEntry_t list option"
  | ZdpMgmtPermitJoinRspCb "nat option" u16 u8
  | ZdpMgmtLeaveRspCb "nat option" u16 u8
  | ZclReadCmdRspCb "nat option" u16 u8 u16 u8 u16 "azapZclReadRspAttr_t list option"
  | ZclWriteCmdRspCb "nat option" u16 u8 u16 u8 u16 "azapZclWriteRspAttr_t list option"
  | ZclConfigureReportCmdRspCb "nat option" u16 u8 u16 "azapZclCfgReportRspAttr_t list option"
  | ZclReportCmdCb u16 u8 u16 "azapZclReportAttr_t list option"
  | ZclReadReportConfigCmdRspCb "nat option" u16 u8 u16 "azapZclReportCfgRspAttr_t list option"
  | ZclDiscoverCmdRspCb "nat option" u16 u8 u16 u8 "(u8 \<times> azapZclDiscoverAttr_t list) option"
  | ZclConfigureReportCmdCb u16 u8 u16 "azapZclCfgReportAttr_t list option"
  | ZclIncomingCmdCb "nat option" u16 u8 u16 u8 bytes u8

record azapGlobals =
  g_zclTransactionId :: u8
  azapNbZdoNotifications :: u32
  azapNbZdoRequestsIssued :: u32
  azapNbZdoRequestsCompleted :: u32
  azapNbZdoRequestsFailed :: u32
  azapNbZclNotifications :: u32
  azapNbZclRequestsIssued :: u32
  azapNbZclRequestsCompleted :: u32
  azapNbZclRequestsFailed :: u32
  cbLog :: "azapEvent list"

subsection \<open>Ports that can transmit\<close>

definition tx_ok :: "portContext_t \<Rightarrow> bool" where
  "tx_ok port = (case tx port of None \<Rightarrow> False | Some buf \<Rightarrow> uart_wf buf)"

text \<open>An operation on a buffer that always ends and keeps the buffer well-formed.\<close>

definition buf_total :: "(uartBufControl_t \<Rightarrow> (bool \<times> uartBufControl_t) exec) \<Rightarrow> bool" where
  "buf_total f = (\<forall>buf. uart_wf buf \<longrightarrow> (\<exists>ok buf'. f buf = Some (ok, buf') \<and> uart_wf buf'))"

definition ep_ok :: "azapEndPoint_t \<Rightarrow> bool" where
  "ep_ok ep = (unat (appNumInClusters ep) \<le> length (appInClusterList ep) \<and>
               unat (appNumOutClusters ep) \<le> length (appOutClusterList ep) \<and>
               9 + 2 * unat (appNumInClusters ep) + 2 * unat (appNumOutClusters ep) \<le> 255)"

lemma buf_total_znpSend: "unat len \<le> length payload \<Longrightarrow> buf_total (\<lambda>buf. znpSend buf cmd len payload)"
  using znpSend_cases unfolding buf_total_def by blast

lemma buf_total_nvRead: "buf_total (\<lambda>buf. znpSendSysNvRead buf item offset)"
  unfolding znpSendSysNvRead_def by (rule buf_total_znpSend) simp

lemma buf_total_zdoRegister: "buf_total (\<lambda>buf. znpSendZdoMsgCbRegister buf c)"
  unfolding znpSendZdoMsgCbRegister_def by (rule buf_total_znpSend) simp

lemma buf_total_nvWrite:
  assumes "unat len \<le> length val"
  shows "buf_total (\<lambda>buf. znpSendSysNvWrite buf item offset len val)"
proof (cases "len > 16")
  case True
  then show ?thesis by (auto simp: buf_total_def znpSendSysNvWrite_def)
next
  case False
  then have n: "unat len \<le> 16" by (simp add: word_less_nat_alt)
  let ?m = "[LO_UINT16 item, HI_UINT16 item, offset, len] @ take (unat len) val @ replicate (16 - unat len) 0"
  have cpy: "memcpy_at 4 (take (unat len) val) ([LO_UINT16 item, HI_UINT16 item, offset, len] @ replicate 16 0) = Some ?m"
    using n assms by (subst memcpy_at_after) simp_all
  have "unat (4 + len) = unat len + 4" using n by (subst unat_add_u8) simp_all
  then have "buf_total (\<lambda>buf. znpSend buf MT_SYS_NV_WRITE_SREQ (4 + len) ?m)"
    using n assms by (intro buf_total_znpSend) simp
  moreover have "(\<lambda>buf. znpSendSysNvWrite buf item offset len val)
      = (\<lambda>buf. znpSend buf MT_SYS_NV_WRITE_SREQ (4 + len) ?m)"
    using False assms cpy by (simp add: znpSendSysNvWrite_def mem_simps)
  ultimately show ?thesis by simp
qed

lemma msg_pushes_total:
  assumes "length m = 255" "unat n + length bs \<le> 255"
  shows "\<exists>m'. msg_pushes bs (m, n) = Some (m', of_nat (unat n + length bs)) \<and> length m' = 255"
proof -
  have "m = take (unat n) m @ drop (unat n) m" "length (take (unat n) m) = unat n" using assms by simp_all
  with msg_pushes_written [of bs "drop (unat n) m" "take (unat n) m"] assms show ?thesis by simp
qed

lemma buf_total_afRegister:
  assumes "ep_ok ep"
  shows "buf_total (\<lambda>buf. znpSendAfRegister buf (Some ep))"
proof -
  let ?i = "unat (appNumInClusters ep)" and ?j = "unat (appNumOutClusters ep)"
  let ?ins = "take ?i (appInClusterList ep)" and ?outs = "take ?j (appOutClusterList ep)"
  have c: "length (concat (map le16 xs)) = 2 * length xs" for xs by (induction xs) simp_all
  have e: "?i \<le> length (appInClusterList ep)" "?j \<le> length (appOutClusterList ep)" "9 + 2 * ?i + 2 * ?j \<le> 255"
    using assms by (simp_all add: ep_ok_def)
  have u: "unat (of_nat k :: u8) = k" if "k < 256" for k using that by (rule unat_of_nat_u8)
  let ?hd = "[epId ep] @ le16 (appProfId ep) @ le16 (appDeviceId ep) @ [appDevVer ep, 0, appNumInClusters ep]"
  obtain m1 where m1: "msg_pushes ?hd (replicate 255 0, 0) = Some (m1, 8)" "length m1 = 255"
    using msg_pushes_total [of "replicate 255 0" 0 ?hd] by auto
  obtain m2 where m2: "msg_pushes (concat (map le16 ?ins)) (m1, 8) = Some (m2, of_nat (8 + 2 * ?i))" "length m2 = 255"
    using msg_pushes_total [OF m1(2), of 8 "concat (map le16 ?ins)"] e by (auto simp: c)
  obtain m3 where m3: "msg_push (appNumOutClusters ep) (m2, of_nat (8 + 2 * ?i)) = Some (m3, of_nat (9 + 2 * ?i))" "length m3 = 255"
    using msg_pushes_total [OF m2(2), of "of_nat (8 + 2 * ?i)" "[appNumOutClusters ep]"] e u [of "8 + 2 * ?i"]
    by (auto split: bind_splits)
  obtain m4 where m4: "msg_pushes (concat (map le16 ?outs)) (m3, of_nat (9 + 2 * ?i)) = Some (m4, of_nat (9 + 2 * ?i + 2 * ?j))" "length m4 = 255"
    using msg_pushes_total [OF m3(2), of "of_nat (9 + 2 * ?i)" "concat (map le16 ?outs)"] e u [of "9 + 2 * ?i"]
    by (auto simp: c)
  have "unat (of_nat (9 + 2 * ?i + 2 * ?j) :: u8) \<le> length m4"
    using m4(2) e u [of "9 + 2 * ?i + 2 * ?j"] by simp
  moreover have "(\<lambda>buf. znpSendAfRegister buf (Some ep))
      = (\<lambda>buf. znpSend buf MT_AF_REGISTER_SREQ (of_nat (9 + 2 * ?i + 2 * ?j)) m4)"
    using m1(1) m2(1) m3(1) m4(1) e by (simp add: znpSendAfRegister_def MAX_ZNP_PAYLOAD_SIZE_def mem_simps)
  ultimately show ?thesis by (simp only: buf_total_znpSend)
qed

end
