(* ===== verification/Request_Manager.thy ===== *)
theory Request_Manager
  imports Azap_Types "HOL-Library.Multiset" "HOL-Library.Sublist"
begin

section \<open>The request manager (request\_context.c, postponed\_request\_elts.c, request\_manager.c)\<close>

text \<open>
  The bookkeeping of requests to the ZigBee dongle: which may be sent now, which are postponed,
  which wait for a response, and their time to live. \<open>malloc\<close> is an argument (whether the
  allocation succeeded); dereferencing its \<open>NULL\<close> is \<open>None\<close>. The counters of the scans are C
  \<open>short\<close>s: 16-bit words compared as signed numbers. When a request expires, or the dongle refuses it,
  \<open>callbackOnFailure\<close> calls the member of the user's table for its type without a test: a \<open>NULL\<close>
  member is \<open>None\<close>. The types without an answer have no member and expire in silence.
  The limits of the dongle are stated abstractly by \<open>within_limits\<close>; the locale \<open>admission\<close> is
  the contract between the check and its clients.
\<close>

subsection \<open>Request contexts\<close>

definition AZAP_REQUEST_TYPE_toString :: "AZAP_REQUEST_TYPE \<Rightarrow> string" where
  "AZAP_REQUEST_TYPE_toString t =
    (case t of
       AZAP_ZDO_NWK_ADDR_REQ \<Rightarrow> ''AZAP_ZDO_NWK_ADDR_REQ''
     | AZAP_ZDO_IEEE_ADDR_REQ \<Rightarrow> ''AZAP_ZDO_IEEE_ADDR_REQ''
     | AZAP_ZDO_NODE_DESC_REQ \<Rightarrow> ''AZAP_ZDO_NODE_DESC_REQ''
     | AZAP_ZDO_POWER_DESC_REQ \<Rightarrow> ''AZAP_ZDO_POWER_DESC_REQ''
     | AZAP_ZDO_ACTIVE_EP_REQ \<Rightarrow> ''AZAP_ZDO_ACTIVE_EP_REQ''
     | AZAP_ZDO_SIMPLE_DESC_REQ \<Rightarrow> ''AZAP_ZDO_SIMPLE_DESC_REQ''
     | AZAP_ZDO_BIND_REQ \<Rightarrow> ''AZAP_ZDO_BIND_REQ''
     | AZAP_ZDO_UNBIND_REQ \<Rightarrow> ''AZAP_ZDO_UNBIND_REQ''
     | AZAP_ZDO_MGMT_RTG_REQ \<Rightarrow> ''AZAP_ZDO_MGMT_RTG_REQ''
     | AZAP_ZDO_MGMT_BIND_REQ \<Rightarrow> ''AZAP_ZDO_MGMT_BIND_REQ''
     | AZAP_ZDO_MGMT_PERMIT_JOIN_REQ \<Rightarrow> ''AZAP_ZDO_MGMT_PERMIT_JOIN_REQ''
     | AZAP_ZDO_MGMT_LEAVE_REQ \<Rightarrow> ''AZAP_ZDO_MGMT_LEAVE_REQ''
     | AZAP_ZCL_READ_CMD \<Rightarrow> ''AZAP_ZCL_READ_CMD''
     | AZAP_ZCL_WRITE_CMD \<Rightarrow> ''AZAP_ZCL_WRITE_CMD''
     | AZAP_ZCL_CONFIGURE_REPORTING_CMD \<Rightarrow> ''AZAP_ZCL_CONFIGURE_REPORTING_CMD''
     | AZAP_ZCL_DISCOVER_CMD \<Rightarrow> ''AZAP_ZCL_DISCOVER_CMD''
     | AZAP_ZCL_OUTGOING_CMD \<Rightarrow> ''AZAP_ZCL_OUTGOING_CMD''
     | AZAP_ZCL_OUTGOING_EXT_CMD \<Rightarrow> ''AZAP_ZCL_OUTGOING_EXT_CMD''
     | AZAP_ZCL_REPORT_CMD \<Rightarrow> ''AZAP_ZCL_REPORT_CMD''
     | AZAP_ZCL_READ_REPORTING_CONF_CMD \<Rightarrow> ''AZAP_ZCL_READ_REPORTING_CONF_CMD'')"

definition new_postponedRequestElts_t :: "bool \<Rightarrow> bool \<Rightarrow> postponedRequestElts_t option" where
  "new_postponedRequestElts_t mallocOk needResponse =
     (if \<not> mallocOk then None
      else Some \<lparr>responseExpected = needResponse, localEndp = 0, defaultResponse = False,
                 cmdCode = 0, cmdData = None, dataLen = 0\<rparr>)"

definition new_requestContext_t ::
    "bool \<Rightarrow> int \<Rightarrow> AZAP_REQ_TTL_MGMT_MODE \<Rightarrow> requestContext_t option" where
  "new_requestContext_t mallocOk timeoutValue mode =
     (if \<not> mallocOk then None
      else Some \<lparr>timeToLive = timeoutValue, ttlMode = mode, issuerContext = 0,
                 rqType = AZAP_ZDO_NWK_ADDR_REQ, transactionId = 0, nwkAddrDest = 0, rqClusterId = 0,
                 clusterDir = 0, manufacturerCode = 0, remoteEndp = 0, expectedCmdCode = 0,
                 requestParameters = None\<rparr>)"

text \<open>The enumerator \<open>AZAP_REQ_TTL_START_AT_API\<close> is 0; the code compares it with the time to
  live.\<close>

definition requestContext_t_tic :: "requestContext_t \<Rightarrow> bool \<Rightarrow> int \<times> requestContext_t" where
  "requestContext_t_tic This requestSent =
     (let This' = (if requestSent \<or> 0 = timeToLive This
                   then This\<lparr>timeToLive := timeToLive This - 1\<rparr> else This)
      in (timeToLive This', This'))"

subsection \<open>The manager\<close>

definition requestManager_t_create :: requestManager_t where
  "requestManager_t_create = \<lparr>postponedRequests = [], pendingRequests = []\<rparr>"

definition new_requestManager_t :: "bool \<Rightarrow> requestManager_t option" where
  "new_requestManager_t mallocOk =
     (if \<not> mallocOk then None else Some \<lparr>postponedRequests = [], pendingRequests = []\<rparr>)"

definition requestManager_t_addPendingRequest ::
    "bool \<Rightarrow> requestManager_t \<Rightarrow> nat \<Rightarrow> u16 \<Rightarrow> AZAP_REQUEST_TYPE \<Rightarrow> u16 \<Rightarrow> u8 \<Rightarrow> u16 \<Rightarrow> u8 \<Rightarrow> u8 \<Rightarrow> int \<Rightarrow>
     AZAP_REQ_TTL_MGMT_MODE \<Rightarrow> (requestContext_t \<times> requestManager_t) exec" where
  "requestManager_t_addPendingRequest mallocOk This issuer nwkAddr type clusterId dir manu ep
       expected timeoutValue mode = do {
     newElt0 \<leftarrow> new_requestContext_t mallocOk timeoutValue mode;
     let newElt = newElt0\<lparr>issuerContext := issuer, rqType := type, nwkAddrDest := nwkAddr,
                          rqClusterId := clusterId, clusterDir := dir, manufacturerCode := manu,
                          remoteEndp := ep, expectedCmdCode := expected\<rparr>;
     Some (newElt, This\<lparr>pendingRequests := pendingRequests This @ [newElt]\<rparr>)
   }"

definition requestManager_t_addPostponedRequest ::
    "bool \<Rightarrow> requestManager_t \<Rightarrow> nat \<Rightarrow> u16 \<Rightarrow> AZAP_REQUEST_TYPE \<Rightarrow> u16 \<Rightarrow> u8 \<Rightarrow> u16 \<Rightarrow> u8 \<Rightarrow> u8 \<Rightarrow>
     postponedRequestElts_t option \<Rightarrow> int \<Rightarrow> AZAP_REQ_TTL_MGMT_MODE \<Rightarrow>
     (requestContext_t \<times> requestManager_t) exec" where
  "requestManager_t_addPostponedRequest mallocOk This issuer nwkAddr type clusterId dir manu ep
       expected params timeoutValue mode = do {
     newElt0 \<leftarrow> new_requestContext_t mallocOk timeoutValue mode;
     let newElt = newElt0\<lparr>issuerContext := issuer, rqType := type, nwkAddrDest := nwkAddr,
                          rqClusterId := clusterId, clusterDir := dir, manufacturerCode := manu,
                          remoteEndp := ep, expectedCmdCode := expected,
                          requestParameters := params\<rparr>;
     Some (newElt, This\<lparr>postponedRequests := postponedRequests This @ [newElt]\<rparr>)
   }"

text \<open>The scan of \<open>removePending\<close> keeps the last match, which is then unlinked.\<close>

definition pending_match :: "u16 \<Rightarrow> AZAP_REQUEST_TYPE \<Rightarrow> u16 \<Rightarrow> u8 \<Rightarrow> u8 \<Rightarrow> requestContext_t \<Rightarrow> bool" where
  "pending_match nwkAddrSrc type clusterId ep code elt =
     (type = rqType elt \<and> nwkAddrSrc = nwkAddrDest elt \<and> clusterId = rqClusterId elt \<and>
      (0 = ep \<or> ep = remoteEndp elt) \<and> code = expectedCmdCode elt)"

definition requestManager_t_removePending ::
    "requestManager_t \<Rightarrow> u16 \<Rightarrow> AZAP_REQUEST_TYPE \<Rightarrow> u16 \<Rightarrow> u8 \<Rightarrow> u8 \<Rightarrow>
     requestContext_t option \<times> requestManager_t" where
  "requestManager_t_removePending This nwkAddrSrc type clusterId ep code =
     (find_last (pending_match nwkAddrSrc type clusterId ep code) (pendingRequests This),
      This\<lparr>pendingRequests :=
             remove_last (pending_match nwkAddrSrc type clusterId ep code) (pendingRequests This)\<rparr>)"

definition requestManager_t_removePendingAf ::
    "requestManager_t \<Rightarrow> u8 \<Rightarrow> requestContext_t option \<times> requestManager_t" where
  "requestManager_t_removePendingAf This transId =
     (find_last (\<lambda>elt. transId = transactionId elt) (pendingRequests This),
      This\<lparr>pendingRequests := remove_last (\<lambda>elt. transId = transactionId elt) (pendingRequests This)\<rparr>)"

definition MAX_CC2531_SIMULTANEOUS_TOTAL_REQ :: int where
  [const_defs]: "MAX_CC2531_SIMULTANEOUS_TOTAL_REQ = 10"
definition MAX_CC2531_SIMULTANEOUS_PER_NODE_REQ :: int where
  [const_defs]: "MAX_CC2531_SIMULTANEOUS_PER_NODE_REQ = 3"
definition MAX_CC2531_SIMULTANEOUS_PER_EP_REQ :: int where
  [const_defs]: "MAX_CC2531_SIMULTANEOUS_PER_EP_REQ = 1"

record scanCounts =
  nbTotalReq :: u16
  nbReqOnDest :: u16
  nbReqOnEp :: u16
  isDoublon :: bool

definition count_elt :: "u16 \<Rightarrow> u8 \<Rightarrow> scanCounts \<Rightarrow> requestContext_t \<Rightarrow> scanCounts" where
  "count_elt nwkAddr ep c elt =
     (let c1 = c\<lparr>nbTotalReq := nbTotalReq c + 1\<rparr>
      in if nwkAddr = nwkAddrDest elt
         then let c2 = c1\<lparr>nbReqOnDest := nbReqOnDest c1 + 1\<rparr>
              in if 0 \<noteq> ep \<and> ep = remoteEndp elt then c2\<lparr>nbReqOnEp := nbReqOnEp c2 + 1\<rparr> else c2
         else c1)"

definition counts_below :: "scanCounts \<Rightarrow> bool" where
  "counts_below c =
     (sint (nbTotalReq c) < MAX_CC2531_SIMULTANEOUS_TOTAL_REQ \<and>
      sint (nbReqOnDest c) < MAX_CC2531_SIMULTANEOUS_PER_NODE_REQ \<and>
      sint (nbReqOnEp c) < MAX_CC2531_SIMULTANEOUS_PER_EP_REQ)"

definition requestManager_t_readyToSend :: "requestManager_t \<Rightarrow> u16 \<Rightarrow> u8 \<Rightarrow> bool" where
  "requestManager_t_readyToSend This nwkAddr ep =
     counts_below (foldl (count_elt nwkAddr ep)
                     \<lparr>nbTotalReq = 0, nbReqOnDest = 0, nbReqOnEp = 0, isDoublon = False\<rparr>
                     (pendingRequests This))"

definition doublon_match :: "u16 \<Rightarrow> AZAP_REQUEST_TYPE \<Rightarrow> u16 \<Rightarrow> u8 \<Rightarrow> u8 \<Rightarrow> requestContext_t \<Rightarrow> bool" where
  "doublon_match nwkAddr type clusterId ep code elt =
     (type = rqType elt \<and> nwkAddr = nwkAddrDest elt \<and> clusterId = rqClusterId elt \<and>
      ep = remoteEndp elt \<and> code = expectedCmdCode elt)"

definition requestManager_t_readyToSendDoublonCheck ::
    "requestManager_t \<Rightarrow> u16 \<Rightarrow> AZAP_REQUEST_TYPE \<Rightarrow> u16 \<Rightarrow> u8 \<Rightarrow> u8 \<Rightarrow> bool" where
  "requestManager_t_readyToSendDoublonCheck This nwkAddr type clusterId ep code =
     (let c = foldl (\<lambda>c elt. let c' = count_elt nwkAddr ep c elt
                             in if doublon_match nwkAddr type clusterId ep code elt
                                then c'\<lparr>isDoublon := True\<rparr> else c')
                \<lparr>nbTotalReq = 0, nbReqOnDest = 0, nbReqOnEp = 0, isDoublon = False\<rparr>
                (pendingRequests This)
      in \<not> isDoublon c \<and> counts_below c)"

subsection \<open>Sending a request\<close>

text \<open>The two \<open>switch\<close> statements of \<open>sendRequest\<close>: the request family with its ZDO command,
  or its ZCL \<open>specific\<close> flag.\<close>

datatype requestFamily = REQ_ZDO_FAMILY u16 | REQ_ZCL_FAMILY bool

definition request_family :: "AZAP_REQUEST_TYPE \<Rightarrow> requestFamily" where
  "request_family t =
    (case t of
       AZAP_ZDO_NWK_ADDR_REQ \<Rightarrow> REQ_ZDO_FAMILY 0x0025
     | AZAP_ZDO_IEEE_ADDR_REQ \<Rightarrow> REQ_ZDO_FAMILY 0x0125
     | AZAP_ZDO_NODE_DESC_REQ \<Rightarrow> REQ_ZDO_FAMILY 0x0225
     | AZAP_ZDO_POWER_DESC_REQ \<Rightarrow> REQ_ZDO_FAMILY 0x0325
     | AZAP_ZDO_ACTIVE_EP_REQ \<Rightarrow> REQ_ZDO_FAMILY 0x0525
     | AZAP_ZDO_SIMPLE_DESC_REQ \<Rightarrow> REQ_ZDO_FAMILY 0x0425
     | AZAP_ZDO_BIND_REQ \<Rightarrow> REQ_ZDO_FAMILY 0x2125
     | AZAP_ZDO_UNBIND_REQ \<Rightarrow> REQ_ZDO_FAMILY 0x2225
     | AZAP_ZDO_MGMT_RTG_REQ \<Rightarrow> REQ_ZDO_FAMILY 0x3225
     | AZAP_ZDO_MGMT_BIND_REQ \<Rightarrow> REQ_ZDO_FAMILY 0x3325
     | AZAP_ZDO_MGMT_PERMIT_JOIN_REQ \<Rightarrow> REQ_ZDO_FAMILY 0x3625
     | AZAP_ZDO_MGMT_LEAVE_REQ \<Rightarrow> REQ_ZDO_FAMILY 0x3425
     | AZAP_ZCL_READ_CMD \<Rightarrow> REQ_ZCL_FAMILY False
     | AZAP_ZCL_WRITE_CMD \<Rightarrow> REQ_ZCL_FAMILY False
     | AZAP_ZCL_CONFIGURE_REPORTING_CMD \<Rightarrow> REQ_ZCL_FAMILY False
     | AZAP_ZCL_READ_REPORTING_CONF_CMD \<Rightarrow> REQ_ZCL_FAMILY False
     | AZAP_ZCL_DISCOVER_CMD \<Rightarrow> REQ_ZCL_FAMILY False
     | AZAP_ZCL_REPORT_CMD \<Rightarrow> REQ_ZCL_FAMILY False
     | AZAP_ZCL_OUTGOING_CMD \<Rightarrow> REQ_ZCL_FAMILY True
     | AZAP_ZCL_OUTGOING_EXT_CMD \<Rightarrow> REQ_ZCL_FAMILY True)"

definition requestManager_t_sendRequest ::
    "requestContext_t option \<Rightarrow> portContext_t \<Rightarrow> azapGlobals \<Rightarrow>
     (bool \<times> requestContext_t option \<times> portContext_t \<times> azapGlobals) exec" where
  "requestManager_t_sendRequest eltOpt portCtxt g =
    (case eltOpt of
       None \<Rightarrow> Some (False, None, portCtxt, g)
     | Some elt \<Rightarrow>
        (case requestParameters elt of
           None \<Rightarrow> Some (False, Some elt, portCtxt, g)
         | Some params \<Rightarrow>
            (case request_family (rqType elt) of
               REQ_ZCL_FAMILY specific \<Rightarrow> do {
                 buf \<leftarrow> tx portCtxt;
                 (res, buf', gid, tid) \<leftarrow>
                   znpSendZclCommand buf (g_zclTransactionId g) (nwkAddrDest elt) (remoteEndp elt)
                     (localEndp params) (cmdCode params) specific (rqClusterId elt) (clusterDir elt)
                     (manufacturerCode elt) (ucast (dataLen params)) (cmdData params)
                     (transactionId elt);
                 Some (res, Some (elt\<lparr>transactionId := tid\<rparr>), portCtxt\<lparr>tx := Some buf'\<rparr>,
                       g\<lparr>g_zclTransactionId := gid\<rparr>)
               }
             | REQ_ZDO_FAMILY code \<Rightarrow> do {
                 buf \<leftarrow> tx portCtxt;
                 (res, buf') \<leftarrow> znpSend buf code (dataLen params)
                                (case cmdData params of None \<Rightarrow> [] | Some d \<Rightarrow> d);
                 Some (res, Some elt, portCtxt\<lparr>tx := Some buf'\<rparr>, g)
               })))"

subsection \<open>Failures and time\<close>

text \<open>The member of the callback table that reports the failure of a request. The code calls it
  without looking whether it is \<open>NULL\<close>, so a request whose callback is missing must not fail:
  the call is undefined behaviour (\<open>None\<close>). Three types fail without any callback.\<close>

definition failure_cb :: "AZAP_REQUEST_TYPE \<Rightarrow> azapCallback option" where
  "failure_cb t =
    (case t of
       AZAP_ZDO_NWK_ADDR_REQ \<Rightarrow> Some azapZdpNwkAddrRspCb
     | AZAP_ZDO_IEEE_ADDR_REQ \<Rightarrow> Some azapZdpIeeeAddrRspCb
     | AZAP_ZDO_NODE_DESC_REQ \<Rightarrow> Some azapZdpNodeDescRspCb
     | AZAP_ZDO_POWER_DESC_REQ \<Rightarrow> Some azapZdpPowerDescRspCb
     | AZAP_ZDO_ACTIVE_EP_REQ \<Rightarrow> Some azapZdpActiveEPRspCb
     | AZAP_ZDO_SIMPLE_DESC_REQ \<Rightarrow> Some azapZdpSimpleDescRspCb
     | AZAP_ZDO_BIND_REQ \<Rightarrow> Some azapZdpBindRspCb
     | AZAP_ZDO_UNBIND_REQ \<Rightarrow> Some azapZdpUnbindRspCb
     | AZAP_ZDO_MGMT_RTG_REQ \<Rightarrow> Some azapZdpMgmtRtgRspCb
     | AZAP_ZDO_MGMT_BIND_REQ \<Rightarrow> Some azapZdpMgmtBindRspCb
     | AZAP_ZDO_MGMT_PERMIT_JOIN_REQ \<Rightarrow> Some azapZdpMgmtPermitJoinRspCb
     | AZAP_ZDO_MGMT_LEAVE_REQ \<Rightarrow> Some azapZdpMgmtLeaveRspCb
     | AZAP_ZCL_READ_CMD \<Rightarrow> Some azapZclReadCmdRspCb
     | AZAP_ZCL_WRITE_CMD \<Rightarrow> Some azapZclWriteCmdRspCb
     | AZAP_ZCL_CONFIGURE_REPORTING_CMD \<Rightarrow> Some azapZclConfigureReportCmdRspCb
     | AZAP_ZCL_READ_REPORTING_CONF_CMD \<Rightarrow> Some azapZclReadReportConfigCmdRspCb
     | AZAP_ZCL_DISCOVER_CMD \<Rightarrow> Some azapZclDiscoverCmdRspCb
     | AZAP_ZCL_OUTGOING_CMD \<Rightarrow> None
     | AZAP_ZCL_OUTGOING_EXT_CMD \<Rightarrow> None
     | AZAP_ZCL_REPORT_CMD \<Rightarrow> None)"

definition requestManager_t_callbackOnFailure ::
    "requestContext_t option \<Rightarrow> portContext_t option \<Rightarrow> azapGlobals \<Rightarrow> azapGlobals exec" where
  "requestManager_t_callbackOnFailure eltOpt portOpt g =
    (case (eltOpt, portOpt) of
       (Some elt, Some port) \<Rightarrow>
         (case failure_cb (rqType elt) of
            None \<Rightarrow> Some g
          | Some cb \<Rightarrow>
              if cb \<notin> set (pCallbacks port) then None
              else let g' = (case request_family (rqType elt) of
                               REQ_ZDO_FAMILY _ \<Rightarrow> g\<lparr>azapNbZdoRequestsFailed := azapNbZdoRequestsFailed g + 1\<rparr>
                             | REQ_ZCL_FAMILY _ \<Rightarrow> g\<lparr>azapNbZclRequestsFailed := azapNbZclRequestsFailed g + 1\<rparr>)
                   in Some (g'\<lparr>cbLog := cbLog g @ [RequestFailedCb (rqType elt) (issuerContext elt) (nwkAddrDest elt)
                                                  (remoteEndp elt) (rqClusterId elt)]\<rparr>))
     | _ \<Rightarrow> Some g)"

fun age1sAndLookForTimedOutReq ::
    "requestContext_t list \<Rightarrow> portContext_t \<Rightarrow> bool \<Rightarrow> azapGlobals \<Rightarrow> (requestContext_t list \<times> azapGlobals) exec" where
  "age1sAndLookForTimedOutReq [] portCtxt requestSent g = Some ([], g)"
| "age1sAndLookForTimedOutReq (elt # es) portCtxt requestSent g =
    (case requestContext_t_tic elt requestSent of
       (ttl, elt') \<Rightarrow>
         if ttl \<le> 0
         then do {
           g' \<leftarrow> requestManager_t_callbackOnFailure (Some elt') (Some portCtxt) g;
           age1sAndLookForTimedOutReq es portCtxt requestSent g'
         }
         else do {
           (kept, g') \<leftarrow> age1sAndLookForTimedOutReq es portCtxt requestSent g;
           Some (elt' # kept, g')
         })"

text \<open>The loop of \<open>lookForPostponedReqToSend\<close>: the requests still to look at, the manager as far
  as its pending list goes, the requests that stay postponed.\<close>

fun lookFor_loop ::
    "requestContext_t list \<Rightarrow> requestManager_t \<Rightarrow> portContext_t \<Rightarrow> azapGlobals \<Rightarrow>
     (requestContext_t list \<times> requestManager_t \<times> portContext_t \<times> azapGlobals) exec" where
  "lookFor_loop [] This portCtxt g = Some ([], This, portCtxt, g)"
| "lookFor_loop (elt # es) This portCtxt g =
    (if requestManager_t_readyToSendDoublonCheck This (nwkAddrDest elt) (rqType elt) (rqClusterId elt)
          (remoteEndp elt) (expectedCmdCode elt)
     then do {
       (ok, eltOpt, portCtxt', g') \<leftarrow> requestManager_t_sendRequest (Some elt) portCtxt g;
       elt' \<leftarrow> eltOpt;
       if ok
       then lookFor_loop es (This\<lparr>pendingRequests := pendingRequests This @ [elt']\<rparr>) portCtxt' g'
       else do {
         (kept, This', portCtxt'', g'') \<leftarrow> lookFor_loop es This portCtxt' g';
         Some (elt' # kept, This', portCtxt'', g'')
       }
     }
     else do {
       (kept, This', portCtxt', g') \<leftarrow> lookFor_loop es This portCtxt g;
       Some (elt # kept, This', portCtxt', g')
     })"

definition requestManager_t_lookForPostponedReqToSend ::
    "requestManager_t \<Rightarrow> portContext_t \<Rightarrow> azapGlobals \<Rightarrow> (requestManager_t \<times> portContext_t \<times> azapGlobals) exec"
where
  "requestManager_t_lookForPostponedReqToSend This portCtxt g =
    (if \<not> requestManager_t_readyToSend This 0 0 then Some (This, portCtxt, g)
     else do {
       (kept, This', portCtxt', g') \<leftarrow> lookFor_loop (postponedRequests This) This portCtxt g;
       Some (This'\<lparr>postponedRequests := kept\<rparr>, portCtxt', g')
     })"

definition requestManager_t_tic ::
    "requestManager_t \<Rightarrow> portContext_t \<Rightarrow> azapGlobals \<Rightarrow> (requestManager_t \<times> portContext_t \<times> azapGlobals) exec"
where
  "requestManager_t_tic This portCtxt g = do {
     (post, g1) \<leftarrow> age1sAndLookForTimedOutReq (postponedRequests This) portCtxt False g;
     (pend, g2) \<leftarrow> age1sAndLookForTimedOutReq (pendingRequests This) portCtxt True g1;
     requestManager_t_lookForPostponedReqToSend
       (This\<lparr>postponedRequests := post, pendingRequests := pend\<rparr>) portCtxt g2
   }"

subsection \<open>The limits, abstractly\<close>

type_synonym reqKey = "AZAP_REQUEST_TYPE \<times> u16 \<times> u16 \<times> u8 \<times> u8"

definition req_key :: "requestContext_t \<Rightarrow> reqKey" where
  "req_key r = (rqType r, nwkAddrDest r, rqClusterId r, remoteEndp r, expectedCmdCode r)"

fun key_node :: "reqKey \<Rightarrow> u16" where "key_node (t, a, c, e, x) = a"
fun key_ep :: "reqKey \<Rightarrow> u8" where "key_ep (t, a, c, e, x) = e"

definition on_node :: "u16 \<Rightarrow> reqKey list \<Rightarrow> nat" where
  "on_node a ks = length (filter (\<lambda>k. key_node k = a) ks)"

definition on_ep :: "u16 \<Rightarrow> u8 \<Rightarrow> reqKey list \<Rightarrow> nat" where
  "on_ep a e ks = length (filter (\<lambda>k. key_node k = a \<and> key_ep k = e) ks)"

text \<open>What the dongle can take: ten requests in all, three per node, one per end point, and no
  two alike.\<close>

definition within_limits :: "reqKey list \<Rightarrow> bool" where
  "within_limits ks =
     (length ks \<le> 10 \<and> (\<forall>a. on_node a ks \<le> 3) \<and> (\<forall>a e. e \<noteq> 0 \<longrightarrow> on_ep a e ks \<le> 1) \<and> distinct ks)"

locale admission =
  fixes key :: "'r \<Rightarrow> 'k"
    and good :: "'k list \<Rightarrow> bool"
    and admits :: "'r list \<Rightarrow> 'r \<Rightarrow> bool"
  assumes admit_good: "good (map key ps) \<Longrightarrow> admits ps r \<Longrightarrow> good (map key ps @ [key r])"
    and subseq_good: "good ks \<Longrightarrow> subseq js ks \<Longrightarrow> good js"
begin

lemma admit_updated: "good (map key ps) \<Longrightarrow> admits ps r \<Longrightarrow> key r' = key r \<Longrightarrow> good (map key (ps @ [r']))"
  using admit_good by simp

lemma drop_requests: "good (map key ps) \<Longrightarrow> subseq (map key qs) (map key ps) \<Longrightarrow> good (map key qs)"
  by (rule subseq_good)

text \<open>Any schedule of admissions and removals stays within the limits.\<close>

inductive schedule :: "'r list \<Rightarrow> 'r list \<Rightarrow> bool" where
  idle: "schedule ps ps"
| admit: "schedule ps qs \<Longrightarrow> admits qs r \<Longrightarrow> key r' = key r \<Longrightarrow> schedule ps (qs @ [r'])"
| remove: "schedule ps qs \<Longrightarrow> subseq (map key qs') (map key qs) \<Longrightarrow> schedule ps qs'"

lemma schedule_trans: "schedule qs rs \<Longrightarrow> schedule ps qs \<Longrightarrow> schedule ps rs"
  by (induction rule: schedule.induct) (auto intro: schedule.intros)

lemma schedule_admit: "admits ps r \<Longrightarrow> key r' = key r \<Longrightarrow> schedule ps (ps @ [r'])"
  by (rule schedule.admit [OF schedule.idle])

lemma schedule_good: "schedule ps qs \<Longrightarrow> good (map key ps) \<Longrightarrow> good (map key qs)"
  by (induction rule: schedule.induct) (auto intro: admit_updated drop_requests simp del: map_append)

end

subsection \<open>The scan computes the limits\<close>

lemma sint_of_nat_u16: "n < 32768 \<Longrightarrow> sint (of_nat n :: u16) = int n"
  by (simp add: sint_uint uint_nat unat_of_nat_u16 signed_take_bit_int_eq_self)

lemma count_elt_fold:
  "foldl (count_elt a e) c ps =
     c\<lparr>nbTotalReq := nbTotalReq c + of_nat (length ps),
       nbReqOnDest := nbReqOnDest c + of_nat (on_node a (map req_key ps)),
       nbReqOnEp := nbReqOnEp c + (if e = 0 then 0 else of_nat (on_ep a e (map req_key ps)))\<rparr>"
proof (induction ps arbitrary: c)
  case Nil
  then show ?case by (simp add: on_node_def on_ep_def)
next
  case (Cons r ps)
  then show ?case
    by (auto simp: count_elt_def Let_def on_node_def on_ep_def req_key_def)
qed

lemma doublon_fold:
  "foldl (\<lambda>c elt. let c' = count_elt a e c elt in if P elt then c'\<lparr>isDoublon := True\<rparr> else c') c ps
   = (foldl (count_elt a e) c ps)\<lparr>isDoublon := isDoublon c \<or> (\<exists>r \<in> set ps. P r)\<rparr>"
proof (induction ps arbitrary: c)
  case Nil
  then show ?case by simp
next
  case (Cons r ps)
  have "isDoublon (count_elt a e c r) = isDoublon c" by (simp add: count_elt_def Let_def)
  moreover have "foldl (count_elt a e) (c'\<lparr>isDoublon := b\<rparr>) ps = (foldl (count_elt a e) c' ps)\<lparr>isDoublon := b\<rparr>" for c' b
    by (simp add: count_elt_fold)
  ultimately show ?case using Cons by (simp add: Let_def)
qed

lemma on_node_le: "on_node a ks \<le> length ks"
  by (simp add: on_node_def)

lemma on_ep_le: "on_ep a e ks \<le> length ks"
  by (simp add: on_ep_def)

lemma readyToSend_iff:
  assumes "length (pendingRequests This) < 32768"
  shows "requestManager_t_readyToSend This a e =
     (length (pendingRequests This) < 10 \<and> on_node a (map req_key (pendingRequests This)) < 3 \<and>
      (e = 0 \<or> on_ep a e (map req_key (pendingRequests This)) = 0))"
  using assms on_node_le [of a "map req_key (pendingRequests This)"]
    on_ep_le [of a e "map req_key (pendingRequests This)"]
  by (auto simp: requestManager_t_readyToSend_def count_elt_fold counts_below_def const_defs sint_of_nat_u16)

lemma doublonCheck_iff:
  assumes "length (pendingRequests This) < 32768"
  shows "requestManager_t_readyToSendDoublonCheck This a t c e x =
     (requestManager_t_readyToSend This a e \<and> (t, a, c, e, x) \<notin> set (map req_key (pendingRequests This)))"
  unfolding requestManager_t_readyToSendDoublonCheck_def doublon_fold requestManager_t_readyToSend_def
  by (auto simp: Let_def counts_below_def doublon_match_def req_key_def)

definition admitted :: "requestContext_t list \<Rightarrow> requestContext_t \<Rightarrow> bool" where
  "admitted ps r =
     requestManager_t_readyToSendDoublonCheck \<lparr>postponedRequests = [], pendingRequests = ps\<rparr>
       (nwkAddrDest r) (rqType r) (rqClusterId r) (remoteEndp r) (expectedCmdCode r)"

lemma admitted_eq:
  "requestManager_t_readyToSendDoublonCheck This (nwkAddrDest r) (rqType r) (rqClusterId r)
     (remoteEndp r) (expectedCmdCode r) = admitted (pendingRequests This) r"
  by (simp add: admitted_def requestManager_t_readyToSendDoublonCheck_def)

lemma on_node_snoc: "on_node a (ks @ [k]) = on_node a ks + (if key_node k = a then 1 else 0)"
  by (simp add: on_node_def)

lemma on_ep_snoc: "on_ep a e (ks @ [k]) = on_ep a e ks + (if key_node k = a \<and> key_ep k = e then 1 else 0)"
  by (simp add: on_ep_def)

lemma length_filter_subseq: "subseq js ks \<Longrightarrow> length (filter P js) \<le> length (filter P ks)"
  by (induction rule: list_emb.induct) auto

interpretation adm: admission req_key within_limits admitted
proof (unfold_locales, goal_cases)
  case (1 ps r)
  let ?ks = "map req_key ps"
  from 1(1) have w: "length ps \<le> 10" "\<And>a. on_node a ?ks \<le> 3" "\<And>a e. e \<noteq> 0 \<Longrightarrow> on_ep a e ?ks \<le> 1" "distinct ?ks"
    by (auto simp: within_limits_def)
  from 1(2) w(1) have a: "length ps < 10" "on_node (nwkAddrDest r) ?ks < 3"
    "remoteEndp r = 0 \<or> on_ep (nwkAddrDest r) (remoteEndp r) ?ks = 0" "req_key r \<notin> set ?ks"
    by (auto simp: admitted_def doublonCheck_iff readyToSend_iff req_key_def)
  have "key_node (req_key r) = nwkAddrDest r" "key_ep (req_key r) = remoteEndp r" by (simp_all add: req_key_def)
  with w a show ?case
    unfolding within_limits_def by (auto simp: on_node_snoc on_ep_snoc)
next
  case (2 ks js)
  have "on_node a js \<le> on_node a ks" "on_ep a e js \<le> on_ep a e ks" for a e
    using length_filter_subseq [OF 2(2)] by (simp_all add: on_node_def on_ep_def)
  moreover have "distinct js" using 2 by (auto simp: within_limits_def subseq_conv_nths)
  moreover have "length js \<le> length ks" using 2(2) by (rule list_emb_length)
  ultimately show ?case using 2(1) unfolding within_limits_def by (meson le_trans)
qed

subsection \<open>One second of the manager\<close>

lemma tic_key [simp]:
  "req_key (snd (requestContext_t_tic e b)) = req_key e"
  "issuerContext (snd (requestContext_t_tic e b)) = issuerContext e"
  by (simp_all add: requestContext_t_tic_def req_key_def Let_def)

definition expires :: "bool \<Rightarrow> requestContext_t \<Rightarrow> bool" where
  "expires sent e = (fst (requestContext_t_tic e sent) \<le> 0)"

lemma expires_sent: "expires True e = (timeToLive e \<le> 1)"
  by (simp add: expires_def requestContext_t_tic_def)

lemma expires_postponed: "expires False e = (timeToLive e \<le> 0)"
  by (simp add: expires_def requestContext_t_tic_def)

text \<open>A request may fail when the callback table has the member that reports it.\<close>

definition answerable :: "azapCallback list \<Rightarrow> AZAP_REQUEST_TYPE \<Rightarrow> bool" where
  "answerable cbs t = (case failure_cb t of None \<Rightarrow> True | Some cb \<Rightarrow> cb \<in> set cbs)"

lemma not_answerable: "\<not> answerable cbs t \<longleftrightarrow> (\<exists>cb. failure_cb t = Some cb \<and> cb \<notin> set cbs)"
  by (simp add: answerable_def split: option.splits)

definition failure_events :: "requestContext_t \<Rightarrow> azapEvent list" where
  "failure_events e =
     (case failure_cb (rqType e) of
        None \<Rightarrow> []
      | Some _ \<Rightarrow> [RequestFailedCb (rqType e) (issuerContext e) (nwkAddrDest e) (remoteEndp e) (rqClusterId e)])"

lemma callbackOnFailure_None_iff:
  "requestManager_t_callbackOnFailure (Some e) (Some port) g = None \<longleftrightarrow> \<not> answerable (pCallbacks port) (rqType e)"
  by (simp add: requestManager_t_callbackOnFailure_def answerable_def Let_def split: option.splits)

lemma callbackOnFailure_log:
  "requestManager_t_callbackOnFailure (Some e) (Some port) g = Some g' \<Longrightarrow> cbLog g' = cbLog g @ failure_events e"
  by (auto simp: requestManager_t_callbackOnFailure_def failure_events_def Let_def split: option.splits if_splits)

lemma tic_type [simp]: "rqType (snd (requestContext_t_tic e b)) = rqType e"
  by (simp add: requestContext_t_tic_def Let_def)

lemma failure_events_tic [simp]: "failure_events (snd (requestContext_t_tic e b)) = failure_events e"
  by (simp add: failure_events_def requestContext_t_tic_def Let_def split: option.splits)

lemma age_cons:
  "age1sAndLookForTimedOutReq (e # es) port sent g =
    (if expires sent e
     then do {
       g' \<leftarrow> requestManager_t_callbackOnFailure (Some (snd (requestContext_t_tic e sent))) (Some port) g;
       age1sAndLookForTimedOutReq es port sent g'
     }
     else do {
       (kept, g') \<leftarrow> age1sAndLookForTimedOutReq es port sent g;
       Some (snd (requestContext_t_tic e sent) # kept, g')
     })"
  by (simp add: expires_def split: prod.splits)

declare age1sAndLookForTimedOutReq.simps(2) [simp del]

text \<open>Ageing a list is undefined exactly when a request of it expires without a callback to
  report it; otherwise it keeps the others, one second older, and reports the expired ones in order.\<close>

lemma age_None_iff:
  "age1sAndLookForTimedOutReq es port sent g = None \<longleftrightarrow>
   (\<exists>e \<in> set es. expires sent e \<and> \<not> answerable (pCallbacks port) (rqType e))"
proof (induction es arbitrary: g)
  case Nil
  then show ?case by simp
next
  case (Cons e es)
  show ?case
  proof (cases "expires sent e")
    case True
    show ?thesis
    proof (cases "requestManager_t_callbackOnFailure (Some (snd (requestContext_t_tic e sent))) (Some port) g")
      case None
      from None [unfolded callbackOnFailure_None_iff] have "\<not> answerable (pCallbacks port) (rqType e)" by simp
      with True None show ?thesis by (auto simp: age_cons)
    next
      case (Some g')
      then have "requestManager_t_callbackOnFailure (Some (snd (requestContext_t_tic e sent))) (Some port) g \<noteq> None" by simp
      then have "answerable (pCallbacks port) (rqType e)" by (simp only: callbackOnFailure_None_iff tic_type not_not)
      then show ?thesis using True Some Cons [of g'] by (simp add: age_cons)
    qed
  next
    case False
    then show ?thesis using Cons [of g] by (auto simp: age_cons bind_eq_None_conv split: prod.splits)
  qed
qed

lemma age_result:
  "age1sAndLookForTimedOutReq es port sent g = Some (kept, g') \<Longrightarrow>
     kept = map (\<lambda>e. snd (requestContext_t_tic e sent)) (filter (\<lambda>e. \<not> expires sent e) es) \<and>
     cbLog g' = cbLog g @ concat (map failure_events (filter (expires sent) es))"
proof (induction es arbitrary: g kept)
  case Nil
  then show ?case by simp
next
  case (Cons e es)
  then show ?case by (cases "expires sent e") (fastforce simp: age_cons dest: callbackOnFailure_log split: bind_splits)+
qed

lemma age_quiet:
  "\<forall>e \<in> set es. \<not> expires sent e \<Longrightarrow>
   age1sAndLookForTimedOutReq es port sent g = Some (map (\<lambda>e. snd (requestContext_t_tic e sent)) es, g)"
  by (induction es arbitrary: g) (simp_all add: age_cons)

lemma age_defined:
  assumes "\<forall>e \<in> set es. answerable (pCallbacks port) (rqType e)"
  shows "\<exists>g'. age1sAndLookForTimedOutReq es port sent g =
    Some (map (\<lambda>e. snd (requestContext_t_tic e sent)) (filter (\<lambda>e. \<not> expires sent e) es), g')"
proof -
  have "age1sAndLookForTimedOutReq es port sent g \<noteq> None" using assms unfolding age_None_iff by blast
  then obtain kept g' where a: "age1sAndLookForTimedOutReq es port sent g = Some (kept, g')" by auto
  from age_result [OF a] a show ?thesis by simp
qed

lemma subseq_filter_map: "subseq (map f (filter P xs)) (map f xs)"
  by (intro subseq_map subseq_filter_left)

text \<open>What identifies a request while the manager holds it: its key and its issuer's context.\<close>

definition req_id :: "requestContext_t \<Rightarrow> reqKey \<times> nat" where
  "req_id e = (req_key e, issuerContext e)"

lemma req_id_eq: "req_id e' = req_id e \<longleftrightarrow> req_key e' = req_key e \<and> issuerContext e' = issuerContext e"
  by (simp add: req_id_def)

lemma req_id_tic [simp]: "req_id (snd (requestContext_t_tic e b)) = req_id e"
  by (simp add: req_id_def)

lemma sendRequest_elt:
  assumes "requestManager_t_sendRequest (Some e) port g = Some (ok, eo, port', g')"
  shows "\<exists>e'. eo = Some e' \<and> req_key e' = req_key e \<and> issuerContext e' = issuerContext e \<and> cbLog g' = cbLog g"
  using assms
  by (auto simp: requestManager_t_sendRequest_def req_key_def
      split: option.splits requestFamily.splits bind_splits)

lemma lookFor_loop_spec:
  assumes "lookFor_loop es This port g = Some (kept, This', port', g')"
  shows "adm.schedule (pendingRequests This) (pendingRequests This') \<and>
         subseq (map req_key kept) (map req_key es) \<and>
         mset (map req_id kept) + mset (map req_id (pendingRequests This'))
           = mset (map req_id es) + mset (map req_id (pendingRequests This)) \<and>
         cbLog g' = cbLog g"
  using assms
proof (induction es arbitrary: This port g kept This' port' g')
  case Nil
  then show ?case by (auto intro: adm.schedule.idle)
next
  case (Cons e es)
  show ?case
  proof (cases "admitted (pendingRequests This) e")
    case False
    with Cons.prems obtain k where k: "lookFor_loop es This port g = Some (k, This', port', g')" "kept = e # k"
      by (auto simp: admitted_eq split: bind_splits)
    from Cons.IH [OF k(1)] k(2) show ?thesis by auto
  next
    case True
    with Cons.prems obtain ok eo p1 g1 e1 where s1:
      "requestManager_t_sendRequest (Some e) port g = Some (ok, eo, p1, g1)" "eo = Some e1"
      by (auto simp: admitted_eq split: bind_splits)
    note e1 = sendRequest_elt [OF s1(1), unfolded s1(2)]
    then have id1: "req_id e1 = req_id e" by (simp add: req_id_eq)
    show ?thesis
    proof (cases ok)
      case True
      with Cons.prems \<open>admitted _ e\<close> s1 have
        "lookFor_loop es (This\<lparr>pendingRequests := pendingRequests This @ [e1]\<rparr>) p1 g1 = Some (kept, This', port', g')"
        by (simp add: admitted_eq)
      from Cons.IH [OF this] adm.schedule_admit [OF \<open>admitted _ e\<close>, of e1] e1 id1 show ?thesis
        by (auto intro: adm.schedule_trans list_emb.list_emb_Cons)
    next
      case False
      with Cons.prems \<open>admitted _ e\<close> s1 obtain k where
        k: "lookFor_loop es This p1 g1 = Some (k, This', port', g')" "kept = e1 # k"
        by (auto simp: admitted_eq split: bind_splits)
      from Cons.IH [OF k(1)] k(2) e1 id1 show ?thesis by auto
    qed
  qed
qed

text \<open>A request that can be sent: its parameters hold the announced payload.\<close>

definition sendable :: "requestContext_t \<Rightarrow> bool" where
  "sendable e =
     (case requestParameters e of
        None \<Rightarrow> True
      | Some p \<Rightarrow> (case cmdData p of None \<Rightarrow> dataLen p = 0 | Some d \<Rightarrow> unat (dataLen p) \<le> length d))"

text \<open>The frame a request puts on the wire under the transaction identifier \<open>tid\<close>, and when the
  transmit buffer takes it: a frame has at most 255 bytes.\<close>

definition request_frame :: "u8 \<Rightarrow> requestContext_t \<Rightarrow> bytes" where
  "request_frame tid e =
    (case requestParameters e of
       None \<Rightarrow> []
     | Some p \<Rightarrow>
         (let d = take (unat (dataLen p)) (case cmdData p of None \<Rightarrow> [] | Some d \<Rightarrow> d)
          in case request_family (rqType e) of
               REQ_ZDO_FAMILY code \<Rightarrow> znp_frame code d
             | REQ_ZCL_FAMILY specific \<Rightarrow>
                 (let f = zcl_frame specific (manufacturerCode e) (clusterDir e) 0 (cmdCode p) d
                  in znp_frame MT_AF_DATA_EXT_SREQ
                       (af_header (nwkAddrDest e) (remoteEndp e) (localEndp p) (rqClusterId e) tid (length f) @ f))))"

definition frame_fits :: "uartBufControl_t \<Rightarrow> bytes \<Rightarrow> bool" where
  "frame_fits b fr = (length fr \<le> 255 \<and> length (uart_contents b) + length fr \<le> uart_capacity b)"

definition sent_request :: "u8 \<Rightarrow> requestContext_t \<Rightarrow> requestContext_t" where
  "sent_request tid e =
     (case request_family (rqType e) of REQ_ZDO_FAMILY _ \<Rightarrow> e | REQ_ZCL_FAMILY _ \<Rightarrow> e\<lparr>transactionId := tid\<rparr>)"

lemma sendRequest_cases:
  assumes "tx port = Some buf" "uart_wf buf" "sendable e" "requestParameters e = Some p"
  shows "\<exists>ok e' buf' g'. requestManager_t_sendRequest (Some e) port g = Some (ok, Some e', port\<lparr>tx := Some buf'\<rparr>, g') \<and>
           uart_wf buf' \<and> (ok \<longleftrightarrow> frame_fits buf (request_frame (g_zclTransactionId g) e)) \<and>
           (if ok then e' = sent_request (g_zclTransactionId g) e \<and>
                       uart_contents buf' = uart_contents buf @ request_frame (g_zclTransactionId g) e
            else buf' = buf)"
proof -
  let ?d = "case cmdData p of None \<Rightarrow> [] | Some d \<Rightarrow> d"
  have u: "unat (ucast (dataLen p) :: u16) = unat (dataLen p)" by simp
  have d: "unat (dataLen p) \<le> length ?d"
    "cmdData p = None \<and> (ucast (dataLen p) :: u16) = 0 \<or>
     (\<exists>c. cmdData p = Some c \<and> unat (ucast (dataLen p) :: u16) \<le> length c)"
    using assms(3,4) by (auto simp: sendable_def split: option.splits)
  show ?thesis
  proof (cases "request_family (rqType e)")
    case (REQ_ZDO_FAMILY code)
    have fr: "request_frame (g_zclTransactionId g) e = znp_frame code (take (unat (dataLen p)) ?d)"
      using assms(4) REQ_ZDO_FAMILY by (simp add: request_frame_def Let_def)
    from znpSend_cases [OF assms(2) d(1), of code] obtain ok buf' where
      z: "znpSend buf code (dataLen p) ?d = Some (ok, buf')" "uart_wf buf'"
        "ok \<longleftrightarrow> unat (dataLen p) \<le> 250 \<and> length (uart_contents buf) + unat (dataLen p) + 5 \<le> uart_capacity buf"
        "if ok then uart_contents buf' = uart_contents buf @ request_frame (g_zclTransactionId g) e else buf' = buf"
      unfolding fr by blast
    have "length (request_frame (g_zclTransactionId g) e) = unat (dataLen p) + 5" using d(1) by (simp add: fr)
    then have "ok \<longleftrightarrow> frame_fits buf (request_frame (g_zclTransactionId g) e)"
      unfolding z(3) frame_fits_def by (auto simp: algebra_simps)
    with z(1,2,4) assms(1,4) REQ_ZDO_FAMILY show ?thesis
      by (intro exI [of _ ok] exI [of _ e] exI [of _ buf'] exI [of _ g])
        (simp add: requestManager_t_sendRequest_def sent_request_def)
  next
    case (REQ_ZCL_FAMILY specific)
    let ?f = "zcl_frame specific (manufacturerCode e) (clusterDir e) 0 (cmdCode p) (take (unat (ucast (dataLen p) :: u16)) ?d)"
    have fr: "request_frame (g_zclTransactionId g) e = znp_frame MT_AF_DATA_EXT_SREQ
        (af_header (nwkAddrDest e) (remoteEndp e) (localEndp p) (rqClusterId e) (g_zclTransactionId g) (length ?f) @ ?f)"
      using assms(4) REQ_ZCL_FAMILY by (simp add: request_frame_def Let_def u)
    from znpSendZclCommand_cases [OF assms(2) d(2) refl, of "g_zclTransactionId g" "nwkAddrDest e" "remoteEndp e"
        "localEndp p" "cmdCode p" specific "rqClusterId e" "clusterDir e" "manufacturerCode e" "transactionId e"]
    obtain ok buf' g' tid' where
      z: "znpSendZclCommand buf (g_zclTransactionId g) (nwkAddrDest e) (remoteEndp e) (localEndp p) (cmdCode p) specific
            (rqClusterId e) (clusterDir e) (manufacturerCode e) (ucast (dataLen p)) (cmdData p) (transactionId e)
          = Some (ok, buf', g', tid')" "uart_wf buf'"
        "ok \<longleftrightarrow> length ?f \<le> 230 \<and> length (uart_contents buf) + length ?f + 25 \<le> uart_capacity buf"
        "if ok then g' = g_zclTransactionId g + 1 \<and> tid' = g_zclTransactionId g \<and>
             uart_contents buf' = uart_contents buf @ request_frame (g_zclTransactionId g) e
         else buf' = buf" unfolding fr by blast
    have "ok \<longleftrightarrow> frame_fits buf (request_frame (g_zclTransactionId g) e)"
      unfolding z(3) fr frame_fits_def by (auto simp: algebra_simps)
    with z(1,2,4) assms(1,4) REQ_ZCL_FAMILY show ?thesis
      by (auto simp: requestManager_t_sendRequest_def sent_request_def)
  qed
qed

lemma sendRequest_total:
  assumes "tx_ok port" "sendable e"
  shows "\<exists>ok e' port' g'. requestManager_t_sendRequest (Some e) port g = Some (ok, Some e', port', g') \<and>
           tx_ok port'"
proof (cases "requestParameters e")
  case None
  with assms(1) show ?thesis by (auto simp: requestManager_t_sendRequest_def)
next
  case (Some p)
  from assms(1) obtain buf where buf: "tx port = Some buf" "uart_wf buf"
    by (auto simp: tx_ok_def split: option.splits)
  from sendRequest_cases [OF buf assms(2) Some, of g] show ?thesis by (auto simp: tx_ok_def)
qed

lemma lookFor_loop_total:
  "tx_ok port \<Longrightarrow> \<forall>e \<in> set es. sendable e \<Longrightarrow>
   \<exists>kept This' port' g'. lookFor_loop es This port g = Some (kept, This', port', g') \<and> tx_ok port'"
proof (induction es arbitrary: This port g)
  case Nil
  then show ?case by simp
next
  case (Cons e es)
  then obtain ok e' p' g' where s: "requestManager_t_sendRequest (Some e) port g = Some (ok, Some e', p', g')"
    "tx_ok p'" using sendRequest_total [of port e g] by auto
  from Cons.IH [OF s(2), of "This\<lparr>pendingRequests := pendingRequests This @ [e']\<rparr>" g'] Cons.IH [OF s(2), of This g']
    Cons.IH [OF Cons.prems(1), of This g] Cons.prems(2) s(1)
  show ?case by (auto split: if_splits)
qed

lemma tic_sendable [simp]: "sendable (snd (requestContext_t_tic e b)) = sendable e"
  by (simp add: sendable_def requestContext_t_tic_def Let_def)

lemma lookForPostponed_limits:
  assumes "within_limits (map req_key (pendingRequests This))" "tx_ok port"
    "\<forall>e \<in> set (postponedRequests This). sendable e"
  shows "\<exists>This' port' g'. requestManager_t_lookForPostponedReqToSend This port g = Some (This', port', g') \<and>
     within_limits (map req_key (pendingRequests This')) \<and> tx_ok port'"
proof -
  from lookFor_loop_total [OF assms(2,3)] obtain kept T p h where
    l: "lookFor_loop (postponedRequests This) This port g = Some (kept, T, p, h)" "tx_ok p" by blast
  with lookFor_loop_spec [OF l(1)] assms(1) have "within_limits (map req_key (pendingRequests T))"
    by (auto intro: adm.schedule_good)
  with l assms(1,2) show ?thesis by (simp add: requestManager_t_lookForPostponedReqToSend_def)
qed

lemma lookForPostponed_conserves:
  assumes "requestManager_t_lookForPostponedReqToSend This port g = Some (This', port', g')"
  shows "mset (map req_id (postponedRequests This')) + mset (map req_id (pendingRequests This'))
       = mset (map req_id (postponedRequests This)) + mset (map req_id (pendingRequests This)) \<and>
     subseq (map req_key (postponedRequests This')) (map req_key (postponedRequests This)) \<and>
     cbLog g' = cbLog g"
proof (cases "requestManager_t_readyToSend This 0 0")
  case False
  with assms show ?thesis by (auto simp: requestManager_t_lookForPostponedReqToSend_def)
next
  case True
  with assms obtain kept T where l: "lookFor_loop (postponedRequests This) This port g = Some (kept, T, port', g')"
    "This' = T\<lparr>postponedRequests := kept\<rparr>"
    by (auto simp: requestManager_t_lookForPostponedReqToSend_def split: bind_splits)
  from lookFor_loop_spec [OF l(1)] l(2) show ?thesis by simp
qed

lemma mset_filter_split: "mset (map f (filter (\<lambda>e. \<not> P e) xs)) + mset (map f (filter P xs)) = mset (map f xs)"
  by (induction xs) auto

text \<open>One second of the manager, taken apart: the two lists that remain, and what was reported.\<close>

lemma tic_split:
  assumes "requestManager_t_tic This port g = Some (This', port', g')"
  obtains g2 where
    "requestManager_t_lookForPostponedReqToSend
      (This\<lparr>postponedRequests := map (\<lambda>e. snd (requestContext_t_tic e False))
                                  (filter (\<lambda>e. \<not> expires False e) (postponedRequests This)),
            pendingRequests := map (\<lambda>e. snd (requestContext_t_tic e True))
                                  (filter (\<lambda>e. \<not> expires True e) (pendingRequests This))\<rparr>) port g2
      = Some (This', port', g')"
    "cbLog g2 = cbLog g @ concat (map failure_events (filter (expires False) (postponedRequests This) @
                                  filter (expires True) (pendingRequests This)))"
proof -
  from assms obtain post pend g1 g2 where
    a: "age1sAndLookForTimedOutReq (postponedRequests This) port False g = Some (post, g1)"
       "age1sAndLookForTimedOutReq (pendingRequests This) port True g1 = Some (pend, g2)"
       "requestManager_t_lookForPostponedReqToSend (This\<lparr>postponedRequests := post, pendingRequests := pend\<rparr>) port g2
          = Some (This', port', g')"
    by (auto simp: requestManager_t_tic_def split: bind_splits)
  from age_result [OF a(1)] age_result [OF a(2)] a(3) that [of g2] show ?thesis by simp
qed

definition all_answerable :: "azapCallback list \<Rightarrow> requestManager_t \<Rightarrow> bool" where
  "all_answerable cbs This =
     (\<forall>q \<in> set (postponedRequests This @ pendingRequests This). answerable cbs (rqType q))"

lemma lookForPostponed_total:
  assumes "tx_ok port" "\<forall>e \<in> set (postponedRequests This). sendable e"
  shows "requestManager_t_lookForPostponedReqToSend This port g \<noteq> None"
  using lookFor_loop_total [OF assms, of This g] by (auto simp: requestManager_t_lookForPostponedReqToSend_def)

lemma tic_None_iff:
  assumes "tx_ok port" "\<forall>e \<in> set (postponedRequests This). sendable e"
  shows "requestManager_t_tic This port g = None \<longleftrightarrow>
    (\<exists>q \<in> set (filter (expires False) (postponedRequests This) @ filter (expires True) (pendingRequests This)).
        \<not> answerable (pCallbacks port) (rqType q))"
proof (cases "age1sAndLookForTimedOutReq (postponedRequests This) port False g")
  case None
  then have "requestManager_t_tic This port g = None" by (simp add: requestManager_t_tic_def)
  with None show ?thesis by (auto simp: age_None_iff)
next
  case (Some r)
  then obtain post g1 where a1: "age1sAndLookForTimedOutReq (postponedRequests This) port False g = Some (post, g1)"
    by (cases r) simp
  then have "age1sAndLookForTimedOutReq (postponedRequests This) port False g \<noteq> None" by simp
  then have n1: "\<not> (\<exists>q \<in> set (filter (expires False) (postponedRequests This)). \<not> answerable (pCallbacks port) (rqType q))"
    unfolding age_None_iff by auto
  show ?thesis
  proof (cases "age1sAndLookForTimedOutReq (pendingRequests This) port True g1")
    case None
    with a1 have "requestManager_t_tic This port g = None" by (simp add: requestManager_t_tic_def)
    with None show ?thesis by (auto simp: age_None_iff)
  next
    case (Some r2)
    then obtain pend g2 where a2: "age1sAndLookForTimedOutReq (pendingRequests This) port True g1 = Some (pend, g2)"
      by (cases r2) simp
    then have "age1sAndLookForTimedOutReq (pendingRequests This) port True g1 \<noteq> None" by simp
    then have n2: "\<not> (\<exists>q \<in> set (filter (expires True) (pendingRequests This)). \<not> answerable (pCallbacks port) (rqType q))"
      unfolding age_None_iff by auto
    have "\<forall>e \<in> set post. sendable e" using age_result [OF a1] assms(2) by auto
    with lookForPostponed_total [OF assms(1), of "This\<lparr>postponedRequests := post, pendingRequests := pend\<rparr>" g2] a1 a2
    have "requestManager_t_tic This port g \<noteq> None" by (simp add: requestManager_t_tic_def)
    with n1 n2 show ?thesis by auto
  qed
qed

lemma tic_conserves:
  assumes "requestManager_t_tic This port g = Some (This', port', g')"
  shows "mset (map req_id (postponedRequests This' @ pendingRequests This')) +
         mset (map req_id (filter (expires False) (postponedRequests This) @
                           filter (expires True) (pendingRequests This)))
       = mset (map req_id (postponedRequests This @ pendingRequests This))"
proof -
  obtain g2 where l: "requestManager_t_lookForPostponedReqToSend
      (This\<lparr>postponedRequests := map (\<lambda>e. snd (requestContext_t_tic e False))
                                  (filter (\<lambda>e. \<not> expires False e) (postponedRequests This)),
            pendingRequests := map (\<lambda>e. snd (requestContext_t_tic e True))
                                  (filter (\<lambda>e. \<not> expires True e) (pendingRequests This))\<rparr>) port g2
      = Some (This', port', g')"
    by (rule tic_split [OF assms])
  from lookForPostponed_conserves [OF l] mset_filter_split [of req_id "expires False" "postponedRequests This"]
    mset_filter_split [of req_id "expires True" "pendingRequests This"]
  show ?thesis by (simp add: comp_def ac_simps)
qed

lemma answerable_id: "answerable cbs (fst (fst (req_id q))) = answerable cbs (rqType q)"
  by (simp add: req_id_def req_key_def)

lemma tic_answerable:
  assumes "requestManager_t_tic This port g = Some (This', port', g')" "all_answerable cbs This"
  shows "all_answerable cbs This'"
proof -
  have "set_mset (mset (map req_id (postponedRequests This' @ pendingRequests This')))
      \<subseteq> set_mset (mset (map req_id (postponedRequests This @ pendingRequests This)))"
    unfolding tic_conserves [OF assms(1), symmetric] by (simp only: set_mset_union) blast
  then have s: "req_id ` set (postponedRequests This' @ pendingRequests This')
      \<subseteq> req_id ` set (postponedRequests This @ pendingRequests This)" by (simp add: image_Un)
  show ?thesis
    unfolding all_answerable_def
  proof
    fix q assume "q \<in> set (postponedRequests This' @ pendingRequests This')"
    with s obtain q0 where "q0 \<in> set (postponedRequests This @ pendingRequests This)" "req_id q = req_id q0" by blast
    with assms(2) show "answerable cbs (rqType q)"
      unfolding all_answerable_def by (metis answerable_id)
  qed
qed

lemma tic_limits:
  assumes "within_limits (map req_key (pendingRequests This))" "tx_ok port"
    "\<forall>e \<in> set (postponedRequests This). sendable e" "all_answerable (pCallbacks port) This"
  shows "\<exists>This' port' g'. requestManager_t_tic This port g = Some (This', port', g') \<and>
     within_limits (map req_key (pendingRequests This')) \<and> tx_ok port' \<and> all_answerable (pCallbacks port) This'"
proof -
  have "requestManager_t_tic This port g \<noteq> None"
    using assms(4) unfolding tic_None_iff [OF assms(2,3)] all_answerable_def by auto
  then obtain This' port' g' where t: "requestManager_t_tic This port g = Some (This', port', g')" by auto
  let ?pend = "map (\<lambda>e. snd (requestContext_t_tic e True)) (filter (\<lambda>e. \<not> expires True e) (pendingRequests This))"
  let ?post = "map (\<lambda>e. snd (requestContext_t_tic e False)) (filter (\<lambda>e. \<not> expires False e) (postponedRequests This))"
  obtain g2 where l: "requestManager_t_lookForPostponedReqToSend
      (This\<lparr>postponedRequests := ?post, pendingRequests := ?pend\<rparr>) port g2 = Some (This', port', g')"
    by (rule tic_split [OF t])
  have "subseq (map req_key ?pend) (map req_key (pendingRequests This))" by (simp add: comp_def subseq_filter_map)
  with assms(1) have "within_limits (map req_key ?pend)" by (rule adm.drop_requests)
  moreover have "\<forall>e \<in> set ?post. sendable e" using assms(3) by auto
  ultimately have "within_limits (map req_key (pendingRequests This'))" "tx_ok port'"
    using lookForPostponed_limits [of "This\<lparr>postponedRequests := ?post, pendingRequests := ?pend\<rparr>" port g2] assms(2) l
    by simp_all
  with t tic_answerable [OF t assms(4)] show ?thesis by blast
qed

subsection \<open>Properties\<close>

definition sampleReq :: requestContext_t where
  "sampleReq = \<lparr>timeToLive = 2, ttlMode = AZAP_REQ_TTL_START_AT_API, issuerContext = 41,
     rqType = AZAP_ZDO_ACTIVE_EP_REQ, transactionId = 0, nwkAddrDest = 0x1234, rqClusterId = 0,
     clusterDir = 0, manufacturerCode = 0, remoteEndp = 0, expectedCmdCode = 0,
     requestParameters = Some \<lparr>responseExpected = True, localEndp = 0, defaultResponse = False,
       cmdCode = 0, cmdData = Some [0x34, 0x12, 0x34, 0x12], dataLen = 4\<rparr>\<rparr>"

definition sampleManager :: requestManager_t where
  "sampleManager = \<lparr>postponedRequests = [sampleReq],
     pendingRequests = [sampleReq\<lparr>timeToLive := 1, nwkAddrDest := 0x5678, issuerContext := 42\<rparr>]\<rparr>"

definition samplePort :: portContext_t where
  "samplePort = \<lparr>portNumber = 0, pCallbacks = [azapStartedCb, azapZclReadCmdRspCb, azapZdpActiveEPRspCb], defaultChannel = 0x800, deviceType = 0, resetHanAtReboot = False,
     deviceIeee = replicate 8 0, shortAddr = 0, panIdExt = replicate 8 0, panId = 0,
     zstackVersion = [], deviceFd = 3, rx = Some bigUart, tx = Some bigUart, startInst = None,
     started = True, requestManager = Some sampleManager, endPointList = []\<rparr>"

definition sampleGlobals :: azapGlobals where
  "sampleGlobals = \<lparr>g_zclTransactionId = 7, azapNbZdoNotifications = 0, azapNbZdoRequestsIssued = 0, azapNbZdoRequestsCompleted = 0,
     azapNbZdoRequestsFailed = 0, azapNbZclNotifications = 0, azapNbZclRequestsIssued = 0, azapNbZclRequestsCompleted = 0,
     azapNbZclRequestsFailed = 0, cbLog = []\<rparr>"

lemma sample_limits: "within_limits (map req_key (pendingRequests sampleManager))"
  by (simp add: sampleManager_def within_limits_def on_node_def on_ep_def)

lemma sample_sendable: "tx_ok samplePort" "\<forall>e \<in> set (postponedRequests sampleManager). sendable e"
  by (simp_all add: samplePort_def tx_ok_def bigUart_simps sampleManager_def sampleReq_def sendable_def)

lemma sample_answerable: "all_answerable (pCallbacks samplePort) sampleManager"
  by (simp add: all_answerable_def samplePort_def sampleManager_def sampleReq_def answerable_def failure_cb_def)

lemma sample_tic: "\<exists>This' port' g'. requestManager_t_tic sampleManager samplePort sampleGlobals = Some (This', port', g')"
proof -
  have "requestManager_t_tic sampleManager samplePort sampleGlobals \<noteq> None" by code_simp
  then show ?thesis by auto
qed

text \<open>The admission check answers exactly the documented question: fewer than ten requests
  pending, fewer than three to the node, none to the end point (when one is given), and, with
  the duplicate check, none with the same type, node, cluster, end point and command.\<close>

theorem doublon_check_decides:
  assumes "length (pendingRequests This) < 32768"
  shows "requestManager_t_readyToSendDoublonCheck This a t c e x =
     (length (pendingRequests This) < 10 \<and> on_node a (map req_key (pendingRequests This)) < 3 \<and>
      (e = 0 \<or> on_ep a e (map req_key (pendingRequests This)) = 0) \<and>
      (t, a, c, e, x) \<notin> set (map req_key (pendingRequests This)))"
  using doublonCheck_iff [OF assms] readyToSend_iff [OF assms] by auto

theorem doublon_check_decides_witness:
  "requestManager_t_readyToSendDoublonCheck sampleManager 0x1234 AZAP_ZCL_READ_CMD 6 1 0"
  using doublon_check_decides [of sampleManager "0x1234" AZAP_ZCL_READ_CMD 6 1 0]
  by (simp add: sampleManager_def sampleReq_def on_node_def on_ep_def req_key_def)

text \<open>C7: when the callback table has the response callback of every request the manager holds (none
  is needed for the outgoing and report commands), the transmit buffer is in order and the postponed
  requests hold their payload, a tick always ends and keeps the dongle's limits: after ageing both
  lists and sending what can be sent, there are still at most ten pending requests, three per
  node, one per end point, and no duplicates; and every request held is still answerable.\<close>

theorem tic_keeps_limits:
  assumes "within_limits (map req_key (pendingRequests This))" "tx_ok port"
    "\<forall>e \<in> set (postponedRequests This). sendable e" "all_answerable (pCallbacks port) This"
  shows "\<exists>This' port' g'. requestManager_t_tic This port g = Some (This', port', g') \<and>
     within_limits (map req_key (pendingRequests This')) \<and> tx_ok port' \<and> all_answerable (pCallbacks port) This'"
  using assms by (rule tic_limits)

theorem tic_keeps_limits_witness:
  "\<exists>This' port' g'. requestManager_t_tic sampleManager samplePort sampleGlobals = Some (This', port', g') \<and>
     within_limits (map req_key (pendingRequests This')) \<and> tx_ok port'"
  using tic_keeps_limits [OF sample_limits sample_sendable sample_answerable] by blast

text \<open>C30: no request is lost or duplicated by a tick that returns: the requests that remain,
  postponed or pending, and those that expired are together the requests from before, each with its
  type, node, cluster, end point, expected command and issuer context. The expired ones are reported in
  list order, first the postponed, then the pending, each by one failure callback with its context and
  address; the outgoing and report commands, for which the library has no such callback, expire
  without any. Requests that stay postponed keep their order.\<close>

theorem tic_conserves_requests:
  assumes "requestManager_t_tic This port g = Some (This', port', g')"
  shows "mset (map req_id (postponedRequests This' @ pendingRequests This')) +
         mset (map req_id (filter (expires False) (postponedRequests This) @
                           filter (expires True) (pendingRequests This)))
       = mset (map req_id (postponedRequests This @ pendingRequests This)) \<and>
     cbLog g' = cbLog g @ concat (map failure_events (filter (expires False) (postponedRequests This) @
                                  filter (expires True) (pendingRequests This))) \<and>
     (\<forall>e. failure_events e =
        (if rqType e \<in> {AZAP_ZCL_OUTGOING_CMD, AZAP_ZCL_OUTGOING_EXT_CMD, AZAP_ZCL_REPORT_CMD} then []
         else [RequestFailedCb (rqType e) (issuerContext e) (nwkAddrDest e) (remoteEndp e) (rqClusterId e)])) \<and>
     subseq (map req_key (postponedRequests This')) (map req_key (postponedRequests This))"
proof -
  let ?post = "map (\<lambda>e. snd (requestContext_t_tic e False)) (filter (\<lambda>e. \<not> expires False e) (postponedRequests This))"
  let ?pend = "map (\<lambda>e. snd (requestContext_t_tic e True)) (filter (\<lambda>e. \<not> expires True e) (pendingRequests This))"
  obtain g2 where l: "requestManager_t_lookForPostponedReqToSend
      (This\<lparr>postponedRequests := ?post, pendingRequests := ?pend\<rparr>) port g2 = Some (This', port', g')"
    and log: "cbLog g2 = cbLog g @ concat (map failure_events (filter (expires False) (postponedRequests This) @
                                  filter (expires True) (pendingRequests This)))"
    by (rule tic_split [OF assms])
  note c = lookForPostponed_conserves [OF l]
  have "subseq (map req_key ?post) (map req_key (postponedRequests This))"
    by (simp add: comp_def subseq_filter_map)
  with c have "subseq (map req_key (postponedRequests This')) (map req_key (postponedRequests This))"
    by (auto intro: subseq_order.trans)
  moreover have "failure_events e =
        (if rqType e \<in> {AZAP_ZCL_OUTGOING_CMD, AZAP_ZCL_OUTGOING_EXT_CMD, AZAP_ZCL_REPORT_CMD} then []
         else [RequestFailedCb (rqType e) (issuerContext e) (nwkAddrDest e) (remoteEndp e) (rqClusterId e)])" for e
    by (cases "rqType e") (simp_all add: failure_events_def failure_cb_def)
  moreover have "cbLog g' = cbLog g @ concat (map failure_events (filter (expires False) (postponedRequests This) @
                                  filter (expires True) (pendingRequests This)))" using c log by simp
  ultimately show ?thesis using tic_conserves [OF assms] by blast
qed

theorem tic_conserves_requests_witness:
  "\<exists>This' port' g'. requestManager_t_tic sampleManager samplePort sampleGlobals = Some (This', port', g') \<and>
     add_mset ((AZAP_ZDO_ACTIVE_EP_REQ, 0x5678, 0, 0, 0), 42)
        (mset (map req_id (postponedRequests This' @ pendingRequests This')))
       = {#((AZAP_ZDO_ACTIVE_EP_REQ, 0x1234, 0, 0, 0), 41), ((AZAP_ZDO_ACTIVE_EP_REQ, 0x5678, 0, 0, 0), 42)#} \<and>
     cbLog g' = [RequestFailedCb AZAP_ZDO_ACTIVE_EP_REQ 42 0x5678 0 0]"
proof -
  obtain T p g where t: "requestManager_t_tic sampleManager samplePort sampleGlobals = Some (T, p, g)"
    using sample_tic by blast
  have e: "filter (expires False) (postponedRequests sampleManager) = []"
    "filter (expires True) (pendingRequests sampleManager) = [sampleReq\<lparr>timeToLive := 1, nwkAddrDest := 0x5678, issuerContext := 42\<rparr>]"
    by (simp_all add: sampleManager_def sampleReq_def expires_sent expires_postponed)
  have i: "req_id sampleReq = ((AZAP_ZDO_ACTIVE_EP_REQ, 0x1234, 0, 0, 0), 41)"
    "req_id (sampleReq\<lparr>timeToLive := 1, nwkAddrDest := 0x5678, issuerContext := 42\<rparr>) = ((AZAP_ZDO_ACTIVE_EP_REQ, 0x5678, 0, 0, 0), 42)"
    by (simp_all add: req_id_def req_key_def sampleReq_def)
  have r: "rqType sampleReq = AZAP_ZDO_ACTIVE_EP_REQ" "remoteEndp sampleReq = 0" "rqClusterId sampleReq = 0"
    by (simp_all add: sampleReq_def)
  from tic_conserves_requests [OF t, unfolded e] t show ?thesis
    by (intro exI [of _ T] exI [of _ p] exI [of _ g])
      (simp add: sampleManager_def i r sampleGlobals_def add_mset_commute)
qed

text \<open>C34: a request whose response callback is not in the table is accepted like any other and
  brings the program down when it times out. On a port whose transmit buffer is in order a tick is
  undefined behaviour exactly when a pending request in its last second, or a postponed one without
  time to live, has a type whose failure callback is missing: the \<open>NULL\<close> member is called.\<close>

theorem tic_calls_null:
  assumes "tx_ok port" "\<forall>e \<in> set (postponedRequests This). sendable e"
  shows "requestManager_t_tic This port g = None \<longleftrightarrow>
    (\<exists>q cb. (q \<in> set (pendingRequests This) \<and> timeToLive q \<le> 1 \<or>
             q \<in> set (postponedRequests This) \<and> timeToLive q \<le> 0) \<and>
            failure_cb (rqType q) = Some cb \<and> cb \<notin> set (pCallbacks port))"
  using tic_None_iff [OF assms, of g]
  by (auto simp: not_answerable expires_sent expires_postponed)

theorem tic_calls_null_witness:
  "requestManager_t_tic sampleManager (samplePort\<lparr>pCallbacks := [azapStartedCb]\<rparr>) sampleGlobals = None"
proof -
  have "tx_ok (samplePort\<lparr>pCallbacks := [azapStartedCb]\<rparr>)" using sample_sendable(1) by (simp add: tx_ok_def)
  note iff = tic_calls_null [OF this sample_sendable(2), of sampleGlobals]
  let ?q = "sampleReq\<lparr>timeToLive := 1, nwkAddrDest := 0x5678, issuerContext := 42\<rparr>"
  have "?q \<in> set (pendingRequests sampleManager)" "timeToLive ?q \<le> 1"
    "failure_cb (rqType ?q) = Some azapZdpActiveEPRspCb"
    by (simp_all add: sampleManager_def sampleReq_def failure_cb_def)
  moreover have "azapZdpActiveEPRspCb \<notin> set (pCallbacks (samplePort\<lparr>pCallbacks := [azapStartedCb]\<rparr>))" by simp
  ultimately show ?thesis unfolding iff by blast
qed

text \<open>\<open>n\<close> seconds of one list.\<close>

definition age_seconds ::
    "nat \<Rightarrow> bool \<Rightarrow> portContext_t \<Rightarrow> requestContext_t list \<times> azapGlobals \<Rightarrow> (requestContext_t list \<times> azapGlobals) exec" where
  "age_seconds n sent port s =
     ((\<lambda>r. r \<bind> (\<lambda>(es, g). age1sAndLookForTimedOutReq es port sent g)) ^^ n) (Some s)"

text \<open>A sent request expires exactly when its time to live has run out: after \<open>n\<close> ticks the
  pending list holds the requests that had more than \<open>n\<close> seconds, with \<open>n\<close> seconds less.\<close>

theorem pending_expiry:
  assumes "\<forall>e \<in> set es. 0 < timeToLive e" "\<forall>e \<in> set es. answerable (pCallbacks port) (rqType e)"
  shows "\<exists>g'. age_seconds n True port (es, g)
       = Some (map (\<lambda>e. e\<lparr>timeToLive := timeToLive e - int n\<rparr>) (filter (\<lambda>e. int n < timeToLive e) es), g')"
proof (induction n)
  case 0
  from assms(1) have "filter (\<lambda>e. 0 < timeToLive e) es = es" by simp
  then show ?case by (simp add: age_seconds_def)
next
  case (Suc n)
  let ?es = "map (\<lambda>e. e\<lparr>timeToLive := timeToLive e - int n\<rparr>) (filter (\<lambda>e. int n < timeToLive e) es)"
  from Suc obtain g1 where g1: "age_seconds n True port (es, g) = Some (?es, g1)" by blast
  have "\<forall>e \<in> set ?es. answerable (pCallbacks port) (rqType e)" using assms(2) by auto
  from age_defined [OF this, of True g1] obtain g2 where g2: "age1sAndLookForTimedOutReq ?es port True g1
      = Some (map (\<lambda>e. snd (requestContext_t_tic e True)) (filter (\<lambda>e. \<not> expires True e) ?es), g2)" by blast
  have "filter (\<lambda>e. int (Suc n) < timeToLive e) es
      = filter (\<lambda>e. \<not> timeToLive e - int n \<le> 1) (filter (\<lambda>e. int n < timeToLive e) es)"
    by (auto intro: filter_cong simp: algebra_simps)
  then have "map (\<lambda>e. snd (requestContext_t_tic e True)) (filter (\<lambda>e. \<not> expires True e) ?es)
      = map (\<lambda>e. e\<lparr>timeToLive := timeToLive e - int (Suc n)\<rparr>) (filter (\<lambda>e. int (Suc n) < timeToLive e) es)"
    by (simp add: expires_sent filter_map comp_def requestContext_t_tic_def Let_def algebra_simps)
  with g1 g2 show ?case by (simp add: age_seconds_def)
qed

theorem pending_expiry_witness:
  "\<exists>g'. age_seconds 1 True samplePort ([sampleReq, sampleReq\<lparr>timeToLive := 1\<rparr>], sampleGlobals)
     = Some ([sampleReq\<lparr>timeToLive := 1\<rparr>], g')"
  using pending_expiry [of "[sampleReq, sampleReq\<lparr>timeToLive := 1\<rparr>]" samplePort 1 sampleGlobals]
  by (simp add: sampleReq_def samplePort_def answerable_def failure_cb_def)

text \<open>C33: postponed requests never age. Whatever their mode, in particular
  \<open>AZAP_REQ_TTL_START_AT_API\<close>, a postponed request with a positive time to live keeps it for ever:
  \<open>tic\<close> compares the mode with the time to live. Nothing is reported either.\<close>

theorem postponed_never_age:
  assumes "\<forall>e \<in> set es. 0 < timeToLive e"
  shows "age_seconds n False port (es, g) = Some (es, g)"
proof -
  have "\<forall>e \<in> set es. \<not> expires False e" using assms by (auto simp: expires_postponed)
  moreover have "map (\<lambda>e. snd (requestContext_t_tic e False)) es = es"
    using assms by (induction es) (auto simp: requestContext_t_tic_def Let_def)
  ultimately have "age1sAndLookForTimedOutReq es port False g = Some (es, g)" by (simp add: age_quiet)
  then show ?thesis by (induction n) (simp_all add: age_seconds_def)
qed

theorem postponed_never_age_witness:
  "ttlMode sampleReq = AZAP_REQ_TTL_START_AT_API \<and>
   age_seconds 1000 False samplePort ([sampleReq], sampleGlobals) = Some ([sampleReq], sampleGlobals)"
  using postponed_never_age [of "[sampleReq]" 1000 samplePort sampleGlobals] by (simp add: sampleReq_def)

text \<open>A response is correlated with the most recent pending request of its type, node,
  cluster, command and (unless zero) end point; that request alone is taken off the list, the
  others keep their order, and without a match nothing changes. The limits are kept.\<close>

theorem removePending_takes_last:
  assumes "requestManager_t_removePending This a t c e x = (r, This')"
  shows "postponedRequests This' = postponedRequests This \<and>
     (within_limits (map req_key (pendingRequests This)) \<longrightarrow> within_limits (map req_key (pendingRequests This'))) \<and>
     (case r of
        None \<Rightarrow> This' = This \<and> (\<forall>q \<in> set (pendingRequests This). \<not> pending_match a t c e x q)
      | Some q \<Rightarrow> pending_match a t c e x q \<and>
          (\<exists>us vs. pendingRequests This = us @ q # vs \<and> pendingRequests This' = us @ vs \<and>
                   (\<forall>v \<in> set vs. \<not> pending_match a t c e x v)))"
proof (cases r)
  case None
  with assms have n: "find_last (pending_match a t c e x) (pendingRequests This) = None"
    by (simp add: requestManager_t_removePending_def)
  with remove_last_None [OF n] assms have "This' = This" by (simp add: requestManager_t_removePending_def)
  with n None show ?thesis by (simp add: find_last_None_iff)
next
  case (Some q)
  with assms have f: "find_last (pending_match a t c e x) (pendingRequests This) = Some q"
    by (simp add: requestManager_t_removePending_def)
  from remove_last_Some [OF f] assms obtain us vs where u:
    "pendingRequests This = us @ q # vs" "pendingRequests This' = us @ vs"
    "\<forall>v \<in> set vs. \<not> pending_match a t c e x v"
    by (auto simp: requestManager_t_removePending_def)
  then have "subseq (map req_key (pendingRequests This')) (map req_key (pendingRequests This))"
    by (auto intro!: subseq_map list_emb_append_mono)
  then have "within_limits (map req_key (pendingRequests This)) \<longrightarrow> within_limits (map req_key (pendingRequests This'))"
    using adm.drop_requests by blast
  moreover have "postponedRequests This' = postponedRequests This"
    using assms by (auto simp: requestManager_t_removePending_def)
  ultimately show ?thesis using u Some find_last_SomeD [OF f] by auto
qed

theorem removePending_takes_last_witness:
  "\<exists>r T'. requestManager_t_removePending sampleManager 0x5678 AZAP_ZDO_ACTIVE_EP_REQ 0 0 0 = (r, T') \<and>
     postponedRequests T' = [sampleReq]"
proof -
  obtain r T' where e: "requestManager_t_removePending sampleManager 0x5678 AZAP_ZDO_ACTIVE_EP_REQ 0 0 0 = (r, T')"
    by fastforce
  from removePending_takes_last [OF e] e show ?thesis by (auto simp: sampleManager_def)
qed

end
