(* ===== verification/Znp_Start.thy ===== *)
theory Znp_Start
  imports Azap_Types "HOL-Library.Monad_Syntax"
begin

unbundle bit_operations_syntax

section \<open>The ZNP start procedure (AZAP/lib/znp\_start\_sm.c)\<close>

text \<open>
  The state machine that configures and starts the dongle's stack. It runs on behalf of a port:
  \<open>g_portContexts[This->portNumber]\<close> is that port (never \<open>NULL\<close> while the port runs) and the \<open>tx\<close>
  argument of the C functions is always its transmit buffer, so an operation maps the instance,
  the port and the globals to new ones; the instance is \<open>None\<close> once \<open>doStartZnpCompletion\<close> has
  freed it. The strings given to \<open>abandon\<close> are traces and are left out. Results that the code
  ignores (a message that did not fit in the transmit buffer) are ignored here as well.
\<close>

type_synonym 'i smRes = "('i \<times> portContext_t \<times> azapGlobals) exec"

subsection \<open>Commands and parameters\<close>

definition MT_SYS_SOFT_RESET_AREQ :: u16 where [const_defs]: "MT_SYS_SOFT_RESET_AREQ = 0x0041"
definition MT_SYS_RESET_IND :: u16 where [const_defs]: "MT_SYS_RESET_IND = 0x8041"
definition MT_SYS_NV_READ_SRSP :: u16 where [const_defs]: "MT_SYS_NV_READ_SRSP = 0x0861"
definition MT_SYS_NV_WRITE_SRSP :: u16 where [const_defs]: "MT_SYS_NV_WRITE_SRSP = 0x0961"
definition MT_AF_REGISTER_SRSP :: u16 where [const_defs]: "MT_AF_REGISTER_SRSP = 0x0064"
definition MT_ZDO_MSG_CB_REGISTER_SRSP :: u16 where [const_defs]: "MT_ZDO_MSG_CB_REGISTER_SRSP = 0x3E65"
definition MT_ZDO_STARTUP_FROM_APP_SREQ :: u16 where [const_defs]: "MT_ZDO_STARTUP_FROM_APP_SREQ = 0x4025"
definition MT_ZDO_STARTUP_FROM_APP_SRSP :: u16 where [const_defs]: "MT_ZDO_STARTUP_FROM_APP_SRSP = 0x4065"
definition MT_ZDO_STATE_CHG_IND_AREQ :: u16 where [const_defs]: "MT_ZDO_STATE_CHG_IND_AREQ = 0xC045"
definition MT_SAPI_GET_DEVICE_INFO_SREQ :: u16 where [const_defs]: "MT_SAPI_GET_DEVICE_INFO_SREQ = 0x0626"
definition MT_SAPI_GET_DEVICE_INFO_SRSP :: u16 where [const_defs]: "MT_SAPI_GET_DEVICE_INFO_SRSP = 0x0666"

abbreviation "ZCD_NV_STARTUP_OPTION \<equiv> (0x0003 :: u16)"
abbreviation "ZCD_NV_PANID \<equiv> (0x0083 :: u16)"
abbreviation "ZCD_NV_CHANLIST \<equiv> (0x0084 :: u16)"
abbreviation "ZCD_NV_LOGICAL_TYPE \<equiv> (0x0087 :: u16)"
abbreviation "ZCD_STARTOPT_DEFAULT_CONFIG_STATE \<equiv> (0x01 :: u8)"
abbreviation "ZCD_STARTOPT_DEFAULT_NETWORK_STATE \<equiv> (0x02 :: u8)"
abbreviation "ZCD_STARTOPT_AUTO_START \<equiv> (0x04 :: u8)"
abbreviation "DEV_INFO_IEEE_ADDR \<equiv> (0x01 :: u8)"
abbreviation "DEV_INFO_SHORT_ADDR \<equiv> (0x02 :: u8)"
abbreviation "DEV_INFO_PAN_ID \<equiv> (0x06 :: u8)"
abbreviation "DEV_INFO_EXT_PAN_ID \<equiv> (0x07 :: u8)"
abbreviation "ZDO_DEV_ZB_COORD \<equiv> (0x09 :: u8)"

text \<open>The clusters of \<open>c_zdoMsgCbRegisterListCoord\<close>; a response has bit 0x8000 set.\<close>

definition c_zdoMsgCbRegisterListCoord :: "u16 list" where
  "c_zdoMsgCbRegisterListCoord =
     [0x0013, 0x8000, 0x8001, 0x8002, 0x8003, 0x8004, 0x8005, 0x8021, 0x8022, 0x8032, 0x8033,
      0x8036, 0x8034]"

subsection \<open>Sending from the port\<close>

definition port_send ::
    "(uartBufControl_t \<Rightarrow> (bool \<times> uartBufControl_t) exec) \<Rightarrow> portContext_t \<Rightarrow> (bool \<times> portContext_t) exec" where
  "port_send f port = do {
     buf \<leftarrow> tx port;
     (ok, buf') \<leftarrow> f buf;
     Some (ok, port\<lparr>tx := Some buf'\<rparr>)
   }"

subsection \<open>Life cycle\<close>

definition new_znpStartInstance_t :: "bool \<Rightarrow> u8 \<Rightarrow> znpStartInstance_t option" where
  "new_znpStartInstance_t mallocOk port =
     (if \<not> mallocOk then None
      else Some \<lparr>stPortNumber = port, state = AZAP_ZNP_NULL, elapsedSecondsCurrentState = 0,
                 writeParamRespExpected = 0, afRegisterEpRespExpected = 0,
                 zdoCbRegisterRespExpected = 0, deviceInfoRespExpected = 0, nbCycles = 0\<rparr>)"

definition znpStartInstance_t_setState :: "AZAP_ZNP_START_STATE \<Rightarrow> znpStartInstance_t \<Rightarrow> znpStartInstance_t" where
  "znpStartInstance_t_setState st This = This\<lparr>state := st, elapsedSecondsCurrentState := 0\<rparr>"

definition azapProcessStartedCb :: "portContext_t \<Rightarrow> bool \<Rightarrow> azapGlobals \<Rightarrow> azapGlobals" where
  "azapProcessStartedCb port success g =
     (if azapStartedCb \<in> set (pCallbacks port)
      then g\<lparr>cbLog := cbLog g @ [StartedCb (portNumber port) success]\<rparr>
      else g)"

definition portContext_t_doStartZnpCompletion ::
    "bool \<Rightarrow> portContext_t \<Rightarrow> azapGlobals \<Rightarrow> portContext_t \<times> azapGlobals" where
  "portContext_t_doStartZnpCompletion success port g =
     (let port' = port\<lparr>startInst := None\<rparr> in (port', azapProcessStartedCb port' success g))"

definition znpStartInstance_t_abandon ::
    "znpStartInstance_t \<Rightarrow> portContext_t \<Rightarrow> azapGlobals \<Rightarrow> znpStartInstance_t option smRes" where
  "znpStartInstance_t_abandon This port g =
     (case portContext_t_doStartZnpCompletion False port g of (port', g') \<Rightarrow> Some (None, port', g'))"

definition znpStartInstance_t_start ::
    "znpStartInstance_t \<Rightarrow> portContext_t \<Rightarrow> (znpStartInstance_t \<times> portContext_t) exec" where
  "znpStartInstance_t_start This port = do {
     let This1 = znpStartInstance_t_setState AZAP_ZNP_WAIT_INITIAL_RESET_RESP (This\<lparr>nbCycles := 0\<rparr>);
     (_, port') \<leftarrow> port_send (\<lambda>buf. znpSend buf MT_SYS_SOFT_RESET_AREQ 1 [0x01]) port;
     Some (This1, port')
   }"

definition znpStartInstance_t_watchdog ::
    "znpStartInstance_t \<Rightarrow> portContext_t \<Rightarrow> (znpStartInstance_t \<times> portContext_t) exec" where
  "znpStartInstance_t_watchdog This port =
     (let This1 = This\<lparr>elapsedSecondsCurrentState := elapsedSecondsCurrentState This + 1\<rparr>
      in if elapsedSecondsCurrentState This1 \<ge> 100 then znpStartInstance_t_start This1 port
         else Some (This1, port))"

subsection \<open>Local tools\<close>

fun register_loop ::
    "azapEndPoint_t list \<Rightarrow> bool \<Rightarrow> znpStartInstance_t \<Rightarrow> portContext_t \<Rightarrow>
     (bool \<times> znpStartInstance_t \<times> portContext_t) exec" where
  "register_loop [] res This port = Some (res, This, port)"
| "register_loop (ep # eps) res This port = do {
     (ok, port') \<leftarrow> port_send (\<lambda>buf. znpSendAfRegister buf (Some ep)) port;
     register_loop eps (res \<and> ok)
       (This\<lparr>afRegisterEpRespExpected := afRegisterEpRespExpected This + 1\<rparr>) port'
   }"

definition registerEndPoints ::
    "znpStartInstance_t \<Rightarrow> portContext_t \<Rightarrow> (bool \<times> znpStartInstance_t \<times> portContext_t) exec" where
  "registerEndPoints This port =
     (let This1 = This\<lparr>afRegisterEpRespExpected := 0\<rparr>
      in if endPointList port = [] then Some (False, This1, port)
         else register_loop (endPointList port) True This1 port)"

definition nvWrite :: "u16 \<Rightarrow> bytes \<Rightarrow> znpStartInstance_t \<times> portContext_t \<Rightarrow> (znpStartInstance_t \<times> portContext_t) exec" where
  "nvWrite item val s = (case s of (This, port) \<Rightarrow> do {
     (_, port') \<leftarrow> port_send (\<lambda>buf. znpSendSysNvWrite buf item 0 (of_nat (length val)) val) port;
     Some (This\<lparr>writeParamRespExpected := writeParamRespExpected This + 1\<rparr>, port')
   })"

definition BREAK_UINT32 :: "u32 \<Rightarrow> nat \<Rightarrow> u8" where
  "BREAK_UINT32 var n = ucast (drop_bit (n * 8) var AND 0x00FF)"

definition writeParamInNvRam ::
    "znpStartInstance_t \<Rightarrow> portContext_t \<Rightarrow> (znpStartInstance_t \<times> portContext_t) exec" where
  "writeParamInNvRam This port = do {
     let opt = (if resetHanAtReboot port
                then ZCD_STARTOPT_DEFAULT_CONFIG_STATE OR ZCD_STARTOPT_DEFAULT_NETWORK_STATE
                else ZCD_STARTOPT_AUTO_START);
     s1 \<leftarrow> nvWrite ZCD_NV_STARTUP_OPTION [opt] (This\<lparr>writeParamRespExpected := 0\<rparr>, port);
     s2 \<leftarrow> nvWrite ZCD_NV_LOGICAL_TYPE [deviceType port] s1;
     s3 \<leftarrow> (if resetHanAtReboot port then nvWrite ZCD_NV_PANID [0xFF, 0xFF] s2 else Some s2);
     nvWrite ZCD_NV_CHANLIST (map (BREAK_UINT32 (defaultChannel port)) [0, 1, 2, 3]) s3
   }"

fun register_zdo_loop :: "u16 list \<Rightarrow> portContext_t \<Rightarrow> portContext_t exec" where
  "register_zdo_loop [] port = Some port"
| "register_zdo_loop (c # cs) port = do {
     (_, port') \<leftarrow> port_send (\<lambda>buf. znpSendZdoMsgCbRegister buf c) port;
     register_zdo_loop cs port'
   }"

subsection \<open>One function per state\<close>

definition processWaitInitialResetResp ::
    "u8 \<Rightarrow> u16 \<Rightarrow> bytes option \<Rightarrow> znpStartInstance_t \<Rightarrow> portContext_t \<Rightarrow> azapGlobals \<Rightarrow> znpStartInstance_t option smRes"
where
  "processWaitInitialResetResp len cmd data This port g =
    (if MT_SYS_RESET_IND = cmd then do {
       (ok, ver) \<leftarrow> parseSysResetIndVersion data len True;
       let port1 = (case ver of Some v \<Rightarrow> port\<lparr>zstackVersion := v\<rparr> | None \<Rightarrow> port);
       (This', port') \<leftarrow>
         writeParamInNvRam (znpStartInstance_t_setState AZAP_ZNP_WAIT_WRITE_PARAM_RESP This) port1;
       Some (Some This', port', g)
     }
     else Some (Some This, port, g))"

definition processWaitWriteParamResp ::
    "u8 \<Rightarrow> u16 \<Rightarrow> bytes option \<Rightarrow> znpStartInstance_t \<Rightarrow> portContext_t \<Rightarrow> azapGlobals \<Rightarrow> znpStartInstance_t option smRes"
where
  "processWaitWriteParamResp len cmd data This port g =
    (if MT_SYS_RESET_IND = cmd then processWaitInitialResetResp len cmd data This port g
     else if MT_SYS_NV_WRITE_SRSP = cmd then
       (case data of
          None \<Rightarrow> znpStartInstance_t_abandon This port g
        | Some d \<Rightarrow> do {
            d0 \<leftarrow> idx d 0;
            if d0 \<noteq> 0 then znpStartInstance_t_abandon This port g
            else do {
              let This1 = This\<lparr>writeParamRespExpected := writeParamRespExpected This - 1\<rparr>;
              if 0 = writeParamRespExpected This1 then
                (if 0 = nbCycles This1 then do {
                   (_, port') \<leftarrow> port_send (\<lambda>buf. znpSend buf MT_SYS_SOFT_RESET_AREQ 1 [0x01]) port;
                   Some (Some (znpStartInstance_t_setState AZAP_ZNP_WAIT_WRITE_RESET_RESP This1), port', g)
                 }
                 else do {
                   (_, port') \<leftarrow> port_send (\<lambda>buf. znpSendSysNvRead buf ZCD_NV_STARTUP_OPTION 0) port;
                   Some (Some (znpStartInstance_t_setState AZAP_ZNP_WAIT_READ_PARAM_RESP This1), port', g)
                 })
              else Some (Some This1, port, g)
            }
          })
     else Some (Some This, port, g))"

definition register_or_abandon ::
    "znpStartInstance_t \<Rightarrow> portContext_t \<Rightarrow> azapGlobals \<Rightarrow> znpStartInstance_t option smRes" where
  "register_or_abandon This port g = do {
     (ok, This', port') \<leftarrow>
       registerEndPoints (znpStartInstance_t_setState AZAP_ZNP_WAIT_REGISTER_ENDPOINTS_RESP This) port;
     if ok then Some (Some This', port', g) else znpStartInstance_t_abandon This' port' g
   }"

definition processWaitReadParamResp ::
    "u8 \<Rightarrow> u16 \<Rightarrow> bytes option \<Rightarrow> znpStartInstance_t \<Rightarrow> portContext_t \<Rightarrow> azapGlobals \<Rightarrow> znpStartInstance_t option smRes"
where
  "processWaitReadParamResp len cmd data This port g =
    (if MT_SYS_NV_READ_SRSP = cmd then do {
       let expectedPanStartUpOpt =
         (if resetHanAtReboot port
          then ZCD_STARTOPT_DEFAULT_CONFIG_STATE OR ZCD_STARTOPT_DEFAULT_NETWORK_STATE
          else ZCD_STARTOPT_AUTO_START);
       d \<leftarrow> data;
       d0 \<leftarrow> idx d 0;
       d2 \<leftarrow> idx d 2;
       if 3 = len \<and> d0 = 0 \<and> expectedPanStartUpOpt = d2
       then register_or_abandon This port g
       else znpStartInstance_t_abandon This port g
     }
     else Some (Some This, port, g))"

definition processWaitWriteResetResp ::
    "u8 \<Rightarrow> u16 \<Rightarrow> bytes option \<Rightarrow> znpStartInstance_t \<Rightarrow> portContext_t \<Rightarrow> azapGlobals \<Rightarrow> znpStartInstance_t option smRes"
where
  "processWaitWriteResetResp len cmd data This port g =
    (if MT_SYS_RESET_IND = cmd then register_or_abandon This port g else Some (Some This, port, g))"

definition processWaitRegisterEndpointsResp ::
    "u8 \<Rightarrow> u16 \<Rightarrow> bytes option \<Rightarrow> znpStartInstance_t \<Rightarrow> portContext_t \<Rightarrow> azapGlobals \<Rightarrow> znpStartInstance_t option smRes"
where
  "processWaitRegisterEndpointsResp len cmd data This port g =
    (if MT_AF_REGISTER_SRSP = cmd then
       (case data of
          None \<Rightarrow> znpStartInstance_t_abandon This port g
        | Some d \<Rightarrow> do {
            d0 \<leftarrow> idx d 0;
            if d0 \<noteq> 0 \<and> 0xb8 \<noteq> d0 then znpStartInstance_t_abandon This port g
            else do {
              let This1 = This\<lparr>afRegisterEpRespExpected := afRegisterEpRespExpected This - 1\<rparr>;
              if 0 = afRegisterEpRespExpected This1 then do {
                let This2 = (znpStartInstance_t_setState AZAP_ZNP_WAIT_REGISTER_ZDO_CALLBACKS_RESP This1)
                              \<lparr>zdoCbRegisterRespExpected := of_nat (length c_zdoMsgCbRegisterListCoord)\<rparr>;
                port' \<leftarrow> register_zdo_loop c_zdoMsgCbRegisterListCoord port;
                Some (Some This2, port', g)
              }
              else Some (Some This1, port, g)
            }
          })
     else Some (Some This, port, g))"

definition processWaitRegisterZdoCbResp ::
    "u8 \<Rightarrow> u16 \<Rightarrow> bytes option \<Rightarrow> znpStartInstance_t \<Rightarrow> portContext_t \<Rightarrow> azapGlobals \<Rightarrow> znpStartInstance_t option smRes"
where
  "processWaitRegisterZdoCbResp len cmd data This port g =
    (if MT_ZDO_MSG_CB_REGISTER_SRSP = cmd then
       (case data of
          None \<Rightarrow> znpStartInstance_t_abandon This port g
        | Some d \<Rightarrow> do {
            d0 \<leftarrow> idx d 0;
            if d0 \<noteq> 0 \<and> 0xb8 \<noteq> d0 then znpStartInstance_t_abandon This port g
            else do {
              let This1 = This\<lparr>zdoCbRegisterRespExpected := zdoCbRegisterRespExpected This - 1\<rparr>;
              if 0 = zdoCbRegisterRespExpected This1 then do {
                (_, port') \<leftarrow> port_send (\<lambda>buf. znpSend buf MT_ZDO_STARTUP_FROM_APP_SREQ 0 []) port;
                Some (Some (znpStartInstance_t_setState AZAP_ZNP_WAIT_STARTUP_FROM_APP_RESP This1), port', g)
              }
              else Some (Some This1, port, g)
            }
          })
     else Some (Some This, port, g))"

definition processWaitStartupFromAppResp ::
    "u8 \<Rightarrow> u16 \<Rightarrow> bytes option \<Rightarrow> znpStartInstance_t \<Rightarrow> portContext_t \<Rightarrow> azapGlobals \<Rightarrow> znpStartInstance_t option smRes"
where
  "processWaitStartupFromAppResp len cmd data This port g =
    (if MT_ZDO_STARTUP_FROM_APP_SRSP = cmd then
       (case data of
          None \<Rightarrow> znpStartInstance_t_abandon This port g
        | Some d \<Rightarrow> do {
            d0 \<leftarrow> idx d 0;
            if 0x02 \<noteq> d0 then
              (if 0 = nbCycles This then do {
                 (This', port') \<leftarrow> writeParamInNvRam
                   (znpStartInstance_t_setState AZAP_ZNP_WAIT_WRITE_PARAM_RESP
                      (This\<lparr>nbCycles := nbCycles This + 1\<rparr>)) port;
                 Some (Some This', port', g)
               }
               else Some (Some (znpStartInstance_t_setState AZAP_ZNP_STARTING This), port, g))
            else znpStartInstance_t_abandon This port g
          })
     else Some (Some This, port, g))"

definition deviceInfoReq :: "u8 \<Rightarrow> portContext_t \<Rightarrow> portContext_t exec" where
  "deviceInfoReq param port = do {
     (_, port') \<leftarrow> port_send (\<lambda>buf. znpSend buf MT_SAPI_GET_DEVICE_INFO_SREQ 1 [param]) port;
     Some port'
   }"

definition processZnpStartingIndication ::
    "u8 \<Rightarrow> u16 \<Rightarrow> bytes option \<Rightarrow> znpStartInstance_t \<Rightarrow> portContext_t \<Rightarrow> azapGlobals \<Rightarrow> znpStartInstance_t option smRes"
where
  "processZnpStartingIndication len cmd data This port g =
    (if MT_ZDO_STATE_CHG_IND_AREQ = cmd then
       (case data of
          None \<Rightarrow> Some (Some This, port, g)
        | Some d \<Rightarrow> do {
            d0 \<leftarrow> idx d 0;
            if ZDO_DEV_ZB_COORD = d0 then do {
              let This1 = (znpStartInstance_t_setState AZAP_ZNP_WAIT_PAN_INFOS This)
                            \<lparr>deviceInfoRespExpected := 4\<rparr>;
              p1 \<leftarrow> deviceInfoReq DEV_INFO_SHORT_ADDR port;
              p2 \<leftarrow> deviceInfoReq DEV_INFO_IEEE_ADDR p1;
              p3 \<leftarrow> deviceInfoReq DEV_INFO_PAN_ID p2;
              p4 \<leftarrow> deviceInfoReq DEV_INFO_EXT_PAN_ID p3;
              Some (Some This1, p4, g)
            }
            else Some (Some This, port, g)
          })
     else Some (Some This, port, g))"

definition decDeviceInfo :: "znpStartInstance_t \<Rightarrow> znpStartInstance_t" where
  "decDeviceInfo This = This\<lparr>deviceInfoRespExpected := deviceInfoRespExpected This - 1\<rparr>"

definition processWaitPanInfos ::
    "u8 \<Rightarrow> u16 \<Rightarrow> bytes option \<Rightarrow> znpStartInstance_t \<Rightarrow> portContext_t \<Rightarrow> azapGlobals \<Rightarrow> znpStartInstance_t option smRes"
where
  "processWaitPanInfos len cmd data This port g =
    (if MT_SAPI_GET_DEVICE_INFO_SRSP = cmd then do {
       d \<leftarrow> data;
       d0 \<leftarrow> idx d 0;
       (This1, port1) \<leftarrow>
         (if d0 = DEV_INFO_SHORT_ADDR then do {
            d1 \<leftarrow> idx d 1; d2 \<leftarrow> idx d 2;
            Some (decDeviceInfo This, port\<lparr>shortAddr := BUILD_UINT16 d1 d2\<rparr>)
          }
          else if d0 = DEV_INFO_IEEE_ADDR then do {
            a \<leftarrow> memread 1 IEEE_ADDR_LEN d;
            Some (decDeviceInfo This, port\<lparr>deviceIeee := a\<rparr>)
          }
          else if d0 = DEV_INFO_PAN_ID then do {
            d1 \<leftarrow> idx d 1; d2 \<leftarrow> idx d 2;
            Some (decDeviceInfo This, port\<lparr>panId := BUILD_UINT16 d1 d2\<rparr>)
          }
          else if d0 = DEV_INFO_EXT_PAN_ID then do {
            a \<leftarrow> memread 1 IEEE_ADDR_LEN d;
            Some (decDeviceInfo This, port\<lparr>panIdExt := a\<rparr>)
          }
          else Some (This, port));
       if 0 = deviceInfoRespExpected This1 then do {
         (_, port2) \<leftarrow> port_send (\<lambda>buf. znpSendSysNvWrite buf ZCD_NV_PANID 0 2
                                  [LO_UINT16 (panId port1), HI_UINT16 (panId port1)]) port1;
         Some (Some (znpStartInstance_t_setState AZAP_ZNP_WAIT_WRITE_PAN_ID This1), port2, g)
       }
       else Some (Some This1, port1, g)
     }
     else Some (Some This, port, g))"

definition processWaitWritePanId ::
    "u8 \<Rightarrow> u16 \<Rightarrow> bytes option \<Rightarrow> znpStartInstance_t \<Rightarrow> portContext_t \<Rightarrow> azapGlobals \<Rightarrow> znpStartInstance_t option smRes"
where
  "processWaitWritePanId len cmd data This port g =
    (if MT_SYS_NV_WRITE_SRSP = cmd then
       (case portContext_t_doStartZnpCompletion True port g of (port', g') \<Rightarrow> Some (None, port', g'))
     else Some (Some This, port, g))"

definition znpStartInstance_t_processZnpMsg ::
    "u8 \<Rightarrow> u8 \<Rightarrow> u8 \<Rightarrow> bytes option \<Rightarrow> znpStartInstance_t \<Rightarrow> portContext_t \<Rightarrow> azapGlobals \<Rightarrow> znpStartInstance_t option smRes"
where
  "znpStartInstance_t_processZnpMsg len cmd0 cmd1 data This port g =
    (let cmd = BUILD_UINT16 cmd0 cmd1 in
     case state This of
       AZAP_ZNP_WAIT_INITIAL_RESET_RESP \<Rightarrow> processWaitInitialResetResp len cmd data This port g
     | AZAP_ZNP_WAIT_WRITE_PARAM_RESP \<Rightarrow> processWaitWriteParamResp len cmd data This port g
     | AZAP_ZNP_WAIT_READ_PARAM_RESP \<Rightarrow> processWaitReadParamResp len cmd data This port g
     | AZAP_ZNP_WAIT_WRITE_RESET_RESP \<Rightarrow> processWaitWriteResetResp len cmd data This port g
     | AZAP_ZNP_WAIT_REGISTER_ENDPOINTS_RESP \<Rightarrow> processWaitRegisterEndpointsResp len cmd data This port g
     | AZAP_ZNP_WAIT_REGISTER_ZDO_CALLBACKS_RESP \<Rightarrow> processWaitRegisterZdoCbResp len cmd data This port g
     | AZAP_ZNP_WAIT_STARTUP_FROM_APP_RESP \<Rightarrow> processWaitStartupFromAppResp len cmd data This port g
     | AZAP_ZNP_STARTING \<Rightarrow> processZnpStartingIndication len cmd data This port g
     | AZAP_ZNP_WAIT_PAN_INFOS \<Rightarrow> processWaitPanInfos len cmd data This port g
     | AZAP_ZNP_WAIT_WRITE_PAN_ID \<Rightarrow> processWaitWritePanId len cmd data This port g
     | AZAP_ZNP_NULL \<Rightarrow> Some (Some This, port, g)
     | AZAP_ZNP_WAIT_WRITE_NWK_PARAM_RESP \<Rightarrow> Some (Some This, port, g))"

subsection \<open>The invariant of a running procedure\<close>

definition sm_inv :: "znpStartInstance_t \<Rightarrow> portContext_t \<Rightarrow> bool" where
  "sm_inv This port =
    (case state This of
       AZAP_ZNP_WAIT_INITIAL_RESET_RESP \<Rightarrow> nbCycles This = 0
     | AZAP_ZNP_WAIT_WRITE_PARAM_RESP \<Rightarrow>
         nbCycles This \<in> {0, 1} \<and> 0 < unat (writeParamRespExpected This) \<and> unat (writeParamRespExpected This) \<le> 4
     | AZAP_ZNP_WAIT_WRITE_RESET_RESP \<Rightarrow> nbCycles This = 0
     | AZAP_ZNP_WAIT_READ_PARAM_RESP \<Rightarrow> nbCycles This = 1
     | AZAP_ZNP_WAIT_REGISTER_ENDPOINTS_RESP \<Rightarrow>
         nbCycles This \<in> {0, 1} \<and> 0 < unat (afRegisterEpRespExpected This) \<and>
         unat (afRegisterEpRespExpected This) \<le> length (endPointList port)
     | AZAP_ZNP_WAIT_REGISTER_ZDO_CALLBACKS_RESP \<Rightarrow>
         nbCycles This \<in> {0, 1} \<and> 0 < unat (zdoCbRegisterRespExpected This) \<and>
         unat (zdoCbRegisterRespExpected This) \<le> 13
     | AZAP_ZNP_WAIT_STARTUP_FROM_APP_RESP \<Rightarrow> nbCycles This \<in> {0, 1}
     | AZAP_ZNP_STARTING \<Rightarrow> nbCycles This = 1
     | AZAP_ZNP_WAIT_PAN_INFOS \<Rightarrow>
         nbCycles This = 1 \<and> 0 < unat (deviceInfoRespExpected This) \<and> unat (deviceInfoRespExpected This) \<le> 4
     | AZAP_ZNP_WAIT_WRITE_PAN_ID \<Rightarrow> nbCycles This = 1
     | AZAP_ZNP_NULL \<Rightarrow> False
     | AZAP_ZNP_WAIT_WRITE_NWK_PARAM_RESP \<Rightarrow> False)"

definition port_inv :: "portContext_t \<Rightarrow> bool" where
  "port_inv port = (tx_ok port \<and> azapStartedCb \<in> set (pCallbacks port) \<and>
     (\<forall>ep \<in> set (endPointList port). ep_ok ep) \<and> length (endPointList port) < 256)"

text \<open>How far the procedure still has to go: the phase, two passes over the configuration, then
  the answers still expected in the phase.\<close>

definition sm_rank :: "znpStartInstance_t \<Rightarrow> nat" where
  "sm_rank This =
    (let second = (nbCycles This \<noteq> 0) in
     case state This of
       AZAP_ZNP_WAIT_INITIAL_RESET_RESP \<Rightarrow> 13000
     | AZAP_ZNP_WAIT_WRITE_PARAM_RESP \<Rightarrow> (if second then 7000 else 12000) + unat (writeParamRespExpected This)
     | AZAP_ZNP_WAIT_WRITE_RESET_RESP \<Rightarrow> 11000
     | AZAP_ZNP_WAIT_READ_PARAM_RESP \<Rightarrow> 6000
     | AZAP_ZNP_WAIT_REGISTER_ENDPOINTS_RESP \<Rightarrow>
         (if second then 5000 else 10000) + unat (afRegisterEpRespExpected This)
     | AZAP_ZNP_WAIT_REGISTER_ZDO_CALLBACKS_RESP \<Rightarrow>
         (if second then 4000 else 9000) + unat (zdoCbRegisterRespExpected This)
     | AZAP_ZNP_WAIT_STARTUP_FROM_APP_RESP \<Rightarrow> (if second then 3000 else 8000)
     | AZAP_ZNP_STARTING \<Rightarrow> 2000
     | AZAP_ZNP_WAIT_PAN_INFOS \<Rightarrow> 1000 + unat (deviceInfoRespExpected This)
     | AZAP_ZNP_WAIT_WRITE_PAN_ID \<Rightarrow> 1
     | _ \<Rightarrow> 0)"

text \<open>The message that moves a state forward.\<close>

definition awaited :: "AZAP_ZNP_START_STATE \<Rightarrow> u16 \<Rightarrow> u8 \<Rightarrow> bool" where
  "awaited st cmd d0 =
    (case st of
       AZAP_ZNP_WAIT_INITIAL_RESET_RESP \<Rightarrow> cmd = MT_SYS_RESET_IND
     | AZAP_ZNP_WAIT_WRITE_PARAM_RESP \<Rightarrow> cmd = MT_SYS_NV_WRITE_SRSP
     | AZAP_ZNP_WAIT_WRITE_RESET_RESP \<Rightarrow> cmd = MT_SYS_RESET_IND
     | AZAP_ZNP_WAIT_READ_PARAM_RESP \<Rightarrow> cmd = MT_SYS_NV_READ_SRSP
     | AZAP_ZNP_WAIT_REGISTER_ENDPOINTS_RESP \<Rightarrow> cmd = MT_AF_REGISTER_SRSP
     | AZAP_ZNP_WAIT_REGISTER_ZDO_CALLBACKS_RESP \<Rightarrow> cmd = MT_ZDO_MSG_CB_REGISTER_SRSP
     | AZAP_ZNP_WAIT_STARTUP_FROM_APP_RESP \<Rightarrow> cmd = MT_ZDO_STARTUP_FROM_APP_SRSP
     | AZAP_ZNP_STARTING \<Rightarrow> cmd = MT_ZDO_STATE_CHG_IND_AREQ \<and> d0 = ZDO_DEV_ZB_COORD
     | AZAP_ZNP_WAIT_PAN_INFOS \<Rightarrow> cmd = MT_SAPI_GET_DEVICE_INFO_SRSP \<and>
         d0 \<in> {DEV_INFO_SHORT_ADDR, DEV_INFO_IEEE_ADDR, DEV_INFO_PAN_ID, DEV_INFO_EXT_PAN_ID}
     | AZAP_ZNP_WAIT_WRITE_PAN_ID \<Rightarrow> cmd = MT_SYS_NV_WRITE_SRSP
     | _ \<Rightarrow> False)"

text \<open>A good outcome of one message: the port keeps its invariant, and either the procedure is
  over, which is announced once (with success only from the last state), or it goes on in a
  state that satisfies the invariant, nearer to its end when the message was awaited.\<close>

definition step_ok ::
    "bool \<Rightarrow> znpStartInstance_t \<Rightarrow> portContext_t \<Rightarrow> azapGlobals \<Rightarrow>
     znpStartInstance_t option \<times> portContext_t \<times> azapGlobals \<Rightarrow> bool" where
  "step_ok aw This port g r = (case r of (i, port', g') \<Rightarrow>
     port_inv port' \<and> portNumber port' = portNumber port \<and> endPointList port' = endPointList port \<and>
     (case i of
        None \<Rightarrow> startInst port' = None \<and>
          (\<exists>s. cbLog g' = cbLog g @ [StartedCb (portNumber port) s] \<and>
               (s \<longrightarrow> state This = AZAP_ZNP_WAIT_WRITE_PAN_ID))
      | Some This' \<Rightarrow> sm_inv This' port' \<and> cbLog g' = cbLog g \<and>
          (if aw then sm_rank This' < sm_rank This else sm_rank This' \<le> sm_rank This + 3)))"

lemmas sm_defs = sm_inv_def sm_rank_def awaited_def znpStartInstance_t_setState_def

lemma port_send_total:
  assumes "tx_ok port" "buf_total f"
  obtains ok b where "port_send f port = Some (ok, port\<lparr>tx := Some b\<rparr>)" "uart_wf b"
  using assms by (auto simp: port_send_def tx_ok_def buf_total_def split: option.splits)

lemma tx_ok_upd [simp]: "tx_ok (port\<lparr>tx := Some b\<rparr>) = uart_wf b"
  by (simp add: tx_ok_def)

lemma port_inv_tx [simp]: "port_inv port \<Longrightarrow> port_inv (port\<lparr>tx := Some b\<rparr>) = uart_wf b"
  by (simp add: port_inv_def)

lemma port_invD: "port_inv port \<Longrightarrow> tx_ok port"
  by (simp add: port_inv_def)

lemma nvWrite_total:
  assumes "tx_ok port" "length val < 256"
  obtains b where "nvWrite item val (This, port)
    = Some (This\<lparr>writeParamRespExpected := writeParamRespExpected This + 1\<rparr>, port\<lparr>tx := Some b\<rparr>)" "uart_wf b"
proof -
  have "unat (of_nat (length val) :: u8) \<le> length val" using assms(2) by (simp add: unat_of_nat_u8)
  from port_send_total [OF assms(1) buf_total_nvWrite [OF this, of item 0]] obtain ok b where
    "port_send (\<lambda>buf. znpSendSysNvWrite buf item 0 (of_nat (length val)) val) port
       = Some (ok, port\<lparr>tx := Some b\<rparr>)" "uart_wf b" .
  then show ?thesis by (intro that [of b]) (simp_all add: nvWrite_def)
qed

lemma writeParam_total:
  assumes "tx_ok port"
  obtains b where "writeParamInNvRam This port
      = Some (This\<lparr>writeParamRespExpected := (if resetHanAtReboot port then 4 else 3)\<rparr>, port\<lparr>tx := Some b\<rparr>)"
    "uart_wf b"
proof -
  let ?opt = "if resetHanAtReboot port
                then ZCD_STARTOPT_DEFAULT_CONFIG_STATE OR ZCD_STARTOPT_DEFAULT_NETWORK_STATE
                else ZCD_STARTOPT_AUTO_START"
  let ?T = "\<lambda>n. This\<lparr>writeParamRespExpected := n\<rparr>" and ?p = "\<lambda>b. port\<lparr>tx := Some b\<rparr>"
  have w: "\<exists>b'. nvWrite item val (?T n, ?p b) = Some (?T (n + 1), ?p b') \<and> uart_wf b'"
    if "uart_wf b" "length val < 256" for item val n b
    using nvWrite_total [of "?p b" val item "?T n"] that by auto
  obtain b1 where b1: "nvWrite ZCD_NV_STARTUP_OPTION [?opt] (?T 0, port) = Some (?T 1, ?p b1)" "uart_wf b1"
    using nvWrite_total [OF assms, of "[?opt]" ZCD_NV_STARTUP_OPTION "?T 0"] by auto
  obtain b2 where b2: "nvWrite ZCD_NV_LOGICAL_TYPE [deviceType port] (?T 1, ?p b1) = Some (?T 2, ?p b2)" "uart_wf b2"
    using w [OF b1(2), of "[deviceType port]" ZCD_NV_LOGICAL_TYPE 1] by auto
  obtain b3 where b3: "nvWrite ZCD_NV_PANID [0xFF, 0xFF] (?T 2, ?p b2) = Some (?T 3, ?p b3)" "uart_wf b3"
    using w [OF b2(2), of "[0xFF, 0xFF]" ZCD_NV_PANID 2] by auto
  let ?ch = "map (BREAK_UINT32 (defaultChannel port)) [0, 1, 2, 3]"
  obtain b4 where b4: "nvWrite ZCD_NV_CHANLIST ?ch (?T 2, ?p b2) = Some (?T 3, ?p b4)" "uart_wf b4"
    using w [OF b2(2), of ?ch ZCD_NV_CHANLIST 2] by auto
  obtain b5 where b5: "nvWrite ZCD_NV_CHANLIST ?ch (?T 3, ?p b3) = Some (?T 4, ?p b5)" "uart_wf b5"
    using w [OF b3(2), of ?ch ZCD_NV_CHANLIST 3] by auto
  have w3: "writeParamInNvRam This port = do {
      s3 \<leftarrow> (if resetHanAtReboot port then Some (?T 3, ?p b3) else Some (?T 2, ?p b2));
      nvWrite ZCD_NV_CHANLIST ?ch s3 }"
    by (simp only: writeParamInNvRam_def Let_def b1(1) b2(1) b3(1) bind.bind_lunit)
  show ?thesis
  proof (cases "resetHanAtReboot port")
    case True
    with w3 b5(1) have "writeParamInNvRam This port = Some (?T 4, ?p b5)" by (simp only: if_True bind.bind_lunit)
    with True b5(2) show ?thesis by (intro that [of b5]) simp_all
  next
    case False
    with w3 b4(1) have "writeParamInNvRam This port = Some (?T 3, ?p b4)" by (simp only: if_False bind.bind_lunit)
    with False b4(2) show ?thesis by (intro that [of b4]) simp_all
  qed
qed

lemma register_loop_total:
  assumes "tx_ok port" "\<forall>ep \<in> set eps. ep_ok ep"
  shows "\<exists>ok t. register_loop eps res This port
      = Some (ok, This\<lparr>afRegisterEpRespExpected := afRegisterEpRespExpected This + of_nat (length eps)\<rparr>,
              port\<lparr>tx := t\<rparr>) \<and> tx_ok (port\<lparr>tx := t\<rparr>)"
  using assms
proof (induction eps arbitrary: res This port)
  case Nil
  then show ?case by (auto intro!: exI [of _ "tx port"])
next
  case (Cons ep eps)
  obtain ok b where s: "port_send (\<lambda>buf. znpSendAfRegister buf (Some ep)) port = Some (ok, port\<lparr>tx := Some b\<rparr>)"
    "uart_wf b" using port_send_total [OF Cons.prems(1) buf_total_afRegister] Cons.prems(2) by auto
  from Cons.IH [of "port\<lparr>tx := Some b\<rparr>" "res \<and> ok"
      "This\<lparr>afRegisterEpRespExpected := afRegisterEpRespExpected This + 1\<rparr>"] s Cons.prems(2)
  show ?case by (auto simp: algebra_simps)
qed

lemma register_zdo_loop_total:
  "tx_ok port \<Longrightarrow> \<exists>t. register_zdo_loop cs port = Some (port\<lparr>tx := t\<rparr>) \<and> tx_ok (port\<lparr>tx := t\<rparr>)"
proof (induction cs arbitrary: port)
  case Nil
  then show ?case by (auto intro!: exI [of _ "tx port"])
next
  case (Cons c cs)
  obtain ok b where s: "port_send (\<lambda>buf. znpSendZdoMsgCbRegister buf c) port = Some (ok, port\<lparr>tx := Some b\<rparr>)"
    "uart_wf b" using port_send_total [OF Cons.prems buf_total_zdoRegister] by blast
  from Cons.IH [of "port\<lparr>tx := Some b\<rparr>"] s show ?case by auto
qed

lemma parseVersion_total:
  assumes "9 \<le> length d"
  shows "\<exists>ok ver. parseSysResetIndVersion (Some d) len True = Some (ok, ver)"
proof (cases "len = 6")
  case False
  then show ?thesis by (auto simp: parseSysResetIndVersion_def)
next
  case True
  with assms show ?thesis
    by (auto simp: parseSysResetIndVersion_def parseUint8AndShift_def idx_def)
qed

lemma unat_dec_u8: "0 < unat (x :: u8) \<Longrightarrow> unat (x - 1) = unat x - 1"
  using unat_diff_u8 [of 1 x] by simp

lemma u8_eq_1_iff: "(x :: u8) = 1 \<longleftrightarrow> unat x = 1"
  by (simp add: word_eq_unat_iff)

lemma abandon_ok:
  "port_inv port \<Longrightarrow> \<exists>r. znpStartInstance_t_abandon This' port' g = Some r \<and>
     (port_inv port' \<and> portNumber port' = portNumber port \<and> endPointList port' = endPointList port \<longrightarrow>
      step_ok aw This port g r)"
  by (auto simp: znpStartInstance_t_abandon_def portContext_t_doStartZnpCompletion_def azapProcessStartedCb_def step_ok_def port_inv_def tx_ok_def)

lemma initialReset_ok:
  assumes "port_inv port" "9 \<le> length d" "nbCycles This \<in> {0, 1}"
    "state This = AZAP_ZNP_WAIT_INITIAL_RESET_RESP \<and> nbCycles This = 0 \<and> aw = (cmd = MT_SYS_RESET_IND) \<or>
     state This = AZAP_ZNP_WAIT_WRITE_PARAM_RESP \<and> \<not> aw \<and> sm_inv This port"
  shows "\<exists>r. processWaitInitialResetResp len cmd (Some d) This port g = Some r \<and> step_ok aw This port g r"
proof (cases "cmd = MT_SYS_RESET_IND")
  case False
  with assms show ?thesis
    by (auto simp: processWaitInitialResetResp_def step_ok_def sm_inv_def)
next
  case True
  obtain ok ver where v: "parseSysResetIndVersion (Some d) len True = Some (ok, ver)"
    using parseVersion_total [OF assms(2)] by blast
  let ?p = "case ver of Some v \<Rightarrow> port\<lparr>zstackVersion := v\<rparr> | None \<Rightarrow> port"
  have p: "tx_ok ?p" "port_inv ?p" "portNumber ?p = portNumber port" "endPointList ?p = endPointList port"
    using assms(1) by (auto simp: port_inv_def tx_ok_def split: option.splits)
  obtain b where "writeParamInNvRam (znpStartInstance_t_setState AZAP_ZNP_WAIT_WRITE_PARAM_RESP This) ?p
      = Some ((znpStartInstance_t_setState AZAP_ZNP_WAIT_WRITE_PARAM_RESP This)
                \<lparr>writeParamRespExpected := (if resetHanAtReboot ?p then 4 else 3)\<rparr>, ?p\<lparr>tx := Some b\<rparr>)" "uart_wf b"
    using writeParam_total [OF p(1)] by blast
  with True v p assms(3,4) show ?thesis
    by (auto simp: processWaitInitialResetResp_def step_ok_def sm_defs)
qed

lemma writeParam_ok:
  assumes "port_inv port" "9 \<le> length d" "state This = AZAP_ZNP_WAIT_WRITE_PARAM_RESP" "sm_inv This port"
  shows "\<exists>r. processWaitWriteParamResp len cmd (Some d) This port g = Some r \<and>
           step_ok (awaited (state This) cmd (d ! 0)) This port g r"
proof -
  have n: "nbCycles This \<in> {0, 1}" "0 < unat (writeParamRespExpected This)" "unat (writeParamRespExpected This) \<le> 4"
    using assms(3,4) by (simp_all add: sm_inv_def)
  have d0: "idx d 0 = Some (d ! 0)" using assms(2) by (auto simp: idx_def)
  consider (reset) "cmd = MT_SYS_RESET_IND" | (fail) "cmd = MT_SYS_NV_WRITE_SRSP" "d ! 0 \<noteq> 0"
    | (ack) "cmd = MT_SYS_NV_WRITE_SRSP" "d ! 0 = 0" | (other) "cmd \<noteq> MT_SYS_RESET_IND" "cmd \<noteq> MT_SYS_NV_WRITE_SRSP"
    by blast
  then show ?thesis
  proof cases
    case reset
    then have "\<not> awaited (state This) cmd (d ! 0)" using assms(3) by (simp add: awaited_def const_defs)
    with initialReset_ok [OF assms(1,2) n(1), of "awaited (state This) cmd (d ! 0)" cmd len g] assms(3,4) reset
    show ?thesis by (simp add: processWaitWriteParamResp_def)
  next
    case fail
    with abandon_ok [OF assms(1), of This port g "awaited (state This) cmd (d ! 0)" This] assms(1) d0 show ?thesis
      by (simp add: processWaitWriteParamResp_def const_defs)
  next
    case other
    with assms show ?thesis by (simp add: processWaitWriteParamResp_def step_ok_def awaited_def)
  next
    case ack
    obtain o1 b1 where s1: "port_send (\<lambda>buf. znpSend buf MT_SYS_SOFT_RESET_AREQ 1 [0x01]) port
        = Some (o1, port\<lparr>tx := Some b1\<rparr>)" "uart_wf b1"
      using port_send_total [OF port_invD [OF assms(1)] buf_total_znpSend [of 1 "[0x01]" MT_SYS_SOFT_RESET_AREQ]]
      by auto
    obtain o2 b2 where s2: "port_send (\<lambda>buf. znpSendSysNvRead buf ZCD_NV_STARTUP_OPTION 0) port
        = Some (o2, port\<lparr>tx := Some b2\<rparr>)" "uart_wf b2"
      using port_send_total [OF port_invD [OF assms(1)] buf_total_nvRead] by blast
    have "MT_SYS_RESET_IND \<noteq> cmd" using ack by (simp add: const_defs)
    with ack s1 s2 d0 n assms(1,3) unat_dec_u8 [OF n(2)] show ?thesis
      by (auto simp: processWaitWriteParamResp_def step_ok_def sm_defs Let_def u8_eq_1_iff)
  qed
qed

lemma register_ok:
  assumes "port_inv port"
    "state This = AZAP_ZNP_WAIT_WRITE_RESET_RESP \<and> nbCycles This = 0 \<or>
     state This = AZAP_ZNP_WAIT_READ_PARAM_RESP \<and> nbCycles This = 1"
  shows "\<exists>r. register_or_abandon This port g = Some r \<and> step_ok True This port g r"
proof (cases "endPointList port = []")
  case True
  then show ?thesis
    using abandon_ok [OF assms(1), of _ port g True This] assms(1)
    by (auto simp: register_or_abandon_def registerEndPoints_def Let_def)
next
  case False
  let ?n = "length (endPointList port)"
  have n: "unat (of_nat ?n :: u8) = ?n" "0 < ?n" "?n < 256"
    using assms(1) False by (simp_all add: port_inv_def unat_of_nat_u8)
  let ?T = "(znpStartInstance_t_setState AZAP_ZNP_WAIT_REGISTER_ENDPOINTS_RESP This)\<lparr>afRegisterEpRespExpected := 0\<rparr>"
  obtain ok t where l: "register_loop (endPointList port) True ?T port
      = Some (ok, ?T\<lparr>afRegisterEpRespExpected := of_nat ?n\<rparr>, port\<lparr>tx := t\<rparr>)" "tx_ok (port\<lparr>tx := t\<rparr>)"
    using register_loop_total [of port "endPointList port" True ?T] assms(1) by (auto simp: port_inv_def)
  have p: "port_inv (port\<lparr>tx := t\<rparr>)" using l(2) assms(1) by (simp add: port_inv_def)
  show ?thesis
  proof (cases ok)
    case True
    with l p n False assms(2) show ?thesis
      by (auto simp: register_or_abandon_def registerEndPoints_def Let_def step_ok_def sm_defs)
  next
    case notok: False
    with l p False abandon_ok [OF assms(1), of "?T\<lparr>afRegisterEpRespExpected := of_nat ?n\<rparr>" "port\<lparr>tx := t\<rparr>" g True This]
    show ?thesis by (auto simp: register_or_abandon_def registerEndPoints_def Let_def)
  qed
qed

lemma idx_first: "9 \<le> length d \<Longrightarrow> idx d 0 = Some (d ! 0)" "9 \<le> length d \<Longrightarrow> idx d (Suc 0) = Some (d ! 1)"
  "9 \<le> length d \<Longrightarrow> idx d 2 = Some (d ! 2)"
  by (auto simp: idx_def)

lemma readParam_ok:
  assumes "port_inv port" "9 \<le> length d" "state This = AZAP_ZNP_WAIT_READ_PARAM_RESP" "sm_inv This port"
  shows "\<exists>r. processWaitReadParamResp len cmd (Some d) This port g = Some r \<and>
           step_ok (awaited (state This) cmd (d ! 0)) This port g r"
proof (cases "cmd = MT_SYS_NV_READ_SRSP")
  case False
  with assms show ?thesis by (simp add: processWaitReadParamResp_def step_ok_def awaited_def)
next
  case True
  have "awaited (state This) cmd (d ! 0)" using True assms(3) by (simp add: awaited_def)
  moreover have "nbCycles This = 1" using assms(3,4) by (simp add: sm_inv_def)
  ultimately show ?thesis
    using True abandon_ok [OF assms(1), of This port g True This] register_ok [OF assms(1), of This g] assms
    by (auto simp: processWaitReadParamResp_def Let_def idx_first)
qed

lemma writeReset_ok:
  assumes "port_inv port" "state This = AZAP_ZNP_WAIT_WRITE_RESET_RESP" "sm_inv This port"
  shows "\<exists>r. processWaitWriteResetResp len cmd (Some d) This port g = Some r \<and>
           step_ok (awaited (state This) cmd (d ! 0)) This port g r"
proof (cases "cmd = MT_SYS_RESET_IND")
  case False
  with assms show ?thesis by (simp add: processWaitWriteResetResp_def step_ok_def awaited_def)
next
  case True
  have "nbCycles This = 0" using assms(2,3) by (simp add: sm_inv_def)
  with True register_ok [OF assms(1), of This g] assms(2) show ?thesis
    by (simp add: processWaitWriteResetResp_def awaited_def)
qed

lemma registerEp_ok:
  assumes "port_inv port" "9 \<le> length d" "state This = AZAP_ZNP_WAIT_REGISTER_ENDPOINTS_RESP" "sm_inv This port"
  shows "\<exists>r. processWaitRegisterEndpointsResp len cmd (Some d) This port g = Some r \<and>
           step_ok (awaited (state This) cmd (d ! 0)) This port g r"
proof -
  have n: "nbCycles This \<in> {0, 1}" "0 < unat (afRegisterEpRespExpected This)"
    "unat (afRegisterEpRespExpected This) \<le> length (endPointList port)"
    using assms(3,4) by (simp_all add: sm_inv_def)
  consider (other) "cmd \<noteq> MT_AF_REGISTER_SRSP" | (fail) "cmd = MT_AF_REGISTER_SRSP" "d ! 0 \<noteq> 0 \<and> 0xb8 \<noteq> d ! 0"
    | (ack) "cmd = MT_AF_REGISTER_SRSP" "\<not> (d ! 0 \<noteq> 0 \<and> 0xb8 \<noteq> d ! 0)" by blast
  then show ?thesis
  proof cases
    case other
    with assms show ?thesis by (simp add: processWaitRegisterEndpointsResp_def step_ok_def awaited_def)
  next
    case fail
    with abandon_ok [OF assms(1), of This port g "awaited (state This) cmd (d ! 0)" This] assms(1,2) show ?thesis
      by (simp add: processWaitRegisterEndpointsResp_def idx_first)
  next
    case ack
    obtain t where l: "register_zdo_loop c_zdoMsgCbRegisterListCoord port = Some (port\<lparr>tx := t\<rparr>)" "tx_ok (port\<lparr>tx := t\<rparr>)"
      using register_zdo_loop_total [OF port_invD [OF assms(1)]] by blast
    have p: "port_inv (port\<lparr>tx := t\<rparr>)" using l(2) assms(1) by (simp add: port_inv_def)
    have c: "length c_zdoMsgCbRegisterListCoord = 13" by (simp add: c_zdoMsgCbRegisterListCoord_def)
    show ?thesis
    proof (cases "afRegisterEpRespExpected This = 1")
      case True
      with ack l p c n assms(2,3) show ?thesis
        by (auto simp: processWaitRegisterEndpointsResp_def idx_first step_ok_def sm_defs Let_def)
    next
      case False
      with ack n assms(1-3) unat_dec_u8 [OF n(2)] show ?thesis
        by (auto simp: processWaitRegisterEndpointsResp_def idx_first step_ok_def sm_defs Let_def u8_eq_1_iff)
    qed
  qed
qed

lemma registerZdo_ok:
  assumes "port_inv port" "9 \<le> length d" "state This = AZAP_ZNP_WAIT_REGISTER_ZDO_CALLBACKS_RESP" "sm_inv This port"
  shows "\<exists>r. processWaitRegisterZdoCbResp len cmd (Some d) This port g = Some r \<and>
           step_ok (awaited (state This) cmd (d ! 0)) This port g r"
proof -
  have n: "nbCycles This \<in> {0, 1}" "0 < unat (zdoCbRegisterRespExpected This)" "unat (zdoCbRegisterRespExpected This) \<le> 13"
    using assms(3,4) by (simp_all add: sm_inv_def)
  consider (other) "cmd \<noteq> MT_ZDO_MSG_CB_REGISTER_SRSP"
    | (fail) "cmd = MT_ZDO_MSG_CB_REGISTER_SRSP" "d ! 0 \<noteq> 0 \<and> 0xb8 \<noteq> d ! 0"
    | (ack) "cmd = MT_ZDO_MSG_CB_REGISTER_SRSP" "\<not> (d ! 0 \<noteq> 0 \<and> 0xb8 \<noteq> d ! 0)" by blast
  then show ?thesis
  proof cases
    case other
    with assms show ?thesis by (simp add: processWaitRegisterZdoCbResp_def step_ok_def awaited_def)
  next
    case fail
    with abandon_ok [OF assms(1), of This port g "awaited (state This) cmd (d ! 0)" This] assms(1,2) show ?thesis
      by (simp add: processWaitRegisterZdoCbResp_def idx_first)
  next
    case ack
    obtain o1 b1 where s1: "port_send (\<lambda>buf. znpSend buf MT_ZDO_STARTUP_FROM_APP_SREQ 0 []) port
        = Some (o1, port\<lparr>tx := Some b1\<rparr>)" "uart_wf b1"
      using port_send_total [OF port_invD [OF assms(1)] buf_total_znpSend [of 0 "[]" MT_ZDO_STARTUP_FROM_APP_SREQ]]
      by auto
    with ack n assms(1-3) unat_dec_u8 [OF n(2)] show ?thesis
      by (auto simp: processWaitRegisterZdoCbResp_def idx_first step_ok_def sm_defs Let_def u8_eq_1_iff)
  qed
qed

lemma startup_ok:
  assumes "port_inv port" "9 \<le> length d" "state This = AZAP_ZNP_WAIT_STARTUP_FROM_APP_RESP" "sm_inv This port"
  shows "\<exists>r. processWaitStartupFromAppResp len cmd (Some d) This port g = Some r \<and>
           step_ok (awaited (state This) cmd (d ! 0)) This port g r"
proof -
  have n: "nbCycles This \<in> {0, 1}" using assms(3,4) by (simp add: sm_inv_def)
  consider (other) "cmd \<noteq> MT_ZDO_STARTUP_FROM_APP_SRSP"
    | (fail) "cmd = MT_ZDO_STARTUP_FROM_APP_SRSP" "d ! 0 = 0x02"
    | (first) "cmd = MT_ZDO_STARTUP_FROM_APP_SRSP" "d ! 0 \<noteq> 0x02" "nbCycles This = 0"
    | (second) "cmd = MT_ZDO_STARTUP_FROM_APP_SRSP" "d ! 0 \<noteq> 0x02" "nbCycles This = 1"
    using n by blast
  then show ?thesis
  proof cases
    case other
    with assms show ?thesis by (simp add: processWaitStartupFromAppResp_def step_ok_def awaited_def)
  next
    case fail
    with abandon_ok [OF assms(1), of This port g "awaited (state This) cmd (d ! 0)" This] assms(1,2) show ?thesis
      by (simp add: processWaitStartupFromAppResp_def idx_first)
  next
    case first
    let ?T = "znpStartInstance_t_setState AZAP_ZNP_WAIT_WRITE_PARAM_RESP (This\<lparr>nbCycles := nbCycles This + 1\<rparr>)"
    obtain b where "writeParamInNvRam ?T port
        = Some (?T\<lparr>writeParamRespExpected := (if resetHanAtReboot port then 4 else 3)\<rparr>, port\<lparr>tx := Some b\<rparr>)" "uart_wf b"
      using writeParam_total [OF port_invD [OF assms(1)]] by blast
    with first assms(1-3) show ?thesis
      by (auto simp: processWaitStartupFromAppResp_def idx_first step_ok_def sm_defs)
  next
    case second
    with assms(1-3) show ?thesis
      by (auto simp: processWaitStartupFromAppResp_def idx_first step_ok_def sm_defs)
  qed
qed

lemma deviceInfoReq_total:
  assumes "tx_ok port"
  obtains b where "deviceInfoReq x port = Some (port\<lparr>tx := Some b\<rparr>)" "uart_wf b"
proof -
  obtain ok b where "port_send (\<lambda>buf. znpSend buf MT_SAPI_GET_DEVICE_INFO_SREQ 1 [x]) port
      = Some (ok, port\<lparr>tx := Some b\<rparr>)" "uart_wf b"
    using port_send_total [OF assms buf_total_znpSend [of 1 "[x]" MT_SAPI_GET_DEVICE_INFO_SREQ]] by auto
  then show ?thesis by (intro that [of b]) (simp_all add: deviceInfoReq_def)
qed

lemma starting_ok:
  assumes "port_inv port" "9 \<le> length d" "state This = AZAP_ZNP_STARTING" "sm_inv This port"
  shows "\<exists>r. processZnpStartingIndication len cmd (Some d) This port g = Some r \<and>
           step_ok (awaited (state This) cmd (d ! 0)) This port g r"
proof (cases "cmd = MT_ZDO_STATE_CHG_IND_AREQ \<and> d ! 0 = ZDO_DEV_ZB_COORD")
  case False
  with assms show ?thesis
    by (auto simp: processZnpStartingIndication_def step_ok_def awaited_def idx_first)
next
  case True
  obtain b1 where b1: "deviceInfoReq DEV_INFO_SHORT_ADDR port = Some (port\<lparr>tx := Some b1\<rparr>)" "uart_wf b1"
    using deviceInfoReq_total [OF port_invD [OF assms(1)]] by blast
  have r: "\<exists>b'. deviceInfoReq x (port\<lparr>tx := Some b\<rparr>) = Some (port\<lparr>tx := Some b'\<rparr>) \<and> uart_wf b'" if "uart_wf b" for x b
    using deviceInfoReq_total [of "port\<lparr>tx := Some b\<rparr>" x] that by auto
  from r [OF b1(2)] obtain b2 where b2: "deviceInfoReq DEV_INFO_IEEE_ADDR (port\<lparr>tx := Some b1\<rparr>)
      = Some (port\<lparr>tx := Some b2\<rparr>)" "uart_wf b2" by blast
  from r [OF b2(2)] obtain b3 where b3: "deviceInfoReq DEV_INFO_PAN_ID (port\<lparr>tx := Some b2\<rparr>)
      = Some (port\<lparr>tx := Some b3\<rparr>)" "uart_wf b3" by blast
  from r [OF b3(2)] obtain b4 where b4: "deviceInfoReq DEV_INFO_EXT_PAN_ID (port\<lparr>tx := Some b3\<rparr>)
      = Some (port\<lparr>tx := Some b4\<rparr>)" "uart_wf b4" by blast
  have "nbCycles This = 1" using assms(3,4) by (simp add: sm_inv_def)
  with True b1 b2 b3 b4 assms(1-3) show ?thesis
    by (simp add: processZnpStartingIndication_def idx_first step_ok_def sm_defs Let_def)
qed

lemma panInfos_ok:
  assumes "port_inv port" "9 \<le> length d" "state This = AZAP_ZNP_WAIT_PAN_INFOS" "sm_inv This port"
  shows "\<exists>r. processWaitPanInfos len cmd (Some d) This port g = Some r \<and>
           step_ok (awaited (state This) cmd (d ! 0)) This port g r"
proof -
  have n: "nbCycles This = 1" "0 < unat (deviceInfoRespExpected This)" "unat (deviceInfoRespExpected This) \<le> 4"
    using assms(3,4) by (simp_all add: sm_inv_def)
  let ?infos = "{DEV_INFO_SHORT_ADDR, DEV_INFO_IEEE_ADDR, DEV_INFO_PAN_ID, DEV_INFO_EXT_PAN_ID}"
  consider (other) "cmd \<noteq> MT_SAPI_GET_DEVICE_INFO_SRSP"
    | (unknown) "cmd = MT_SAPI_GET_DEVICE_INFO_SRSP" "d ! 0 \<notin> ?infos"
    | (info) "cmd = MT_SAPI_GET_DEVICE_INFO_SRSP" "d ! 0 \<in> ?infos" by blast
  then show ?thesis
  proof cases
    case other
    with assms show ?thesis by (simp add: processWaitPanInfos_def step_ok_def awaited_def)
  next
    case unknown
    with assms n show ?thesis
      by (auto simp: processWaitPanInfos_def step_ok_def awaited_def idx_first)
  next
    case info
    let ?sw = "if d ! 0 = DEV_INFO_SHORT_ADDR then do {
            d1 \<leftarrow> idx d 1; d2 \<leftarrow> idx d 2;
            Some (decDeviceInfo This, port\<lparr>shortAddr := BUILD_UINT16 d1 d2\<rparr>)
          }
          else if d ! 0 = DEV_INFO_IEEE_ADDR then do {
            a \<leftarrow> memread 1 IEEE_ADDR_LEN d;
            Some (decDeviceInfo This, port\<lparr>deviceIeee := a\<rparr>)
          }
          else if d ! 0 = DEV_INFO_PAN_ID then do {
            d1 \<leftarrow> idx d 1; d2 \<leftarrow> idx d 2;
            Some (decDeviceInfo This, port\<lparr>panId := BUILD_UINT16 d1 d2\<rparr>)
          }
          else if d ! 0 = DEV_INFO_EXT_PAN_ID then do {
            a \<leftarrow> memread 1 IEEE_ADDR_LEN d;
            Some (decDeviceInfo This, port\<lparr>panIdExt := a\<rparr>)
          }
          else Some (This, port)"
    have "memread (Suc 0) IEEE_ADDR_LEN d = Some (take 8 (drop 1 d))"
      using assms(2) by (simp add: memread_def IEEE_ADDR_LEN_def)
    then obtain p1 where p1: "?sw = Some (decDeviceInfo This, p1)" "port_inv p1"
      "portNumber p1 = portNumber port" "endPointList p1 = endPointList port"
      using info assms(1,2) by (auto simp: idx_first port_inv_def tx_ok_def)
    obtain o1 b where s1: "port_send (\<lambda>buf. znpSendSysNvWrite buf ZCD_NV_PANID 0 2
          [LO_UINT16 (panId p1), HI_UINT16 (panId p1)]) p1 = Some (o1, p1\<lparr>tx := Some b\<rparr>)" "uart_wf b"
      using port_send_total [OF port_invD [OF p1(2)]
          buf_total_nvWrite [of 2 "[LO_UINT16 (panId p1), HI_UINT16 (panId p1)]" ZCD_NV_PANID 0]] by auto
    have eq: "processWaitPanInfos len cmd (Some d) This port g =
       (if 0 = deviceInfoRespExpected This - 1
        then Some (Some (znpStartInstance_t_setState AZAP_ZNP_WAIT_WRITE_PAN_ID (decDeviceInfo This)), p1\<lparr>tx := Some b\<rparr>, g)
        else Some (Some (decDeviceInfo This), p1, g))"
      unfolding processWaitPanInfos_def using info(1) assms(2) p1(1) s1(1)
      by (simp only: idx_first bind.bind_lunit if_True) (simp add: decDeviceInfo_def)
    from info n assms(1,3) s1(2) p1 unat_dec_u8 [OF n(2)] show ?thesis
      unfolding eq by (auto simp: step_ok_def sm_defs decDeviceInfo_def u8_eq_1_iff)
  qed
qed

lemma writePanId_ok:
  assumes "port_inv port" "state This = AZAP_ZNP_WAIT_WRITE_PAN_ID" "sm_inv This port"
  shows "\<exists>r. processWaitWritePanId len cmd (Some d) This port g = Some r \<and>
           step_ok (awaited (state This) cmd (d ! 0)) This port g r"
  using assms
  by (auto simp: processWaitWritePanId_def portContext_t_doStartZnpCompletion_def azapProcessStartedCb_def step_ok_def awaited_def
      port_inv_def tx_ok_def)

lemma processZnpMsg_ok:
  assumes "port_inv port" "9 \<le> length d" "sm_inv This port"
  shows "\<exists>r. znpStartInstance_t_processZnpMsg len cmd0 cmd1 (Some d) This port g = Some r \<and>
           step_ok (awaited (state This) (BUILD_UINT16 cmd0 cmd1) (d ! 0)) This port g r"
proof (cases "state This")
  case AZAP_ZNP_WAIT_INITIAL_RESET_RESP
  then show ?thesis
    using initialReset_ok [OF assms(1,2), of This "awaited (state This) (BUILD_UINT16 cmd0 cmd1) (d ! 0)"] assms(3)
    by (simp add: znpStartInstance_t_processZnpMsg_def sm_inv_def awaited_def)
next
  case AZAP_ZNP_WAIT_WRITE_PARAM_RESP
  with writeParam_ok [OF assms(1,2) AZAP_ZNP_WAIT_WRITE_PARAM_RESP assms(3)] show ?thesis by (simp add: znpStartInstance_t_processZnpMsg_def)
next
  case AZAP_ZNP_WAIT_READ_PARAM_RESP
  with readParam_ok [OF assms(1,2) AZAP_ZNP_WAIT_READ_PARAM_RESP assms(3)] show ?thesis by (simp add: znpStartInstance_t_processZnpMsg_def)
next
  case AZAP_ZNP_WAIT_WRITE_RESET_RESP
  with writeReset_ok [OF assms(1) AZAP_ZNP_WAIT_WRITE_RESET_RESP assms(3)] show ?thesis by (simp add: znpStartInstance_t_processZnpMsg_def)
next
  case AZAP_ZNP_WAIT_REGISTER_ENDPOINTS_RESP
  with registerEp_ok [OF assms(1,2) AZAP_ZNP_WAIT_REGISTER_ENDPOINTS_RESP assms(3)] show ?thesis by (simp add: znpStartInstance_t_processZnpMsg_def)
next
  case AZAP_ZNP_WAIT_REGISTER_ZDO_CALLBACKS_RESP
  with registerZdo_ok [OF assms(1,2) AZAP_ZNP_WAIT_REGISTER_ZDO_CALLBACKS_RESP assms(3)] show ?thesis by (simp add: znpStartInstance_t_processZnpMsg_def)
next
  case AZAP_ZNP_WAIT_STARTUP_FROM_APP_RESP
  with startup_ok [OF assms(1,2) AZAP_ZNP_WAIT_STARTUP_FROM_APP_RESP assms(3)] show ?thesis by (simp add: znpStartInstance_t_processZnpMsg_def)
next
  case AZAP_ZNP_STARTING
  with starting_ok [OF assms(1,2) AZAP_ZNP_STARTING assms(3)] show ?thesis by (simp add: znpStartInstance_t_processZnpMsg_def)
next
  case AZAP_ZNP_WAIT_PAN_INFOS
  with panInfos_ok [OF assms(1,2) AZAP_ZNP_WAIT_PAN_INFOS assms(3)] show ?thesis by (simp add: znpStartInstance_t_processZnpMsg_def)
next
  case AZAP_ZNP_WAIT_WRITE_PAN_ID
  with writePanId_ok [OF assms(1) AZAP_ZNP_WAIT_WRITE_PAN_ID assms(3)] show ?thesis by (simp add: znpStartInstance_t_processZnpMsg_def)
qed (use assms(3) in \<open>simp_all add: sm_inv_def\<close>)

subsection \<open>Steps, reachability and runs\<close>

type_synonym smConf = "znpStartInstance_t option \<times> portContext_t \<times> azapGlobals"

inductive sm_step :: "smConf \<Rightarrow> smConf \<Rightarrow> bool" where
  sm_msg: "9 \<le> length d \<Longrightarrow> znpStartInstance_t_processZnpMsg len cmd0 cmd1 (Some d) This port g = Some r \<Longrightarrow>
        sm_step (Some This, port, g) r"
| sm_tick: "znpStartInstance_t_watchdog This port = Some (This', port') \<Longrightarrow>
        sm_step (Some This, port, g) (Some This', port', g)"

inductive sm_reach :: "portContext_t \<Rightarrow> azapGlobals \<Rightarrow> smConf \<Rightarrow> bool" for port0 g0 where
  sm_start: "new_znpStartInstance_t True (portNumber port0) = Some This \<Longrightarrow>
          znpStartInstance_t_start This port0 = Some (This', port') \<Longrightarrow> sm_reach port0 g0 (Some This', port', g0)"
| sm_next: "sm_reach port0 g0 c \<Longrightarrow> sm_step c c' \<Longrightarrow> sm_reach port0 g0 c'"

inductive_cases sm_stepE: "sm_step (i, port, g) c"

lemma start_total:
  assumes "port_inv port"
  obtains b where "znpStartInstance_t_start This port
      = Some (znpStartInstance_t_setState AZAP_ZNP_WAIT_INITIAL_RESET_RESP (This\<lparr>nbCycles := 0\<rparr>), port\<lparr>tx := Some b\<rparr>)"
    "uart_wf b"
proof -
  obtain ok b where "port_send (\<lambda>buf. znpSend buf MT_SYS_SOFT_RESET_AREQ 1 [0x01]) port
      = Some (ok, port\<lparr>tx := Some b\<rparr>)" "uart_wf b"
    using port_send_total [OF port_invD [OF assms] buf_total_znpSend [of 1 "[0x01]" MT_SYS_SOFT_RESET_AREQ]] by auto
  then show ?thesis by (intro that [of b]) (simp_all add: znpStartInstance_t_start_def Let_def)
qed

lemma watchdog_ok:
  assumes "port_inv port" "sm_inv This port"
  shows "\<exists>This' port'. znpStartInstance_t_watchdog This port = Some (This', port') \<and> port_inv port' \<and>
     portNumber port' = portNumber port \<and> endPointList port' = endPointList port \<and> sm_inv This' port' \<and>
     (elapsedSecondsCurrentState This < 99 \<longrightarrow> sm_rank This' = sm_rank This)"
proof -
  let ?T = "This\<lparr>elapsedSecondsCurrentState := elapsedSecondsCurrentState This + 1\<rparr>"
  obtain b where b: "znpStartInstance_t_start ?T port
      = Some (znpStartInstance_t_setState AZAP_ZNP_WAIT_INITIAL_RESET_RESP (?T\<lparr>nbCycles := 0\<rparr>), port\<lparr>tx := Some b\<rparr>)" "uart_wf b"
    using start_total [OF assms(1)] by blast
  have "elapsedSecondsCurrentState This < 99 \<Longrightarrow> \<not> elapsedSecondsCurrentState This + 1 \<ge> 100"
    by (simp add: word_less_nat_alt word_le_nat_alt) (subst unat_add_u8, simp_all)
  moreover have "sm_inv ?T port" "sm_rank ?T = sm_rank This"
    using assms(2) by (simp_all add: sm_inv_def sm_rank_def split: AZAP_ZNP_START_STATE.splits)
  moreover have "sm_inv (znpStartInstance_t_setState AZAP_ZNP_WAIT_INITIAL_RESET_RESP (?T\<lparr>nbCycles := 0\<rparr>)) p" for p
    by (simp add: sm_inv_def znpStartInstance_t_setState_def)
  ultimately show ?thesis
    using b assms(1) by (auto simp: znpStartInstance_t_watchdog_def Let_def)
qed

lemma sm_reach_inv:
  assumes "sm_reach port0 g0 c" "port_inv port0"
  shows "case c of (i, port, g) \<Rightarrow> port_inv port \<and> portNumber port = portNumber port0 \<and>
     (case i of
        None \<Rightarrow> startInst port = None \<and> (\<exists>s. cbLog g = cbLog g0 @ [StartedCb (portNumber port0) s])
      | Some This \<Rightarrow> sm_inv This port \<and> cbLog g = cbLog g0)"
  using assms
proof (induction rule: sm_reach.induct)
  case (sm_start This This' port')
  obtain b where "znpStartInstance_t_start This port0
      = Some (znpStartInstance_t_setState AZAP_ZNP_WAIT_INITIAL_RESET_RESP (This\<lparr>nbCycles := 0\<rparr>), port0\<lparr>tx := Some b\<rparr>)"
    "uart_wf b" using start_total [OF sm_start(3)] by blast
  with sm_start show ?case by (auto simp: sm_inv_def znpStartInstance_t_setState_def)
next
  case (sm_next c c')
  obtain i port g where c: "c = (i, port, g)" by (cases c)
  from sm_next(2) c show ?case
  proof (cases rule: sm_step.cases)
    case (sm_msg d len cmd0 cmd1 This port g)
    with sm_next.IH [OF sm_next.prems] processZnpMsg_ok [of port d This len cmd0 cmd1 g] show ?thesis
      by (auto simp: step_ok_def split: option.splits)
  next
    case (sm_tick This port This' port' g)
    with sm_next.IH [OF sm_next.prems] watchdog_ok [of port This] show ?thesis by auto
  qed
qed

type_synonym znpIn = "u8 \<times> u8 \<times> u8 \<times> bytes"

fun sm_run :: "znpIn list \<Rightarrow> smConf \<Rightarrow> smConf exec" where
  "sm_run [] c = Some c"
| "sm_run (m # ms) (None, port, g) = Some (None, port, g)"
| "sm_run ((len, cmd0, cmd1, d) # ms) (Some This, port, g) = do {
     r \<leftarrow> znpStartInstance_t_processZnpMsg len cmd0 cmd1 (Some d) This port g;
     sm_run ms r
   }"

text \<open>Every message of the run is the one the machine waits for when it comes.\<close>

fun all_awaited :: "znpIn list \<Rightarrow> smConf \<Rightarrow> bool" where
  "all_awaited [] c = True"
| "all_awaited (m # ms) (None, port, g) = True"
| "all_awaited ((len, cmd0, cmd1, d) # ms) (Some This, port, g) =
     (9 \<le> length d \<and> awaited (state This) (BUILD_UINT16 cmd0 cmd1) (d ! 0) \<and>
      (case znpStartInstance_t_processZnpMsg len cmd0 cmd1 (Some d) This port g of
         None \<Rightarrow> False | Some r \<Rightarrow> all_awaited ms r))"

lemma sm_run_None [simp]: "sm_run ms (None, port, g) = Some (None, port, g)"
  by (cases ms) simp_all

lemma sm_run_ends:
  "port_inv port \<Longrightarrow> sm_inv This port \<Longrightarrow> all_awaited ms (Some This, port, g) \<Longrightarrow> sm_rank This < length ms \<Longrightarrow>
   \<exists>port' g' s. sm_run ms (Some This, port, g) = Some (None, port', g') \<and> startInst port' = None \<and>
     cbLog g' = cbLog g @ [StartedCb (portNumber port) s]"
proof (induction ms arbitrary: This port g)
  case Nil
  then show ?case by simp
next
  case (Cons m ms)
  obtain len cmd0 cmd1 d where m: "m = (len, cmd0, cmd1, d)" by (cases m)
  from Cons.prems(3) m have a: "9 \<le> length d" "awaited (state This) (BUILD_UINT16 cmd0 cmd1) (d ! 0)" by simp_all
  have aw: "awaited (state This) (BUILD_UINT16 cmd0 cmd1) (d ! 0) = True" using a(2) by simp
  obtain r where
    r: "znpStartInstance_t_processZnpMsg len cmd0 cmd1 (Some d) This port g = Some r" "step_ok True This port g r"
    using processZnpMsg_ok [OF Cons.prems(1) a(1) Cons.prems(2), of len cmd0 cmd1 g, unfolded aw] by blast
  obtain i p g' where ri: "r = (i, p, g')" by (cases r)
  show ?case
  proof (cases i)
    case None
    with r ri m show ?thesis by (auto simp: step_ok_def)
  next
    case (Some T)
    with r ri have T: "port_inv p" "sm_inv T p" "portNumber p = portNumber port" "cbLog g' = cbLog g" "sm_rank T < sm_rank This"
      by (auto simp: step_ok_def)
    have "all_awaited ms (Some T, p, g')" using Cons.prems(3) m r ri Some by simp
    from Cons.IH [OF T(1,2) this] T Cons.prems(4) m r ri Some show ?thesis by auto
  qed
qed

subsection \<open>Properties\<close>

definition startPort :: portContext_t where
  "startPort = \<lparr>portNumber = 0, pCallbacks = [azapStartedCb], defaultChannel = 0x800, deviceType = 0, resetHanAtReboot = False,
     deviceIeee = replicate 8 0, shortAddr = 0, panIdExt = replicate 8 0, panId = 0,
     zstackVersion = [], deviceFd = 3, rx = None,
     tx = Some (uartBufControl_t_create 96 (\<lambda>n. Some (replicate n 0))),
     startInst = None, started = True, requestManager = None,
     endPointList = [\<lparr>epId = 1, appProfId = 0x0104, appDeviceId = 7, appDevVer = 0, appNumInClusters = 1,
       appInClusterList = [0], appNumOutClusters = 1, appOutClusterList = [6]\<rparr>]\<rparr>"

definition startGlobals :: azapGlobals where
  "startGlobals = \<lparr>g_zclTransactionId = 0, azapNbZdoNotifications = 0, azapNbZdoRequestsIssued = 0, azapNbZdoRequestsCompleted = 0,
     azapNbZdoRequestsFailed = 0, azapNbZclNotifications = 0, azapNbZclRequestsIssued = 0, azapNbZclRequestsCompleted = 0,
     azapNbZclRequestsFailed = 0, cbLog = []\<rparr>"

definition startedInst :: znpStartInstance_t where
  "startedInst = \<lparr>stPortNumber = 0, state = AZAP_ZNP_WAIT_INITIAL_RESET_RESP, elapsedSecondsCurrentState = 0,
     writeParamRespExpected = 0, afRegisterEpRespExpected = 0, zdoCbRegisterRespExpected = 0,
     deviceInfoRespExpected = 0, nbCycles = 0\<rparr>"

definition znpIn_of :: "u16 \<Rightarrow> bytes \<Rightarrow> znpIn" where
  "znpIn_of cmd d = (of_nat (length d), LO_UINT16 cmd, HI_UINT16 cmd, d @ replicate (9 - length d) 0)"

text \<open>What a healthy dongle answers to the whole procedure.\<close>

definition healthyDongle :: "znpIn list" where
  "healthyDongle =
     ([znpIn_of MT_SYS_RESET_IND [0, 2, 0, 2, 4, 1]]
      @ replicate 3 (znpIn_of MT_SYS_NV_WRITE_SRSP [0])
      @ [znpIn_of MT_SYS_RESET_IND [0, 2, 0, 2, 4, 1]]
      @ [znpIn_of MT_AF_REGISTER_SRSP [0]]
      @ replicate 13 (znpIn_of MT_ZDO_MSG_CB_REGISTER_SRSP [0])
      @ [znpIn_of MT_ZDO_STARTUP_FROM_APP_SRSP [0]]
      @ replicate 3 (znpIn_of MT_SYS_NV_WRITE_SRSP [0])
      @ [znpIn_of MT_SYS_NV_READ_SRSP [0, 1, 4]]
      @ [znpIn_of MT_AF_REGISTER_SRSP [0xb8]]
      @ replicate 13 (znpIn_of MT_ZDO_MSG_CB_REGISTER_SRSP [0])
      @ [znpIn_of MT_ZDO_STARTUP_FROM_APP_SRSP [0]]
      @ [znpIn_of MT_ZDO_STATE_CHG_IND_AREQ [9]]
      @ [znpIn_of MT_SAPI_GET_DEVICE_INFO_SRSP [2, 0, 0], znpIn_of MT_SAPI_GET_DEVICE_INFO_SRSP [1, 1, 2, 3, 4, 5, 6, 7, 8],
         znpIn_of MT_SAPI_GET_DEVICE_INFO_SRSP [6, 0x34, 0x12], znpIn_of MT_SAPI_GET_DEVICE_INFO_SRSP [7, 8, 7, 6, 5, 4, 3, 2, 1]]
      @ [znpIn_of MT_SYS_NV_WRITE_SRSP [0]])"

lemma startPort_inv: "port_inv startPort"
  by (simp add: startPort_def port_inv_def tx_ok_def ep_ok_def uartBufControl_t_create_def uartBufControl_t_init_def
      uart_wf_def)

lemma startedInst_inv: "sm_inv startedInst port"
  by (simp add: startedInst_def sm_inv_def)

text \<open>The TTY sends out what is buffered before the dongle can answer.\<close>

definition tty_drained :: "portContext_t \<Rightarrow> portContext_t" where
  "tty_drained port = port\<lparr>tx := map_option (\<lambda>b. b\<lparr>bufHead := bufTail b\<rparr>) (tx port)\<rparr>"

fun sm_run_drained :: "znpIn list \<Rightarrow> smConf \<Rightarrow> smConf exec" where
  "sm_run_drained [] c = Some c"
| "sm_run_drained (m # ms) (i, port, g) = do {
     c' \<leftarrow> sm_run [m] (i, tty_drained port, g);
     sm_run_drained ms c'
   }"

text \<open>A run of the model: the procedure with one fixed dongle that answers every request with
  success, and a TTY that sends out the requests (a 96-byte buffer is then enough). It goes twice
  through the configuration, learns the addresses, stores the PAN identifier and announces success once.\<close>

lemma healthy_start_succeeds:
  "case sm_run_drained healthyDongle (Some startedInst, startPort, startGlobals) of
     Some (i, port, g) \<Rightarrow> i = None \<and> cbLog g = [StartedCb 0 True] \<and> panId port = 0x1234 \<and>
       shortAddr port = 0 \<and> deviceIeee port = [1, 2, 3, 4, 5, 6, 7, 8] \<and>
       panIdExt port = [8, 7, 6, 5, 4, 3, 2, 1] \<and> zstackVersion port = ''2.4.1-002_000'' \<and> startInst port = None
   | None \<Rightarrow> False"
  by code_simp

text \<open>C8: on any message the machine ends its step without touching memory it does not own,
  keeps its invariant (the counters of expected answers never run below one in the state that
  waits for them, so none wraps around), announces the end of the procedure at most once and
  success only from the last state; the awaited message brings the procedure strictly nearer to
  its end, and no message takes it back by more than the re-emission of the parameters.\<close>

theorem start_message_step:
  assumes "port_inv port" "9 \<le> length d" "sm_inv This port"
  shows "\<exists>r. znpStartInstance_t_processZnpMsg len cmd0 cmd1 (Some d) This port g = Some r \<and>
           step_ok (awaited (state This) (BUILD_UINT16 cmd0 cmd1) (d ! 0)) This port g r"
  using assms by (rule processZnpMsg_ok)

theorem start_message_step_witness:
  "\<exists>r. znpStartInstance_t_processZnpMsg 6 0x41 0x80 (Some (replicate 9 0)) startedInst startPort startGlobals = Some r \<and>
     step_ok (awaited (state startedInst) (BUILD_UINT16 0x41 0x80) (replicate 9 0 ! 0)) startedInst startPort startGlobals r"
  using start_message_step [OF startPort_inv _ startedInst_inv, of "replicate 9 0" 6 "0x41" "0x80" startGlobals] by simp

text \<open>C9: in every state reachable from \<open>start\<close> by messages and watchdog ticks the port is usable;
  while the procedure runs its invariant holds and nothing has been announced, and once it is
  over the instance is gone from the port and the end has been announced exactly once.\<close>

theorem start_reachable_safe:
  assumes "sm_reach port0 g0 (i, port, g)" "port_inv port0"
  shows "port_inv port \<and> portNumber port = portNumber port0 \<and>
     (case i of
        None \<Rightarrow> startInst port = None \<and> (\<exists>s. cbLog g = cbLog g0 @ [StartedCb (portNumber port0) s])
      | Some This \<Rightarrow> sm_inv This port \<and> cbLog g = cbLog g0)"
  using sm_reach_inv [OF assms] by simp

theorem start_reachable_safe_witness:
  "\<exists>i port g. sm_reach startPort startGlobals (i, port, g) \<and> port_inv port \<and> i \<noteq> None"
proof -
  obtain T where T: "new_znpStartInstance_t True (portNumber startPort) = Some T"
    by (simp add: new_znpStartInstance_t_def)
  obtain b where b: "znpStartInstance_t_start T startPort
      = Some (znpStartInstance_t_setState AZAP_ZNP_WAIT_INITIAL_RESET_RESP (T\<lparr>nbCycles := 0\<rparr>), startPort\<lparr>tx := Some b\<rparr>)"
    using start_total [OF startPort_inv] by blast
  from start_reachable_safe [OF sm_start [OF T b] startPort_inv] sm_start [OF T b] show ?thesis by blast
qed

text \<open>C29: the procedure ends. As long as each message is the one the machine waits for, it is
  over, and announced, after at most as many messages as its rank (below 13005) plus one, whatever
  the status bytes and payloads they carry.\<close>

theorem start_procedure_ends:
  assumes "port_inv port" "sm_inv This port" "all_awaited ms (Some This, port, g)" "sm_rank This < length ms"
  shows "\<exists>port' g' s. sm_run ms (Some This, port, g) = Some (None, port', g') \<and> startInst port' = None \<and>
     cbLog g' = cbLog g @ [StartedCb (portNumber port) s]"
  using assms by (rule sm_run_ends)

definition lastInst :: znpStartInstance_t where
  "lastInst = startedInst\<lparr>state := AZAP_ZNP_WAIT_WRITE_PAN_ID, nbCycles := 1\<rparr>"

definition lastMsgs :: "znpIn list" where
  "lastMsgs = [(1, 0x61, 0x09, replicate 9 0), (1, 0x61, 0x09, replicate 9 0)]"

theorem start_procedure_ends_witness:
  "\<exists>port' g' s. sm_run lastMsgs (Some lastInst, startPort, startGlobals) = Some (None, port', g') \<and>
     startInst port' = None \<and> cbLog g' = cbLog startGlobals @ [StartedCb (portNumber startPort) s]"
proof -
  have "sm_inv lastInst startPort" "sm_rank lastInst < length lastMsgs"
    by (simp_all add: lastInst_def lastMsgs_def sm_inv_def sm_rank_def)
  moreover have "all_awaited lastMsgs (Some lastInst, startPort, startGlobals)"
    by (simp add: lastMsgs_def lastInst_def awaited_def znpStartInstance_t_processZnpMsg_def processWaitWritePanId_def
        portContext_t_doStartZnpCompletion_def azapProcessStartedCb_def Let_def MT_SYS_NV_WRITE_SRSP_def BUILD_UINT16_def)
  ultimately show ?thesis
    by (intro start_procedure_ends [OF startPort_inv])
qed

text \<open>The watchdog restarts a procedure whose state has not changed for 100 ticks, and only
  then: it sends the reset again and goes back to waiting for the first reset indication, in
  the first cycle.\<close>

theorem watchdog_restarts:
  assumes "port_inv port" "elapsedSecondsCurrentState This < 255"
  shows "\<exists>port'. znpStartInstance_t_watchdog This port =
     Some (if 99 \<le> elapsedSecondsCurrentState This
           then This\<lparr>state := AZAP_ZNP_WAIT_INITIAL_RESET_RESP, nbCycles := 0, elapsedSecondsCurrentState := 0\<rparr>
           else This\<lparr>elapsedSecondsCurrentState := elapsedSecondsCurrentState This + 1\<rparr>, port') \<and> port_inv port'"
proof -
  let ?T = "This\<lparr>elapsedSecondsCurrentState := elapsedSecondsCurrentState This + 1\<rparr>"
  obtain b where b: "znpStartInstance_t_start ?T port
      = Some (znpStartInstance_t_setState AZAP_ZNP_WAIT_INITIAL_RESET_RESP (?T\<lparr>nbCycles := 0\<rparr>), port\<lparr>tx := Some b\<rparr>)" "uart_wf b"
    using start_total [OF assms(1)] by blast
  have "unat (elapsedSecondsCurrentState This + 1) = unat (elapsedSecondsCurrentState This) + 1"
    using assms(2) by (subst unat_add_u8) (simp_all add: word_less_nat_alt)
  then have "(elapsedSecondsCurrentState This + 1 \<ge> 100) = (99 \<le> elapsedSecondsCurrentState This)"
    by (simp add: word_le_nat_alt)
  with b assms(1) show ?thesis
    by (auto simp: znpStartInstance_t_watchdog_def znpStartInstance_t_setState_def Let_def)
qed

theorem watchdog_restarts_witness:
  "\<exists>port'. znpStartInstance_t_watchdog (lastInst\<lparr>elapsedSecondsCurrentState := 99\<rparr>) startPort = Some (startedInst, port')"
  using watchdog_restarts [OF startPort_inv, of "lastInst\<lparr>elapsedSecondsCurrentState := 99\<rparr>"]
  by (auto simp: lastInst_def startedInst_def)

end
