(* ===== verification/Azap_Api_Impl.thy ===== *)
theory Azap_Api_Impl
  imports Request_Manager
begin

section \<open>Delivery of incoming messages (azap\_api\_impl.c)\<close>

text \<open>
  The functions that parse the payload of a ZDO or ZCL message, take the matching request off the
  pending list and call the API callback. Each is one definition; the tail they share (take the
  request off, call back with its issuer's context, free it) is \<open>complete_request\<close>.
  \<open>mallocOk\<close> says whether the allocations of the parsers succeed, \<open>junk\<close> is what freshly
  allocated or uninitialised memory holds. \<open>PROCESS_CALL_BACK_NOT_FOUND\<close> is \<open>cb_guard\<close>. The
  lemmas show that every delivery ends inside the payload and has the effect \<open>delivers\<close>.
\<close>

type_synonym cbRes = "(portContext_t \<times> azapGlobals) exec"

definition STATUS_CODE_SUCCESS :: u8 where [const_defs]: "STATUS_CODE_SUCCESS = 0x00"
definition ZDO_RTG_ADDR_MODE_16BIT :: u8 where [const_defs]: "ZDO_RTG_ADDR_MODE_16BIT = 0x01"

definition cb_guard :: "portContext_t \<Rightarrow> azapCallback \<Rightarrow> u8 \<Rightarrow> u8 \<Rightarrow> u8 \<Rightarrow> bool" where
  "cb_guard port cb len minSize maxSize =
     (\<not> (len < minSize \<or> len > maxSize) \<and> cb \<in> set (pCallbacks port))"

definition callback :: "azapEvent \<Rightarrow> azapGlobals \<Rightarrow> azapGlobals" where
  "callback ev g = g\<lparr>cbLog := cbLog g @ [ev]\<rparr>"

definition complete_request ::
    "portContext_t \<Rightarrow> AZAP_REQUEST_TYPE \<Rightarrow> u16 \<Rightarrow> u16 \<Rightarrow> u8 \<Rightarrow> u8 \<Rightarrow> (nat option \<Rightarrow> azapEvent) \<Rightarrow>
     azapGlobals \<Rightarrow> cbRes" where
  "complete_request port type srcAddr clusterId ep code mkEvent g = do {
     rm \<leftarrow> requestManager port;
     let (context, rm') = requestManager_t_removePending rm srcAddr type clusterId ep code;
     Some (port\<lparr>requestManager := Some rm'\<rparr>,
           callback (mkEvent (map_option issuerContext context)) g)
   }"

subsection \<open>SAPI and device announcements\<close>

text \<open>The length guard of \<open>azapProcessSapiFindDeviceConfCb\<close> tests the device announce callback,
  and calls another one: calling it when it is not set is undefined.\<close>

definition azapProcessSapiFindDeviceConfCb ::
    "bytes \<Rightarrow> portContext_t \<Rightarrow> u16 \<Rightarrow> u8 \<Rightarrow> bytes option \<Rightarrow> azapGlobals \<Rightarrow> cbRes" where
  "azapProcessSapiFindDeviceConfCb junk port srcAddr len data g =
    (if \<not> cb_guard port azapZdpDeviceAnnceCb len 0x0B 0x0B then Some (port, g)
     else do {
       (searchType, data, len) \<leftarrow> parseUint8AndShift data len;
       (nwkAddr, data, len) \<leftarrow> parseUint16AndShift data len;
       (ieeeAddr, data, len) \<leftarrow> parseExtAddrAndShift (Some junk) data len;
       if azapSapiFindDeviceConfCb \<notin> set (pCallbacks port) then None
       else do { addr \<leftarrow> ieeeAddr; Some (port, callback (SapiFindDeviceConfCb nwkAddr addr) g) }
     })"

definition azapProcessZdoDeviceAnnceCb ::
    "bytes \<Rightarrow> portContext_t \<Rightarrow> u16 \<Rightarrow> u8 \<Rightarrow> bytes option \<Rightarrow> azapGlobals \<Rightarrow> cbRes" where
  "azapProcessZdoDeviceAnnceCb junk port srcAddr len data g =
    (if \<not> cb_guard port azapZdpDeviceAnnceCb len 0x0B 0x0B then Some (port, g)
     else do {
       (nwkAddrSrc, data, len) \<leftarrow> parseUint16AndShift data len;
       (ieeeAddr, data, len) \<leftarrow> parseExtAddrAndShift (Some junk) data len;
       (capabilities, data, len) \<leftarrow> parseUint8AndShift data len;
       addr \<leftarrow> ieeeAddr;
       Some (port, callback (ZdpDeviceAnnceCb nwkAddrSrc addr
               (capabilities AND 0x01) (drop_bit 1 (capabilities AND 0x02))
               (drop_bit 2 (capabilities AND 0x04)) (drop_bit 3 (capabilities AND 0x08))
               (drop_bit 6 (capabilities AND 0x40)) (drop_bit 7 (capabilities AND 0x80))) g)
     })"

subsection \<open>ZDO responses\<close>

definition azapProcessZdoNwkAddrRspCb ::
    "bool \<Rightarrow> portContext_t \<Rightarrow> u16 \<Rightarrow> u8 \<Rightarrow> bytes option \<Rightarrow> azapGlobals \<Rightarrow> cbRes" where
  "azapProcessZdoNwkAddrRspCb mallocOk port srcAddr len data g =
    (if \<not> cb_guard port azapZdpNwkAddrRspCb len 0x0C 0x52 then Some (port, g)
     else do {
       (status, data, len) \<leftarrow> parseUint8AndShift data len;
       (ieeeAddr, nwkAddr, startIndex, numAssocDev, assocList) \<leftarrow>
         (if status = STATUS_CODE_SUCCESS
          then do {
            (ieeeAddr, data, len) \<leftarrow> parseExtAddrAndShift (Some (replicate IEEE_ADDR_LEN 0)) data len;
            (nwkAddr, data, len) \<leftarrow> parseUint16AndShift data len;
            (startIndex, data, len) \<leftarrow> parseUint8AndShift data len;
            (numAssocDev, data, len) \<leftarrow> parseUint8AndShift data len;
            (assocList, data, len) \<leftarrow> parseUint16ArrayAndShift mallocOk data numAssocDev len;
            addr \<leftarrow> ieeeAddr;
            Some (addr, nwkAddr, startIndex, numAssocDev, assocList)
          }
          else Some (replicate IEEE_ADDR_LEN 0, 0, 0, 0, None));
       complete_request port AZAP_ZDO_NWK_ADDR_REQ srcAddr 0 0 0
         (\<lambda>ctx. ZdpNwkAddrRspCb ctx srcAddr status ieeeAddr nwkAddr numAssocDev startIndex assocList) g
     })"

definition azapProcessZdoIeeeAddrRspCb ::
    "bool \<Rightarrow> portContext_t \<Rightarrow> u16 \<Rightarrow> u8 \<Rightarrow> bytes option \<Rightarrow> azapGlobals \<Rightarrow> cbRes" where
  "azapProcessZdoIeeeAddrRspCb mallocOk port srcAddr len data g =
    (if \<not> cb_guard port azapZdpIeeeAddrRspCb len 0x0B 0x52 then Some (port, g)
     else do {
       (status, data, len) \<leftarrow> parseUint8AndShift data len;
       (ieeeAddr, nwkAddr, startIndex, numAssocDev, assocList) \<leftarrow>
         (if status = STATUS_CODE_SUCCESS
          then do {
            (ieeeAddr, data, len) \<leftarrow> parseExtAddrAndShift (Some (replicate IEEE_ADDR_LEN 0)) data len;
            (nwkAddr, data, len) \<leftarrow> parseUint16AndShift data len;
            (numAssocDev, data, len) \<leftarrow> parseUint8AndShift data len;
            (startIndex, data, len) \<leftarrow> parseUint8AndShift data len;
            (assocList, data, len) \<leftarrow> parseUint16ArrayAndShift mallocOk data numAssocDev len;
            addr \<leftarrow> ieeeAddr;
            Some (addr, nwkAddr, startIndex, numAssocDev, assocList)
          }
          else Some (replicate IEEE_ADDR_LEN 0, 0, 0, 0, None));
       complete_request port AZAP_ZDO_IEEE_ADDR_REQ srcAddr 0 0 0
         (\<lambda>ctx. ZdpIeeeAddrRspCb ctx srcAddr status ieeeAddr nwkAddr numAssocDev startIndex assocList) g
     })"

definition nodeDesc_parse :: "bytes option \<Rightarrow> u8 \<Rightarrow> ((u16 \<times> zdoNodeDesc) \<times> bytes option \<times> u8) exec" where
  "nodeDesc_parse data len = do {
     (nwkAddr, data, len) \<leftarrow> parseUint16AndShift data len;
     (b1, data, len) \<leftarrow> parseUint8AndShift data len;
     (b2, data, len) \<leftarrow> parseUint8AndShift data len;
     (mac, data, len) \<leftarrow> parseUint8AndShift data len;
     (manu, data, len) \<leftarrow> parseUint16AndShift data len;
     (bufSize, data, len) \<leftarrow> parseUint8AndShift data len;
     (inSize, data, len) \<leftarrow> parseUint16AndShift data len;
     (server, data, len) \<leftarrow> parseUint16AndShift data len;
     (outSize, data, len) \<leftarrow> parseUint16AndShift data len;
     (cap, data, len) \<leftarrow> parseUint8AndShift data len;
     Some ((nwkAddr,
       \<lparr>logicalType = b1 AND 0x07, complexDescriptorAvailable = drop_bit 4 (b1 AND 0x10),
        userDescriptorAvailable = drop_bit 5 (b1 AND 0xE0), apsFlags = b2 AND 0x1F,
        frequencyBand = drop_bit 5 (b2 AND 0xE0), macCapabilityFlags = mac,
        ndManufacturerCode = manu, maximumBufferSize = bufSize,
        maximumIncomingTransferSize = inSize, serverMask = server,
        maximumOutgoingTransferSize = outSize, descriptorCapabilityField = cap\<rparr>), data, len)
   }"

definition noNodeDesc :: zdoNodeDesc where
  "noNodeDesc = \<lparr>logicalType = 0, complexDescriptorAvailable = 0, userDescriptorAvailable = 0,
     apsFlags = 0, frequencyBand = 0, macCapabilityFlags = 0, ndManufacturerCode = 0,
     maximumBufferSize = 0, maximumIncomingTransferSize = 0, serverMask = 0,
     maximumOutgoingTransferSize = 0, descriptorCapabilityField = 0\<rparr>"

definition azapProcessZdoNodeDescRspCb ::
    "portContext_t \<Rightarrow> u16 \<Rightarrow> u8 \<Rightarrow> bytes option \<Rightarrow> azapGlobals \<Rightarrow> cbRes" where
  "azapProcessZdoNodeDescRspCb port srcAddr len data g =
    (if \<not> cb_guard port azapZdpNodeDescRspCb len 0x10 0x10 then Some (port, g)
     else do {
       (status, data, len) \<leftarrow> parseUint8AndShift data len;
       ((nwkAddr, desc), data, len) \<leftarrow>
         (if status = STATUS_CODE_SUCCESS then nodeDesc_parse data len
          else Some ((0, noNodeDesc), data, len));
       complete_request port AZAP_ZDO_NODE_DESC_REQ srcAddr 0 0 0
         (\<lambda>ctx. ZdpNodeDescRspCb ctx srcAddr status nwkAddr desc) g
     })"

definition azapProcessZdoPowerDescRspCb ::
    "portContext_t \<Rightarrow> u16 \<Rightarrow> u8 \<Rightarrow> bytes option \<Rightarrow> azapGlobals \<Rightarrow> cbRes" where
  "azapProcessZdoPowerDescRspCb port srcAddr len data g =
    (if \<not> cb_guard port azapZdpPowerDescRspCb len 0x05 0x05 then Some (port, g)
     else do {
       (status, data, len) \<leftarrow> parseUint8AndShift data len;
       (nwkAddr, b1, b2) \<leftarrow>
         (if status = STATUS_CODE_SUCCESS
          then do {
            (nwkAddr, data, len) \<leftarrow> parseUint16AndShift data len;
            (b1, data, len) \<leftarrow> parseUint8AndShift data len;
            (b2, data, len) \<leftarrow> parseUint8AndShift data len;
            Some (nwkAddr, b1, b2)
          }
          else Some (0, 0, 0));
       complete_request port AZAP_ZDO_POWER_DESC_REQ srcAddr 0 0 0
         (\<lambda>ctx. ZdpPowerDescRspCb ctx srcAddr status nwkAddr (b1 AND 0x0F) (drop_bit 4 (b1 AND 0xF0))
                  (b2 AND 0x0F) (drop_bit 4 (b2 AND 0xF0))) g
     })"

definition simpleDesc_parse ::
    "bool \<Rightarrow> bytes option \<Rightarrow> u8 \<Rightarrow> ((u16 \<times> zdoSimpleDesc) \<times> bytes option \<times> u8) exec" where
  "simpleDesc_parse mallocOk data len = do {
     (nwkAddr, data, len) \<leftarrow> parseUint16AndShift data len;
     (simpleDescLen, data, len) \<leftarrow> parseUint8AndShift data len;
     (endPointId, data, len) \<leftarrow> parseUint8AndShift data len;
     (profileId, data, len) \<leftarrow> parseUint16AndShift data len;
     (deviceId, data, len) \<leftarrow> parseUint16AndShift data len;
     (deviceVersion, data, len) \<leftarrow> parseUint8AndShift data len;
     (numIn, data, len) \<leftarrow> parseUint8AndShift data len;
     (inList, data, len) \<leftarrow> parseUint16ArrayAndShift mallocOk data numIn len;
     (numOut, data, len) \<leftarrow> parseUint8AndShift data len;
     (outList, data, len) \<leftarrow> parseUint16ArrayAndShift mallocOk data numOut len;
     Some ((nwkAddr, \<lparr>sdEndPointId = endPointId, sdProfileId = profileId, sdDeviceId = deviceId,
              sdDeviceVersion = deviceVersion, sdNumInClusters = numIn, sdInClusterList = inList,
              sdNumOutClusters = numOut, sdOutClusterList = outList\<rparr>), data, len)
   }"

definition azapProcessZdoSimpleDescRspCb ::
    "bool \<Rightarrow> portContext_t \<Rightarrow> u16 \<Rightarrow> u8 \<Rightarrow> bytes option \<Rightarrow> azapGlobals \<Rightarrow> cbRes" where
  "azapProcessZdoSimpleDescRspCb mallocOk port srcAddr len data g =
    (if \<not> cb_guard port azapZdpSimpleDescRspCb len 0x04 0x4C then Some (port, g)
     else do {
       (status, data, len) \<leftarrow> parseUint8AndShift data len;
       ((nwkAddr, desc), data, len) \<leftarrow>
         (if status = STATUS_CODE_SUCCESS then simpleDesc_parse mallocOk data len
          else Some ((0, \<lparr>sdEndPointId = 0, sdProfileId = 0, sdDeviceId = 0, sdDeviceVersion = 0,
                   sdNumInClusters = 0, sdInClusterList = None, sdNumOutClusters = 0,
                   sdOutClusterList = None\<rparr>), data, len));
       complete_request port AZAP_ZDO_SIMPLE_DESC_REQ srcAddr 0 (sdEndPointId desc) 0
         (\<lambda>ctx. ZdpSimpleDescRspCb ctx srcAddr status nwkAddr desc) g
     })"

definition azapProcessZdoActiveEPRspCb ::
    "bool \<Rightarrow> portContext_t \<Rightarrow> u16 \<Rightarrow> u8 \<Rightarrow> bytes option \<Rightarrow> azapGlobals \<Rightarrow> cbRes" where
  "azapProcessZdoActiveEPRspCb mallocOk port srcAddr len data g =
    (if \<not> cb_guard port azapZdpActiveEPRspCb len 0x04 0x51 then Some (port, g)
     else do {
       (status, data, len) \<leftarrow> parseUint8AndShift data len;
       (nwkAddr, activeEpCount, activeEpList) \<leftarrow>
         (if status = STATUS_CODE_SUCCESS
          then do {
            (nwkAddr, data, len) \<leftarrow> parseUint16AndShift data len;
            (activeEpCount, data, len) \<leftarrow> parseUint8AndShift data len;
            (activeEpList, data, len) \<leftarrow> parseUint8ArrayAndShift mallocOk data activeEpCount len;
            Some (nwkAddr, activeEpCount, activeEpList)
          }
          else Some (0, 0, None));
       complete_request port AZAP_ZDO_ACTIVE_EP_REQ srcAddr 0 0 0
         (\<lambda>ctx. ZdpActiveEPRspCb ctx srcAddr status nwkAddr activeEpCount activeEpList) g
     })"

definition azapProcessZdoBindRspCb ::
    "portContext_t \<Rightarrow> u16 \<Rightarrow> u8 \<Rightarrow> bytes option \<Rightarrow> azapGlobals \<Rightarrow> cbRes" where
  "azapProcessZdoBindRspCb port srcAddr len data g =
    (if \<not> cb_guard port azapZdpBindRspCb len 0x01 0x01 then Some (port, g)
     else do {
       (status, data, len) \<leftarrow> parseUint8AndShift data len;
       complete_request port AZAP_ZDO_BIND_REQ srcAddr 0 0 0 (\<lambda>ctx. ZdpBindRspCb ctx srcAddr status) g
     })"

definition azapProcessZdoUnbindRspCb ::
    "portContext_t \<Rightarrow> u16 \<Rightarrow> u8 \<Rightarrow> bytes option \<Rightarrow> azapGlobals \<Rightarrow> cbRes" where
  "azapProcessZdoUnbindRspCb port srcAddr len data g =
    (if \<not> cb_guard port azapZdpUnbindRspCb len 0x01 0x01 then Some (port, g)
     else do {
       (status, data, len) \<leftarrow> parseUint8AndShift data len;
       complete_request port AZAP_ZDO_UNBIND_REQ srcAddr 0 0 0 (\<lambda>ctx. ZdpUnbindRspCb ctx srcAddr status) g
     })"

definition rtgEntry_parse :: "bytes option \<Rightarrow> u8 \<Rightarrow> (zdoRtgEntry_t \<times> bytes option \<times> u8) exec" where
  "rtgEntry_parse data len = do {
     (dst, data, len) \<leftarrow> parseUint16AndShift data len;
     (st, data, len) \<leftarrow> parseUint8AndShift data len;
     (hop, data, len) \<leftarrow> parseUint16AndShift data len;
     Some (\<lparr>rtgDstAddress = dst, rtgStatus = st, rtgNextHopAddress = hop\<rparr>, data, len)
   }"

text \<open>A failed allocation of a table of no entries goes unnoticed; writing into it is undefined.\<close>

definition azapProcessZdoMgmtRtgRspCb ::
    "bool \<Rightarrow> portContext_t \<Rightarrow> u16 \<Rightarrow> u8 \<Rightarrow> bytes option \<Rightarrow> azapGlobals \<Rightarrow> cbRes" where
  "azapProcessZdoMgmtRtgRspCb mallocOk port srcAddr len data g =
    (if \<not> cb_guard port azapZdpMgmtRtgRspCb len 0x04 0x4F then Some (port, g)
     else do {
       (status, data, len) \<leftarrow> parseUint8AndShift data len;
       (entries, startIndex, listCount, tableList) \<leftarrow>
         (if status = STATUS_CODE_SUCCESS
          then do {
            (entries, data, len) \<leftarrow> parseUint8AndShift data len;
            (startIndex, data, len) \<leftarrow> parseUint8AndShift data len;
            (listCount, data, len) \<leftarrow> parseUint8AndShift data len;
            (tableList, data, len) \<leftarrow>
              (if \<not> mallocOk \<and> listCount > 0 then None
               else parse_loop rtgEntry_parse (unat listCount) data len);
            Some (entries, startIndex, listCount, if mallocOk then Some tableList else None)
          }
          else Some (0, 0, 0, None));
       complete_request port AZAP_ZDO_MGMT_RTG_REQ srcAddr 0 0 0
         (\<lambda>ctx. ZdpMgmtRtgRspCb ctx srcAddr status entries startIndex listCount tableList) g
     })"

definition bindEntry_parse :: "bytes \<Rightarrow> bytes option \<Rightarrow> u8 \<Rightarrow> (zdoBindEntry_t \<times> bytes option \<times> u8) exec" where
  "bindEntry_parse junk data len = do {
     (src, data, len) \<leftarrow> parseExtAddrAndShift (Some junk) data len;
     src \<leftarrow> src;
     (srcEp, data, len) \<leftarrow> parseUint8AndShift data len;
     (cluster, data, len) \<leftarrow> parseUint16AndShift data len;
     (mode, data, len) \<leftarrow> parseUint8AndShift data len;
     if ZDO_RTG_ADDR_MODE_16BIT = mode
     then do {
       (short, data, len) \<leftarrow> parseUint16AndShift data len;
       Some (\<lparr>beSrcAddr = src, beSrcEndPoint = srcEp, beClusterId = cluster, beAddrMode = mode,
              beDstAddr = ShortAddr short, beDstEndPoint = None\<rparr>, data, len)
     }
     else do {
       (ext, data, len) \<leftarrow> parseExtAddrAndShift (Some junk) data len;
       ext \<leftarrow> ext;
       (dstEp, data, len) \<leftarrow> parseUint8AndShift data len;
       Some (\<lparr>beSrcAddr = src, beSrcEndPoint = srcEp, beClusterId = cluster, beAddrMode = mode,
              beDstAddr = ExtAddr ext, beDstEndPoint = Some dstEp\<rparr>, data, len)
     }
   }"

definition azapProcessZdoMgmtBindRspCb ::
    "bool \<Rightarrow> bytes \<Rightarrow> portContext_t \<Rightarrow> u16 \<Rightarrow> u8 \<Rightarrow> bytes option \<Rightarrow> azapGlobals \<Rightarrow> cbRes" where
  "azapProcessZdoMgmtBindRspCb mallocOk junk port srcAddr len data g =
    (if \<not> cb_guard port azapZdpMgmtBindRspCb len 0x04 0x4F then Some (port, g)
     else do {
       (status, data, len) \<leftarrow> parseUint8AndShift data len;
       (entries, startIndex, listCount, tableList) \<leftarrow>
         (if status = STATUS_CODE_SUCCESS
          then do {
            (entries, data, len) \<leftarrow> parseUint8AndShift data len;
            (startIndex, data, len) \<leftarrow> parseUint8AndShift data len;
            (listCount, data, len) \<leftarrow> parseUint8AndShift data len;
            (tableList, data, len) \<leftarrow>
              (if \<not> mallocOk \<and> listCount > 0 then None
               else parse_loop (bindEntry_parse junk) (unat listCount) data len);
            Some (entries, startIndex, listCount, if mallocOk then Some tableList else None)
          }
          else Some (0, 0, 0, None));
       complete_request port AZAP_ZDO_MGMT_BIND_REQ srcAddr 0 0 0
         (\<lambda>ctx. ZdpMgmtBindRspCb ctx srcAddr status entries startIndex listCount tableList) g
     })"

definition azapProcessZdoMgmtPermitJoinRspCb ::
    "portContext_t \<Rightarrow> u16 \<Rightarrow> u8 \<Rightarrow> bytes option \<Rightarrow> azapGlobals \<Rightarrow> cbRes" where
  "azapProcessZdoMgmtPermitJoinRspCb port srcAddr len data g =
    (if \<not> cb_guard port azapZdpMgmtPermitJoinRspCb len 0x01 0x01 then Some (port, g)
     else do {
       (status, data, len) \<leftarrow> parseUint8AndShift data len;
       complete_request port AZAP_ZDO_MGMT_PERMIT_JOIN_REQ srcAddr 0 0 0
         (\<lambda>ctx. ZdpMgmtPermitJoinRspCb ctx srcAddr status) g
     })"

definition azapProcessZdoMgmtLeaveRspCb ::
    "portContext_t \<Rightarrow> u16 \<Rightarrow> u8 \<Rightarrow> bytes option \<Rightarrow> azapGlobals \<Rightarrow> cbRes" where
  "azapProcessZdoMgmtLeaveRspCb port srcAddr len data g =
    (if \<not> cb_guard port azapZdpMgmtLeaveRspCb len 0x01 0x01 then Some (port, g)
     else do {
       (status, data, len) \<leftarrow> parseUint8AndShift data len;
       complete_request port AZAP_ZDO_MGMT_LEAVE_REQ srcAddr 0 0 0
         (\<lambda>ctx. ZdpMgmtLeaveRspCb ctx srcAddr status) g
     })"

subsection \<open>ZCL commands\<close>

text \<open>The length bounds of these guards are \<open>len\<close> itself.\<close>

definition azapProcessZclReadCmdRspCb ::
    "bool \<Rightarrow> portContext_t \<Rightarrow> u16 \<Rightarrow> u8 \<Rightarrow> u16 \<Rightarrow> azapZclFrameHeader_t \<Rightarrow> u8 \<Rightarrow> bytes \<Rightarrow> azapGlobals \<Rightarrow> cbRes" where
  "azapProcessZclReadCmdRspCb mallocOk port srcAddr srcEndPointId clusterId zclHdr len data g =
    (if \<not> cb_guard port azapZclReadCmdRspCb len len len then Some (port, g)
     else do {
       parsedData \<leftarrow> parseZCLReadCmdRsp mallocOk len data;
       complete_request port AZAP_ZCL_READ_CMD srcAddr clusterId srcEndPointId (commandId zclHdr)
         (\<lambda>ctx. ZclReadCmdRspCb ctx srcAddr srcEndPointId clusterId (fcDirection zclHdr)
                  (hdrManuCode zclHdr) parsedData) g
     })"

definition azapProcessZclWriteCmdRspCb ::
    "bool \<Rightarrow> portContext_t \<Rightarrow> u16 \<Rightarrow> u8 \<Rightarrow> u16 \<Rightarrow> azapZclFrameHeader_t \<Rightarrow> u8 \<Rightarrow> bytes \<Rightarrow> azapGlobals \<Rightarrow> cbRes" where
  "azapProcessZclWriteCmdRspCb mallocOk port srcAddr srcEndPointId clusterId zclHdr len data g =
    (if \<not> cb_guard port azapZclWriteCmdRspCb len len len then Some (port, g)
     else do {
       parsedData \<leftarrow> parseZCLWriteCmdRsp mallocOk len data;
       complete_request port AZAP_ZCL_WRITE_CMD srcAddr clusterId srcEndPointId (commandId zclHdr)
         (\<lambda>ctx. ZclWriteCmdRspCb ctx srcAddr srcEndPointId clusterId (fcDirection zclHdr)
                  (hdrManuCode zclHdr) parsedData) g
     })"

definition azapProcessZclConfigReportCmdRspCb ::
    "bool \<Rightarrow> portContext_t \<Rightarrow> u16 \<Rightarrow> u8 \<Rightarrow> u16 \<Rightarrow> azapZclFrameHeader_t \<Rightarrow> u8 \<Rightarrow> bytes \<Rightarrow> azapGlobals \<Rightarrow> cbRes" where
  "azapProcessZclConfigReportCmdRspCb mallocOk port srcAddr srcEndPointId clusterId zclHdr len data g =
    (if \<not> cb_guard port azapZclConfigureReportCmdRspCb len len len then Some (port, g)
     else do {
       parsedData \<leftarrow> parseZCLConfigureReportCmdRsp mallocOk len data;
       complete_request port AZAP_ZCL_CONFIGURE_REPORTING_CMD srcAddr clusterId srcEndPointId
         (commandId zclHdr)
         (\<lambda>ctx. ZclConfigureReportCmdRspCb ctx srcAddr srcEndPointId clusterId parsedData) g
     })"

definition azapProcessZclReportCmdCb ::
    "bool \<Rightarrow> portContext_t \<Rightarrow> u16 \<Rightarrow> u8 \<Rightarrow> u16 \<Rightarrow> azapZclFrameHeader_t \<Rightarrow> u8 \<Rightarrow> bytes \<Rightarrow> azapGlobals \<Rightarrow> cbRes" where
  "azapProcessZclReportCmdCb mallocOk port srcAddr srcEndPointId clusterId zclHdr len data g =
    (if \<not> cb_guard port azapZclReportCmdCb len len len then Some (port, g)
     else do {
       parsedData \<leftarrow> parseZCLReportCmd mallocOk len data;
       Some (port, callback (ZclReportCmdCb srcAddr srcEndPointId clusterId parsedData) g)
     })"

definition azapProcessZclReadReportConfigCmdRspCb ::
    "bool \<Rightarrow> portContext_t \<Rightarrow> u16 \<Rightarrow> u8 \<Rightarrow> u16 \<Rightarrow> azapZclFrameHeader_t \<Rightarrow> u8 \<Rightarrow> bytes \<Rightarrow> azapGlobals \<Rightarrow> cbRes" where
  "azapProcessZclReadReportConfigCmdRspCb mallocOk port srcAddr srcEndPointId clusterId zclHdr len data g =
    (if \<not> cb_guard port azapZclReadReportConfigCmdRspCb len len len then Some (port, g)
     else do {
       parsedData \<leftarrow> parseZCLReadReportConfigCmdRsp mallocOk len data;
       complete_request port AZAP_ZCL_READ_REPORTING_CONF_CMD srcAddr clusterId srcEndPointId
         (commandId zclHdr)
         (\<lambda>ctx. ZclReadReportConfigCmdRspCb ctx srcAddr srcEndPointId clusterId parsedData) g
     })"

definition azapProcessZclDiscoverCmdRspCb ::
    "bool \<Rightarrow> portContext_t \<Rightarrow> u16 \<Rightarrow> u8 \<Rightarrow> u16 \<Rightarrow> azapZclFrameHeader_t \<Rightarrow> u8 \<Rightarrow> bytes \<Rightarrow> azapGlobals \<Rightarrow> cbRes" where
  "azapProcessZclDiscoverCmdRspCb mallocOk port srcAddr srcEndPointId clusterId zclHdr len data g =
    (if \<not> cb_guard port azapZclDiscoverCmdRspCb len len len then Some (port, g)
     else do {
       parsedData \<leftarrow> parseZCLDiscoverRspCmd mallocOk len data;
       complete_request port AZAP_ZCL_DISCOVER_CMD srcAddr clusterId srcEndPointId (commandId zclHdr)
         (\<lambda>ctx. ZclDiscoverCmdRspCb ctx srcAddr srcEndPointId clusterId (fcDirection zclHdr) parsedData) g
     })"

definition azapProcessZclConfigReportCmdCb ::
    "bool \<Rightarrow> portContext_t \<Rightarrow> u16 \<Rightarrow> u8 \<Rightarrow> u16 \<Rightarrow> azapZclFrameHeader_t \<Rightarrow> u8 \<Rightarrow> bytes \<Rightarrow> azapGlobals \<Rightarrow> cbRes" where
  "azapProcessZclConfigReportCmdCb mallocOk port srcAddr srcEndPointId clusterId zclHdr len data g =
    (if \<not> cb_guard port azapZclConfigureReportCmdCb len len len then Some (port, g)
     else do {
       parsedData \<leftarrow> parseZCLConfigureReportCmd mallocOk len data;
       Some (port, callback (ZclConfigureReportCmdCb srcAddr srcEndPointId clusterId parsedData) g)
     })"

definition azapProcessZclIncomingCmdCb ::
    "portContext_t \<Rightarrow> u16 \<Rightarrow> u8 \<Rightarrow> u16 \<Rightarrow> azapZclFrameHeader_t \<Rightarrow> u8 \<Rightarrow> bytes \<Rightarrow> azapGlobals \<Rightarrow> cbRes" where
  "azapProcessZclIncomingCmdCb port srcAddr srcEndPointId clusterId zclHdr len data g =
    (if \<not> cb_guard port azapZclIncomingCmdCb len len len then Some (port, g)
     else complete_request port AZAP_ZCL_OUTGOING_CMD srcAddr clusterId srcEndPointId (commandId zclHdr)
            (\<lambda>ctx. ZclIncomingCmdCb ctx srcAddr srcEndPointId clusterId (commandId zclHdr) data len) g)"

subsection \<open>Readers\<close>

text \<open>\<open>reads Q f\<close>: from a cursor inside the payload, \<open>f\<close> ends with a result that satisfies \<open>Q\<close>;
  \<open>reader_ok f\<close>: it moreover leaves its cursor inside the payload. The rules follow the
  structure of the code.\<close>

definition reads :: "('r \<Rightarrow> bool) \<Rightarrow> (bytes option \<Rightarrow> u8 \<Rightarrow> 'r exec) \<Rightarrow> bool" where
  "reads Q f = (\<forall>data n. cur_ok data n \<longrightarrow> (\<exists>r. f data n = Some r \<and> Q r))"

definition reader_ok :: "(bytes option \<Rightarrow> u8 \<Rightarrow> ('a \<times> bytes option \<times> u8) exec) \<Rightarrow> bool" where
  "reader_ok f = reads (\<lambda>(x, data, n). cur_ok data n) f"

lemma readsI: "(\<And>data n. cur_ok data n \<Longrightarrow> \<exists>r. f data n = Some r \<and> Q r) \<Longrightarrow> reads Q f"
  by (simp add: reads_def)

lemma readsD: "reads Q f \<Longrightarrow> cur_ok data n \<Longrightarrow> \<exists>r. f data n = Some r \<and> Q r"
  by (simp add: reads_def)

lemma reads_mono: "reads Q f \<Longrightarrow> (\<And>r. Q r \<Longrightarrow> Q' r) \<Longrightarrow> reads Q' f"
  unfolding reads_def by blast

lemma reads_bind:
  assumes "reader_ok f" "\<And>x. reads Q (h x)"
  shows "reads Q (\<lambda>data n. f data n \<bind> (\<lambda>(x, data', n'). h x data' n'))"
  using assms unfolding reads_def reader_ok_def by fastforce

lemma reads_val:
  assumes "reads (\<lambda>_. True) f" "\<And>y. \<exists>r. k y = Some r \<and> Q r"
  shows "reads Q (\<lambda>data n. f data n \<bind> k)"
  using assms unfolding reads_def by fastforce

lemma reads_if:
  "(c \<Longrightarrow> reads Q f) \<Longrightarrow> (\<not> c \<Longrightarrow> reads Q h) \<Longrightarrow> reads Q (\<lambda>data n. if c then f data n else h data n)"
  by (cases c) simp_all

lemma reads_return: "Q r \<Longrightarrow> reads Q (\<lambda>data n. Some r)"
  by (simp add: reads_def)

lemma reads_lunit: "reads Q (h a) \<Longrightarrow> reads Q (\<lambda>data n. Some a \<bind> (\<lambda>x. h x data n))"
  by simp

lemma reads_reader: "reader_ok f \<Longrightarrow> reads (\<lambda>_. True) f"
  unfolding reader_ok_def by (erule reads_mono) simp

lemma reads_ext:
  assumes "length dst = 8" "\<And>a. length a = 8 \<Longrightarrow> reads Q (h (Some a))"
  shows "reads Q (\<lambda>data n. parseExtAddrAndShift (Some dst) data n \<bind> (\<lambda>(x, data', n'). h x data' n'))"
proof (rule readsI)
  fix data n
  assume c: "cur_ok data n"
  obtain a data' n' where "parseExtAddrAndShift (Some dst) data n = Some (Some a, data', n')"
    "length a = 8" "cur_ok data' n'"
  proof (cases "data = None \<or> n < 8")
    case True
    with c assms(1) that [of dst data n] show ?thesis
      by (auto simp: parseExtAddrAndShift_def split: option.splits)
  next
    case False
    then obtain p where p: "data = Some p" "8 \<le> unat n" by (auto simp: word_less_nat_alt)
    with c have l: "8 \<le> length p" by (simp add: cur_ok_def)
    with p c assms(1) that show ?thesis
      using parseExt_append [OF p(2), of "take 8 p" dst "drop 8 p"] unat_diff_u8 [of 8 n]
      by (simp add: cur_ok_def)
  qed
  with readsD [OF assms(2)] show "\<exists>r. parseExtAddrAndShift (Some dst) data n \<bind> (\<lambda>(x, data', n'). h x data' n') = Some r \<and> Q r"
    by auto
qed

lemma reader_ok_bind:
  "reader_ok f \<Longrightarrow> (\<And>x. reader_ok (h x)) \<Longrightarrow> reader_ok (\<lambda>data n. f data n \<bind> (\<lambda>(x, data', n'). h x data' n'))"
  using reads_bind [of f _ h] by (simp add: reader_ok_def)

lemma reader_ok_ext:
  "length dst = 8 \<Longrightarrow> (\<And>a. length a = 8 \<Longrightarrow> reader_ok (h (Some a))) \<Longrightarrow>
   reader_ok (\<lambda>data n. parseExtAddrAndShift (Some dst) data n \<bind> (\<lambda>(x, data', n'). h x data' n'))"
  unfolding reader_ok_def by (rule reads_ext)

lemma reader_ok_return: "reader_ok (\<lambda>data n. Some (x, data, n))"
  by (simp add: reader_ok_def reads_def)

lemma reader_ok_lunit: "reader_ok (h a) \<Longrightarrow> reader_ok (\<lambda>data n. Some a \<bind> (\<lambda>x. h x data n))"
  by simp

lemma reader_ok_if:
  "(c \<Longrightarrow> reader_ok f) \<Longrightarrow> (\<not> c \<Longrightarrow> reader_ok h) \<Longrightarrow> reader_ok (\<lambda>data n. if c then f data n else h data n)"
  by (cases c) simp_all

lemma reader_ok8: "reader_ok parseUint8AndShift"
  using parse8_total by (fastforce simp: reader_ok_def reads_def)

lemma reader_ok16: "reader_ok parseUint16AndShift"
  using parse16_total by (fastforce simp: reader_ok_def reads_def)

lemma reader_ok_loop: "reader_ok f \<Longrightarrow> reader_ok (parse_loop f k)"
proof (induction k)
  case 0
  then show ?case by (simp add: reader_ok_def reads_def)
next
  case (Suc k)
  then have "reader_ok (\<lambda>data n. f data n \<bind> (\<lambda>(x, data1, n1). parse_loop f k data1 n1 \<bind>
      (\<lambda>(xs, data2, n2). Some (x # xs, data2, n2))))"
    by (intro reader_ok_bind reader_ok_return) simp_all
  then show ?case by simp
qed

lemma reader_ok_array16: "reader_ok (\<lambda>data n. parseUint16ArrayAndShift True data num n)"
  using reader_ok_loop [OF reader_ok16, of "unat num"]
  by (fastforce simp: reader_ok_def reads_def parseUint16ArrayAndShift_def split: option.splits)

lemma reader_ok_array8: "reader_ok (\<lambda>data n. parseUint8ArrayAndShift True data num n)"
  using reader_ok_loop [OF reader_ok8, of "unat num"]
  by (fastforce simp: reader_ok_def reads_def parseUint8ArrayAndShift_def split: option.splits)

lemmas reader_intros = reader_ok_lunit reader_ok8 reader_ok16 reader_ok_array16 reader_ok_array8
  reader_ok_ext reader_ok_bind reader_ok_return reader_ok_if

lemma nodeDesc_reader: "reader_ok nodeDesc_parse"
  unfolding nodeDesc_parse_def by (rule reader_intros)+

lemma simpleDesc_reader: "reader_ok (simpleDesc_parse True)"
  unfolding simpleDesc_parse_def by (rule reader_intros)+

lemma rtgEntry_reader: "reader_ok rtgEntry_parse"
  unfolding rtgEntry_parse_def by (rule reader_intros)+

lemma bindEntry_reader: "length junk = 8 \<Longrightarrow> reader_ok (bindEntry_parse junk)"
  unfolding bindEntry_parse_def by (rule reader_intros | assumption)+

subsection \<open>What a delivery does\<close>

text \<open>The request type a response callback answers, the issuer it is called with and the source
  it names.\<close>

fun ev_answers :: "azapEvent \<Rightarrow> (AZAP_REQUEST_TYPE \<times> nat option \<times> u16) option" where
  "ev_answers (ZdpNwkAddrRspCb i s _ _ _ _ _ _) = Some (AZAP_ZDO_NWK_ADDR_REQ, i, s)"
| "ev_answers (ZdpIeeeAddrRspCb i s _ _ _ _ _ _) = Some (AZAP_ZDO_IEEE_ADDR_REQ, i, s)"
| "ev_answers (ZdpNodeDescRspCb i s _ _ _) = Some (AZAP_ZDO_NODE_DESC_REQ, i, s)"
| "ev_answers (ZdpPowerDescRspCb i s _ _ _ _ _ _) = Some (AZAP_ZDO_POWER_DESC_REQ, i, s)"
| "ev_answers (ZdpSimpleDescRspCb i s _ _ _) = Some (AZAP_ZDO_SIMPLE_DESC_REQ, i, s)"
| "ev_answers (ZdpActiveEPRspCb i s _ _ _ _) = Some (AZAP_ZDO_ACTIVE_EP_REQ, i, s)"
| "ev_answers (ZdpBindRspCb i s _) = Some (AZAP_ZDO_BIND_REQ, i, s)"
| "ev_answers (ZdpUnbindRspCb i s _) = Some (AZAP_ZDO_UNBIND_REQ, i, s)"
| "ev_answers (ZdpMgmtRtgRspCb i s _ _ _ _ _) = Some (AZAP_ZDO_MGMT_RTG_REQ, i, s)"
| "ev_answers (ZdpMgmtBindRspCb i s _ _ _ _ _) = Some (AZAP_ZDO_MGMT_BIND_REQ, i, s)"
| "ev_answers (ZdpMgmtPermitJoinRspCb i s _) = Some (AZAP_ZDO_MGMT_PERMIT_JOIN_REQ, i, s)"
| "ev_answers (ZdpMgmtLeaveRspCb i s _) = Some (AZAP_ZDO_MGMT_LEAVE_REQ, i, s)"
| "ev_answers (ZclReadCmdRspCb i s _ _ _ _ _) = Some (AZAP_ZCL_READ_CMD, i, s)"
| "ev_answers (ZclWriteCmdRspCb i s _ _ _ _ _) = Some (AZAP_ZCL_WRITE_CMD, i, s)"
| "ev_answers (ZclConfigureReportCmdRspCb i s _ _ _) = Some (AZAP_ZCL_CONFIGURE_REPORTING_CMD, i, s)"
| "ev_answers (ZclReadReportConfigCmdRspCb i s _ _ _) = Some (AZAP_ZCL_READ_REPORTING_CONF_CMD, i, s)"
| "ev_answers (ZclDiscoverCmdRspCb i s _ _ _ _) = Some (AZAP_ZCL_DISCOVER_CMD, i, s)"
| "ev_answers (ZclIncomingCmdCb i s _ _ _ _ _) = Some (AZAP_ZCL_OUTGOING_CMD, i, s)"
| "ev_answers _ = None"

text \<open>A delivery answers the last pending request of the given type, source, cluster and
  command, if there is one: that request is taken off and one callback of the type is called
  with its issuer. Nothing else of the port changes.\<close>

definition delivers ::
    "AZAP_REQUEST_TYPE \<Rightarrow> u16 \<Rightarrow> u16 \<Rightarrow> u8 \<Rightarrow> portContext_t \<Rightarrow> azapGlobals \<Rightarrow> portContext_t \<times> azapGlobals \<Rightarrow> bool" where
  "delivers t src cluster code port g r =
     (\<exists>rm ep ctx rm' ev. requestManager port = Some rm \<and>
        requestManager_t_removePending rm src t cluster ep code = (ctx, rm') \<and>
        ev_answers ev = Some (t, map_option issuerContext ctx, src) \<and>
        r = (port\<lparr>requestManager := Some rm'\<rparr>, callback ev g))"

lemma complete_delivers:
  assumes "requestManager port = Some rm" "\<And>i. ev_answers (mk i) = Some (t, i, src)"
  shows "\<exists>r. complete_request port t src cluster ep code mk g = Some r \<and> delivers t src cluster code port g r"
proof -
  obtain ctx rm' where r: "requestManager_t_removePending rm src t cluster ep code = (ctx, rm')"
    by (cases "requestManager_t_removePending rm src t cluster ep code") auto
  then show ?thesis
    using assms by (auto simp: complete_request_def delivers_def intro!: exI [of _ ep] exI [of _ ctx] exI [of _ rm'])
qed

lemma ex_case_prod:
  "(\<And>a b. y = (a, b) \<Longrightarrow> \<exists>r. f a b = Some r \<and> Q r) \<Longrightarrow> \<exists>r. (case y of (a, b) \<Rightarrow> f a b) = Some r \<and> Q r"
  by (cases y) simp

lemma ex_case_prod_nested:
  "(\<And>a b c. \<exists>r. f a b c = Some r \<and> Q r) \<Longrightarrow>
   \<exists>r. (case y of (ab, c) \<Rightarrow> (case ab of (a, b) \<Rightarrow> f a b) c) = Some r \<and> Q r"
  by (simp split: prod.splits)

lemma reads_any: "reads (\<lambda>_. True) (\<lambda>data n. Some (x data n))"
  by (simp add: reads_def)

lemma reads_ex: "\<exists>r. k = Some r \<and> Q r \<Longrightarrow> reads Q (\<lambda>data n. k)"
  by (simp add: reads_def)

lemmas reads_intros = reads_lunit reads_ext reads_bind reads_if
  reads_reader [OF nodeDesc_reader] reads_reader [OF simpleDesc_reader] reads_val reads_return reads_any
  reader_ok8 reader_ok16 reader_ok_array16 reader_ok_array8 ex_case_prod_nested ex_case_prod reads_ex
  reader_ok_loop [OF rtgEntry_reader] reader_ok_loop [OF bindEntry_reader]

text \<open>The outcome of a delivery: a refused message, or a delivery.\<close>

definition zdo_outcome ::
    "AZAP_REQUEST_TYPE \<Rightarrow> u16 \<Rightarrow> portContext_t \<Rightarrow> azapGlobals \<Rightarrow> portContext_t \<times> azapGlobals \<Rightarrow> bool" where
  "zdo_outcome t src port g r = (r = (port, g) \<or> delivers t src 0 0 port g r)"

lemma guarded_delivery:
  assumes "cur_ok data len" "reads (delivers t src 0 0 port g) f"
  shows "\<exists>r. (if \<not> cb_guard port cb len a b then Some (port, g) else f data len) = Some r \<and>
             zdo_outcome t src port g r"
  using readsD [OF assms(2,1)] by (auto simp: zdo_outcome_def)

lemma zdo_deliveries:
  assumes "cur_ok data len" "requestManager port = Some rm" "length junk = 8"
  shows
    "\<exists>r. azapProcessZdoBindRspCb port src len data g = Some r \<and> zdo_outcome AZAP_ZDO_BIND_REQ src port g r"
    "\<exists>r. azapProcessZdoUnbindRspCb port src len data g = Some r \<and> zdo_outcome AZAP_ZDO_UNBIND_REQ src port g r"
    "\<exists>r. azapProcessZdoNwkAddrRspCb True port src len data g = Some r \<and> zdo_outcome AZAP_ZDO_NWK_ADDR_REQ src port g r"
    "\<exists>r. azapProcessZdoIeeeAddrRspCb True port src len data g = Some r \<and> zdo_outcome AZAP_ZDO_IEEE_ADDR_REQ src port g r"
    "\<exists>r. azapProcessZdoNodeDescRspCb port src len data g = Some r \<and> zdo_outcome AZAP_ZDO_NODE_DESC_REQ src port g r"
    "\<exists>r. azapProcessZdoPowerDescRspCb port src len data g = Some r \<and> zdo_outcome AZAP_ZDO_POWER_DESC_REQ src port g r"
    "\<exists>r. azapProcessZdoSimpleDescRspCb True port src len data g = Some r \<and> zdo_outcome AZAP_ZDO_SIMPLE_DESC_REQ src port g r"
    "\<exists>r. azapProcessZdoActiveEPRspCb True port src len data g = Some r \<and> zdo_outcome AZAP_ZDO_ACTIVE_EP_REQ src port g r"
    "\<exists>r. azapProcessZdoMgmtRtgRspCb True port src len data g = Some r \<and> zdo_outcome AZAP_ZDO_MGMT_RTG_REQ src port g r"
    "\<exists>r. azapProcessZdoMgmtBindRspCb True junk port src len data g = Some r \<and> zdo_outcome AZAP_ZDO_MGMT_BIND_REQ src port g r"
    "\<exists>r. azapProcessZdoMgmtPermitJoinRspCb port src len data g = Some r \<and> zdo_outcome AZAP_ZDO_MGMT_PERMIT_JOIN_REQ src port g r"
    "\<exists>r. azapProcessZdoMgmtLeaveRspCb port src len data g = Some r \<and> zdo_outcome AZAP_ZDO_MGMT_LEAVE_REQ src port g r"
  unfolding azapProcessZdoBindRspCb_def azapProcessZdoUnbindRspCb_def azapProcessZdoNwkAddrRspCb_def azapProcessZdoIeeeAddrRspCb_def azapProcessZdoNodeDescRspCb_def azapProcessZdoPowerDescRspCb_def
    azapProcessZdoSimpleDescRspCb_def azapProcessZdoActiveEPRspCb_def azapProcessZdoMgmtRtgRspCb_def azapProcessZdoMgmtBindRspCb_def azapProcessZdoMgmtPermitJoinRspCb_def azapProcessZdoMgmtLeaveRspCb_def
  by (rule guarded_delivery [OF assms(1)] reads_intros complete_delivers [OF assms(2)] assms(3)
      | simp add: IEEE_ADDR_LEN_def)+

text \<open>A notification: at most one callback, nothing else.\<close>

definition notifies :: "portContext_t \<Rightarrow> azapGlobals \<Rightarrow> portContext_t \<times> azapGlobals \<Rightarrow> bool" where
  "notifies port g r = (\<exists>evs. r = (port, g\<lparr>cbLog := cbLog g @ evs\<rparr>) \<and> length evs \<le> 1)"

lemma notifies_none: "notifies port g (port, g)"
  unfolding notifies_def by (intro exI [of _ "[]"]) simp

lemma notifies_callback: "notifies port g (port, callback ev g)"
  unfolding notifies_def callback_def by (intro exI [of _ "[ev]"]) simp

lemma guarded_notification:
  assumes "cur_ok data len" "reads (notifies port g) f"
  shows "\<exists>r. (if \<not> cb_guard port cb len a b then Some (port, g) else f data len) = Some r \<and> notifies port g r"
  using readsD [OF assms(2,1)] by (simp add: notifies_none)

lemma device_annce_total:
  assumes "cur_ok data len" "length junk = 8"
  shows "\<exists>r. azapProcessZdoDeviceAnnceCb junk port src len data g = Some r \<and> notifies port g r"
  unfolding azapProcessZdoDeviceAnnceCb_def
  by (rule guarded_notification [OF assms(1)] reads_intros notifies_callback assms(2))+

subsection \<open>Responses as the dongle encodes them\<close>

text \<open>The readers with the remaining length as a natural number.\<close>

lemma parse8_nat: "m < 255 \<Longrightarrow> parseUint8AndShift (Some (b # r)) (of_nat (Suc m)) = Some (b, Some r, of_nat m)"
  by (subst parse8_Cons) (simp_all add: unat_of_nat_u8 del: of_nat_Suc, simp)

lemma parse16_nat:
  "m < 254 \<Longrightarrow> parseUint16AndShift (Some (le16 v @ r)) (of_nat (Suc (Suc m))) = Some (v, Some r, of_nat m)"
  by (subst le16_append, subst parse16_LO_HI) (simp_all add: unat_of_nat_u8 del: of_nat_Suc, simp)

lemma array16_nat:
  assumes "2 * length vs + m < 256"
  shows "parseUint16ArrayAndShift True (Some (concat (map le16 vs) @ r)) (of_nat (length vs)) (of_nat (2 * length vs + m))
     = Some (if vs = [] then None else Some vs, Some r, of_nat m)"
proof -
  have u: "unat (of_nat (length vs) :: u8) = length vs" "unat (of_nat (2 * length vs + m) :: u8) = 2 * length vs + m"
    using assms by (simp_all only: unat_of_nat_u8)
  have "(of_nat (2 * length vs + m) :: u8) - of_nat (2 * length vs) = of_nat m" by simp
  moreover have "(of_nat (length vs) :: u8) = 0 \<longleftrightarrow> vs = []" using u(1) by (metis length_0_conv unat_0 unat_eq_zero)
  ultimately show ?thesis
    using parse_loop16 [of vs "of_nat (2 * length vs + m)" r] u
    by (auto simp: parseUint16ArrayAndShift_def le16_def [abs_def] simp del: of_nat_add of_nat_mult)
qed

lemma array16_nat0:
  "2 * length vs < 256 \<Longrightarrow>
   parseUint16ArrayAndShift True (Some (concat (map le16 vs) @ r)) (of_nat (length vs)) (of_nat (2 * length vs))
     = Some (if vs = [] then None else Some vs, Some r, 0)"
  using array16_nat [of vs 0 r] by (simp del: of_nat_mult)

definition enc_simpleDesc :: "u16 \<Rightarrow> u8 \<Rightarrow> u8 \<Rightarrow> u16 \<Rightarrow> u16 \<Rightarrow> u8 \<Rightarrow> u16 list \<Rightarrow> u16 list \<Rightarrow> bytes" where
  "enc_simpleDesc nwk dl ep prof dev ver ins outs =
     STATUS_CODE_SUCCESS # le16 nwk @ dl # ep # le16 prof @ le16 dev @ ver # of_nat (length ins) #
     concat (map le16 ins) @ of_nat (length outs) # concat (map le16 outs)"

lemma simpleDesc_delivery:
  assumes "requestManager port = Some rm" "azapZdpSimpleDescRspCb \<in> set (pCallbacks port)"
    "12 + 2 * length ins + 2 * length outs \<le> 0x4C"
    "requestManager_t_removePending rm src AZAP_ZDO_SIMPLE_DESC_REQ 0 ep 0 = (ctx, rm')"
  shows "azapProcessZdoSimpleDescRspCb True port src (of_nat (12 + 2 * length ins + 2 * length outs))
      (Some (enc_simpleDesc nwk dl ep prof dev ver ins outs @ rest)) g
    = Some (port\<lparr>requestManager := Some rm'\<rparr>,
        callback (ZdpSimpleDescRspCb (map_option issuerContext ctx) src STATUS_CODE_SUCCESS nwk
          \<lparr>sdEndPointId = ep, sdProfileId = prof, sdDeviceId = dev, sdDeviceVersion = ver,
           sdNumInClusters = of_nat (length ins), sdInClusterList = (if ins = [] then None else Some ins),
           sdNumOutClusters = of_nat (length outs), sdOutClusterList = (if outs = [] then None else Some outs)\<rparr>) g)"
proof -
  let ?m = "2 * length ins + Suc (2 * length outs)"
  have len: "12 + 2 * length ins + 2 * length outs
      = Suc (Suc (Suc (Suc (Suc (Suc (Suc (Suc (Suc (Suc (Suc ?m))))))))))" by simp
  have "unat (of_nat (12 + 2 * length ins + 2 * length outs) :: u8) = 12 + 2 * length ins + 2 * length outs"
    using assms(3) by (simp only: unat_of_nat_u8)
  then have "cb_guard port azapZdpSimpleDescRspCb (of_nat (12 + 2 * length ins + 2 * length outs)) 0x04 0x4C"
    using assms(2,3) by (simp add: cb_guard_def word_less_nat_alt del: of_nat_add of_nat_mult)
  then show ?thesis
    using assms(1,3,4)
    by (simp only: azapProcessZdoSimpleDescRspCb_def enc_simpleDesc_def simpleDesc_parse_def len append_Cons append_assoc)
       (simp add: parse8_nat parse16_nat array16_nat array16_nat0 complete_request_def del: of_nat_add of_nat_mult of_nat_Suc
         mult_Suc_right add_Suc_right)
qed

lemma parseExt_nat:
  assumes "m < 248" "length d = 8" "length dst = 8"
  shows "parseExtAddrAndShift (Some dst) (Some (d @ r)) (of_nat (Suc (Suc (Suc (Suc (Suc (Suc (Suc (Suc (m))))))))))
    = Some (Some d, Some r, of_nat m)"
proof -
  have "unat (of_nat (8 + m) :: u8) = 8 + m" using assms(1) by (simp only: unat_of_nat_u8)
  with assms parseExt_append [of "of_nat (8 + m)" d dst r] show ?thesis by simp
qed

text \<open>The NWK\_addr\_rsp and IEEE\_addr\_rsp payloads as the comment of the code describes them: the
  number of associated devices, then the start index, then the list.\<close>

definition enc_addrRsp :: "bytes \<Rightarrow> u16 \<Rightarrow> u8 \<Rightarrow> u16 list \<Rightarrow> bytes" where
  "enc_addrRsp addr nwk start devs =
     STATUS_CODE_SUCCESS # addr @ le16 nwk @ of_nat (length devs) # start # concat (map le16 devs)"

lemma addrRsp_guard:
  assumes "cb \<in> set (pCallbacks port)" "13 + 2 * length devs \<le> 0x52" "lo \<le> 0x0D"
  shows "cb_guard port cb (of_nat (13 + 2 * length devs)) lo 0x52"
proof -
  have "unat (of_nat (13 + 2 * length devs) :: u8) = 13 + 2 * length devs"
    using assms(2) by (simp only: unat_of_nat_u8)
  with assms show ?thesis
    by (simp add: cb_guard_def word_less_nat_alt word_le_nat_alt del: of_nat_add of_nat_mult)
qed

lemma addrRsp_len:
  "13 + 2 * n = Suc (Suc (Suc (Suc (Suc (Suc (Suc (Suc (Suc (Suc (Suc (Suc (Suc (2 * n)))))))))))))"
  by simp

lemma ieeeAddr_delivery:
  assumes "requestManager port = Some rm" "azapZdpIeeeAddrRspCb \<in> set (pCallbacks port)"
    "length addr = 8" "13 + 2 * length devs \<le> 0x52"
    "requestManager_t_removePending rm src AZAP_ZDO_IEEE_ADDR_REQ 0 0 0 = (ctx, rm')"
  shows "azapProcessZdoIeeeAddrRspCb True port src (of_nat (13 + 2 * length devs))
      (Some (enc_addrRsp addr nwk start devs @ rest)) g
    = Some (port\<lparr>requestManager := Some rm'\<rparr>,
        callback (ZdpIeeeAddrRspCb (map_option issuerContext ctx) src STATUS_CODE_SUCCESS addr nwk
          (of_nat (length devs)) start (if devs = [] then None else Some devs)) g)"
proof -
  have "cb_guard port azapZdpIeeeAddrRspCb (of_nat (13 + 2 * length devs)) 0x0B 0x52"
    using assms(2,4) by (rule addrRsp_guard) simp
  then show ?thesis
    using assms(1,3,4,5)
    by (simp only: azapProcessZdoIeeeAddrRspCb_def enc_addrRsp_def addrRsp_len append_Cons append_assoc)
       (simp add: parse8_nat parse16_nat array16_nat0 parseExt_nat complete_request_def IEEE_ADDR_LEN_def
         del: of_nat_add of_nat_mult of_nat_Suc mult_Suc_right add_Suc_right)
qed

lemma nwkAddr_delivery:
  assumes "requestManager port = Some rm" "azapZdpNwkAddrRspCb \<in> set (pCallbacks port)"
    "length addr = 8" "13 + 2 * length devs \<le> 0x52"
    "requestManager_t_removePending rm src AZAP_ZDO_NWK_ADDR_REQ 0 0 0 = (ctx, rm')"
  shows "azapProcessZdoNwkAddrRspCb True port src (of_nat (13 + 2 * length devs))
      (Some (enc_addrRsp addr nwk 0 devs @ rest)) g
    = Some (port\<lparr>requestManager := Some rm'\<rparr>,
        callback (ZdpNwkAddrRspCb (map_option issuerContext ctx) src STATUS_CODE_SUCCESS addr nwk
          0 (of_nat (length devs)) None) g)"
proof -
  have "cb_guard port azapZdpNwkAddrRspCb (of_nat (13 + 2 * length devs)) 0x0C 0x52"
    using assms(2,4) by (rule addrRsp_guard) simp
  then show ?thesis
    using assms(1,3,4,5)
    by (simp only: azapProcessZdoNwkAddrRspCb_def enc_addrRsp_def addrRsp_len append_Cons append_assoc)
       (simp add: parse8_nat parse16_nat parseUint16ArrayAndShift_def parseExt_nat complete_request_def IEEE_ADDR_LEN_def
         del: of_nat_add of_nat_mult of_nat_Suc mult_Suc_right add_Suc_right)
qed

definition apiPort :: portContext_t where
  "apiPort = samplePort\<lparr>pCallbacks := [azapStartedCb, azapZdpNwkAddrRspCb, azapZdpIeeeAddrRspCb,
     azapZdpSimpleDescRspCb, azapZclReadCmdRspCb, azapZclReportCmdCb],
     requestManager := Some \<lparr>postponedRequests = [],
       pendingRequests = [sampleReq\<lparr>rqType := AZAP_ZDO_SIMPLE_DESC_REQ, nwkAddrDest := 0x1234,
         rqClusterId := 0, remoteEndp := 3, expectedCmdCode := 0, issuerContext := 77\<rparr>]\<rparr>\<rparr>"

text \<open>A simple descriptor response, encoded as the ZigBee stack does, reaches the API callback
  with its fields unchanged (a cluster list without elements as \<open>NULL\<close>) and with the context of
  the most recent pending request for that node and end point, which is taken off the list.\<close>

theorem simple_desc_delivered:
  assumes "requestManager port = Some rm" "azapZdpSimpleDescRspCb \<in> set (pCallbacks port)"
    "12 + 2 * length ins + 2 * length outs \<le> 0x4C"
    "requestManager_t_removePending rm src AZAP_ZDO_SIMPLE_DESC_REQ 0 ep 0 = (ctx, rm')"
  shows "azapProcessZdoSimpleDescRspCb True port src (of_nat (12 + 2 * length ins + 2 * length outs))
      (Some (enc_simpleDesc nwk dl ep prof dev ver ins outs @ rest)) g
    = Some (port\<lparr>requestManager := Some rm'\<rparr>,
        callback (ZdpSimpleDescRspCb (map_option issuerContext ctx) src STATUS_CODE_SUCCESS nwk
          \<lparr>sdEndPointId = ep, sdProfileId = prof, sdDeviceId = dev, sdDeviceVersion = ver,
           sdNumInClusters = of_nat (length ins), sdInClusterList = (if ins = [] then None else Some ins),
           sdNumOutClusters = of_nat (length outs), sdOutClusterList = (if outs = [] then None else Some outs)\<rparr>) g)"
  using assms by (rule simpleDesc_delivery)

theorem simple_desc_delivered_witness:
  "azapProcessZdoSimpleDescRspCb True apiPort 0x1234 14 (Some (enc_simpleDesc 0x1234 10 3 0x104 7 0 [6] [])) sampleGlobals
    = Some (apiPort\<lparr>requestManager := Some \<lparr>postponedRequests = [], pendingRequests = []\<rparr>\<rparr>,
        callback (ZdpSimpleDescRspCb (Some 77) 0x1234 STATUS_CODE_SUCCESS 0x1234
          \<lparr>sdEndPointId = 3, sdProfileId = 0x104, sdDeviceId = 7, sdDeviceVersion = 0,
           sdNumInClusters = 1, sdInClusterList = Some [6], sdNumOutClusters = 0, sdOutClusterList = None\<rparr>) sampleGlobals)"
  using simple_desc_delivered [of apiPort _ "[6]" "[]" "0x1234" 3 _ _ "0x1234" 10 "0x104" 7 0 "[]" sampleGlobals]
  by (simp add: apiPort_def samplePort_def sampleReq_def requestManager_t_removePending_def pending_match_def)

text \<open>The list of associated devices of a NWK\_addr\_rsp is lost. In the order that the
  comment of the function gives (number of devices, start index), which the IEEE\_addr\_rsp handler
  follows, the NWK\_addr\_rsp handler takes the number for the start index and, from a complete
  answer with start index 0, delivers no device.\<close>

theorem nwk_addr_devices_lost:
  assumes "requestManager port = Some rm"
    "{azapZdpNwkAddrRspCb, azapZdpIeeeAddrRspCb} \<subseteq> set (pCallbacks port)"
    "length addr = 8" "13 + 2 * length devs \<le> 0x52"
    "requestManager_t_removePending rm src AZAP_ZDO_NWK_ADDR_REQ 0 0 0 = (ctx, rm')"
    "requestManager_t_removePending rm src AZAP_ZDO_IEEE_ADDR_REQ 0 0 0 = (ctx2, rm2)"
  shows "azapProcessZdoNwkAddrRspCb True port src (of_nat (13 + 2 * length devs))
      (Some (enc_addrRsp addr nwk 0 devs @ rest)) g
    = Some (port\<lparr>requestManager := Some rm'\<rparr>,
        callback (ZdpNwkAddrRspCb (map_option issuerContext ctx) src STATUS_CODE_SUCCESS addr nwk
          0 (of_nat (length devs)) None) g) \<and>
    azapProcessZdoIeeeAddrRspCb True port src (of_nat (13 + 2 * length devs))
      (Some (enc_addrRsp addr nwk 0 devs @ rest)) g
    = Some (port\<lparr>requestManager := Some rm2\<rparr>,
        callback (ZdpIeeeAddrRspCb (map_option issuerContext ctx2) src STATUS_CODE_SUCCESS addr nwk
          (of_nat (length devs)) 0 (if devs = [] then None else Some devs)) g)"
  using nwkAddr_delivery [OF assms(1) _ assms(3,4,5)] ieeeAddr_delivery [OF assms(1) _ assms(3,4,6)] assms(2)
  by simp

theorem nwk_addr_devices_lost_witness:
  "azapProcessZdoNwkAddrRspCb True apiPort 5 15 (Some (enc_addrRsp (replicate 8 1) 5 0 [9])) sampleGlobals
    = Some (apiPort, callback (ZdpNwkAddrRspCb None 5 STATUS_CODE_SUCCESS (replicate 8 1) 5 0 1 None) sampleGlobals)"
  using nwk_addr_devices_lost [of apiPort _ "replicate 8 1" "[9]" 5 _ _ _ _ 5 "[]" sampleGlobals]
  by (simp add: apiPort_def samplePort_def sampleReq_def requestManager_t_removePending_def pending_match_def)

end
