(* ===== verification/Zcl_Safety.thy ===== *)
theory Zcl_Safety
  imports Azap_Api_Impl
begin

section \<open>Memory safety of the ZCL response parsers\<close>

text \<open>
  The parsers of format\_znp\_af.c on arbitrary bytes received from the radio: they end and read
  inside the array that holds the payload, given some bytes of slack behind it (the arrays of the
  driver are 255 bytes long and a payload of an AF message is much shorter). \<open>report\<close> is done with
  the parser itself; here are the response parsers that count and fill in two passes, and those
  that loop while enough bytes are left. The two configure-reporting parsers are not safe:
  the last theorem is a message on which one reads outside the array.
\<close>

subsection \<open>Loops that run while enough bytes are left\<close>

lemma parse_while_total:
  assumes "\<And>d n. unat n \<le> length d \<Longrightarrow> need \<le> unat n \<Longrightarrow>
      \<exists>x. f (Some d) n = Some (x, Some (drop need d), n - of_nat need)" "0 < need"
  shows "unat n \<le> length d \<Longrightarrow> unat n < fuel \<Longrightarrow> \<exists>xs. parse_while fuel need f (Some d) n = Some xs"
proof (induction fuel arbitrary: d n)
  case 0
  then show ?case by simp
next
  case (Suc fuel)
  show ?case
  proof (cases "unat n < need")
    case True
    then show ?thesis by simp
  next
    case False
    with assms(1) [OF Suc.prems(1)] obtain x where
      s: "f (Some d) n = Some (x, Some (drop need d), n - of_nat need)" by auto
    have "unat (n - of_nat need) = unat n - need" using False by (intro unat_diff_u8) simp
    then have "unat (n - of_nat need) \<le> length (drop need d)" "unat (n - of_nat need) < fuel"
      using Suc.prems assms(2) False by auto
    from Suc.IH [OF this] s False show ?thesis by auto
  qed
qed

lemma list_ge3: "3 \<le> length d \<Longrightarrow> \<exists>a b c r. d = a # b # c # r"
  by (auto simp: numeral_3_eq_3 Suc_le_length_iff)

lemma list_ge4: "4 \<le> length d \<Longrightarrow> \<exists>a b c e r. d = a # b # c # e # r"
  by (auto simp: numeral_eq_Suc Suc_le_length_iff)

lemma writeRsp_step:
  assumes "unat n \<le> length d" "3 \<le> unat n"
  shows "\<exists>x. writeRsp_attr (Some d) n = Some (x, Some (drop 3 d), n - of_nat 3)"
proof -
  obtain a b c r where d: "d = a # b # c # r" using list_ge3 [of d] assms by auto
  show ?thesis
    using assms(2) unat_diff_u8 [of 1 n] by (simp add: writeRsp_attr_def d parse8_Cons parse16_Cons)
qed

lemma discover_step:
  assumes "unat n \<le> length d" "3 \<le> unat n"
  shows "\<exists>x. discover_attr (Some d) n = Some (x, Some (drop 3 d), n - of_nat 3)"
proof -
  obtain a b c r where d: "d = a # b # c # r" using list_ge3 [of d] assms by auto
  show ?thesis
    using assms(2) unat_diff_u8 [of 2 n] by (simp add: discover_attr_def d parse8_Cons parse16_Cons)
qed

lemma cfgReportRsp_step:
  assumes "unat n \<le> length d" "4 \<le> unat n"
  shows "\<exists>x. cfgReportRsp_attr (Some d) n = Some (x, Some (drop 4 d), n - of_nat 4)"
proof -
  obtain a b c e r where d: "d = a # b # c # e # r" using list_ge4 [of d] assms by auto
  show ?thesis
    using assms(2) unat_diff_u8 [of 1 n] unat_diff_u8 [of 2 n]
    by (simp add: cfgReportRsp_attr_def d parse8_Cons parse16_Cons)
qed

lemma write_parse_total:
  assumes "unat len \<le> length data"
  shows "\<exists>r. parseZCLWriteCmdRsp True len data = Some r"
proof (cases "len = 1")
  case True
  with assms show ?thesis
    using parse8_total [of "Some data" len] by (auto simp: parseZCLWriteCmdRsp_def cur_ok_def)
next
  case False
  with parse_while_total [of 3 writeRsp_attr len data 256] writeRsp_step assms unat_u8_bound [of len]
  show ?thesis by (auto simp: parseZCLWriteCmdRsp_def)
qed

lemma cfgReportRsp_parse_total:
  assumes "unat len \<le> length data"
  shows "\<exists>r. parseZCLConfigureReportCmdRsp True len data = Some r"
  using parse_while_total [of 4 cfgReportRsp_attr len data 256] cfgReportRsp_step assms unat_u8_bound [of len]
  by (auto simp: parseZCLConfigureReportCmdRsp_def)

lemma discover_parse_total:
  assumes "unat len \<le> length data"
  shows "\<exists>r. parseZCLDiscoverRspCmd True len data = Some r"
proof -
  obtain c data1 n1 where c: "parseUint8AndShift (Some data) len = Some (c, Some data1, n1)" "unat n1 \<le> length data1"
  proof (cases "len = 0")
    case True
    with that [of 0 data 0] show ?thesis by (simp add: parse8_short)
  next
    case False
    then have "1 \<le> unat len" by (simp add: unat_gt_0 Suc_le_eq)
    moreover with assms obtain b r where "data = b # r" by (cases data) auto
    ultimately show ?thesis
      using that [of b r "len - 1"] unat_diff_u8 [of 1 len] assms by (simp add: parse8_Cons)
  qed
  with parse_while_total [of 3 discover_attr n1 data1 256] discover_step unat_u8_bound [of n1]
  show ?thesis by (auto simp: parseZCLDiscoverRspCmd_def)
qed

subsection \<open>Read responses\<close>

lemma readRsp_count_turn:
  assumes "n < tot" "tot < 252" "tot + 6 \<le> length data"
  obtains (null) "readRsp_count (Suc fuel) (of_nat tot) data (of_nat n) k = Some None"
    | (failed) "data ! (n + 2) \<noteq> 0"
        "readRsp_count (Suc fuel) (of_nat tot) data (of_nat n) k
           = readRsp_count fuel (of_nat tot) data (of_nat (n + 3)) (k + 1)"
    | (present) sz where "data ! (n + 2) = 0" "n + 4 + unat sz \<le> tot"
        "azapGetZclDataLength (data ! (n + 3)) (Some (drop (n + 4) data)) = Some sz"
        "readRsp_count (Suc fuel) (of_nat tot) data (of_nat n) k
           = readRsp_count fuel (of_nat tot) data (of_nat (n + 4 + unat sz)) (k + 1)"
proof -
  have u: "unat (of_nat tot :: u8) = tot" "unat (of_nat n + 2 :: u8) = n + 2" "unat (of_nat n + 2 + 1 :: u8) = n + 3"
    using assms(1,2) unat_of_nat_u8 [of tot] unat_of_nat_u8 [of "n + 2"] unat_of_nat_u8 [of "n + 3"]
    by (simp_all add: ac_simps)
  have lt: "(of_nat n :: u8) < of_nat tot"
    using assms(1,2) u unat_of_nat_u8 [of n] by (simp add: word_less_nat_alt)
  have "2 \<le> length (drop (n + 4) data)" using assms by simp
  then obtain sz where sz: "azapGetZclDataLength (data ! (n + 3)) (Some (drop (n + 4) data)) = Some sz"
    using dataLength_total by blast
  have ix: "idx data (n + 2) = Some (data ! (n + 2))" "idx data (n + 2 + 1) = Some (data ! (n + 3))"
    using assms by (simp_all add: idx_def numeral_3_eq_3)
  have rc: "readRsp_count (Suc fuel) (of_nat tot) data (of_nat n) k =
      (if data ! (n + 2) = 0
       then if sz > of_nat tot \<or> unat sz + (n + 3) + 1 > tot then Some None
            else readRsp_count fuel (of_nat tot) data (of_nat n + 2 + 1 + sz + 1) (k + 1)
       else readRsp_count fuel (of_nat tot) data (of_nat n + 2 + 1) (k + 1))"
    using lt ix sz u by (simp add: Let_def numeral_eq_Suc)
  show thesis
  proof (cases "data ! (n + 2) = 0")
    case False
    with rc have "readRsp_count (Suc fuel) (of_nat tot) data (of_nat n) k
           = readRsp_count fuel (of_nat tot) data (of_nat (n + 3)) (k + 1)"
      by (simp add: algebra_simps del: readRsp_count.simps)
    with False failed show ?thesis by blast
  next
    case True
    show ?thesis
    proof (cases "unat sz + (n + 3) + 1 > tot")
      case True
      with rc \<open>data ! (n + 2) = 0\<close> null show ?thesis by simp
    next
      case False
      then have "\<not> sz > of_nat tot" using u by (simp add: word_less_nat_alt)
      with rc True False have "readRsp_count (Suc fuel) (of_nat tot) data (of_nat n) k
           = readRsp_count fuel (of_nat tot) data (of_nat (n + 4 + unat sz)) (k + 1)"
        by (simp add: algebra_simps del: readRsp_count.simps)
      with True False sz show ?thesis by (intro present [of sz]) simp_all
    qed
  qed
qed

lemma readRsp_count_total:
  assumes "n < 256" "tot < 252" "tot + 6 \<le> length data" "tot - n < fuel"
  shows "\<exists>r. readRsp_count fuel (of_nat tot) data (of_nat n) k = Some r"
  using assms
proof (induction fuel arbitrary: n k)
  case 0
  then show ?case by simp
next
  case (Suc fuel)
  show ?case
  proof (cases "n < tot")
    case False
    then have "\<not> (of_nat n :: u8) < of_nat tot"
      using Suc.prems by (simp add: word_less_nat_alt unat_of_nat_u8)
    then show ?thesis by simp
  next
    case True
    from this Suc.prems(2,3) show ?thesis
    proof (cases rule: readRsp_count_turn [of n tot data fuel k])
      case null
      then show ?thesis by simp
    next
      case failed
      with Suc.IH [of "n + 3" "k + 1"] Suc.prems True show ?thesis by simp
    next
      case (present sz)
      with Suc.IH [of "n + 4 + unat sz" "k + 1"] Suc.prems True show ?thesis by simp
    qed
  qed
qed

text \<open>The second pass follows the first: at each record it stands where the first pass stood, so
  it never runs out of the payload; behind a truncated last record nothing is left.\<close>

lemma readRsp_fill_0: "readRsp_fill m data 0 = Some []"
  by (cases m) simp_all

lemma dataLength_0: "azapGetZclDataLength 0 p = Some 0"
  by (simp add: azapGetZclDataLength_def)

lemma readRsp_fill_truncated:
  assumes "0 < r" "r < 3" "r \<le> length d"
  shows "\<exists>attrs. readRsp_fill m (Some d) (of_nat r) = Some attrs"
proof (cases m)
  case 0
  then show ?thesis by simp
next
  case (Suc m')
  consider "r = 1" | "r = 2" using assms by linarith
  then show ?thesis
  proof cases
    case 1
    with assms obtain b q where "d = b # q" by (cases d) auto
    with 1 Suc show ?thesis
      by (simp add: parse16_short parse8_Cons parse8_short dataLength_0 readRsp_fill_0)
  next
    case 2
    with assms obtain a b q where "d = a # b # q" by (auto simp: numeral_2_eq_2 Suc_le_length_iff)
    with 2 Suc show ?thesis
      by (simp add: parse16_Cons parse8_short dataLength_0 readRsp_fill_0)
  qed
qed

lemma readRsp_fill_follows:
  assumes "readRsp_count fuel (of_nat tot) data (of_nat n) k = Some (Some c)"
    "n \<le> tot" "tot < 252" "tot + 6 \<le> length data"
  shows "\<exists>attrs. readRsp_fill m (Some (drop n data)) (of_nat (tot - n)) = Some attrs"
  using assms
proof (induction fuel arbitrary: n k m)
  case 0
  then show ?case by simp
next
  case (Suc fuel)
  show ?case
  proof (cases "n = tot \<or> m = 0")
    case True
    then show ?thesis by (auto simp: readRsp_fill_0)
  next
    case False
    with Suc.prems have lt: "n < tot" by simp
    from False obtain m' where m: "m = Suc m'" by (cases m) auto
    have u: "unat (of_nat (tot - n) :: u8) = tot - n"
      using Suc.prems by (intro unat_of_nat_u8) simp
    have nz: "(of_nat (tot - n) :: u8) \<noteq> 0" using u lt by (metis diff_is_0_eq not_le unat_0)
    have d: "drop n data = data ! n # data ! (n + 1) # data ! (n + 2) # drop (n + 3) data"
      "drop (n + 3) data = data ! (n + 3) # drop (n + 4) data"
      using Suc.prems lt by (simp_all add: Cons_nth_drop_Suc numeral_eq_Suc)
    show ?thesis
    proof (cases "tot - n < 3")
      case True
      with lt Suc.prems show ?thesis by (intro readRsp_fill_truncated) auto
    next
      case False
      define N :: u8 where "N = of_nat (tot - n)"
      define M :: u8 where "M = of_nat (tot - (n + 3))"
      have N: "unat N = tot - n" "N \<noteq> 0" unfolding N_def by (rule u, rule nz)
      have w: "N - 3 = M" "unat (N - 2) = tot - n - 2" "unat (N - 3) = tot - n - 3"
        using False unat_diff_u8 [of 2 N] unat_diff_u8 [of 3 N] N(1) by (simp_all add: N_def M_def of_nat_diff)
      from lt Suc.prems(3,4) show ?thesis
      proof (cases rule: readRsp_count_turn [of n tot data fuel k])
        case null
        with Suc.prems(1) show ?thesis by simp
      next
        case failed
        have "readRsp_count fuel (of_nat tot) data (of_nat (n + 3)) (k + 1) = Some (Some c)"
          using failed(2) Suc.prems(1) by (simp only:)
        from Suc.IH [OF this _ Suc.prems(3,4), of m'] False obtain attrs where
          "readRsp_fill m' (Some (drop (n + 3) data)) M = Some attrs" unfolding M_def by fastforce
        with failed(1) False m N w d(1) show ?thesis
          unfolding N_def [symmetric] by (auto simp: parse16_Cons parse8_Cons)
      next
        case (present sz)
        define K :: u8 where "K = of_nat (tot - (n + 4 + unat sz))"
        have "readRsp_count fuel (of_nat tot) data (of_nat (n + 4 + unat sz)) (k + 1) = Some (Some c)"
          using present(4) Suc.prems(1) by (simp only:)
        from Suc.IH [OF this present(2) Suc.prems(3,4), of m'] obtain attrs where r:
          "readRsp_fill m' (Some (drop (n + 4 + unat sz) data)) K = Some attrs" unfolding K_def by blast
        have "N - 4 - sz = K" using present(2) by (simp add: N_def K_def of_nat_diff)
        moreover have "drop (unat sz) (drop (n + 4) data) = drop (n + 4 + unat sz) data" by (simp add: ac_simps)
        ultimately show ?thesis
          unfolding N_def [symmetric] using present(1,2,3) False m N w(2,3) d r
          by (simp add: parse16_Cons parse8_Cons del: drop_drop)
      qed
    qed
  qed
qed

lemma read_parse_total:
  assumes "unat len < 252" "unat len + 6 \<le> length data"
  shows "\<exists>r. parseZCLReadCmdRsp True len data = Some r"
proof -
  obtain cnt where c: "readRsp_count 256 (of_nat (unat len)) data (of_nat 0) 0 = Some cnt"
    using readRsp_count_total [of 0 "unat len" data 256 0] assms by auto
  show ?thesis
  proof (cases cnt)
    case None
    with c show ?thesis by (simp add: parseZCLReadCmdRsp_def)
  next
    case (Some k)
    from readRsp_fill_follows [OF c [unfolded Some], of "unat k"] assms obtain attrs where
      "readRsp_fill (unat k) (Some data) len = Some attrs" by auto
    with c Some show ?thesis by (simp add: parseZCLReadCmdRsp_def)
  qed
qed

subsection \<open>An unsafe parser\<close>

text \<open>C40: \<open>parseZCLConfigureReportCmd\<close> can be made to read outside its payload by a 13-byte command
  from the radio: a character string attribute (a discrete type, without reportable change for the
  first pass), then a record whose direction byte the second pass takes for the length of the
  string: it skips 249 bytes, the remaining length wraps around to 12, and the next record is
  read behind the 255-byte array, whatever follows the command there.\<close>

theorem configure_report_out_of_bounds:
  assumes "length rest \<le> 242"
  shows "parseZCLConfigureReportCmd True 13
     ([0, 1, 0, ZCL_DATATYPE_CHAR_STR, 0, 0, 0, 0] @ [0xF8, 5, 0, 1, 0] @ rest) = None"
proof -
  let ?d = "[0, 1, 0, ZCL_DATATYPE_CHAR_STR, 0, 0, 0, 0] @ [0xF8, 5, 0, 1, 0] @ rest"
  have "cfgReport_count (Suc (Suc (Suc n))) 13 ?d 0 0 = Some (Some 2)" for n
    by (simp add: idx_def Let_def azapZclIsAnalogDataType_def)
  from this [of 253] have c: "cfgReport_count 256 13 ?d 0 0 = Some (Some 2)" by simp
  have behind: "drop 244 rest = []" using assms by simp
  have "cfgReport_fill (Suc 0) (Some []) (- 244) = None" by (simp add: parseUint8AndShift_def)
  then have "cfgReport_fill (Suc (Suc 0)) (Some ?d) 13 = None"
    by (subst cfgReport_fill.simps(2))
      (simp add: parse8_Cons parse16_Cons azapGetZclDataLength_def mem_simps behind del: cfgReport_fill.simps)
  moreover have "unat (2 :: u8) = Suc (Suc 0)" by simp
  ultimately show ?thesis
    by (simp only: parseZCLConfigureReportCmd_def c bind.bind_lunit bind.bind_lzero option.case not_True_eq_False if_False)
qed

theorem configure_report_out_of_bounds_witness:
  "parseZCLConfigureReportCmd True 13
     ([0, 1, 0, ZCL_DATATYPE_CHAR_STR, 0, 0, 0, 0] @ [0xF8, 5, 0, 1, 0] @ replicate 242 0) = None"
  by (rule configure_report_out_of_bounds) simp

end
