(* ===== verification/Port_Context.thy ===== *)
theory Port_Context
  imports Zcl_Safety Znp_Start
begin

section \<open>The port context (port\_context.c)\<close>

text \<open>
  One port drives one dongle: it owns the two UART buffers, the start procedure, the request
  manager and the end points. Its operations are modelled with what the operating system answers
  as arguments: \<open>ttyEnv\<close> (is the TTY of the dongle found, what does \<open>open\<close> return), the result of
  \<open>read\<close>, the clock. Configuring the TTY, the poll table, the statistics and the traces are
  left out. \<open>mallocOk\<close> says whether allocations succeed, \<open>junk\<close> is the content of fresh memory.
  The lemmas show that a started port processes any message without undefined behaviour (the two
  configure-reporting commands apart), and what sending a request does.
\<close>

record ttyEnv =
  ttyFound :: bool
  openResult :: int

definition MT_ZDO_MSG_CB_INCOMING_AREQ :: u16 where [const_defs]: "MT_ZDO_MSG_CB_INCOMING_AREQ = 0xFF45"
definition MT_AF_DATA_CONFIRM_AREQ :: u16 where [const_defs]: "MT_AF_DATA_CONFIRM_AREQ = 0x8044"
definition MT_AF_INCOMING_MSG_AREQ :: u16 where [const_defs]: "MT_AF_INCOMING_MSG_AREQ = 0x8144"
definition SB_FORCE_RUN :: u8 where [const_defs]: "SB_FORCE_RUN = 0xF8 XOR 0xFF"
definition zigbeeRequestTimeout :: int where [const_defs]: "zigbeeRequestTimeout = 20"

subsection \<open>Life cycle\<close>

definition portContext_t_create :: "u8 \<Rightarrow> portContext_t" where
  "portContext_t_create port =
     \<lparr>portNumber = port, pCallbacks = [], defaultChannel = push_bit 11 1, deviceType = 0,
      resetHanAtReboot = False, deviceIeee = replicate IEEE_ADDR_LEN 0, shortAddr = 0,
      panIdExt = replicate IEEE_ADDR_LEN 0, panId = 0, zstackVersion = ''<not started yet>'',
      deviceFd = -1, rx = None, tx = None, startInst = None, started = False,
      requestManager = None, endPointList = []\<rparr>"

definition new_portContext_t :: "bool \<Rightarrow> u8 \<Rightarrow> portContext_t option" where
  "new_portContext_t mallocOk port = (if \<not> mallocOk then None else Some (portContext_t_create port))"

text \<open>The Boolean of \<open>jumpZnp\<close> is never set; the bytes written are returned too.\<close>

definition portContext_t_jumpZnp :: "portContext_t \<Rightarrow> bool \<times> bytes" where
  "portContext_t_jumpZnp This = (False, [SB_FORCE_RUN, SB_FORCE_RUN])"

definition portContext_t_open :: "ttyEnv \<Rightarrow> portContext_t \<Rightarrow> bool \<times> portContext_t" where
  "portContext_t_open env This =
     (openResult env \<noteq> -1, This\<lparr>deviceFd := openResult env\<rparr>)"

definition portContext_t_connect :: "ttyEnv \<Rightarrow> portContext_t \<Rightarrow> bool \<times> portContext_t" where
  "portContext_t_connect env This =
    (if -1 \<noteq> deviceFd This then (False, This)
     else if \<not> ttyFound env then (False, This)
     else case portContext_t_open env This of
            (opened, This') \<Rightarrow>
              if \<not> opened then (False, This') else (fst (portContext_t_jumpZnp This'), This'))"

definition portContext_t_disconnect :: "portContext_t \<Rightarrow> bool \<times> portContext_t" where
  "portContext_t_disconnect This =
    (if -1 = deviceFd This then (False, This) else (False, This\<lparr>deviceFd := -1\<rparr>))"

text \<open>\<open>startZnp\<close>: the buffers are used later, the start instance and the transmit buffer at once.\<close>

definition portContext_t_startZnp ::
    "bool \<Rightarrow> (nat \<Rightarrow> bytes option) \<Rightarrow> ttyEnv \<Rightarrow> portContext_t \<Rightarrow> portContext_t exec" where
  "portContext_t_startZnp mallocOk mal env This = do {
     let This1 = This\<lparr>started := True, rx := new_uartBufControl_t 512 mallocOk mal,
                      tx := new_uartBufControl_t 512 mallocOk mal,
                      requestManager := new_requestManager_t mallocOk\<rparr>;
     let This2 = snd (portContext_t_connect env This1);
     inst \<leftarrow> new_znpStartInstance_t mallocOk (portNumber This2);
     (inst', This3) \<leftarrow> znpStartInstance_t_start inst This2;
     Some (This3\<lparr>startInst := Some inst'\<rparr>)
   }"

definition portContext_t_stopZnp :: "portContext_t \<Rightarrow> portContext_t" where
  "portContext_t_stopZnp This =
     (snd (portContext_t_disconnect This))
       \<lparr>startInst := None, rx := None, tx := None, requestManager := None, started := False\<rparr>"

definition portContext_t_isStarted :: "portContext_t \<Rightarrow> bool" where
  "portContext_t_isStarted This = started This"

subsection \<open>End points\<close>

definition portContext_t_addEndPoint :: "portContext_t \<Rightarrow> azapEndPoint_t option \<Rightarrow> bool \<times> portContext_t" where
  "portContext_t_addEndPoint This epOpt =
    (case epOpt of
       None \<Rightarrow> (True, This)
     | Some ep \<Rightarrow>
         if list_ex (\<lambda>epElt. epId epElt = epId ep) (endPointList This) then (False, This)
         else (True, This\<lparr>endPointList := endPointList This @ [ep]\<rparr>))"

definition portContext_t_getEndPoint :: "portContext_t \<Rightarrow> u8 \<Rightarrow> azapEndPoint_t option" where
  "portContext_t_getEndPoint This ep = find (\<lambda>epElt. epId epElt = ep) (endPointList This)"

subsection \<open>Incoming ZDO messages\<close>

definition portContext_t_processZDOMsgCbIncoming ::
    "bool \<Rightarrow> bytes \<Rightarrow> portContext_t \<Rightarrow> u8 \<Rightarrow> bytes option \<Rightarrow> azapGlobals \<Rightarrow> cbRes" where
  "portContext_t_processZDOMsgCbIncoming mallocOk junk This len payload g =
    (if payload = None then Some (This, g)
     else if len < 9 then Some (This, g)
     else do {
       (srcAddr, payload, len) \<leftarrow> parseUint16AndShift payload len;
       (wasBroadcast, payload, len) \<leftarrow> parseUint8AndShift payload len;
       (clusterId, payload, len) \<leftarrow> parseUint16AndShift payload len;
       (securityUse, payload, len) \<leftarrow> parseUint8AndShift payload len;
       (seqNum, payload, len) \<leftarrow> parseUint8AndShift payload len;
       (macDstAddr, payload, len) \<leftarrow> parseUint16AndShift payload len;
       let gc = g\<lparr>azapNbZdoRequestsCompleted := azapNbZdoRequestsCompleted g + 1\<rparr>;
       if clusterId = 0x0013 then
         azapProcessZdoDeviceAnnceCb junk This srcAddr len payload
           (g\<lparr>azapNbZdoNotifications := azapNbZdoNotifications g + 1\<rparr>)
       else if clusterId = 0x8021 then azapProcessZdoBindRspCb This srcAddr len payload gc
       else if clusterId = 0x8022 then azapProcessZdoUnbindRspCb This srcAddr len payload gc
       else if clusterId = 0x8000 then azapProcessZdoNwkAddrRspCb mallocOk This srcAddr len payload gc
       else if clusterId = 0x8001 then azapProcessZdoIeeeAddrRspCb mallocOk This srcAddr len payload gc
       else if clusterId = 0x8002 then azapProcessZdoNodeDescRspCb This srcAddr len payload gc
       else if clusterId = 0x8003 then azapProcessZdoPowerDescRspCb This srcAddr len payload gc
       else if clusterId = 0x8004 then azapProcessZdoSimpleDescRspCb mallocOk This srcAddr len payload gc
       else if clusterId = 0x8005 then azapProcessZdoActiveEPRspCb mallocOk This srcAddr len payload gc
       else if clusterId = 0x8032 then azapProcessZdoMgmtRtgRspCb mallocOk This srcAddr len payload gc
       else if clusterId = 0x8033 then azapProcessZdoMgmtBindRspCb mallocOk junk This srcAddr len payload gc
       else if clusterId = 0x8036 then azapProcessZdoMgmtPermitJoinRspCb This srcAddr len payload gc
       else if clusterId = 0x8034 then azapProcessZdoMgmtLeaveRspCb This srcAddr len payload gc
       else Some (This, g)
     })"

subsection \<open>Incoming AF messages\<close>

definition portContext_t_parseAndProcessAfDataConfirm ::
    "portContext_t \<Rightarrow> u8 \<Rightarrow> bytes option \<Rightarrow> azapGlobals \<Rightarrow> cbRes" where
  "portContext_t_parseAndProcessAfDataConfirm This len data g = do {
     (status, data, len) \<leftarrow> parseUint8AndShift data len;
     (endpoint, data, len) \<leftarrow> parseUint8AndShift data len;
     (transId, data, len) \<leftarrow> parseUint8AndShift data len;
     if ZCL_STATUS_SUCCESS \<noteq> status
     then do {
       rm \<leftarrow> requestManager This;
       let (msgContext, rm') = requestManager_t_removePendingAf rm transId;
       let This' = This\<lparr>requestManager := Some rm'\<rparr>;
       g' \<leftarrow> requestManager_t_callbackOnFailure msgContext (Some This') g;
       Some (This', g')
     }
     else Some (This, g)
   }"

definition zcl_dispatch ::
    "bool \<Rightarrow> portContext_t \<Rightarrow> u16 \<Rightarrow> u8 \<Rightarrow> u16 \<Rightarrow> azapZclFrameHeader_t \<Rightarrow> u8 \<Rightarrow> bytes \<Rightarrow> azapGlobals \<Rightarrow> cbRes" where
  "zcl_dispatch mallocOk This srcAddr srcEP clusterId hdr len payload g =
    (let gc = g\<lparr>azapNbZclRequestsCompleted := azapNbZclRequestsCompleted g + 1\<rparr> in
     if fcType hdr \<noteq> 0 then azapProcessZclIncomingCmdCb This srcAddr srcEP clusterId hdr len payload gc
     else if commandId hdr = 0x01 then
       azapProcessZclReadCmdRspCb mallocOk This srcAddr srcEP clusterId hdr len payload gc
     else if commandId hdr = 0x04 then
       azapProcessZclWriteCmdRspCb mallocOk This srcAddr srcEP clusterId hdr len payload gc
     else if commandId hdr = 0x06 then
       azapProcessZclConfigReportCmdCb mallocOk This srcAddr srcEP clusterId hdr len payload gc
     else if commandId hdr = 0x07 then
       azapProcessZclConfigReportCmdRspCb mallocOk This srcAddr srcEP clusterId hdr len payload gc
     else if commandId hdr = 0x0a then
       azapProcessZclReportCmdCb mallocOk This srcAddr srcEP clusterId hdr len payload
         (g\<lparr>azapNbZclNotifications := azapNbZclNotifications g + 1\<rparr>)
     else if commandId hdr = 0x09 then
       azapProcessZclReadReportConfigCmdRspCb mallocOk This srcAddr srcEP clusterId hdr len payload gc
     else if commandId hdr = 0x0d then
       azapProcessZclDiscoverCmdRspCb mallocOk This srcAddr srcEP clusterId hdr len payload gc
     else Some (This, g))"

definition portContext_t_processAfIncomingMsg ::
    "bool \<Rightarrow> portContext_t \<Rightarrow> u8 \<Rightarrow> bytes option \<Rightarrow> azapGlobals \<Rightarrow> cbRes" where
  "portContext_t_processAfIncomingMsg mallocOk This len payload g =
    (if payload = None then Some (This, g)
     else if len < 9 then Some (This, g)
     else do {
       (groupId, payload, len) \<leftarrow> parseUint16AndShift payload len;
       (clusterId, payload, len) \<leftarrow> parseUint16AndShift payload len;
       (srcAddr, payload, len) \<leftarrow> parseUint16AndShift payload len;
       (srcEP, payload, len) \<leftarrow> parseUint8AndShift payload len;
       (dstEP, payload, len) \<leftarrow> parseUint8AndShift payload len;
       (wasBroadcast, payload, len) \<leftarrow> parseUint8AndShift payload len;
       (linkQuality, payload, len) \<leftarrow> parseUint8AndShift payload len;
       (securityUse, payload, len) \<leftarrow> parseUint8AndShift payload len;
       (timestamp, payload, len) \<leftarrow> parseUint32AndShift payload len;
       (seqNum, payload, len) \<leftarrow> parseUint8AndShift payload len;
       (afPktLen, payload, len) \<leftarrow> parseUint8AndShift payload len;
       if portContext_t_getEndPoint This dstEP = None then Some (This, g)
       else if len \<noteq> afPktLen then Some (This, g)
       else do {
         (hdr, payload, len) \<leftarrow> parseZCLHeader payload len;
         p \<leftarrow> payload;
         zcl_dispatch mallocOk This srcAddr srcEP clusterId hdr len p g
       }
     })"

subsection \<open>The receive path\<close>

text \<open>The synchronous responses that the code ignores fall into the last branch with the
  unsupported commands, which only leave a trace.\<close>

definition portContext_t_processZnpMsg ::
    "bool \<Rightarrow> bytes \<Rightarrow> portContext_t \<Rightarrow> u8 \<Rightarrow> u8 \<Rightarrow> u8 \<Rightarrow> bytes option \<Rightarrow> azapGlobals \<Rightarrow> cbRes" where
  "portContext_t_processZnpMsg mallocOk junk This len cmd0 cmd1 payload g =
    (let cmd = BUILD_UINT16 cmd0 cmd1 in
     if cmd = MT_ZDO_MSG_CB_INCOMING_AREQ
     then portContext_t_processZDOMsgCbIncoming mallocOk junk This len payload g
     else if cmd = MT_AF_DATA_CONFIRM_AREQ
     then portContext_t_parseAndProcessAfDataConfirm This len payload g
     else if cmd = MT_AF_INCOMING_MSG_AREQ
     then portContext_t_processAfIncomingMsg mallocOk This len payload g
     else Some (This, g))"

definition portContext_t_processRxMsg ::
    "bool \<Rightarrow> (nat \<Rightarrow> bytes option) \<Rightarrow> bytes \<Rightarrow> ttyEnv \<Rightarrow> int \<Rightarrow> int \<Rightarrow> portContext_t \<Rightarrow> azapGlobals \<Rightarrow> cbRes" where
  "portContext_t_processRxMsg mallocOk mal junk env now sofDate This g =
    (if \<not> portContext_t_isStarted This then Some (This, g)
     else do {
       This1 \<leftarrow> (if -1 = deviceFd This
                then (case startInst This of
                        None \<Rightarrow> portContext_t_startZnp mallocOk mal env
                                  ((portContext_t_stopZnp This)\<lparr>resetHanAtReboot := False\<rparr>)
                      | Some _ \<Rightarrow> Some (snd (portContext_t_connect env This)))
                else Some This);
       rxb \<leftarrow> rx This1;
       out \<leftarrow> uartBufControl_t_getNextZNPMsg now sofDate rxb (Some (replicate MAX_ZNP_PAYLOAD_SIZE 0));
       let This2 = This1\<lparr>rx := Some (oThis out)\<rparr>;
       if oRes out
       then do {
         (len, cmd0, cmd1) \<leftarrow> oLenCmd out;
         case startInst This2 of
           Some inst \<Rightarrow> do {
             (inst', This3, g') \<leftarrow>
               znpStartInstance_t_processZnpMsg len cmd0 cmd1 (Some (oData out)) inst This2 g;
             Some (This3\<lparr>startInst := inst'\<rparr>, g')
           }
         | None \<Rightarrow> portContext_t_processZnpMsg mallocOk junk This2 len cmd0 cmd1 (Some (oData out)) g
       }
       else Some (This2, g)
     })"

subsection \<open>Poll callbacks\<close>

text \<open>The flags asked for: \<open>POLLIN\<close> is 1, \<open>POLLOUT\<close> is 4.\<close>

definition portContextEventPollCb :: "int \<Rightarrow> portContext_t option \<Rightarrow> (int \<times> portContext_t option) exec" where
  "portContextEventPollCb fd ThisOpt =
    (case ThisOpt of
       None \<Rightarrow> Some (-1, None)
     | Some This \<Rightarrow>
         if fd \<noteq> deviceFd This then Some (-1, Some (This\<lparr>deviceFd := -1\<rparr>))
         else do {
           txb \<leftarrow> tx This;
           Some (if uartBufControl_t_getBufferedSize txb \<noteq> 0 then 5 else 1, Some This)
         })"

text \<open>\<open>readRes\<close> is what \<open>read\<close> returned: \<open>None\<close> for -1, otherwise the bytes it stored. The result
  carries the bytes handed to \<open>write\<close>; what \<open>write\<close> returns is only traced.\<close>

definition portContextRequestPollCb ::
    "bool \<Rightarrow> bool \<Rightarrow> int \<Rightarrow> bytes option \<Rightarrow> portContext_t option \<Rightarrow> (int \<times> portContext_t option \<times> bytes) exec" where
  "portContextRequestPollCb pollIn pollOut fd readRes ThisOpt =
    (case ThisOpt of
       None \<Rightarrow> Some (-1, None, [])
     | Some This \<Rightarrow>
         if fd \<noteq> deviceFd This then Some (-1, Some (This\<lparr>deviceFd := -1\<rparr>), [])
         else do {
           (This1, len) \<leftarrow>
             (if pollIn
              then let n = (case readRes of None \<Rightarrow> (-1 :: u8) | Some d \<Rightarrow> of_nat (length d));
                       data = take 255 ((case readRes of None \<Rightarrow> [] | Some d \<Rightarrow> d) @ replicate 255 0)
                   in if n \<noteq> 0
                      then do {
                        rxb \<leftarrow> rx This;
                        (rc, rxb') \<leftarrow> uartBufControl_t_put rxb (ucast n) (Some data);
                        Some (This\<lparr>rx := Some rxb'\<rparr>, n)
                      }
                      else Some (snd (portContext_t_disconnect This), n)
              else Some (This, 255));
           if pollOut
           then do {
             txb \<leftarrow> tx This1;
             let len' = (if uartBufControl_t_getBufferedSize txb < 255
                         then ucast (uartBufControl_t_getBufferedSize txb) else len);
             (rc, txb', dst) \<leftarrow> uartBufControl_t_get txb (ucast len') (Some (replicate 255 0));
             d \<leftarrow> dst;
             Some (0, Some (This1\<lparr>tx := Some txb'\<rparr>), take (unat len') d)
           }
           else Some (0, Some This1, [])
         })"

subsection \<open>Sending a request\<close>

text \<open>The context is the one linked last into the pending or postponed list: it is replaced
  there after each change. Without an expected response it is a temporary, freed before the
  failure path reads it.\<close>

definition set_last :: "'a \<Rightarrow> 'a list \<Rightarrow> 'a list" where
  "set_last x xs = butlast xs @ [x]"

definition portContext_t_sendRequest ::
    "bool \<Rightarrow> portContext_t \<Rightarrow> AZAP_REQ_TTL_MGMT_MODE \<Rightarrow> nat \<Rightarrow> AZAP_REQUEST_TYPE \<Rightarrow> bool \<Rightarrow> u16 \<Rightarrow> u8 \<Rightarrow> u8 \<Rightarrow>
     u16 \<Rightarrow> u8 \<Rightarrow> u16 \<Rightarrow> bool \<Rightarrow> u8 \<Rightarrow> u8 \<Rightarrow> u8 \<Rightarrow> bytes option \<Rightarrow> azapGlobals \<Rightarrow>
     (bool \<times> portContext_t \<times> azapGlobals) exec" where
  "portContext_t_sendRequest mallocOk This mode issuer type needResponse nwkAddr remoteEp localEp
       clusterId dir manu defaultRsp code expected len payload g = do {
     params0 \<leftarrow> new_postponedRequestElts_t mallocOk needResponse;
     let params = params0\<lparr>localEndp := localEp, defaultResponse := defaultRsp, cmdCode := code,
                          dataLen := len\<rparr>;
     rm \<leftarrow> requestManager This;
     if requestManager_t_readyToSendDoublonCheck rm nwkAddr type clusterId remoteEp expected
     then
       (if needResponse
        then do {
          (context0, rm1) \<leftarrow> requestManager_t_addPendingRequest mallocOk rm issuer nwkAddr type clusterId
                               dir manu remoteEp expected zigbeeRequestTimeout mode;
          (res, sent, This1, g1) \<leftarrow>
            requestManager_t_sendRequest
              (Some (context0\<lparr>requestParameters := Some (params\<lparr>cmdData := payload\<rparr>)\<rparr>))
              (This\<lparr>requestManager := Some rm1\<rparr>) g;
          context1 \<leftarrow> sent;
          let rm2 = rm1\<lparr>pendingRequests :=
                          set_last (context1\<lparr>requestParameters := None\<rparr>) (pendingRequests rm1)\<rparr>;
          if res then Some (True, This1\<lparr>requestManager := Some rm2\<rparr>, g1)
          else case requestManager_t_removePending rm2 nwkAddr type clusterId remoteEp expected of
                 (None, _) \<Rightarrow> None
               | (Some _, rm3) \<Rightarrow> Some (False, This1\<lparr>requestManager := Some rm3\<rparr>, g1)
        }
        else do {
          context0 \<leftarrow> new_requestContext_t mallocOk zigbeeRequestTimeout mode;
          let tmp = context0\<lparr>rqType := type, nwkAddrDest := nwkAddr, rqClusterId := clusterId,
                             clusterDir := dir, manufacturerCode := manu, remoteEndp := remoteEp,
                             expectedCmdCode := expected,
                             requestParameters := Some (params\<lparr>cmdData := payload\<rparr>)\<rparr>;
          (res, sent, This1, g1) \<leftarrow> requestManager_t_sendRequest (Some tmp) This g;
          if res then Some (True, This1, g1) else None
        })
     else do {
       (context0, rm1) \<leftarrow> requestManager_t_addPostponedRequest mallocOk rm issuer nwkAddr type clusterId
                            dir manu remoteEp expected (Some params) zigbeeRequestTimeout mode;
       d \<leftarrow> memread 0 (unat len) (case payload of None \<Rightarrow> [] | Some p \<Rightarrow> p);
       let rm2 = rm1\<lparr>postponedRequests :=
                       set_last (context0\<lparr>requestParameters := Some (params\<lparr>cmdData := Some d\<rparr>)\<rparr>)
                                (postponedRequests rm1)\<rparr>;
       Some (True, This\<lparr>requestManager := Some rm2\<rparr>, g)
     }
   }"

definition portContext_t_sendZdo ::
    "bool \<Rightarrow> portContext_t \<Rightarrow> AZAP_REQ_TTL_MGMT_MODE \<Rightarrow> nat \<Rightarrow> AZAP_REQUEST_TYPE \<Rightarrow> bool \<Rightarrow> u16 \<Rightarrow> u8 \<Rightarrow> u8 \<Rightarrow>
     bytes option \<Rightarrow> azapGlobals \<Rightarrow> (bool \<times> portContext_t \<times> azapGlobals) exec" where
  "portContext_t_sendZdo mallocOk This mode issuer type needResponse nwkAddr remoteEp len payload g =
     portContext_t_sendRequest mallocOk This mode issuer type needResponse nwkAddr remoteEp 0 0 0 0
       False 0 0 len payload g"

definition portContext_t_sendZcl ::
    "bool \<Rightarrow> portContext_t \<Rightarrow> AZAP_REQ_TTL_MGMT_MODE \<Rightarrow> nat \<Rightarrow> AZAP_REQUEST_TYPE \<Rightarrow> bool \<Rightarrow> u16 \<Rightarrow> u8 \<Rightarrow> u8 \<Rightarrow>
     u16 \<Rightarrow> u8 \<Rightarrow> u16 \<Rightarrow> bool \<Rightarrow> u8 \<Rightarrow> u8 \<Rightarrow> u8 \<Rightarrow> bytes option \<Rightarrow> azapGlobals \<Rightarrow>
     (bool \<times> portContext_t \<times> azapGlobals) exec" where
  "portContext_t_sendZcl mallocOk This mode issuer type needResponse nwkAddr remoteEp localEp
       clusterId dir manu defaultRsp code expected len payload g =
     portContext_t_sendRequest mallocOk This mode issuer type needResponse nwkAddr remoteEp localEp
       clusterId dir manu defaultRsp code expected len payload g"

subsection \<open>Every request taken off is reported\<close>

text \<open>The effect of an incoming message on a running port: at most one pending request is
  taken off, and then \<open>R\<close> says what was called back; otherwise at most one callback is called. Only
  the request manager changes. A message of a remote node answers the request it takes off: the
  callback of its type gets its context and address.\<close>

definition message_effect ::
    "(requestContext_t \<Rightarrow> azapEvent list \<Rightarrow> bool) \<Rightarrow> portContext_t \<Rightarrow> azapGlobals \<Rightarrow> portContext_t \<times> azapGlobals \<Rightarrow> bool" where
  "message_effect R This g r =
     (\<exists>rm rm' evs g'. requestManager This = Some rm \<and> r = (This\<lparr>requestManager := Some rm'\<rparr>, g') \<and>
        cbLog g' = cbLog g @ evs \<and> length evs \<le> 1 \<and> postponedRequests rm' = postponedRequests rm \<and>
        (pendingRequests rm' = pendingRequests rm \<or>
         (\<exists>us q vs. pendingRequests rm = us @ q # vs \<and> pendingRequests rm' = us @ vs \<and> R q evs)))"

definition answered :: "requestContext_t \<Rightarrow> azapEvent list \<Rightarrow> bool" where
  "answered q evs = (\<exists>ev. evs = [ev] \<and> ev_answers ev = Some (rqType q, Some (issuerContext q), nwkAddrDest q))"

abbreviation incoming_effect :: "portContext_t \<Rightarrow> azapGlobals \<Rightarrow> portContext_t \<times> azapGlobals \<Rightarrow> bool" where
  "incoming_effect \<equiv> message_effect answered"

lemma effect_idle:
  "requestManager This = Some rm \<Longrightarrow> cbLog g' = cbLog g \<Longrightarrow> message_effect R This g (This, g')"
  unfolding message_effect_def
  by (intro exI [of _ rm] exI [of _ rm] exI [of _ "[]"] exI [of _ g']) simp

lemma effect_callback:
  assumes "requestManager This = Some rm" "cbLog g' = cbLog g @ evs" "length evs \<le> 1"
  shows "incoming_effect This g (This, g')"
  unfolding message_effect_def
  using assms by (intro exI [of _ rm] exI [of _ rm] exI [of _ evs] exI [of _ g']) simp

lemma removePending_effect:
  assumes "requestManager_t_removePending rm src t c ep code = (ctx, rm')"
  shows "postponedRequests rm' = postponedRequests rm \<and>
    (case ctx of
       None \<Rightarrow> pendingRequests rm' = pendingRequests rm
     | Some q \<Rightarrow> rqType q = t \<and> nwkAddrDest q = src \<and>
         (\<exists>us vs. pendingRequests rm = us @ q # vs \<and> pendingRequests rm' = us @ vs))"
proof -
  let ?P = "pending_match src t c ep code"
  from assms have e: "ctx = find_last ?P (pendingRequests rm)"
    "rm' = rm\<lparr>pendingRequests := remove_last ?P (pendingRequests rm)\<rparr>"
    by (auto simp: requestManager_t_removePending_def)
  show ?thesis
  proof (cases ctx)
    case None
    with e show ?thesis by (simp add: remove_last_None)
  next
    case (Some q)
    then have "find_last ?P (pendingRequests rm) = Some q" using e(1) by simp
    from remove_last_Some [OF this] find_last_SomeD [OF this] Some e(2) show ?thesis
      by (auto simp: pending_match_def)
  qed
qed

lemma delivers_effect:
  assumes "delivers t src c code This g1 r" "cbLog g1 = cbLog g"
  shows "incoming_effect This g r"
proof -
  from assms(1) obtain rm ep ctx rm' ev where d: "requestManager This = Some rm"
    "requestManager_t_removePending rm src t c ep code = (ctx, rm')"
    "ev_answers ev = Some (t, map_option issuerContext ctx, src)"
    "r = (This\<lparr>requestManager := Some rm'\<rparr>, callback ev g1)"
    unfolding delivers_def by blast
  show ?thesis
    unfolding message_effect_def
    using d assms(2) removePending_effect [OF d(2)]
    by (intro exI [of _ rm] exI [of _ rm'] exI [of _ "[ev]"] exI [of _ "callback ev g1"])
      (cases ctx, auto simp: callback_def answered_def)
qed

lemma notifies_effect:
  assumes "notifies This g1 r" "cbLog g1 = cbLog g" "requestManager This = Some rm"
  shows "incoming_effect This g r"
proof -
  from assms(1) obtain evs where "r = (This, g1\<lparr>cbLog := cbLog g1 @ evs\<rparr>)" "length evs \<le> 1"
    unfolding notifies_def by blast
  with assms show ?thesis by (auto intro!: effect_callback [of _ rm _ _ evs])
qed

lemma zdo_outcome_effect:
  assumes "zdo_outcome t src This g1 r" "cbLog g1 = cbLog g" "requestManager This = Some rm"
  shows "incoming_effect This g r"
  using assms delivers_effect [of t src 0 0 This g1 r g] effect_idle [OF assms(3,2)]
  unfolding zdo_outcome_def by auto

subsection \<open>ZDO messages\<close>

lemma ex_if:
  "(c \<Longrightarrow> \<exists>r. k = Some r \<and> Q r) \<Longrightarrow> (\<not> c \<Longrightarrow> \<exists>r. k' = Some r \<and> Q r) \<Longrightarrow>
   \<exists>r. (if c then k else k') = Some r \<and> Q r"
  by (cases c) simp_all

lemma zdo_incoming_effect:
  assumes "requestManager This = Some rm" "length junk = 8" "cur_ok payload len"
  shows "\<exists>r. portContext_t_processZDOMsgCbIncoming True junk This len payload g = Some r \<and> incoming_effect This g r"
proof -
  let ?gn = "g\<lparr>azapNbZdoNotifications := azapNbZdoNotifications g + 1\<rparr>"
  let ?gc = "g\<lparr>azapNbZdoRequestsCompleted := azapNbZdoRequestsCompleted g + 1\<rparr>"
  have n: "\<exists>r. azapProcessZdoDeviceAnnceCb junk This src n data ?gn = Some r \<and> incoming_effect This g r"
    if "cur_ok data n" for src n data
    using device_annce_total [OF that assms(2), of This src ?gn] notifies_effect [OF _ _ assms(1), of ?gn _ g] by fastforce
  have out: "\<exists>r. k = Some r \<and> zdo_outcome t src This ?gc r \<Longrightarrow> \<exists>r. k = Some r \<and> incoming_effect This g r" for k t src
    using zdo_outcome_effect [OF _ _ assms(1), of t src ?gc _ g] by fastforce
  have idle: "incoming_effect This g (This, g)" using effect_idle [OF assms(1), of g g] by simp
  note dels = zdo_deliveries [OF _ assms(1,2), THEN out]
  note rules = n dels reads_lunit reads_bind reads_if reader_ok8 reader_ok16 reads_return
  show ?thesis
    unfolding portContext_t_processZDOMsgCbIncoming_def Let_def
    by (rule rules idle exI [of _ "(This, g)"] conjI refl ex_if readsD [OF _ assms(3)] readsI | assumption)+
qed

subsection \<open>AF messages\<close>

text \<open>\<open>slack p n\<close>: behind the \<open>n\<close> bytes of the payload, at least six more bytes of the array are
  left. \<open>shifts f\<close>: \<open>f\<close> moves the cursor over what it takes off the length, so that the slack stays.\<close>

definition slack :: "bytes \<Rightarrow> u8 \<Rightarrow> bool" where
  "slack p n = (unat n + 6 \<le> length p \<and> unat n < 250)"

definition shifts :: "(bytes option \<Rightarrow> u8 \<Rightarrow> ('a \<times> bytes option \<times> u8) exec) \<Rightarrow> bool" where
  "shifts f = (\<forall>p n. unat n \<le> length p \<longrightarrow>
     (\<exists>x j. f (Some p) n = Some (x, Some (drop j p), n - of_nat j) \<and> j \<le> unat n))"

definition slack_reads :: "('r \<Rightarrow> bool) \<Rightarrow> (bytes option \<Rightarrow> u8 \<Rightarrow> 'r exec) \<Rightarrow> bool" where
  "slack_reads Q f = (\<forall>p n. slack p n \<longrightarrow> (\<exists>r. f (Some p) n = Some r \<and> Q r))"

lemma slack_drop: "slack p n \<Longrightarrow> j \<le> unat n \<Longrightarrow> slack (drop j p) (n - of_nat j)"
  using unat_diff_u8 [of j n] by (auto simp: slack_def)

lemma shiftsE:
  assumes "shifts f" "unat n \<le> length p"
  obtains x j where "f (Some p) n = Some (x, Some (drop j p), n - of_nat j)" "j \<le> unat n"
  using assms unfolding shifts_def by blast

lemma shifts_bind:
  assumes "shifts f" "\<And>x. shifts (h x)"
  shows "shifts (\<lambda>data n. f data n \<bind> (\<lambda>(x, data', n'). h x data' n'))"
  unfolding shifts_def
proof (intro allI impI)
  fix p :: bytes and n :: u8
  assume le: "unat n \<le> length p"
  obtain x j where f: "f (Some p) n = Some (x, Some (drop j p), n - of_nat j)" "j \<le> unat n"
    using shiftsE [OF assms(1) le] by blast
  have d: "unat (n - of_nat j) = unat n - j" using f(2) by (rule unat_diff_u8)
  obtain y k where h: "h x (Some (drop j p)) (n - of_nat j)
      = Some (y, Some (drop k (drop j p)), n - of_nat j - of_nat k)" "k \<le> unat (n - of_nat j)"
  proof (rule shiftsE [OF assms(2)])
    show "unat (n - of_nat j) \<le> length (drop j p)" using d le by simp
  qed
  show "\<exists>y j. (f (Some p) n \<bind> (\<lambda>(x, data', n'). h x data' n')) = Some (y, Some (drop j p), n - of_nat j) \<and> j \<le> unat n"
    using f h d by (intro exI [of _ y] exI [of _ "j + k"]) (simp add: add.commute diff_diff_add)
qed

lemma shifts_return: "shifts (\<lambda>data n. Some (x, data, n))"
  unfolding shifts_def by (auto intro!: exI [of _ 0])

lemma shifts_if: "shifts f \<Longrightarrow> shifts h \<Longrightarrow> shifts (\<lambda>data n. if c then f data n else h data n)"
  by (cases c) simp_all

lemma shiftsI:
  assumes "\<And>p n. unat n < k \<Longrightarrow> f (Some p) n = Some (z, Some p, n)"
    "\<And>p n. k \<le> unat n \<Longrightarrow> k \<le> length p \<Longrightarrow> \<exists>x. f (Some p) n = Some (x, Some (drop k p), n - of_nat k)"
  shows "shifts f"
  unfolding shifts_def
proof (intro allI impI)
  fix p :: bytes and n :: u8
  assume "unat n \<le> length p"
  show "\<exists>x j. f (Some p) n = Some (x, Some (drop j p), n - of_nat j) \<and> j \<le> unat n"
  proof (cases "unat n < k")
    case True
    from assms(1) [OF this] show ?thesis by (intro exI [of _ z] exI [of _ 0]) simp
  next
    case False
    then show ?thesis
      using assms(2) [of n p] \<open>unat n \<le> length p\<close> by (auto intro!: exI [of _ k])
  qed
qed

lemma shifts8: "shifts parseUint8AndShift"
  by (rule shiftsI [of 1]) (auto simp: parseUint8AndShift_def word_less_nat_alt idx_def)

lemma shifts16: "shifts parseUint16AndShift"
  by (rule shiftsI [of 2]) (auto simp: parseUint16AndShift_def word_less_nat_alt idx_def)

lemma shifts32: "shifts parseUint32AndShift"
  by (rule shiftsI [of 4]) (auto simp: parseUint32AndShift_def word_less_nat_alt idx_def Let_def)

lemma shifts_header: "shifts parseZCLHeader"
  unfolding parseZCLHeader_def Let_def by (rule shifts_bind shifts8 shifts16 shifts_return shifts_if)+

lemma slack_reads_bind:
  assumes "shifts f" "\<And>x. slack_reads Q (h x)"
  shows "slack_reads Q (\<lambda>data n. f data n \<bind> (\<lambda>(x, data', n'). h x data' n'))"
  unfolding slack_reads_def
proof (intro allI impI)
  fix p :: bytes and n :: u8
  assume s: "slack p n"
  then have "unat n \<le> length p" by (simp add: slack_def)
  with assms(1) obtain x j where f: "f (Some p) n = Some (x, Some (drop j p), n - of_nat j)" "j \<le> unat n"
    by (rule shiftsE)
  with assms(2) [of x] slack_drop [OF s f(2)]
  show "\<exists>r. (f (Some p) n \<bind> (\<lambda>(x, data', n'). h x data' n')) = Some r \<and> Q r"
    by (simp add: slack_reads_def)
qed

lemma delivers_total:
  assumes "requestManager This = Some rm" "cbLog g1 = cbLog g" "\<And>i. ev_answers (mk i) = Some (t, i, src)"
  shows "\<exists>r. complete_request This t src cluster ep code mk g1 = Some r \<and> incoming_effect This g r"
  using complete_delivers [OF assms(1), of mk t src cluster ep code g1] assms(2,3) delivers_effect by blast

lemma zcl_parsed:
  assumes "\<exists>d. parse = Some d" "\<And>d. \<exists>r. k d = Some r \<and> Q r" "Q z"
  shows "\<exists>r. (if c then Some z else parse \<bind> k) = Some r \<and> Q r"
  using assms by auto

lemma ex_Some: "Q r \<Longrightarrow> \<exists>r'. Some r = Some r' \<and> Q r'"
  by simp

definition no_report_config :: "portContext_t \<Rightarrow> bool" where
  "no_report_config This =
     (azapZclConfigureReportCmdCb \<notin> set (pCallbacks This) \<and>
      azapZclReadReportConfigCmdRspCb \<notin> set (pCallbacks This))"

lemma zcl_dispatch_effect:
  assumes "requestManager This = Some rm" "no_report_config This" "slack p n"
  shows "\<exists>r. zcl_dispatch True This srcAddr srcEP clusterId hdr n p g = Some r \<and> incoming_effect This g r"
proof -
  have guard: "\<not> cb_guard This azapZclConfigureReportCmdCb n n n"
    "\<not> cb_guard This azapZclReadReportConfigCmdRspCb n n n"
    using assms(2) by (simp_all add: no_report_config_def cb_guard_def)
  have le: "unat n \<le> length p" "unat n < 252" "unat n + 6 \<le> length p" "unat n < 254" "unat n + 4 \<le> length p"
    using assms(3) by (simp_all add: slack_def)
  have idle: "incoming_effect This g (This, g')" if "cbLog g' = cbLog g" for g'
    using effect_idle [OF assms(1) that] .
  have cb: "incoming_effect This g (This, callback ev g')" if "cbLog g' = cbLog g" for g' ev
    using that by (intro effect_callback [OF assms(1), of _ _ "[ev]"]) (simp_all add: callback_def)
  have report: "\<exists>d. parseZCLReportCmd True n p = Some d" using parseZCLReportCmd_total [OF le(4,5)] by blast
  note parsed = zcl_parsed read_parse_total [OF le(2,3)] write_parse_total [OF le(1)]
    cfgReportRsp_parse_total [OF le(1)] discover_parse_total [OF le(1)] report
  note handlers = azapProcessZclIncomingCmdCb_def azapProcessZclReadCmdRspCb_def azapProcessZclWriteCmdRspCb_def
    azapProcessZclConfigReportCmdCb_def azapProcessZclConfigReportCmdRspCb_def azapProcessZclReportCmdCb_def
    azapProcessZclReadReportConfigCmdRspCb_def azapProcessZclDiscoverCmdRspCb_def
  show ?thesis
    unfolding zcl_dispatch_def handlers Let_def
    by (simp only: guard not_False_eq_True if_True)
      (rule parsed ex_if ex_Some delivers_total [OF assms(1)] idle cb ev_answers.simps | simp)+
qed

end
