(* ===== verification/Port_Run.thy ===== *)
theory Port_Run
  imports Port_Context
begin

section \<open>A running port\<close>

text \<open>
  What the operations of the port context guarantee together: the effect of an incoming message,
  the invariant that every operation of a started port keeps, what sending a request does to the
  request manager and to the transmit buffer, and the laws of the end point table.
\<close>

subsection \<open>AF messages and the dispatcher\<close>

lemma slack_readsD: "slack_reads Q f \<Longrightarrow> slack p n \<Longrightarrow> \<exists>r. f (Some p) n = Some r \<and> Q r"
  by (simp add: slack_reads_def)

lemma slack_readsI: "(\<And>p n. slack p n \<Longrightarrow> \<exists>r. f (Some p) n = Some r \<and> Q r) \<Longrightarrow> slack_reads Q f"
  by (simp add: slack_reads_def)

lemma af_incoming_effect:
  assumes "requestManager This = Some rm" "no_report_config This" "slack p n"
  shows "\<exists>r. portContext_t_processAfIncomingMsg True This n (Some p) g = Some r \<and> incoming_effect This g r"
proof -
  have idle: "incoming_effect This g (This, g)" using effect_idle [OF assms(1), of g g] by simp
  have zcl: "\<exists>r. (Some p \<bind> (\<lambda>p. zcl_dispatch True This srcAddr srcEP clusterId hdr n p g)) = Some r \<and>
      incoming_effect This g r" if "slack p n" for srcAddr srcEP clusterId hdr n p
    using zcl_dispatch_effect [OF assms(1,2) that] by simp
  have header: "\<exists>r. parseZCLHeader (Some p) n \<bind> (\<lambda>(hdr, payload, len).
        payload \<bind> (\<lambda>p. zcl_dispatch True This srcAddr srcEP clusterId hdr len p g)) = Some r \<and>
      incoming_effect This g r" if "slack p n" for srcAddr srcEP clusterId n p
    by (rule zcl slack_reads_bind shifts_header slack_readsI slack_readsD [OF _ that] | assumption)+
  show ?thesis
    unfolding portContext_t_processAfIncomingMsg_def
    by (rule header slack_reads_bind shifts8 shifts16 shifts32 ex_if ex_Some idle
        slack_readsD [OF _ assms(3)] slack_readsI | assumption)+
qed

text \<open>A failed confirm takes off the last pending request with its transaction identifier and
  reports its failure.\<close>

lemma removePendingAf_effect:
  assumes "requestManager This = Some rm" "requestManager_t_removePendingAf rm tid = (ctx, rm')"
    "all_answerable (pCallbacks This) rm"
  shows "\<exists>g'. requestManager_t_callbackOnFailure ctx (Some (This\<lparr>requestManager := Some rm'\<rparr>)) g = Some g' \<and>
    message_effect (\<lambda>q evs. evs = failure_events q) This g (This\<lparr>requestManager := Some rm'\<rparr>, g')"
proof -
  let ?P = "\<lambda>elt. tid = transactionId elt"
  from assms(2) have e: "ctx = find_last ?P (pendingRequests rm)"
    "rm' = rm\<lparr>pendingRequests := remove_last ?P (pendingRequests rm)\<rparr>"
    by (auto simp: requestManager_t_removePendingAf_def)
  show ?thesis
  proof (cases ctx)
    case None
    with e have "rm' = rm" by (simp add: remove_last_None)
    with assms(1) have "This\<lparr>requestManager := Some rm'\<rparr> = This" by (cases This) simp
    with None effect_idle [OF assms(1), of g g] show ?thesis
      by (simp add: requestManager_t_callbackOnFailure_def)
  next
    case (Some q)
    then have f: "find_last ?P (pendingRequests rm) = Some q" using e(1) by simp
    from remove_last_Some [OF f] obtain us vs where u: "pendingRequests rm = us @ q # vs" "pendingRequests rm' = us @ vs"
      using e(2) by auto
    have "length (failure_events q) \<le> 1" by (simp add: failure_events_def split: option.splits)
    have "answerable (pCallbacks (This\<lparr>requestManager := Some rm'\<rparr>)) (rqType q)"
      using assms(3) u(1) by (simp add: all_answerable_def)
    then have "requestManager_t_callbackOnFailure (Some q) (Some (This\<lparr>requestManager := Some rm'\<rparr>)) g \<noteq> None"
      unfolding callbackOnFailure_None_iff by simp
    then obtain g' where g': "requestManager_t_callbackOnFailure (Some q) (Some (This\<lparr>requestManager := Some rm'\<rparr>)) g = Some g'"
      by auto
    have "message_effect (\<lambda>q evs. evs = failure_events q) This g (This\<lparr>requestManager := Some rm'\<rparr>, g')"
      unfolding message_effect_def
      using u e(2) assms(1) \<open>length (failure_events q) \<le> 1\<close> callbackOnFailure_log [OF g']
      by (intro exI [of _ rm] exI [of _ rm'] exI [of _ "failure_events q"] exI [of _ g'] conjI) auto
    with Some g' show ?thesis by simp
  qed
qed

lemma af_confirm_effect:
  assumes "requestManager This = Some rm" "cur_ok data n" "all_answerable (pCallbacks This) rm"
  shows "\<exists>r. portContext_t_parseAndProcessAfDataConfirm This n data g = Some r \<and>
    message_effect (\<lambda>q evs. evs = failure_events q) This g r"
proof -
  have idle: "message_effect (\<lambda>q evs. evs = failure_events q) This g (This, g)" using effect_idle [OF assms(1), of g g] by simp
  have fail: "\<exists>r. (requestManager This \<bind> (\<lambda>rm. case requestManager_t_removePendingAf rm tid of (msgContext, rm') \<Rightarrow>
      requestManager_t_callbackOnFailure msgContext (Some (This\<lparr>requestManager := Some rm'\<rparr>)) g \<bind>
        (\<lambda>g'. Some (This\<lparr>requestManager := Some rm'\<rparr>, g')))) = Some r \<and>
      message_effect (\<lambda>q evs. evs = failure_events q) This g r" for tid
  proof -
    obtain ctx rm' where c: "requestManager_t_removePendingAf rm tid = (ctx, rm')" by fastforce
    from removePendingAf_effect [OF assms(1) c assms(3), of g] show ?thesis using assms(1) c by auto
  qed
  show ?thesis
    unfolding portContext_t_parseAndProcessAfDataConfirm_def Let_def
    by (rule fail ex_if ex_Some idle reads_bind reader_ok8 readsI readsD [OF _ assms(2)])+
qed

text \<open>What an incoming message owes the issuer of the request it takes off.\<close>

definition owed :: "u16 \<Rightarrow> requestContext_t \<Rightarrow> azapEvent list \<Rightarrow> bool" where
  "owed cmd q evs = (if cmd = MT_AF_DATA_CONFIRM_AREQ then evs = failure_events q else answered q evs)"

lemma incoming_message_effect:
  assumes "requestManager This = Some rm" "no_report_config This" "length junk = 8" "slack p n"
    "all_answerable (pCallbacks This) rm"
  shows "\<exists>r. portContext_t_processZnpMsg True junk This n c0 c1 (Some p) g = Some r \<and>
    message_effect (owed (BUILD_UINT16 c0 c1)) This g r"
proof -
  have c: "cur_ok (Some p) n" using assms(4) by (simp add: cur_ok_def slack_def)
  show ?thesis
  proof (cases "BUILD_UINT16 c0 c1 = MT_AF_DATA_CONFIRM_AREQ")
    case True
    then have "owed (BUILD_UINT16 c0 c1) = (\<lambda>q evs. evs = failure_events q)" by (simp add: owed_def fun_eq_iff)
    moreover have "MT_AF_DATA_CONFIRM_AREQ \<noteq> MT_ZDO_MSG_CB_INCOMING_AREQ" by (simp add: MT_AF_DATA_CONFIRM_AREQ_def MT_ZDO_MSG_CB_INCOMING_AREQ_def)
    ultimately show ?thesis using True af_confirm_effect [OF assms(1) c assms(5)]
      by (simp add: portContext_t_processZnpMsg_def Let_def)
  next
    case False
    then have "owed (BUILD_UINT16 c0 c1) = answered" by (simp add: owed_def fun_eq_iff)
    with False zdo_incoming_effect [OF assms(1,3) c] af_incoming_effect [OF assms(1,2,4)]
      effect_idle [OF assms(1), of g g] show ?thesis
      by (simp add: portContext_t_processZnpMsg_def Let_def)
  qed
qed

subsection \<open>What the start procedure leaves alone\<close>

definition port_frame ::
    "portContext_t \<Rightarrow> uartBufControl_t option \<times> requestManager_t option \<times> bool \<times> azapCallback list \<times> int" where
  "port_frame port = (rx port, requestManager port, started port, pCallbacks port, deviceFd port)"

lemma port_frame_upd [simp]:
  "port_frame (port\<lparr>tx := b\<rparr>) = port_frame port" "port_frame (port\<lparr>startInst := i\<rparr>) = port_frame port"
  "port_frame (port\<lparr>zstackVersion := v\<rparr>) = port_frame port" "port_frame (port\<lparr>shortAddr := a\<rparr>) = port_frame port"
  "port_frame (port\<lparr>deviceIeee := e\<rparr>) = port_frame port" "port_frame (port\<lparr>panId := a\<rparr>) = port_frame port"
  "port_frame (port\<lparr>panIdExt := e\<rparr>) = port_frame port"
  by (simp_all add: port_frame_def)

lemma port_send_frame: "port_send f port = Some (ok, port') \<Longrightarrow> port_frame port' = port_frame port"
  by (auto simp: port_send_def split: bind_splits)

lemma nvWrite_frame: "nvWrite item val s = Some s' \<Longrightarrow> port_frame (snd s') = port_frame (snd s)"
  by (auto simp: nvWrite_def dest: port_send_frame split: bind_splits prod.splits)

lemma writeParam_frame: "writeParamInNvRam This port = Some (This', port') \<Longrightarrow> port_frame port' = port_frame port"
  by (auto simp: writeParamInNvRam_def Let_def dest!: nvWrite_frame split: bind_splits if_splits)

lemma register_loop_frame:
  "register_loop eps res This port = Some (ok, This', port') \<Longrightarrow> port_frame port' = port_frame port"
  by (induction eps arbitrary: res This port) (auto dest: port_send_frame split: bind_splits)

lemma register_zdo_loop_frame: "register_zdo_loop cs port = Some port' \<Longrightarrow> port_frame port' = port_frame port"
  by (induction cs arbitrary: port) (auto dest: port_send_frame split: bind_splits)

lemma abandon_frame: "znpStartInstance_t_abandon This port g = Some (i, port', g') \<Longrightarrow> port_frame port' = port_frame port"
  by (auto simp: znpStartInstance_t_abandon_def portContext_t_doStartZnpCompletion_def Let_def)

lemma register_frame: "register_or_abandon This port g = Some (i, port', g') \<Longrightarrow> port_frame port' = port_frame port"
  by (auto simp: register_or_abandon_def registerEndPoints_def Let_def
      dest!: register_loop_frame abandon_frame split: bind_splits if_splits)

lemma deviceInfoReq_frame: "deviceInfoReq param port = Some port' \<Longrightarrow> port_frame port' = port_frame port"
  by (auto simp: deviceInfoReq_def dest: port_send_frame split: bind_splits)

lemma initialReset_frame:
  "processWaitInitialResetResp len cmd data This port g = Some (i, port', g') \<Longrightarrow> port_frame port' = port_frame port"
  by (auto simp: processWaitInitialResetResp_def Let_def dest!: writeParam_frame
      split: bind_splits if_splits option.splits)

lemmas frames = port_send_frame writeParam_frame register_zdo_loop_frame abandon_frame register_frame
  deviceInfoReq_frame initialReset_frame

lemma start_step_frame:
  assumes "znpStartInstance_t_processZnpMsg len c0 c1 data This port g = Some (i, port', g')"
  shows "port_frame port' = port_frame port"
proof -
  note handlers = processWaitWriteParamResp_def processWaitReadParamResp_def processWaitWriteResetResp_def
    processWaitRegisterEndpointsResp_def processWaitRegisterZdoCbResp_def processWaitStartupFromAppResp_def
    processZnpStartingIndication_def processWaitPanInfos_def processWaitWritePanId_def
    portContext_t_doStartZnpCompletion_def
  show ?thesis
    using assms unfolding znpStartInstance_t_processZnpMsg_def Let_def
    by (cases "state This")
      (auto simp: handlers Let_def dest!: frames split: bind_splits if_splits option.splits)
qed

subsection \<open>The invariant of a started port\<close>

text \<open>The requests held respect the limits, can be sent, and can be reported when they fail: the
  callback table \<open>cbs\<close> has the response callback of each.\<close>

definition manager_ok :: "azapCallback list \<Rightarrow> requestManager_t \<Rightarrow> bool" where
  "manager_ok cbs rm =
     (within_limits (map req_key (pendingRequests rm)) \<and> (\<forall>e \<in> set (postponedRequests rm). sendable e) \<and>
      all_answerable cbs rm)"

definition port_running :: "portContext_t \<Rightarrow> bool" where
  "port_running This =
     (started This \<and> port_inv This \<and> no_report_config This \<and>
      (\<exists>b. rx This = Some b \<and> uart_wf b) \<and> (\<exists>rm. requestManager This = Some rm \<and> manager_ok (pCallbacks This) rm) \<and>
      (\<forall>i. startInst This = Some i \<longrightarrow> sm_inv i This))"

text \<open>The part of it that does not depend on \<open>startZnp\<close>: what the user of the library set up.\<close>

definition port_configured :: "portContext_t \<Rightarrow> bool" where
  "port_configured This =
     (azapStartedCb \<in> set (pCallbacks This) \<and> no_report_config This \<and>
      (\<forall>ep \<in> set (endPointList This). ep_ok ep) \<and> length (endPointList This) < 256)"

lemma sm_inv_cong: "endPointList q = endPointList p \<Longrightarrow> sm_inv i q = sm_inv i p"
  by (cases "state i") (simp_all add: sm_inv_def)

lemma port_running_fd [simp]: "port_running (This\<lparr>deviceFd := fd\<rparr>) = port_running This"
  by (simp add: port_running_def port_inv_def tx_ok_def no_report_config_def sm_inv_cong [of "This\<lparr>deviceFd := fd\<rparr>" This])

lemma port_running_rx [simp]:
  "port_running This \<Longrightarrow> port_running (This\<lparr>rx := Some b\<rparr>) = uart_wf b"
  by (simp add: port_running_def port_inv_def tx_ok_def no_report_config_def sm_inv_cong [of "This\<lparr>rx := Some b\<rparr>" This])

lemma port_running_tx [simp]:
  "port_running This \<Longrightarrow> port_running (This\<lparr>tx := Some b\<rparr>) = uart_wf b"
  by (simp add: port_running_def port_inv_def tx_ok_def no_report_config_def sm_inv_cong [of "This\<lparr>tx := Some b\<rparr>" This])

lemma port_running_rm [simp]:
  "port_running This \<Longrightarrow> port_running (This\<lparr>requestManager := Some rm\<rparr>) = manager_ok (pCallbacks This) rm"
  by (simp add: port_running_def port_inv_def tx_ok_def no_report_config_def
      sm_inv_cong [of "This\<lparr>requestManager := Some rm\<rparr>" This])

lemma running_configured: "port_running This \<Longrightarrow> port_configured This"
  by (simp add: port_running_def port_configured_def port_inv_def)

lemma manager_ok_sub:
  assumes "manager_ok cbs rm" "postponedRequests rm' = postponedRequests rm"
    "pendingRequests rm' = pendingRequests rm \<or>
     (\<exists>us q vs. pendingRequests rm = us @ q # vs \<and> pendingRequests rm' = us @ vs)"
  shows "manager_ok cbs rm'"
proof -
  have "subseq (map req_key (pendingRequests rm')) (map req_key (pendingRequests rm))"
    using assms(3) by (fastforce intro: list_emb_append_mono)
  with assms(1) have "within_limits (map req_key (pendingRequests rm'))"
    by (auto simp: manager_ok_def intro: adm.drop_requests)
  with assms show ?thesis by (auto simp: manager_ok_def all_answerable_def)
qed

lemma effect_running:
  assumes "message_effect R This g (This', g')" "port_running This"
  shows "port_running This'"
proof -
  from assms(1) obtain rm rm' where e: "requestManager This = Some rm" "This' = This\<lparr>requestManager := Some rm'\<rparr>"
    "postponedRequests rm' = postponedRequests rm"
    "pendingRequests rm' = pendingRequests rm \<or>
     (\<exists>us q vs. pendingRequests rm = us @ q # vs \<and> pendingRequests rm' = us @ vs)"
    unfolding message_effect_def by blast
  with assms(2) have "manager_ok (pCallbacks This) rm'"
    using manager_ok_sub [OF _ e(3,4)] by (auto simp: port_running_def)
  with assms(2) e(2) show ?thesis by simp
qed

lemma running_connect:
  assumes "port_running This"
  shows "port_running (snd (portContext_t_connect env This))"
  using assms by (simp add: portContext_t_connect_def portContext_t_open_def)

lemma running_disconnect:
  assumes "port_running This"
  shows "port_running (snd (portContext_t_disconnect This))"
  using assms by (simp add: portContext_t_disconnect_def)

definition mal_ok :: "(nat \<Rightarrow> bytes option) \<Rightarrow> bool" where
  "mal_ok mal = (\<exists>mem. mal 513 = Some mem \<and> length mem = 513)"

lemma new_uart_wf: "mal_ok mal \<Longrightarrow> \<exists>b. new_uartBufControl_t 512 True mal = Some b \<and> uart_wf b \<and> uart_contents b = []"
  by (auto simp: mal_ok_def new_uartBufControl_t_def uart_wf_def uart_contents_def uartBufControl_t_init_def Let_def ring_def)

lemma startZnp_running:
  assumes "port_configured This" "mal_ok mal"
  shows "\<exists>This'. portContext_t_startZnp True mal env This = Some This' \<and> port_running This' \<and>
     endPointList This' = endPointList This \<and> (\<exists>b. rx This' = Some b \<and> uart_contents b = []) \<and>
     (\<exists>i. startInst This' = Some i \<and> state i = AZAP_ZNP_WAIT_INITIAL_RESET_RESP)"
proof -
  obtain b where b: "new_uartBufControl_t 512 True mal = Some b" "uart_wf b" "uart_contents b = []" using new_uart_wf [OF assms(2)] by blast
  let ?T1 = "This\<lparr>started := True, rx := Some b, tx := Some b, requestManager := new_requestManager_t True\<rparr>"
  let ?T2 = "snd (portContext_t_connect env ?T1)"
  have T2: "port_inv ?T2" "no_report_config ?T2" "rx ?T2 = Some b" "started ?T2" "endPointList ?T2 = endPointList This"
    "requestManager ?T2 = Some \<lparr>postponedRequests = [], pendingRequests = []\<rparr>"
    using assms(1) b(2)
    by (simp_all add: portContext_t_connect_def portContext_t_open_def port_inv_def tx_ok_def no_report_config_def
        port_configured_def new_requestManager_t_def)
  obtain i where i: "new_znpStartInstance_t True (portNumber ?T2) = Some i" by (simp add: new_znpStartInstance_t_def)
  obtain c where c: "znpStartInstance_t_start i ?T2
      = Some (znpStartInstance_t_setState AZAP_ZNP_WAIT_INITIAL_RESET_RESP (i\<lparr>nbCycles := 0\<rparr>), ?T2\<lparr>tx := Some c\<rparr>)" "uart_wf c"
    using start_total [OF T2(1)] by blast
  let ?i = "znpStartInstance_t_setState AZAP_ZNP_WAIT_INITIAL_RESET_RESP (i\<lparr>nbCycles := 0\<rparr>)"
  let ?T3 = "?T2\<lparr>tx := Some c, startInst := Some ?i\<rparr>"
  have "portContext_t_startZnp True mal env This = Some ?T3"
    using b(1) i c(1) by (simp add: portContext_t_startZnp_def Let_def)
  moreover have "port_running ?T3"
    using T2 b(2) c(2) by (simp add: port_running_def port_inv_def tx_ok_def no_report_config_def manager_ok_def all_answerable_def within_limits_def
        on_node_def on_ep_def sm_inv_def znpStartInstance_t_setState_def)
  ultimately show ?thesis using T2(3,5) b(3) by (auto simp: znpStartInstance_t_setState_def)
qed

lemma stop_configured: "port_configured This \<Longrightarrow> port_configured ((portContext_t_stopZnp This)\<lparr>resetHanAtReboot := r\<rparr>)"
  by (simp add: portContext_t_stopZnp_def portContext_t_disconnect_def port_configured_def no_report_config_def)

subsection \<open>The receive path keeps the invariant\<close>

text \<open>No buffered frame announces more than 249 bytes of payload (a frame of the dongle has at most
  250 bytes of payload; an AF message carries about 100).\<close>

definition short_frames :: "int \<Rightarrow> portContext_t \<Rightarrow> bool" where
  "short_frames now This =
     (case rx This of
        None \<Rightarrow> True
      | Some b \<Rightarrow> (case snd (snd (uart_scan (give_up_stale now b))) of None \<Rightarrow> True | Some (l, _) \<Rightarrow> unat l < 250))"

lemma sm_inv_startInst [simp]: "sm_inv i (port\<lparr>startInst := x\<rparr>) = sm_inv i port"
  by (rule sm_inv_cong) simp

lemma start_step_running:
  assumes "port_running This" "startInst This = Some i" "9 \<le> length d"
  shows "\<exists>i' This' g'. znpStartInstance_t_processZnpMsg len c0 c1 (Some d) i This g = Some (i', This', g') \<and>
     port_running (This'\<lparr>startInst := i'\<rparr>) \<and> endPointList This' = endPointList This \<and>
     (i' = None \<longrightarrow> (\<exists>s. cbLog g' = cbLog g @ [StartedCb (portNumber This) s]))"
proof -
  from assms have "port_inv This" "sm_inv i This" by (simp_all add: port_running_def)
  with processZnpMsg_ok [OF _ assms(3)] obtain i' This' g' where
    r: "znpStartInstance_t_processZnpMsg len c0 c1 (Some d) i This g = Some (i', This', g')"
    and ok: "step_ok (awaited (state i) (BUILD_UINT16 c0 c1) (d ! 0)) i This g (i', This', g')" by fastforce
  from start_step_frame [OF r] assms(1) have "port_frame This' = port_frame This" by simp
  with ok assms(1) have "port_running (This'\<lparr>startInst := i'\<rparr>)"
    by (auto simp: step_ok_def port_running_def port_frame_def no_report_config_def port_inv_def tx_ok_def split: option.splits)
  with r ok show ?thesis by (auto simp: step_ok_def)
qed

lemma rx_step_running:
  assumes "port_running This" "length junk = 8" "short_frames now This"
  shows "\<exists>r. (do {
       rxb \<leftarrow> rx This;
       out \<leftarrow> uartBufControl_t_getNextZNPMsg now sofDate rxb (Some (replicate MAX_ZNP_PAYLOAD_SIZE 0));
       let This2 = This\<lparr>rx := Some (oThis out)\<rparr>;
       if oRes out
       then do {
         (len, cmd0, cmd1) \<leftarrow> oLenCmd out;
         case startInst This2 of
           Some inst \<Rightarrow> do {
             (inst', This3, g') \<leftarrow>
               znpStartInstance_t_processZnpMsg len cmd0 cmd1 (Some (oData out)) inst This2 g;
             Some (This3\<lparr>startInst := inst'\<rparr>, g')
           }
         | None \<Rightarrow> portContext_t_processZnpMsg True junk This2 len cmd0 cmd1 (Some (oData out)) g
       }
       else Some (This2, g)
     }) = Some r \<and> port_running (fst r) \<and> endPointList (fst r) = endPointList This"
proof -
  from assms(1) obtain b where b: "rx This = Some b" "uart_wf b" by (auto simp: port_running_def)
  let ?d = "replicate MAX_ZNP_PAYLOAD_SIZE (0 :: u8)"
  let ?T0 = "give_up_stale now b"
  have "255 \<le> length ?d" by (simp add: MAX_ZNP_PAYLOAD_SIZE_def)
  from getNextZNPMsg_scan_stale [OF b(2) this, of now sofDate] obtain out where
    out: "uartBufControl_t_getNextZNPMsg now sofDate b (Some ?d) = Some out"
    "scan_shown \<lparr>oThis = ?T0, oLenCmd = None, oData = ?d, oRes = False, oFcsError = False\<rparr> (uart_scan ?T0) out"
    by blast
  let ?This2 = "This\<lparr>rx := Some (oThis out)\<rparr>"
  from out(2) have "uart_wf (oThis out)" by (simp add: scan_shown_def)
  with assms(1) have run: "port_running ?This2" by simp
  obtain p r m where sc: "uart_scan ?T0 = (p, r, m)" by (cases "uart_scan ?T0") auto
  show ?thesis
  proof (cases m)
    case None
    with out sc have "\<not> oRes out" by (simp add: scan_shown_def)
    with b out run show ?thesis by (simp add: Let_def)
  next
    case (Some msg)
    obtain l c0 c1 d f where m: "msg = (l, c0, c1, d, f)" by (cases msg)
    with out sc Some have o: "oRes out" "oLenCmd out = Some (l, c0, c1)" "oData out = d @ drop (length d) ?d"
      by (simp_all add: scan_shown_def)
    have l: "unat l < 250" using assms(3) b(1) sc Some m by (simp add: short_frames_def)
    have "length d = unat l" using sc Some m by (auto simp: uart_scan_def dest!: znp_scan_len)
    with o(3) l have len: "length (oData out) = 255" by (simp add: MAX_ZNP_PAYLOAD_SIZE_def)
    with l have sl: "slack (oData out) l" by (simp add: slack_def)
    show ?thesis
    proof (cases "startInst This")
      case (Some i)
      with run len start_step_running [of ?This2 i "oData out" l c0 c1 g] obtain i' This' g' where
        "znpStartInstance_t_processZnpMsg l c0 c1 (Some (oData out)) i ?This2 g = Some (i', This', g')"
        "port_running (This'\<lparr>startInst := i'\<rparr>)" "endPointList This' = endPointList This" by auto
      with b out o Some show ?thesis by (simp add: Let_def)
    next
      case None
      from run obtain rm where "requestManager ?This2 = Some rm" "no_report_config ?This2"
        "all_answerable (pCallbacks ?This2) rm" by (auto simp: port_running_def manager_ok_def)
      from incoming_message_effect [OF this(1,2) assms(2) sl this(3), of c0 c1 g] obtain r where
        r: "portContext_t_processZnpMsg True junk ?This2 l c0 c1 (Some (oData out)) g = Some r"
          "message_effect (owed (BUILD_UINT16 c0 c1)) ?This2 g r"
        by blast
      then have "endPointList (fst r) = endPointList This" by (auto simp: message_effect_def)
      with r effect_running [of _ ?This2 g "fst r" "snd r"] run b out o None show ?thesis by (simp add: Let_def)
    qed
  qed
qed

lemma short_frames_empty: "rx This = Some b \<Longrightarrow> uart_contents b = [] \<Longrightarrow> short_frames now This"
  by (simp add: short_frames_def give_up_stale_def uart_scan_empty)

lemma short_frames_connect: "short_frames now (snd (portContext_t_connect env This)) = short_frames now This"
  by (simp add: short_frames_def portContext_t_connect_def portContext_t_open_def)

lemma connect_endPoints: "endPointList (snd (portContext_t_connect env This)) = endPointList This"
  by (simp add: portContext_t_connect_def portContext_t_open_def)

lemma processRxMsg_running:
  assumes "port_running This" "mal_ok mal" "length junk = 8" "short_frames now This"
  shows "\<exists>r. portContext_t_processRxMsg True mal junk env now sofDate This g = Some r \<and> port_running (fst r) \<and>
     endPointList (fst r) = endPointList This"
proof -
  have st: "portContext_t_isStarted This" using assms(1) by (simp add: port_running_def portContext_t_isStarted_def)
  obtain This1 where r: "port_running This1" "short_frames now This1" "endPointList This1 = endPointList This"
    and This1: "(if -1 = deviceFd This
                then (case startInst This of
                        None \<Rightarrow> portContext_t_startZnp True mal env
                                  ((portContext_t_stopZnp This)\<lparr>resetHanAtReboot := False\<rparr>)
                      | Some _ \<Rightarrow> Some (snd (portContext_t_connect env This)))
                else Some This) = Some This1"
  proof (cases "-1 = deviceFd This")
    case False
    with assms that show ?thesis by simp
  next
    case True
    show ?thesis
    proof (cases "startInst This")
      case None
      have e: "endPointList ((portContext_t_stopZnp This)\<lparr>resetHanAtReboot := False\<rparr>) = endPointList This"
        by (simp add: portContext_t_stopZnp_def portContext_t_disconnect_def)
      with None startZnp_running [OF stop_configured [OF running_configured [OF assms(1)]] assms(2)] short_frames_empty True that
      show ?thesis by fastforce
    next
      case (Some i)
      with True assms(4) show ?thesis
        by (intro that [OF running_connect [OF assms(1), of env]]) (simp_all add: short_frames_connect connect_endPoints)
    qed
  qed
  show ?thesis
    unfolding portContext_t_processRxMsg_def This1 bind.bind_lunit
    using st rx_step_running [OF r(1) assms(3) r(2)] r(3) by simp
qed

subsection \<open>Sending a request\<close>

text \<open>The key under which a request is filed and the payload it may carry.\<close>

definition payload_ok :: "u8 \<Rightarrow> bytes option \<Rightarrow> bool" where
  "payload_ok len payload = (case payload of None \<Rightarrow> len = 0 | Some p \<Rightarrow> unat len \<le> length p)"

lemma set_last_append [simp]: "set_last x (xs @ [y]) = xs @ [x]"
  by (simp add: set_last_def)

lemma find_last_snoc: "P q \<Longrightarrow> find_last P (ps @ [q]) = Some q"
  by (induction ps) simp_all

lemma remove_last_snoc: "P q \<Longrightarrow> remove_last P (ps @ [q]) = ps"
  by (induction ps) (simp_all add: find_last_snoc)

lemma remove_new_pending:
  assumes "req_key q = (type, nwkAddr, clusterId, remoteEp, expected)"
  shows "requestManager_t_removePending (rm\<lparr>pendingRequests := ps @ [q]\<rparr>) nwkAddr type clusterId remoteEp expected
    = (Some q, rm\<lparr>pendingRequests := ps\<rparr>)"
proof -
  have "pending_match nwkAddr type clusterId remoteEp expected q"
    using assms by (auto simp: pending_match_def req_key_def)
  then show ?thesis
    by (simp add: requestManager_t_removePending_def find_last_snoc remove_last_snoc)
qed

lemma sendRequest_frame:
  assumes "requestManager_t_sendRequest e port g = Some (ok, eo, port', g')"
  shows "\<exists>b. port' = port\<lparr>tx := b\<rparr>"
  using assms by (auto simp: requestManager_t_sendRequest_def split: option.splits requestFamily.splits bind_splits
      intro: exI [of _ "tx port"])

text \<open>The request that the arguments of \<open>sendRequest\<close> ask for.\<close>

definition wanted ::
    "AZAP_REQ_TTL_MGMT_MODE \<Rightarrow> nat \<Rightarrow> AZAP_REQUEST_TYPE \<Rightarrow> bool \<Rightarrow> u16 \<Rightarrow> u8 \<Rightarrow> u8 \<Rightarrow> u16 \<Rightarrow> u8 \<Rightarrow> u16 \<Rightarrow> bool \<Rightarrow> u8 \<Rightarrow> u8 \<Rightarrow>
     u8 \<Rightarrow> bytes option \<Rightarrow> requestContext_t" where
  "wanted mode issuer type needResponse nwkAddr remoteEp localEp clusterId dir manu defaultRsp code expected len payload =
     \<lparr>timeToLive = zigbeeRequestTimeout, ttlMode = mode, issuerContext = issuer, rqType = type,
      transactionId = 0, nwkAddrDest = nwkAddr, rqClusterId = clusterId, clusterDir = dir, manufacturerCode = manu,
      remoteEndp = remoteEp, expectedCmdCode = expected,
      requestParameters = Some \<lparr>responseExpected = needResponse, localEndp = localEp, defaultResponse = defaultRsp,
        cmdCode = code, cmdData = payload, dataLen = len\<rparr>\<rparr>"

lemma wanted_fields [simp]:
  "req_key (wanted mode issuer type nr nwkAddr remoteEp localEp clusterId dir manu dr code expected len payload)
     = (type, nwkAddr, clusterId, remoteEp, expected)"
  "issuerContext (wanted mode issuer type nr nwkAddr remoteEp localEp clusterId dir manu dr code expected len payload) = issuer"
  "rqType (wanted mode issuer type nr nwkAddr remoteEp localEp clusterId dir manu dr code expected len payload) = type"
  by (simp_all add: wanted_def req_key_def)

lemma wanted_sendable:
  "payload_ok len payload \<Longrightarrow>
   sendable (wanted mode issuer type nr nwkAddr remoteEp localEp clusterId dir manu dr code expected len payload)"
  by (auto simp: wanted_def sendable_def payload_ok_def split: option.splits)

text \<open>What sending a request that wants an answer leaves behind. Either the limits allow it now: then
  its frame is appended to the transmit buffer \<open>b\<close> and it becomes the last pending request, or,
  when the frame does not fit, it is refused and nothing changes. Or it is accepted as the last postponed
  request, with a copy of its payload, and nothing is written.\<close>

definition filed ::
    "requestManager_t \<Rightarrow> uartBufControl_t \<Rightarrow> u8 \<Rightarrow> requestContext_t \<Rightarrow> bool \<Rightarrow> requestManager_t \<Rightarrow> uartBufControl_t \<Rightarrow> bool" where
  "filed rm b tid q res rm' b' =
     (if admitted (pendingRequests rm) q
      then if frame_fits b (request_frame tid q)
           then res \<and> uart_contents b' = uart_contents b @ request_frame tid q \<and>
                rm' = rm\<lparr>pendingRequests := pendingRequests rm @ [(sent_request tid q)\<lparr>requestParameters := None\<rparr>]\<rparr>
           else \<not> res \<and> b' = b \<and> rm' = rm
      else res \<and> b' = b \<and>
           (\<exists>p. requestParameters q = Some p \<and>
             rm' = rm\<lparr>postponedRequests := postponedRequests rm @
               [q\<lparr>requestParameters := Some (p\<lparr>cmdData :=
                    Some (take (unat (dataLen p)) (case cmdData p of None \<Rightarrow> [] | Some d \<Rightarrow> d))\<rparr>)\<rparr>]\<rparr>))"

lemma sent_request_id [simp]: "req_id ((sent_request tid q)\<lparr>requestParameters := x\<rparr>) = req_id q"
  "rqType ((sent_request tid q)\<lparr>requestParameters := x\<rparr>) = rqType q"
  by (simp_all add: sent_request_def req_id_def req_key_def split: requestFamily.splits)

lemma filed_ok:
  assumes "filed rm b tid q res rm' b'" "manager_ok cbs rm" "answerable cbs (rqType q)" "sendable q"
  shows "manager_ok cbs rm'"
proof (cases "admitted (pendingRequests rm) q")
  case False
  with assms(1) obtain p where p: "requestParameters q = Some p"
    "rm' = rm\<lparr>postponedRequests := postponedRequests rm @
               [q\<lparr>requestParameters := Some (p\<lparr>cmdData :=
                    Some (take (unat (dataLen p)) (case cmdData p of None \<Rightarrow> [] | Some d \<Rightarrow> d))\<rparr>)\<rparr>]\<rparr>"
    by (auto simp: filed_def)
  moreover have "unat (dataLen p) \<le> length (case cmdData p of None \<Rightarrow> [] | Some d \<Rightarrow> d)"
    using assms(4) p(1) by (auto simp: sendable_def split: option.splits)
  ultimately show ?thesis using assms(2,3) by (auto simp: manager_ok_def all_answerable_def sendable_def)
next
  case True
  show ?thesis
  proof (cases "frame_fits b (request_frame tid q)")
    case False
    with True assms(1,2) show ?thesis by (simp add: filed_def)
  next
    case fits: True
    let ?q = "(sent_request tid q)\<lparr>requestParameters := None\<rparr>"
    have "req_key ?q = req_key q" using sent_request_id(1) [where tid = tid and q = q and x = None] by (simp only: req_id_eq)
    with True assms(2) adm.admit_updated [of "pendingRequests rm" q ?q]
    have "within_limits (map req_key (pendingRequests rm @ [?q]))" by (simp only: manager_ok_def)
    with True fits assms(1-3) show ?thesis by (auto simp: filed_def manager_ok_def all_answerable_def)
  qed
qed

lemma sendRequest_filed:
  assumes "requestManager This = Some rm" "tx This = Some b" "uart_wf b" "payload_ok len payload"
    and q_def: "q = wanted mode issuer type True nwkAddr remoteEp localEp clusterId dir manu defaultRsp code expected len payload"
  shows "\<exists>res b' rm' g'. portContext_t_sendRequest True This mode issuer type True nwkAddr remoteEp localEp
       clusterId dir manu defaultRsp code expected len payload g
         = Some (res, This\<lparr>tx := Some b', requestManager := Some rm'\<rparr>, g') \<and>
     filed rm b (g_zclTransactionId g) q res rm' b' \<and> uart_wf b' \<and> cbLog g' = cbLog g"
proof (cases "requestManager_t_readyToSendDoublonCheck rm nwkAddr type clusterId remoteEp expected")
  case False
  let ?p = "case payload of None \<Rightarrow> [] | Some p \<Rightarrow> p"
  have "unat len \<le> length ?p" using assms(4) by (auto simp: payload_ok_def split: option.splits)
  then have m: "memread 0 (unat len) ?p = Some (take (unat len) ?p)" by (simp add: mem_simps)
  let ?q = "q\<lparr>requestParameters := Some \<lparr>responseExpected = True, localEndp = localEp, defaultResponse = defaultRsp,
        cmdCode = code, cmdData = Some (take (unat len) ?p), dataLen = len\<rparr>\<rparr>"
  let ?rm' = "rm\<lparr>postponedRequests := postponedRequests rm @ [?q]\<rparr>"
  have "This\<lparr>tx := Some b, requestManager := Some ?rm'\<rparr> = This\<lparr>requestManager := Some ?rm'\<rparr>"
    using assms(2) by (cases This) simp
  then have "portContext_t_sendRequest True This mode issuer type True nwkAddr remoteEp localEp
       clusterId dir manu defaultRsp code expected len payload g
     = Some (True, This\<lparr>tx := Some b, requestManager := Some ?rm'\<rparr>, g)"
    using assms(1) False m
    by (simp add: portContext_t_sendRequest_def new_postponedRequestElts_t_def requestManager_t_addPostponedRequest_def
        new_requestContext_t_def Let_def q_def wanted_def)
  moreover have "\<not> admitted (pendingRequests rm) q" using False by (simp add: admitted_eq [symmetric] q_def wanted_def)
  then have "filed rm b (g_zclTransactionId g) q True ?rm' b" by (simp add: filed_def q_def wanted_def)
  ultimately show ?thesis using assms(3) by blast
next
  case True
  then have adm: "admitted (pendingRequests rm) q" by (simp add: admitted_eq [symmetric] q_def wanted_def)
  let ?rm1 = "rm\<lparr>pendingRequests := pendingRequests rm @ [q\<lparr>requestParameters := None\<rparr>]\<rparr>"
  let ?T = "This\<lparr>requestManager := Some ?rm1\<rparr>"
  have sq: "sendable q" unfolding q_def using assms(4) by (rule wanted_sendable)
  have add: "requestManager_t_addPendingRequest True rm issuer nwkAddr type clusterId dir manu remoteEp expected
      zigbeeRequestTimeout mode = Some (q\<lparr>requestParameters := None\<rparr>, ?rm1)"
    by (simp add: requestManager_t_addPendingRequest_def new_requestContext_t_def Let_def q_def wanted_def)
  have q: "requestParameters q = Some \<lparr>responseExpected = True, localEndp = localEp, defaultResponse = defaultRsp,
        cmdCode = code, cmdData = payload, dataLen = len\<rparr>" by (simp add: q_def wanted_def)
  have "tx ?T = Some b" using assms(2) by simp
  from sendRequest_cases [OF this assms(3) sq q, of g] obtain ok e' b' g' where
    s: "requestManager_t_sendRequest (Some q) ?T g = Some (ok, Some e', ?T\<lparr>tx := Some b'\<rparr>, g')"
      "uart_wf b'" "ok \<longleftrightarrow> frame_fits b (request_frame (g_zclTransactionId g) q)"
      "if ok then e' = sent_request (g_zclTransactionId g) q \<and>
                  uart_contents b' = uart_contents b @ request_frame (g_zclTransactionId g) q
       else b' = b" by blast
  from sendRequest_elt [OF s(1)] have e': "req_key e' = req_key q" "cbLog g' = cbLog g" by simp_all
  let ?q = "e'\<lparr>requestParameters := None\<rparr>"
  have "req_key ?q = (type, nwkAddr, clusterId, remoteEp, expected)"
    using e'(1) by (simp add: req_key_def q_def wanted_def)
  note rem = remove_new_pending [OF this, of "pendingRequests rm" rm]
  have q': "q\<lparr>requestParameters := Some \<lparr>responseExpected = True, localEndp = localEp, defaultResponse = defaultRsp,
        cmdCode = code, cmdData = payload, dataLen = len\<rparr>\<rparr> = q" using q by (cases q) simp
  let ?rm' = "if ok then rm\<lparr>pendingRequests := pendingRequests rm @ [?q]\<rparr> else rm"
  have "portContext_t_sendRequest True This mode issuer type True nwkAddr remoteEp localEp
       clusterId dir manu defaultRsp code expected len payload g
     = Some (ok, This\<lparr>tx := Some b', requestManager := Some ?rm'\<rparr>, g')"
    using assms(1) True s(1) rem q'
    by (simp add: portContext_t_sendRequest_def new_postponedRequestElts_t_def add Let_def)
  moreover have "filed rm b (g_zclTransactionId g) q ok ?rm' b'"
    using adm s(3,4) by (auto simp: filed_def)
  ultimately show ?thesis using s(2) e'(2) by blast
qed

subsection \<open>Poll callbacks\<close>

lemma poll_get:
  assumes "uart_wf b" "unat n \<le> length (uart_contents b)" "unat n \<le> 255"
  shows "\<exists>rc b'. uartBufControl_t_get b n (Some (replicate 255 0))
      = Some (rc, b', Some (take (unat n) (uart_contents b) @ drop (unat n) (replicate 255 0))) \<and>
     uart_wf b' \<and> uart_contents b' = drop (unat n) (uart_contents b)"
proof (cases "n = 0")
  case True
  with assms show ?thesis by (simp add: uartBufControl_t_get_def)
next
  case False
  then have "0 < unat n" by (simp add: unat_gt_0)
  from uart_get_available [OF assms(1) this assms(2), of "replicate 255 0"] assms(3) show ?thesis by auto
qed

subsection \<open>Properties\<close>

lemma apiPort_running: "port_running apiPort"
  by (simp add: port_running_def apiPort_def samplePort_def port_inv_def tx_ok_def no_report_config_def bigUart_simps
      manager_ok_def all_answerable_def answerable_def failure_cb_def sampleReq_def within_limits_def on_node_def on_ep_def)

text \<open>C2: one pass of the receive path over a started port always ends without undefined behaviour and
  keeps the invariant of the port: buffers in order, the start procedure in a legal state, the
  dongle's limits respected, every request held answerable. This covers arbitrary bytes from the
  dongle as long as no buffered frame announces 250 bytes of payload or more, its disconnection and
  reconnection, the restart that follows a disconnection, every message of the start procedure and
  every ZDO and ZCL message. The invariant asks for the callbacks: the table has the response callback
  of every request held and not the two configure-reporting callbacks. Allocations succeed.\<close>

theorem rx_msg_keeps_running:
  assumes "port_running This" "mal_ok mal" "length junk = 8" "short_frames now This"
  shows "\<exists>r. portContext_t_processRxMsg True mal junk env now sofDate This g = Some r \<and> port_running (fst r)"
  using processRxMsg_running [OF assms] by blast

theorem rx_msg_keeps_running_witness:
  "\<exists>r. portContext_t_processRxMsg True (\<lambda>n. Some (replicate n 0)) (replicate 8 0) \<lparr>ttyFound = True, openResult = 4\<rparr> 10 10
        (apiPort\<lparr>deviceFd := -1\<rparr>) sampleGlobals = Some r \<and> port_running (fst r)"
proof (rule rx_msg_keeps_running)
  show "short_frames 10 (apiPort\<lparr>deviceFd := -1\<rparr>)"
    by (rule short_frames_empty [of _ bigUart]) (simp_all add: apiPort_def samplePort_def bigUart_simps)
qed (simp_all add: apiPort_running mal_ok_def)

text \<open>C3: an incoming message takes at most one request off the pending list. Taken off by a response
  of the node, the request is answered by exactly one callback, that of its type, with its context
  and address. Taken off by a failed AF confirm it is reported by exactly one failure callback, except
  for the outgoing and report commands, which fail without any. At most one callback is called, postponed
  requests stay, nothing else of the port changes. The message has fewer than 250 bytes in an array
  that goes on for at least six bytes, the two configure-reporting callbacks are not
  registered, the requests held are answerable, and allocations succeed.\<close>

theorem incoming_message_answers:
  assumes "requestManager This = Some rm" "no_report_config This" "length junk = 8" "slack p n"
    "all_answerable (pCallbacks This) rm"
  shows "\<exists>rm' g' evs. portContext_t_processZnpMsg True junk This n c0 c1 (Some p) g
       = Some (This\<lparr>requestManager := Some rm'\<rparr>, g') \<and>
     cbLog g' = cbLog g @ evs \<and> length evs \<le> 1 \<and> postponedRequests rm' = postponedRequests rm \<and>
     (pendingRequests rm' = pendingRequests rm \<or>
      (\<exists>us q vs. pendingRequests rm = us @ q # vs \<and> pendingRequests rm' = us @ vs \<and>
         (if BUILD_UINT16 c0 c1 = MT_AF_DATA_CONFIRM_AREQ
          then evs = (if rqType q \<in> {AZAP_ZCL_OUTGOING_CMD, AZAP_ZCL_OUTGOING_EXT_CMD, AZAP_ZCL_REPORT_CMD} then []
                      else [RequestFailedCb (rqType q) (issuerContext q) (nwkAddrDest q) (remoteEndp q) (rqClusterId q)])
          else \<exists>ev. evs = [ev] \<and> ev_answers ev = Some (rqType q, Some (issuerContext q), nwkAddrDest q))))"
proof -
  have f: "failure_events q =
      (if rqType q \<in> {AZAP_ZCL_OUTGOING_CMD, AZAP_ZCL_OUTGOING_EXT_CMD, AZAP_ZCL_REPORT_CMD} then []
       else [RequestFailedCb (rqType q) (issuerContext q) (nwkAddrDest q) (remoteEndp q) (rqClusterId q)])" for q
    by (cases "rqType q") (simp_all add: failure_events_def failure_cb_def)
  from incoming_message_effect [OF assms] obtain r where
    r: "portContext_t_processZnpMsg True junk This n c0 c1 (Some p) g = Some r"
    and e: "message_effect (owed (BUILD_UINT16 c0 c1)) This g r" by blast
  from e obtain rm0 rm' evs g' where "requestManager This = Some rm0" "r = (This\<lparr>requestManager := Some rm'\<rparr>, g')"
    "cbLog g' = cbLog g @ evs" "length evs \<le> 1" "postponedRequests rm' = postponedRequests rm0"
    "pendingRequests rm' = pendingRequests rm0 \<or>
     (\<exists>us q vs. pendingRequests rm0 = us @ q # vs \<and> pendingRequests rm' = us @ vs \<and> owed (BUILD_UINT16 c0 c1) q evs)"
    unfolding message_effect_def by (elim exE conjE)
  with assms(1) have m: "r = (This\<lparr>requestManager := Some rm'\<rparr>, g')"
    "cbLog g' = cbLog g @ evs" "length evs \<le> 1" "postponedRequests rm' = postponedRequests rm"
    "pendingRequests rm' = pendingRequests rm \<or>
     (\<exists>us q vs. pendingRequests rm = us @ q # vs \<and> pendingRequests rm' = us @ vs \<and> owed (BUILD_UINT16 c0 c1) q evs)"
    by simp_all
  show ?thesis
    by (rule exI [of _ rm'], rule exI [of _ g'], rule exI [of _ evs])
      (use r m in \<open>simp only: owed_def answered_def f simp_thms\<close>)
qed

theorem incoming_message_answers_witness:
  "\<exists>rm' g' evs. portContext_t_processZnpMsg True (replicate 8 0) apiPort 3 0x44 0x80 (Some (replicate 9 1)) sampleGlobals
     = Some (apiPort\<lparr>requestManager := Some rm'\<rparr>, g') \<and> cbLog g' = evs \<and> length evs \<le> 1"
proof -
  obtain rm where rm: "requestManager apiPort = Some rm" "all_answerable (pCallbacks apiPort) rm"
    using apiPort_running by (auto simp: port_running_def manager_ok_def)
  have "no_report_config apiPort" "slack (replicate 9 1) 3"
    by (simp_all add: apiPort_def no_report_config_def slack_def)
  from incoming_message_answers [OF rm(1) this(1) _ this(2) rm(2), of "replicate 8 0" "0x44" "0x80" sampleGlobals]
  show ?thesis by (fastforce simp: sampleGlobals_def)
qed

text \<open>C4: sending a request that wants an answer always ends, calls nobody back and keeps the
  port's invariant, the dongle's limits included. If the limits allow it and its frame (at most 255 bytes)
  fits in the free room of the transmit buffer, exactly this frame is appended to the buffer and the
  request becomes the last pending one, under the transaction identifier in the frame; if the frame does
  not fit the request is refused and buffer and manager are as before. If the limits do not allow it, it is
  accepted as the last postponed request with a copy of its payload and nothing is written. The callback
  table has the response callback of the request's type.\<close>

theorem send_request_filed:
  assumes "port_running This" "requestManager This = Some rm" "tx This = Some b" "payload_ok len payload"
    "answerable (pCallbacks This) type"
    "q = wanted mode issuer type True nwkAddr remoteEp localEp clusterId dir manu defaultRsp code expected len payload"
  shows "\<exists>res b' rm' g'. portContext_t_sendRequest True This mode issuer type True nwkAddr remoteEp localEp
       clusterId dir manu defaultRsp code expected len payload g
         = Some (res, This\<lparr>tx := Some b', requestManager := Some rm'\<rparr>, g') \<and>
     filed rm b (g_zclTransactionId g) q res rm' b' \<and> cbLog g' = cbLog g \<and>
     port_running (This\<lparr>tx := Some b', requestManager := Some rm'\<rparr>)"
proof -
  from assms(1-3) have ok: "uart_wf b" "manager_ok (pCallbacks This) rm"
    by (auto simp: port_running_def port_inv_def tx_ok_def)
  from sendRequest_filed [OF assms(2,3) ok(1) assms(4,6), of g] obtain res b' rm' g' where
    r: "portContext_t_sendRequest True This mode issuer type True nwkAddr remoteEp localEp
       clusterId dir manu defaultRsp code expected len payload g
         = Some (res, This\<lparr>tx := Some b', requestManager := Some rm'\<rparr>, g')"
      "filed rm b (g_zclTransactionId g) q res rm' b'" "uart_wf b'" "cbLog g' = cbLog g" by blast
  have "manager_ok (pCallbacks This) rm'"
    using filed_ok [OF r(2) ok(2)] assms(5) wanted_sendable [OF assms(4)] by (simp add: assms(6))
  moreover have "port_running (This\<lparr>tx := Some b'\<rparr>)" using assms(1) r(3) by simp
  ultimately have "port_running (This\<lparr>tx := Some b', requestManager := Some rm'\<rparr>)"
    using port_running_rm [of "This\<lparr>tx := Some b'\<rparr>" rm'] by simp
  with r show ?thesis by blast
qed

theorem send_request_filed_witness:
  "\<exists>b' rm' g'. portContext_t_sendRequest True apiPort AZAP_REQ_TTL_START_AT_API 5 AZAP_ZCL_READ_CMD True 9 1 2 6 0 0
      False 0 1 2 (Some [4, 0]) sampleGlobals
        = Some (True, apiPort\<lparr>tx := Some b', requestManager := Some rm'\<rparr>, g') \<and>
     uart_contents b' = znp_frame MT_AF_DATA_EXT_SREQ (af_header 9 1 2 6 7 5 @ zcl_frame False 0 0 0 0 [4, 0]) \<and>
     length (pendingRequests rm') = 2"
proof -
  define rm where "rm = \<lparr>postponedRequests = [],
       pendingRequests = [sampleReq\<lparr>rqType := AZAP_ZDO_SIMPLE_DESC_REQ, nwkAddrDest := 0x1234,
         rqClusterId := 0, remoteEndp := 3, expectedCmdCode := 0, issuerContext := 77\<rparr>]\<rparr>"
  let ?q = "wanted AZAP_REQ_TTL_START_AT_API 5 AZAP_ZCL_READ_CMD True 9 1 2 6 0 0 False 0 1 2 (Some [4, 0])"
  have hyps: "requestManager apiPort = Some rm" "tx apiPort = Some bigUart" "payload_ok 2 (Some [4, 0])"
    "answerable (pCallbacks apiPort) AZAP_ZCL_READ_CMD"
    by (simp_all add: apiPort_def samplePort_def rm_def payload_ok_def answerable_def failure_cb_def)
  have fr: "request_frame 7 ?q = znp_frame MT_AF_DATA_EXT_SREQ (af_header 9 1 2 6 7 5 @ zcl_frame False 0 0 0 0 [4, 0])"
    by (simp add: request_frame_def wanted_def request_family_def Let_def zcl_frame_def) (simp add: numeral_eq_Suc)
  then have "frame_fits bigUart (request_frame 7 ?q)"
    by (simp add: frame_fits_def bigUart_simps zcl_frame_def)
  moreover have "admitted (pendingRequests rm) ?q"
    by (simp add: rm_def wanted_def admitted_def sampleReq_def requestManager_t_readyToSendDoublonCheck_def count_elt_def
        counts_below_def doublon_match_def const_defs Let_def)
  moreover have "g_zclTransactionId sampleGlobals = 7" by (simp add: sampleGlobals_def)
  moreover obtain res b' rm' g' where "portContext_t_sendRequest True apiPort AZAP_REQ_TTL_START_AT_API 5 AZAP_ZCL_READ_CMD
      True 9 1 2 6 0 0 False 0 1 2 (Some [4, 0]) sampleGlobals
        = Some (res, apiPort\<lparr>tx := Some b', requestManager := Some rm'\<rparr>, g')"
    "filed rm bigUart (g_zclTransactionId sampleGlobals) ?q res rm' b'"
    using send_request_filed [OF apiPort_running hyps refl, of AZAP_REQ_TTL_START_AT_API 5 9 1 2 6 0 0 False 0 1 sampleGlobals]
    by blast
  ultimately show ?thesis
    by (intro exI [of _ b'] exI [of _ rm'] exI [of _ g']) (simp add: filed_def fr bigUart_simps rm_def)
qed

text \<open>C38: a request that wants no answer, admitted by the limits, is undefined behaviour exactly when
  its frame does not fit in the transmit buffer or in a frame: its temporary context is freed and then
  read to remove it from the pending list. This holds for the ZDO requests and for the ZCL commands
  (\<open>azapZclOutgoingCmdReq\<close> without response) alike.\<close>

theorem send_unanswered_use_after_free:
  assumes "requestManager This = Some rm" "tx This = Some b" "uart_wf b" "payload_ok len payload"
    "requestManager_t_readyToSendDoublonCheck rm nwkAddr type clusterId remoteEp expected"
    "q = wanted mode 0 type False nwkAddr remoteEp localEp clusterId dir manu defaultRsp code expected len payload"
  shows "portContext_t_sendRequest True This mode issuer type False nwkAddr remoteEp localEp
       clusterId dir manu defaultRsp code expected len payload g = None
     \<longleftrightarrow> \<not> frame_fits b (request_frame (g_zclTransactionId g) q)"
proof -
  have sq: "sendable q" unfolding assms(6) using assms(4) by (rule wanted_sendable)
  have q: "requestParameters q = Some \<lparr>responseExpected = False, localEndp = localEp, defaultResponse = defaultRsp,
        cmdCode = code, cmdData = payload, dataLen = len\<rparr>" by (simp add: assms(6) wanted_def)
  from sendRequest_cases [OF assms(2,3) sq q, of g] obtain ok e' b' g' where
    s: "requestManager_t_sendRequest (Some q) This g = Some (ok, Some e', This\<lparr>tx := Some b'\<rparr>, g')"
      "ok \<longleftrightarrow> frame_fits b (request_frame (g_zclTransactionId g) q)" by blast
  have "portContext_t_sendRequest True This mode issuer type False nwkAddr remoteEp localEp
       clusterId dir manu defaultRsp code expected len payload g
     = (if ok then Some (True, This\<lparr>tx := Some b'\<rparr>, g') else None)"
    using assms(1,5) s(1)
    by (simp add: portContext_t_sendRequest_def new_postponedRequestElts_t_def new_requestContext_t_def Let_def
        assms(6) wanted_def)
  with s(2) show ?thesis by simp
qed

theorem send_unanswered_use_after_free_witness:
  "portContext_t_sendRequest True (apiPort\<lparr>tx := Some sampleUart\<rparr>) AZAP_REQ_TTL_START_AT_API 5 AZAP_ZDO_MGMT_PERMIT_JOIN_REQ
     False 9 0 0 0 0 0 False 0 0 5 (Some [1, 2, 3, 4, 5]) sampleGlobals = None \<and>
   portContext_t_sendRequest True (apiPort\<lparr>tx := Some sampleUart\<rparr>) AZAP_REQ_TTL_START_AT_API 5 AZAP_ZCL_OUTGOING_CMD
     False 9 1 1 6 0 0 False 2 0xFF 0 None sampleGlobals = None"
proof -
  define rm where "rm = \<lparr>postponedRequests = [],
       pendingRequests = [sampleReq\<lparr>rqType := AZAP_ZDO_SIMPLE_DESC_REQ, nwkAddrDest := 0x1234,
         rqClusterId := 0, remoteEndp := 3, expectedCmdCode := 0, issuerContext := 77\<rparr>]\<rparr>"
  let ?z = "wanted AZAP_REQ_TTL_START_AT_API 0 AZAP_ZDO_MGMT_PERMIT_JOIN_REQ False 9 0 0 0 0 0 False 0 0 5 (Some [1, 2, 3, 4, 5])"
  let ?c = "wanted AZAP_REQ_TTL_START_AT_API 0 AZAP_ZCL_OUTGOING_CMD False 9 1 1 6 0 0 False 2 0xFF 0 None"
  let ?P = "apiPort\<lparr>tx := Some sampleUart\<rparr>"
  have hyps: "requestManager ?P = Some rm" "tx ?P = Some sampleUart" "uart_wf sampleUart"
    "payload_ok 5 (Some [1, 2, 3, 4, 5])" "payload_ok 0 None"
    by (simp_all add: apiPort_def rm_def payload_ok_def sampleUart_simps)
  have adm: "requestManager_t_readyToSendDoublonCheck rm 9 AZAP_ZDO_MGMT_PERMIT_JOIN_REQ 0 0 0"
    "requestManager_t_readyToSendDoublonCheck rm 9 AZAP_ZCL_OUTGOING_CMD 6 1 0xFF"
    by (simp_all add: rm_def sampleReq_def requestManager_t_readyToSendDoublonCheck_def count_elt_def
        counts_below_def doublon_match_def const_defs Let_def)
  have "\<not> frame_fits sampleUart (request_frame t ?z)" "\<not> frame_fits sampleUart (request_frame t ?c)" for t
    by (simp_all add: frame_fits_def request_frame_def wanted_def request_family_def Let_def zcl_frame_def sampleUart_simps)
  with send_unanswered_use_after_free [OF hyps(1-4) adm(1) refl, of AZAP_REQ_TTL_START_AT_API 5 0 0 0 False 0 sampleGlobals]
    send_unanswered_use_after_free [OF hyps(1-3,5) adm(2) refl, of AZAP_REQ_TTL_START_AT_API 5 1 0 0 False 2 sampleGlobals]
  show ?thesis by simp
qed

text \<open>The write half of the poll callback sends the bytes of the transmit buffer in order and
  once: what it hands to \<open>write\<close> followed by what stays buffered is what was buffered, at most 255
  bytes at a time, and everything when fewer are buffered.\<close>

theorem poll_write_in_order:
  assumes "tx This = Some b" "uart_wf b"
  shows "\<exists>b' out. portContextRequestPollCb False True (deviceFd This) readRes (Some This)
       = Some (0, Some (This\<lparr>tx := Some b'\<rparr>), out) \<and>
     uart_wf b' \<and> out @ uart_contents b' = uart_contents b \<and> length out = min 255 (length (uart_contents b))"
proof -
  let ?n = "uartBufControl_t_getBufferedSize b"
  define len' :: u8 where "len' = (if ?n < 255 then ucast ?n else 255)"
  have n: "unat ?n = length (uart_contents b)" by (rule unat_getBufferedSize [OF assms(2)])
  then have len': "unat len' = min 255 (length (uart_contents b))"
    by (simp add: len'_def word_less_nat_alt unsigned_ucast_eq take_bit_nat_eq_self)
  then have u: "unat (ucast len' :: u16) = min 255 (length (uart_contents b))" by simp
  from poll_get [OF assms(2), of "ucast len'"] u obtain rc b' where
    g: "uartBufControl_t_get b (ucast len') (Some (replicate 255 0))
      = Some (rc, b', Some (take (unat len') (uart_contents b) @ drop (unat len') (replicate 255 0)))"
    "uart_wf b'" "uart_contents b' = drop (unat len') (uart_contents b)"
    by (auto simp: len')
  have "portContextRequestPollCb False True (deviceFd This) readRes (Some This)
       = Some (0, Some (This\<lparr>tx := Some b'\<rparr>), take (unat len') (uart_contents b))"
    using assms(1) g(1) by (simp add: portContextRequestPollCb_def Let_def len'_def [symmetric] len')
  with g(2,3) len' show ?thesis by auto
qed

theorem poll_write_in_order_witness:
  "\<exists>b' out. portContextRequestPollCb False True 3 None (Some (samplePort\<lparr>tx := Some bigUartSent\<rparr>))
       = Some (0, Some (samplePort\<lparr>tx := Some b'\<rparr>), out) \<and>
     out @ uart_contents b' = [254, 2, 33, 8, 5, 6, 40] \<and> length out = 7"
proof -
  have "uart_wf bigUartSent" "uart_contents bigUartSent = [254, 2, 33, 8, 5, 6, 40]"
    by (simp_all add: bigUartSent_def bigUart_def uart_wf_def uart_contents_def ring_def uartBufControl_t_init_def)
  with poll_write_in_order [of "samplePort\<lparr>tx := Some bigUartSent\<rparr>" bigUartSent None] show ?thesis
    by (auto simp: samplePort_def)
qed

end
