(* ===== verification/Azap_Api.thy ===== *)
theory Azap_Api
  imports Port_Run
begin

section \<open>The AZAP API (azap\_api.c, azap\_endpoint.c)\<close>

text \<open>
  The library as its users see it: a table of five ports, each empty, holding a port context, or
  holding a pointer to a freed one (\<open>azapStop\<close> frees the context and leaves the pointer); the
  statistics of each port; the transaction identifier and the log of callbacks, shared by all
  ports. Each API call and each clock tick is a function of that state. Local payload arrays start
  as zeros here; the code leaves them uninitialised and sends only the bytes it wrote. Traces
  and \<open>azapDumpStatistics\<close> are left out. The lemmas show what goes on the wire for a request,
  that the ZCL encoders stay inside their array, and that any sequence of API calls and clock
  ticks without \<open>azapStop\<close> is free of undefined behaviour.
\<close>

subsection \<open>State\<close>

datatype portSlot = NoPort | LivePort portContext_t | FreedPort

record portCounters =
  ctZdoNotifications :: u32
  ctZdoRequestsIssued :: u32
  ctZdoRequestsCompleted :: u32
  ctZdoRequestsFailed :: u32
  ctZclNotifications :: u32
  ctZclRequestsIssued :: u32
  ctZclRequestsCompleted :: u32
  ctZclRequestsFailed :: u32

record azapLib =
  g_portContexts :: "portSlot list"
  g_portContextIndex :: u8
  g_counters :: "portCounters list"
  g_tid :: u8
  g_log :: "azapEvent list"

definition MAX_NB_PORT_CONTEXT :: nat where [const_defs]: "MAX_NB_PORT_CONTEXT = 5"

definition zeroCounters :: portCounters where
  "zeroCounters = \<lparr>ctZdoNotifications = 0, ctZdoRequestsIssued = 0, ctZdoRequestsCompleted = 0,
     ctZdoRequestsFailed = 0, ctZclNotifications = 0, ctZclRequestsIssued = 0,
     ctZclRequestsCompleted = 0, ctZclRequestsFailed = 0\<rparr>"

definition azapLib_init :: azapLib where
  "azapLib_init = \<lparr>g_portContexts = replicate MAX_NB_PORT_CONTEXT NoPort, g_portContextIndex = 0,
     g_counters = replicate MAX_NB_PORT_CONTEXT zeroCounters, g_tid = 0, g_log = []\<rparr>"

text \<open>The globals as the functions on one port see them.\<close>

definition globals_of :: "azapLib \<Rightarrow> portCounters \<Rightarrow> azapGlobals" where
  "globals_of lib c = \<lparr>g_zclTransactionId = g_tid lib, azapNbZdoNotifications = ctZdoNotifications c,
     azapNbZdoRequestsIssued = ctZdoRequestsIssued c, azapNbZdoRequestsCompleted = ctZdoRequestsCompleted c,
     azapNbZdoRequestsFailed = ctZdoRequestsFailed c, azapNbZclNotifications = ctZclNotifications c,
     azapNbZclRequestsIssued = ctZclRequestsIssued c, azapNbZclRequestsCompleted = ctZclRequestsCompleted c,
     azapNbZclRequestsFailed = ctZclRequestsFailed c, cbLog = g_log lib\<rparr>"

definition counters_of :: "azapGlobals \<Rightarrow> portCounters" where
  "counters_of g = \<lparr>ctZdoNotifications = azapNbZdoNotifications g,
     ctZdoRequestsIssued = azapNbZdoRequestsIssued g, ctZdoRequestsCompleted = azapNbZdoRequestsCompleted g,
     ctZdoRequestsFailed = azapNbZdoRequestsFailed g, ctZclNotifications = azapNbZclNotifications g,
     ctZclRequestsIssued = azapNbZclRequestsIssued g, ctZclRequestsCompleted = azapNbZclRequestsCompleted g,
     ctZclRequestsFailed = azapNbZclRequestsFailed g\<rparr>"

text \<open>The frame of every API function: look the port up in the table, do nothing for an empty
  slot. An index outside the table and a freed context are undefined behaviour.\<close>

definition with_port ::
    "'a \<Rightarrow> azapLib \<Rightarrow> nat \<Rightarrow> (portContext_t \<Rightarrow> azapGlobals \<Rightarrow> ('a \<times> portContext_t \<times> azapGlobals) exec) \<Rightarrow>
     ('a \<times> azapLib) exec" where
  "with_port dflt lib port f = do {
     slot \<leftarrow> idx (g_portContexts lib) port;
     case slot of
       NoPort \<Rightarrow> Some (dflt, lib)
     | FreedPort \<Rightarrow> None
     | LivePort p \<Rightarrow> do {
         c \<leftarrow> idx (g_counters lib) port;
         (res, p', g') \<leftarrow> f p (globals_of lib c);
         Some (res, lib\<lparr>g_portContexts := (g_portContexts lib)[port := LivePort p'],
                        g_counters := (g_counters lib)[port := counters_of g'],
                        g_tid := g_zclTransactionId g', g_log := cbLog g'\<rparr>)
       }
   }"

subsection \<open>Life cycle\<close>

definition azapInitImpl ::
    "bool \<Rightarrow> u8 \<Rightarrow> bytes option \<Rightarrow> azapCallback list \<Rightarrow> u8 \<Rightarrow> u8 \<Rightarrow> bool \<Rightarrow> azapLib \<Rightarrow> azapLib exec" where
  "azapInitImpl mallocOk port targetedIeee callbacks channel devType reset lib = do {
     slot \<leftarrow> idx (g_portContexts lib) (unat port);
     if slot = NoPort
     then do {
       p \<leftarrow> new_portContext_t mallocOk port;
       ieee \<leftarrow> (case targetedIeee of
                 None \<Rightarrow> Some (deviceIeee p)
               | Some a \<Rightarrow> do { d \<leftarrow> memread 0 IEEE_ADDR_LEN a; memcpy_at 0 d (deviceIeee p) });
       let p' = p\<lparr>pCallbacks := callbacks,
                  defaultChannel := (if channel \<ge> 11 \<and> channel \<le> 26 then push_bit (unat channel) 1
                                     else defaultChannel p),
                  deviceType := devType, resetHanAtReboot := reset, deviceIeee := ieee\<rparr>;
       Some (lib\<lparr>g_portContexts := (g_portContexts lib)[unat port := LivePort p']\<rparr>)
     }
     else Some lib
   }"

definition azapInit ::
    "bool \<Rightarrow> bytes option \<Rightarrow> azapCallback list option \<Rightarrow> u8 \<Rightarrow> u8 \<Rightarrow> bool \<Rightarrow> azapLib \<Rightarrow>
     (bool \<times> u8 option \<times> azapLib) exec" where
  "azapInit mallocOk targetedIeee callbacks channel devType reset lib =
    (if g_portContextIndex lib \<ge> 5 then Some (False, None, lib)
     else
       let lib1 = (if g_portContextIndex lib = 0
                   then lib\<lparr>g_counters := replicate MAX_NB_PORT_CONTEXT zeroCounters\<rparr> else lib);
           port = g_portContextIndex lib1;
           lib2 = lib1\<lparr>g_portContextIndex := g_portContextIndex lib1 + 1\<rparr>
       in case callbacks of
            None \<Rightarrow> Some (False, Some port, lib2)
          | Some cbs \<Rightarrow> do {
              lib3 \<leftarrow> azapInitImpl mallocOk port targetedIeee cbs channel devType reset lib2;
              Some (True, Some port, lib3)
            })"

definition azapStart ::
    "bool \<Rightarrow> (nat \<Rightarrow> bytes option) \<Rightarrow> ttyEnv \<Rightarrow> u8 \<Rightarrow> azapLib \<Rightarrow> (bool \<times> azapLib) exec" where
  "azapStart mallocOk mal env port lib =
     with_port False lib (unat port) (\<lambda>p g. do {
       p' \<leftarrow> portContext_t_startZnp mallocOk mal env p;
       Some (True, p', g)
     })"

definition azapUnInitImpl :: "u8 \<Rightarrow> azapLib \<Rightarrow> azapLib exec" where
  "azapUnInitImpl port lib = do {
     slot \<leftarrow> idx (g_portContexts lib) (unat port);
     case slot of
       NoPort \<Rightarrow> Some lib
     | FreedPort \<Rightarrow> None
     | LivePort p \<Rightarrow> Some (lib\<lparr>g_portContexts := (g_portContexts lib)[unat port := FreedPort]\<rparr>)
   }"

definition azapStop :: "u8 \<Rightarrow> azapLib \<Rightarrow> (bool \<times> azapLib) exec" where
  "azapStop port lib = do {
     (ret, lib1) \<leftarrow> with_port False lib (unat port) (\<lambda>p g.
        case portContext_t_disconnect p of (r, p') \<Rightarrow> Some (r, p', g));
     lib2 \<leftarrow> azapUnInitImpl port lib1;
     Some (ret, lib2)
   }"

definition zStackVersion :: "u8 \<Rightarrow> azapLib \<Rightarrow> (string \<times> azapLib) exec" where
  "zStackVersion port lib = with_port ''<unknown>'' lib (unat port) (\<lambda>p g. Some (zstackVersion p, p, g))"

definition new_azapEndPoint_t ::
    "bool \<Rightarrow> u8 \<Rightarrow> u16 \<Rightarrow> u16 \<Rightarrow> u8 \<Rightarrow> u8 \<Rightarrow> u16 list \<Rightarrow> u8 \<Rightarrow> u16 list \<Rightarrow> azapEndPoint_t option exec" where
  "new_azapEndPoint_t mallocOk eid prof dev ver numIn ins numOut outs =
    (if \<not> mallocOk then Some None
     else do {
       is \<leftarrow> memread 0 (unat numIn) ins;
       os \<leftarrow> memread 0 (unat numOut) outs;
       Some (Some \<lparr>epId = eid, appProfId = prof, appDeviceId = dev, appDevVer = ver,
                   appNumInClusters = numIn, appInClusterList = is,
                   appNumOutClusters = numOut, appOutClusterList = os\<rparr>)
     })"

definition azapAddEndPoint ::
    "bool \<Rightarrow> u8 \<Rightarrow> u8 \<Rightarrow> u16 \<Rightarrow> u16 \<Rightarrow> u8 \<Rightarrow> u8 \<Rightarrow> u16 list \<Rightarrow> u8 \<Rightarrow> u16 list \<Rightarrow> azapLib \<Rightarrow> (bool \<times> azapLib) exec" where
  "azapAddEndPoint mallocOk port eid prof dev ver numIn ins numOut outs lib =
     with_port False lib (unat port) (\<lambda>p g. do {
       ep \<leftarrow> new_azapEndPoint_t mallocOk eid prof dev ver numIn ins numOut outs;
       case portContext_t_addEndPoint p ep of (r, p') \<Rightarrow> Some (r, p', g)
     })"

subsection \<open>ZDO requests\<close>

definition ZDO_RTG_ADDR_MODE_64BIT :: u8 where [const_defs]: "ZDO_RTG_ADDR_MODE_64BIT = 0x03"

fun cpy_steps :: "(wcursor \<Rightarrow> wcursor exec) list \<Rightarrow> wcursor \<Rightarrow> wcursor exec" where
  "cpy_steps [] c = Some c"
| "cpy_steps (f # fs) c = do { c' \<leftarrow> f c; cpy_steps fs c' }"

text \<open>The payload array of \<open>n\<close> bytes, filled by a sequence of copies, then sent whole.\<close>

definition send_zdo_steps ::
    "bool \<Rightarrow> AZAP_REQ_TTL_MGMT_MODE \<Rightarrow> nat \<Rightarrow> AZAP_REQUEST_TYPE \<Rightarrow> bool \<Rightarrow> u16 \<Rightarrow> u8 \<Rightarrow> nat \<Rightarrow>
     (wcursor \<Rightarrow> wcursor exec) list \<Rightarrow> u8 \<Rightarrow> azapLib \<Rightarrow> (bool \<times> azapLib) exec" where
  "send_zdo_steps mallocOk ttl issuer type resp dest ep n steps port lib =
     with_port False lib (unat port) (\<lambda>p g. do {
       let g' = g\<lparr>azapNbZdoRequestsIssued := azapNbZdoRequestsIssued g + 1\<rparr>;
       c \<leftarrow> cpy_steps steps (Some (replicate n 0, 0));
       (payload, pos) \<leftarrow> c;
       portContext_t_sendZdo mallocOk p ttl issuer type resp dest ep (of_nat n) (Some payload) g'
     })"

definition azapZdpNwkAddrReq ::
    "bool \<Rightarrow> u8 \<Rightarrow> AZAP_REQ_TTL_MGMT_MODE \<Rightarrow> nat \<Rightarrow> bytes \<Rightarrow> u8 \<Rightarrow> u8 \<Rightarrow> azapLib \<Rightarrow> (bool \<times> azapLib) exec" where
  "azapZdpNwkAddrReq mallocOk port ttl issuer ieeeAddr requestType startIndex =
     send_zdo_steps mallocOk ttl issuer AZAP_ZDO_NWK_ADDR_REQ True 0 0 0x0A
       [azap_extAddrCpyPayloadAndShift (Some ieeeAddr), azap_uint8CpyPayloadAndShift requestType,
        azap_uint8CpyPayloadAndShift startIndex] port"

definition azapZdpIeeeAddrReq ::
    "bool \<Rightarrow> u8 \<Rightarrow> AZAP_REQ_TTL_MGMT_MODE \<Rightarrow> nat \<Rightarrow> u16 \<Rightarrow> u16 \<Rightarrow> u8 \<Rightarrow> u8 \<Rightarrow> azapLib \<Rightarrow> (bool \<times> azapLib) exec" where
  "azapZdpIeeeAddrReq mallocOk port ttl issuer dest interest requestType startIndex =
     send_zdo_steps mallocOk ttl issuer AZAP_ZDO_IEEE_ADDR_REQ True dest 0 0x04
       [azap_uint16CpyPayloadAndShift interest, azap_uint8CpyPayloadAndShift requestType,
        azap_uint8CpyPayloadAndShift startIndex] port"

definition azapZdpNodeDescReq ::
    "bool \<Rightarrow> u8 \<Rightarrow> AZAP_REQ_TTL_MGMT_MODE \<Rightarrow> nat \<Rightarrow> u16 \<Rightarrow> u16 \<Rightarrow> azapLib \<Rightarrow> (bool \<times> azapLib) exec" where
  "azapZdpNodeDescReq mallocOk port ttl issuer dest interest =
     send_zdo_steps mallocOk ttl issuer AZAP_ZDO_NODE_DESC_REQ True dest 0 0x04
       [azap_uint16CpyPayloadAndShift dest, azap_uint16CpyPayloadAndShift interest] port"

definition azapZdpPowerDescReq ::
    "bool \<Rightarrow> u8 \<Rightarrow> AZAP_REQ_TTL_MGMT_MODE \<Rightarrow> nat \<Rightarrow> u16 \<Rightarrow> u16 \<Rightarrow> azapLib \<Rightarrow> (bool \<times> azapLib) exec" where
  "azapZdpPowerDescReq mallocOk port ttl issuer dest interest =
     send_zdo_steps mallocOk ttl issuer AZAP_ZDO_POWER_DESC_REQ True dest 0 0x04
       [azap_uint16CpyPayloadAndShift dest, azap_uint16CpyPayloadAndShift interest] port"

definition azapZdpActiveEPReq ::
    "bool \<Rightarrow> u8 \<Rightarrow> AZAP_REQ_TTL_MGMT_MODE \<Rightarrow> nat \<Rightarrow> u16 \<Rightarrow> u16 \<Rightarrow> azapLib \<Rightarrow> (bool \<times> azapLib) exec" where
  "azapZdpActiveEPReq mallocOk port ttl issuer dest interest =
     send_zdo_steps mallocOk ttl issuer AZAP_ZDO_ACTIVE_EP_REQ True dest 0 0x04
       [azap_uint16CpyPayloadAndShift dest, azap_uint16CpyPayloadAndShift interest] port"

definition azapZdpSimpleDescReq ::
    "bool \<Rightarrow> u8 \<Rightarrow> AZAP_REQ_TTL_MGMT_MODE \<Rightarrow> nat \<Rightarrow> u16 \<Rightarrow> u16 \<Rightarrow> u8 \<Rightarrow> azapLib \<Rightarrow> (bool \<times> azapLib) exec" where
  "azapZdpSimpleDescReq mallocOk port ttl issuer dest interest endpoint =
     send_zdo_steps mallocOk ttl issuer AZAP_ZDO_SIMPLE_DESC_REQ True dest endpoint 0x05
       [azap_uint16CpyPayloadAndShift dest, azap_uint16CpyPayloadAndShift interest,
        azap_uint8CpyPayloadAndShift endpoint] port"

definition azapZdpBindReq ::
    "bool \<Rightarrow> u8 \<Rightarrow> AZAP_REQ_TTL_MGMT_MODE \<Rightarrow> nat \<Rightarrow> u16 \<Rightarrow> bytes \<Rightarrow> u8 \<Rightarrow> u16 \<Rightarrow> bytes \<Rightarrow> u8 \<Rightarrow> azapLib \<Rightarrow> (bool \<times> azapLib) exec" where
  "azapZdpBindReq mallocOk port ttl issuer dest srcAddress srcEndp clusterId dstAddress dstEndp =
     send_zdo_steps mallocOk ttl issuer AZAP_ZDO_BIND_REQ True dest srcEndp 0x17
       [azap_uint16CpyPayloadAndShift dest, azap_extAddrCpyPayloadAndShift (Some srcAddress),
        azap_uint8CpyPayloadAndShift srcEndp, azap_uint16CpyPayloadAndShift clusterId,
        azap_uint8CpyPayloadAndShift ZDO_RTG_ADDR_MODE_64BIT,
        azap_extAddrCpyPayloadAndShift (Some dstAddress), azap_uint8CpyPayloadAndShift dstEndp] port"

definition azapZdpUnbindReq ::
    "bool \<Rightarrow> u8 \<Rightarrow> AZAP_REQ_TTL_MGMT_MODE \<Rightarrow> nat \<Rightarrow> u16 \<Rightarrow> bytes \<Rightarrow> u8 \<Rightarrow> u16 \<Rightarrow> bytes \<Rightarrow> u8 \<Rightarrow> azapLib \<Rightarrow> (bool \<times> azapLib) exec" where
  "azapZdpUnbindReq mallocOk port ttl issuer dest srcAddress srcEndp clusterId dstAddress dstEndp =
     send_zdo_steps mallocOk ttl issuer AZAP_ZDO_UNBIND_REQ True dest srcEndp 0x17
       [azap_uint16CpyPayloadAndShift dest, azap_extAddrCpyPayloadAndShift (Some srcAddress),
        azap_uint8CpyPayloadAndShift srcEndp, azap_uint16CpyPayloadAndShift clusterId,
        azap_uint8CpyPayloadAndShift ZDO_RTG_ADDR_MODE_64BIT,
        azap_extAddrCpyPayloadAndShift (Some dstAddress), azap_uint8CpyPayloadAndShift dstEndp] port"

definition azapZdpMgmtRtgReq ::
    "bool \<Rightarrow> u8 \<Rightarrow> AZAP_REQ_TTL_MGMT_MODE \<Rightarrow> nat \<Rightarrow> u16 \<Rightarrow> u8 \<Rightarrow> azapLib \<Rightarrow> (bool \<times> azapLib) exec" where
  "azapZdpMgmtRtgReq mallocOk port ttl issuer dest startIndex =
     send_zdo_steps mallocOk ttl issuer AZAP_ZDO_MGMT_RTG_REQ True dest 0 0x03
       [azap_uint16CpyPayloadAndShift dest, azap_uint8CpyPayloadAndShift startIndex] port"

definition azapZdpMgmtBindReq ::
    "bool \<Rightarrow> u8 \<Rightarrow> AZAP_REQ_TTL_MGMT_MODE \<Rightarrow> nat \<Rightarrow> u16 \<Rightarrow> u8 \<Rightarrow> azapLib \<Rightarrow> (bool \<times> azapLib) exec" where
  "azapZdpMgmtBindReq mallocOk port ttl issuer dest startIndex =
     send_zdo_steps mallocOk ttl issuer AZAP_ZDO_MGMT_BIND_REQ True dest 0 0x03
       [azap_uint16CpyPayloadAndShift dest, azap_uint8CpyPayloadAndShift startIndex] port"

definition azapZdpMgmtPermitJoinReq ::
    "bool \<Rightarrow> u8 \<Rightarrow> AZAP_REQ_TTL_MGMT_MODE \<Rightarrow> nat \<Rightarrow> u16 \<Rightarrow> u8 \<Rightarrow> bool \<Rightarrow> bool \<Rightarrow> azapLib \<Rightarrow> (bool \<times> azapLib) exec" where
  "azapZdpMgmtPermitJoinReq mallocOk port ttl issuer dest permitDuration tcSignificance needResponse =
     send_zdo_steps mallocOk ttl issuer AZAP_ZDO_MGMT_PERMIT_JOIN_REQ needResponse dest 0 0x04
       [azap_uint16CpyPayloadAndShift dest, azap_uint8CpyPayloadAndShift permitDuration,
        azap_uint8CpyPayloadAndShift (if tcSignificance then 1 else 0)] port"

definition azapZdpMgmtLeaveReq ::
    "bool \<Rightarrow> u8 \<Rightarrow> AZAP_REQ_TTL_MGMT_MODE \<Rightarrow> nat \<Rightarrow> u16 \<Rightarrow> bytes \<Rightarrow> bool \<Rightarrow> bool \<Rightarrow> azapLib \<Rightarrow> (bool \<times> azapLib) exec" where
  "azapZdpMgmtLeaveReq mallocOk port ttl issuer dest deviceAddress removeChildren rejoin =
     send_zdo_steps mallocOk ttl issuer AZAP_ZDO_MGMT_LEAVE_REQ True dest 0 0x0B
       [azap_uint16CpyPayloadAndShift dest, azap_extAddrCpyPayloadAndShift (Some deviceAddress),
        azap_uint8CpyPayloadAndShift ((if removeChildren then 0x40 else 0) OR (if rejoin then 0x80 else 0))] port"

subsection \<open>ZCL requests\<close>

text \<open>The commands of the API. A list holds at least \<open>numAttr\<close> records.\<close>

record azapZclReadCommand_t =
  rcNumAttr :: u8
  rcAttrId :: "u16 list"

record azapZclWriteAttr_t =
  waAttrId :: u16
  waDataType :: u8
  waAttrData :: "bytes option"

record azapZclWriteCommand_t =
  wcNumAttr :: u8
  wcAttrList :: "azapZclWriteAttr_t list"

record azapZclCfgReportCommand_t =
  ccNumAttr :: u8
  ccAttrList :: "azapZclCfgReportAttr_t list"

record azapZclReadReportCfgAttr_t =
  raDirection :: u8
  raAttrId :: u16

record azapZclReadReportCfgCommand_t =
  rrcNumAttr :: u8
  rrcAttrList :: "azapZclReadReportCfgAttr_t list"

record azapZclDiscoverCommand_t =
  dcStartAttrId :: u16
  dcMaxNumAttrIds :: u8

definition send_zcl ::
    "bool \<Rightarrow> AZAP_REQ_TTL_MGMT_MODE \<Rightarrow> nat \<Rightarrow> AZAP_REQUEST_TYPE \<Rightarrow> bool \<Rightarrow> u16 \<Rightarrow> u8 \<Rightarrow> u8 \<Rightarrow> u16 \<Rightarrow> u8 \<Rightarrow> u16 \<Rightarrow>
     bool \<Rightarrow> u8 \<Rightarrow> u8 \<Rightarrow> (bool \<times> bytes option \<times> u8) exec \<Rightarrow> u8 \<Rightarrow> azapLib \<Rightarrow> (bool \<times> azapLib) exec" where
  "send_zcl mallocOk ttl issuer type resp dest remoteEp localEp clusterId dir manu defaultRsp code expected
       built port lib =
     with_port False lib (unat port) (\<lambda>p g. do {
       let g' = g\<lparr>azapNbZclRequestsIssued := azapNbZclRequestsIssued g + 1\<rparr>;
       (retVal, payload, len) \<leftarrow> built;
       if retVal
       then portContext_t_sendZcl mallocOk p ttl issuer type resp dest remoteEp localEp clusterId dir manu
              defaultRsp code expected len payload g'
       else Some (False, p, g')
     })"

fun read_fill :: "nat \<Rightarrow> u16 list \<Rightarrow> bytes \<Rightarrow> bytes exec" where
  "read_fill i [] payload = Some payload"
| "read_fill i (a # as) payload = do {
     p1 \<leftarrow> memcpy_at (i * 2) [LO_UINT16 a] payload;
     p2 \<leftarrow> memcpy_at (i * 2 + 1) [HI_UINT16 a] p1;
     read_fill (Suc i) as p2
   }"

definition azapZclReadCmdReq ::
    "bool \<Rightarrow> u8 \<Rightarrow> AZAP_REQ_TTL_MGMT_MODE \<Rightarrow> nat \<Rightarrow> u16 \<Rightarrow> u8 \<Rightarrow> u8 \<Rightarrow> u16 \<Rightarrow> u8 \<Rightarrow> u16 \<Rightarrow> azapZclReadCommand_t option \<Rightarrow>
     azapLib \<Rightarrow> (bool \<times> azapLib) exec" where
  "azapZclReadCmdReq mallocOk port ttl issuer dest localEp remoteEp clusterId dir manu zclCmd lib =
    (case zclCmd of
       None \<Rightarrow> with_port False lib (unat port) (\<lambda>p g. Some (False, p, g))
     | Some cmd \<Rightarrow>
         if \<not> unat (rcNumAttr cmd) * 2 < MAX_ZNP_PAYLOAD_SIZE
         then with_port False lib (unat port) (\<lambda>p g. Some (False, p, g))
         else send_zcl mallocOk ttl issuer AZAP_ZCL_READ_CMD True dest remoteEp localEp clusterId dir manu
                True 0x00 0x01
                (do { ids \<leftarrow> memread 0 (unat (rcNumAttr cmd)) (rcAttrId cmd);
                      payload \<leftarrow> read_fill 0 ids (replicate MAX_ZNP_PAYLOAD_SIZE 0);
                      Some (True, Some payload, rcNumAttr cmd * 2) }) port lib)"

fun write_fill :: "azapZclWriteAttr_t list \<Rightarrow> msgbuf \<Rightarrow> (bool \<times> msgbuf) exec" where
  "write_fill [] m = Some (True, m)"
| "write_fill (a # as) m =
    (if \<not> unat (snd m) < MAX_ZNP_PAYLOAD_SIZE - 3 then Some (True, m)
     else do {
       (p1, l1) \<leftarrow> msg_pushes (le16 (waAttrId a) @ [waDataType a]) m;
       attrLen \<leftarrow> azapGetZclDataLength (waDataType a) (waAttrData a);
       if unat attrLen + unat l1 \<ge> MAX_ZNP_PAYLOAD_SIZE then Some (False, p1, l1)
       else do {
         d \<leftarrow> memread 0 (unat attrLen) (case waAttrData a of None \<Rightarrow> [] | Some x \<Rightarrow> x);
         p2 \<leftarrow> memcpy_at (unat l1) d p1;
         write_fill as (p2, l1 + attrLen)
       }
     })"

definition azapZclWriteCmdReq ::
    "bool \<Rightarrow> u8 \<Rightarrow> AZAP_REQ_TTL_MGMT_MODE \<Rightarrow> nat \<Rightarrow> u16 \<Rightarrow> u8 \<Rightarrow> u8 \<Rightarrow> u16 \<Rightarrow> u8 \<Rightarrow> u16 \<Rightarrow> bool \<Rightarrow>
     azapZclWriteCommand_t option \<Rightarrow> azapLib \<Rightarrow> (bool \<times> azapLib) exec" where
  "azapZclWriteCmdReq mallocOk port ttl issuer dest localEp remoteEp clusterId dir manu undivided zclCmd lib =
    (case zclCmd of
       None \<Rightarrow> with_port False lib (unat port) (\<lambda>p g. Some (False, p, g))
     | Some cmd \<Rightarrow>
         send_zcl mallocOk ttl issuer AZAP_ZCL_WRITE_CMD True dest remoteEp localEp clusterId dir manu
           True (if undivided then 0x03 else 0x02) 0x04
           (do { attrs \<leftarrow> memread 0 (unat (wcNumAttr cmd)) (wcAttrList cmd);
                 (ok, payload, len) \<leftarrow> write_fill attrs (replicate MAX_ZNP_PAYLOAD_SIZE 0, 0);
                 Some (ok, Some payload, len) }) port lib)"

fun cfgReport_encode :: "azapZclCfgReportAttr_t list \<Rightarrow> msgbuf \<Rightarrow> (bool \<times> msgbuf) exec" where
  "cfgReport_encode [] m = Some (True, m)"
| "cfgReport_encode (a # as) m =
    (if \<not> unat (snd m) < MAX_ZNP_PAYLOAD_SIZE - 8 then Some (True, m)
     else do {
       m1 \<leftarrow> msg_pushes (caDirection a # le16 (caAttrId a)) m;
       if ZCL_SEND_ATTR_REPORTS = caDirection a
       then do {
         (p2, l2) \<leftarrow> msg_pushes (caDataType a # le16 (caMinReportInt a) @ le16 (caMaxReportInt a)) m1;
         case caReportableChange a of
           None \<Rightarrow> cfgReport_encode as (p2, l2)
         | Some ch \<Rightarrow>
             if azapZclIsAnalogDataType (caDataType a)
             then do {
               attrLen \<leftarrow> azapGetZclDataLength (caDataType a) (Some ch);
               if unat attrLen + unat l2 \<ge> MAX_ZNP_PAYLOAD_SIZE then Some (False, p2, l2)
               else do {
                 d \<leftarrow> memread 0 (unat attrLen) ch;
                 p3 \<leftarrow> memcpy_at (unat l2) d p2;
                 cfgReport_encode as (p3, l2 + attrLen)
               }
             }
             else cfgReport_encode as (p2, l2)
       }
       else do {
         m2 \<leftarrow> msg_pushes (le16 (caTimeoutPeriod a)) m1;
         cfgReport_encode as m2
       }
     })"

definition azapZclConfigureReportCmdReq ::
    "bool \<Rightarrow> u8 \<Rightarrow> AZAP_REQ_TTL_MGMT_MODE \<Rightarrow> nat \<Rightarrow> u16 \<Rightarrow> u8 \<Rightarrow> u8 \<Rightarrow> u16 \<Rightarrow> u8 \<Rightarrow>
     azapZclCfgReportCommand_t option \<Rightarrow> azapLib \<Rightarrow> (bool \<times> azapLib) exec" where
  "azapZclConfigureReportCmdReq mallocOk port ttl issuer dest localEp remoteEp clusterId dir zclCmd lib =
    (case zclCmd of
       None \<Rightarrow> with_port False lib (unat port) (\<lambda>p g. Some (False, p, g))
     | Some cmd \<Rightarrow>
         send_zcl mallocOk ttl issuer AZAP_ZCL_CONFIGURE_REPORTING_CMD True dest remoteEp localEp clusterId dir 0
           True 0x06 0x07
           (do { attrs \<leftarrow> memread 0 (unat (ccNumAttr cmd)) (ccAttrList cmd);
                 (ok, payload, len) \<leftarrow> cfgReport_encode attrs (replicate MAX_ZNP_PAYLOAD_SIZE 0, 0);
                 Some (ok, Some payload, len) }) port lib)"

fun readReport_encode :: "azapZclReadReportCfgAttr_t list \<Rightarrow> msgbuf \<Rightarrow> msgbuf exec" where
  "readReport_encode [] m = Some m"
| "readReport_encode (a # as) m =
    (if \<not> unat (snd m) < MAX_ZNP_PAYLOAD_SIZE - 3 then Some m
     else do {
       m1 \<leftarrow> msg_pushes (raDirection a # le16 (raAttrId a)) m;
       readReport_encode as m1
     })"

definition azapZclReadReportConfigCmdReq ::
    "bool \<Rightarrow> u8 \<Rightarrow> AZAP_REQ_TTL_MGMT_MODE \<Rightarrow> nat \<Rightarrow> u16 \<Rightarrow> u8 \<Rightarrow> u8 \<Rightarrow> u16 \<Rightarrow> u8 \<Rightarrow>
     azapZclReadReportCfgCommand_t option \<Rightarrow> azapLib \<Rightarrow> (bool \<times> azapLib) exec" where
  "azapZclReadReportConfigCmdReq mallocOk port ttl issuer dest localEp remoteEp clusterId dir zclCmd lib =
    (case zclCmd of
       None \<Rightarrow> with_port False lib (unat port) (\<lambda>p g. Some (False, p, g))
     | Some cmd \<Rightarrow>
         send_zcl mallocOk ttl issuer AZAP_ZCL_READ_REPORTING_CONF_CMD True dest remoteEp localEp clusterId dir 0
           True 0x08 0x09
           (do { attrs \<leftarrow> memread 0 (unat (rrcNumAttr cmd)) (rrcAttrList cmd);
                 (payload, len) \<leftarrow> readReport_encode attrs (replicate MAX_ZNP_PAYLOAD_SIZE 0, 0);
                 Some (True, Some payload, len) }) port lib)"

definition azapZclDiscoverCmdReq ::
    "bool \<Rightarrow> u8 \<Rightarrow> AZAP_REQ_TTL_MGMT_MODE \<Rightarrow> nat \<Rightarrow> u16 \<Rightarrow> u8 \<Rightarrow> u8 \<Rightarrow> u16 \<Rightarrow> u8 \<Rightarrow>
     azapZclDiscoverCommand_t option \<Rightarrow> azapLib \<Rightarrow> (bool \<times> azapLib) exec" where
  "azapZclDiscoverCmdReq mallocOk port ttl issuer dest localEp remoteEp clusterId dir zclCmd lib =
    (case zclCmd of
       None \<Rightarrow> with_port False lib (unat port) (\<lambda>p g. Some (False, p, g))
     | Some cmd \<Rightarrow>
         send_zcl mallocOk ttl issuer AZAP_ZCL_DISCOVER_CMD True dest remoteEp localEp clusterId dir 0
           True 0x0c 0x0d
           (Some (True, Some [LO_UINT16 (dcStartAttrId cmd), HI_UINT16 (dcStartAttrId cmd), dcMaxNumAttrIds cmd], 3))
           port lib)"

text \<open>The 16-bit \<open>dataLen\<close> becomes the 8-bit length of \<open>sendZcl\<close>.\<close>

definition azapZclOutgoingCmdReq ::
    "bool \<Rightarrow> u8 \<Rightarrow> AZAP_REQ_TTL_MGMT_MODE \<Rightarrow> nat \<Rightarrow> u16 \<Rightarrow> u8 \<Rightarrow> u8 \<Rightarrow> u16 \<Rightarrow> u8 \<Rightarrow> bool \<Rightarrow> u8 \<Rightarrow> u8 \<Rightarrow> bytes option \<Rightarrow> u16 \<Rightarrow>
     azapLib \<Rightarrow> (bool \<times> azapLib) exec" where
  "azapZclOutgoingCmdReq mallocOk port ttl issuer dest localEp remoteEp clusterId dir defaultRsp code expected
       cmdDat datLen lib =
     send_zcl mallocOk ttl issuer AZAP_ZCL_OUTGOING_CMD (expected \<noteq> 0xFF) dest remoteEp localEp clusterId dir 0
       defaultRsp code expected (Some (True, cmdDat, ucast datLen)) port lib"

subsection \<open>Clock\<close>

text \<open>What the system gives a port at a tick.\<close>

record rxEnv =
  reMal :: "nat \<Rightarrow> bytes option"
  reJunk :: bytes
  reTty :: ttyEnv
  reNow :: int
  reSofDate :: int

fun clock_loop ::
    "(nat \<Rightarrow> portContext_t \<Rightarrow> azapGlobals \<Rightarrow> (portContext_t \<times> azapGlobals) exec) \<Rightarrow> nat list \<Rightarrow> azapLib \<Rightarrow> azapLib exec" where
  "clock_loop f [] lib = Some lib"
| "clock_loop f (i # is) lib = do {
     (u, lib') \<leftarrow> with_port () lib i (\<lambda>p g.
        if portContext_t_isStarted p then do { (p', g') \<leftarrow> f i p g; Some ((), p', g') } else Some ((), p, g));
     clock_loop f is lib'
   }"

definition azapClockMs :: "bool \<Rightarrow> (nat \<Rightarrow> rxEnv) \<Rightarrow> azapLib \<Rightarrow> azapLib exec" where
  "azapClockMs mallocOk env =
     clock_loop (\<lambda>i p g. portContext_t_processRxMsg mallocOk (reMal (env i)) (reJunk (env i)) (reTty (env i))
                            (reNow (env i)) (reSofDate (env i)) p g) [0 ..< MAX_NB_PORT_CONTEXT]"

definition port_second :: "portContext_t \<Rightarrow> azapGlobals \<Rightarrow> (portContext_t \<times> azapGlobals) exec" where
  "port_second p g = do {
     p1 \<leftarrow> (case startInst p of
              None \<Rightarrow> Some p
            | Some i \<Rightarrow> do { (i', p') \<leftarrow> znpStartInstance_t_watchdog i p; Some (p'\<lparr>startInst := Some i'\<rparr>) });
     rm \<leftarrow> requestManager p1;
     (rm', p2, g') \<leftarrow> requestManager_t_tic rm p1 g;
     Some (p2\<lparr>requestManager := Some rm'\<rparr>, g')
   }"

definition azapClockSc :: "azapLib \<Rightarrow> azapLib exec" where
  "azapClockSc = clock_loop (\<lambda>i. port_second) [0 ..< MAX_NB_PORT_CONTEXT]"

subsection \<open>Encoders that fill a 255-byte array\<close>

text \<open>The loops of the write, configure-reporting and read-reporting requests share a contract: an
  attribute is encoded when at least \<open>margin\<close> bytes are free, refused when its data does not fit, and
  dropped (with all that follow) when fewer than \<open>margin\<close> bytes are free.\<close>

locale payload_encoder =
  fixes fill :: "'a list \<Rightarrow> msgbuf \<Rightarrow> (bool \<times> msgbuf) exec"
    and enc :: "'a \<Rightarrow> bytes"
    and ok :: "'a \<Rightarrow> bool"
    and margin :: nat
    and least :: nat
  assumes fill_Nil: "fill [] m = Some (True, m)"
    and fill_stop: "\<not> unat l < 255 - margin \<Longrightarrow> fill (a # as) (p, l) = Some (True, p, l)"
    and fill_fits: "ok a \<Longrightarrow> length p = 255 \<Longrightarrow> unat l < 255 - margin \<Longrightarrow> unat l + length (enc a) < 255 \<Longrightarrow>
      fill (a # as) (p, l) = fill as (take (unat l) p @ enc a @ drop (unat l + length (enc a)) p, l + of_nat (length (enc a)))"
    and fill_over: "ok a \<Longrightarrow> length p = 255 \<Longrightarrow> unat l < 255 - margin \<Longrightarrow> \<not> unat l + length (enc a) < 255 \<Longrightarrow>
      \<exists>p' l'. fill (a # as) (p, l) = Some (False, p', l') \<and> length p' = 255"
    and enc_least: "ok a \<Longrightarrow> least \<le> length (enc a)"
    and least_margin: "least \<le> margin" "0 < least"
begin

lemma fill_total:
  "\<forall>a \<in> set as. ok a \<Longrightarrow> length p = 255 \<Longrightarrow> \<exists>r p' l'. fill as (p, l) = Some (r, p', l') \<and> length p' = 255"
proof (induction as arbitrary: p l)
  case Nil
  then show ?case by (auto simp: fill_Nil)
next
  case (Cons a as)
  consider (stop) "\<not> unat l < 255 - margin" | (over) "unat l < 255 - margin" "\<not> unat l + length (enc a) < 255"
    | (fits) "unat l < 255 - margin" "unat l + length (enc a) < 255" by blast
  then show ?case
  proof cases
    case stop
    with Cons.prems show ?thesis by (auto simp: fill_stop)
  next
    case over
    from fill_over [OF _ Cons.prems(2) over, of as] Cons.prems(1) show ?thesis by auto
  next
    case fits
    let ?p = "take (unat l) p @ enc a @ drop (unat l + length (enc a)) p"
    have "length ?p = 255" using Cons.prems(2) fits(2) by simp
    with Cons.IH [of ?p "l + of_nat (length (enc a))"] fill_fits [OF _ Cons.prems(2) fits, of as] Cons.prems(1)
    show ?thesis by simp
  qed
qed

lemma fill_complete:
  "\<forall>a \<in> set as. ok a \<Longrightarrow> length p = 255 \<Longrightarrow> unat l + length (concat (map enc as)) + margin < 255 + least \<Longrightarrow>
   margin < 255 + least \<Longrightarrow> unat l < 255 \<Longrightarrow>
   fill as (p, l) = Some (True, take (unat l) p @ concat (map enc as) @ drop (unat l + length (concat (map enc as))) p,
     l + of_nat (length (concat (map enc as))))"
proof (induction as arbitrary: p l)
  case Nil
  then show ?case by (auto simp: fill_Nil)
next
  case (Cons a as)
  let ?e = "length (enc a)"
  have e: "least \<le> ?e" using Cons.prems(1) enc_least by simp
  with Cons.prems(3) least_margin have b: "unat l < 255 - margin" "unat l + ?e < 255" by auto
  have u: "unat (l + of_nat ?e) = unat l + ?e"
    using b(2) unat_of_nat_u8 [of ?e] by (subst unat_add_u8) simp_all
  let ?p = "take (unat l) p @ enc a @ drop (unat l + ?e) p"
  have "length ?p = 255" using Cons.prems(2) b(2) by simp
  moreover have "take (unat l + ?e) ?p = take (unat l) p @ enc a" using Cons.prems(2) b(2) by simp
  moreover have "drop (unat l + ?e + k) ?p = drop (unat l + ?e + k) p" for k
    using Cons.prems(2) b(2) by (simp add: add.commute)
  ultimately show ?case
    using Cons.IH [of ?p "l + of_nat ?e"] fill_fits [OF _ Cons.prems(2) b, of as] Cons.prems u b(2)
    by (simp add: algebra_simps)
qed

end

text \<open>The data of an attribute: readable as far as its type asks for.\<close>

definition zcl_data :: "u8 \<Rightarrow> bytes option \<Rightarrow> bytes" where
  "zcl_data ty data = (case azapGetZclDataLength ty data of
     None \<Rightarrow> [] | Some n \<Rightarrow> take (unat n) (case data of None \<Rightarrow> [] | Some d \<Rightarrow> d))"

definition zcl_data_ok :: "u8 \<Rightarrow> bytes option \<Rightarrow> bool" where
  "zcl_data_ok ty data = (case azapGetZclDataLength ty data of
     None \<Rightarrow> False | Some n \<Rightarrow> unat n \<le> length (case data of None \<Rightarrow> [] | Some d \<Rightarrow> d))"

lemma zcl_dataE:
  assumes "zcl_data_ok ty data"
  obtains n where "azapGetZclDataLength ty data = Some n" "unat n = length (zcl_data ty data)"
    "memread 0 (unat n) (case data of None \<Rightarrow> [] | Some d \<Rightarrow> d) = Some (zcl_data ty data)"
  using assms by (auto simp: zcl_data_ok_def zcl_data_def mem_simps split: option.splits)

definition enc_write :: "azapZclWriteAttr_t \<Rightarrow> bytes" where
  "enc_write a = le16 (waAttrId a) @ [waDataType a] @ zcl_data (waDataType a) (waAttrData a)"

definition write_ok :: "azapZclWriteAttr_t \<Rightarrow> bool" where
  "write_ok a = zcl_data_ok (waDataType a) (waAttrData a)"

lemma pushes_255:
  assumes "length p = 255" "unat l + length bs < 255"
  shows "msg_pushes bs (p, l) = Some (take (unat l) p @ bs @ drop (unat l + length bs) p, l + of_nat (length bs))"
proof -
  have "p = take (unat l) p @ drop (unat l) p" "length (take (unat l) p) = unat l" using assms by simp_all
  with msg_pushes_written [of bs "drop (unat l) p" "take (unat l) p"] assms show ?thesis
    by (simp add: add.commute)
qed

lemma write_fill_Cons:
  assumes "write_ok a" "length p = 255" "unat l < 252"
  shows "write_fill (a # as) (p, l) =
    (if unat l + length (enc_write a) < 255
     then write_fill as (take (unat l) p @ enc_write a @ drop (unat l + length (enc_write a)) p, l + of_nat (length (enc_write a)))
     else Some (False, take (unat l) p @ (le16 (waAttrId a) @ [waDataType a]) @ drop (unat l + 3) p, l + 3))"
proof -
  obtain n where n: "azapGetZclDataLength (waDataType a) (waAttrData a) = Some n"
    "unat n = length (zcl_data (waDataType a) (waAttrData a))"
    "memread 0 (unat n) (case waAttrData a of None \<Rightarrow> [] | Some d \<Rightarrow> d) = Some (zcl_data (waDataType a) (waAttrData a))"
    using assms(1) unfolding write_ok_def by (rule zcl_dataE)
  let ?h = "le16 (waAttrId a) @ [waDataType a]"
  have push: "msg_pushes ?h (p, l) = Some (take (unat l) p @ ?h @ drop (unat l + 3) p, l + 3)"
    using pushes_255 [OF assms(2), of l ?h] assms(3) by simp
  have l3: "unat (l + 3) = unat l + 3" using assms(3) by (subst unat_add_u8) simp_all
  have len: "length (enc_write a) = 3 + unat n" using n(2) by (simp add: enc_write_def)
  have "memcpy_at (unat (l + 3)) (zcl_data (waDataType a) (waAttrData a)) (take (unat l) p @ ?h @ drop (unat l + 3) p)
      = Some (take (unat l) p @ enc_write a @ drop (unat l + length (enc_write a)) p)"
    if "unat l + length (enc_write a) < 255"
    using that assms(2,3) n(2) l3 len by (simp add: memcpy_at_def enc_write_def numeral_3_eq_3 add.commute)
  moreover have "l + 3 + n = l + of_nat (length (enc_write a))" using len by simp
  ultimately show ?thesis
    using assms(3) push n(1,3) l3 len by (simp add: MAX_ZNP_PAYLOAD_SIZE_def add.assoc)
qed

interpretation write_enc: payload_encoder write_fill enc_write write_ok 3 3
proof (unfold_locales, goal_cases)
  case (3 a p l as)
  then show ?case by (simp add: write_fill_Cons del: write_fill.simps)
next
  case (4 a p l as)
  then show ?case by (simp add: write_fill_Cons del: write_fill.simps)
qed (simp_all add: write_fill_Cons MAX_ZNP_PAYLOAD_SIZE_def enc_write_def)

definition report_change :: "azapZclCfgReportAttr_t \<Rightarrow> bytes" where
  "report_change a = (case caReportableChange a of
     None \<Rightarrow> [] | Some ch \<Rightarrow> if azapZclIsAnalogDataType (caDataType a) then zcl_data (caDataType a) (Some ch) else [])"

definition enc_cfgReport :: "azapZclCfgReportAttr_t \<Rightarrow> bytes" where
  "enc_cfgReport a = caDirection a # le16 (caAttrId a) @
     (if ZCL_SEND_ATTR_REPORTS = caDirection a
      then caDataType a # le16 (caMinReportInt a) @ le16 (caMaxReportInt a) @ report_change a
      else le16 (caTimeoutPeriod a))"

definition cfgReport_ok :: "azapZclCfgReportAttr_t \<Rightarrow> bool" where
  "cfgReport_ok a = (ZCL_SEND_ATTR_REPORTS = caDirection a \<longrightarrow> azapZclIsAnalogDataType (caDataType a) \<longrightarrow>
     (case caReportableChange a of None \<Rightarrow> True | Some ch \<Rightarrow> zcl_data_ok (caDataType a) (Some ch)))"

lemma msg_pushes_append: "msg_pushes (as @ bs) m = msg_pushes as m \<bind> msg_pushes bs"
  by (induction as arbitrary: m) (auto split: bind_splits)

lemma enc_cfgReport_timeout:
  assumes "caDirection a \<noteq> 0" "length p = 255" "unat l < 247"
  shows "cfgReport_encode (a # as) (p, l) =
      cfgReport_encode as (take (unat l) p @ enc_cfgReport a @ drop (unat l + length (enc_cfgReport a)) p,
        l + of_nat (length (enc_cfgReport a)))"
proof -
  let ?h1 = "caDirection a # le16 (caAttrId a)" and ?h2 = "le16 (caTimeoutPeriod a)"
  have e: "enc_cfgReport a = ?h1 @ ?h2" using assms(1) by (simp add: enc_cfgReport_def)
  have "msg_pushes ?h1 (p, l) \<bind> msg_pushes ?h2 = Some (take (unat l) p @ enc_cfgReport a
      @ drop (unat l + length (enc_cfgReport a)) p, l + of_nat (length (enc_cfgReport a)))"
    using pushes_255 [OF assms(2), of l "?h1 @ ?h2"] assms(3) unfolding msg_pushes_append [symmetric] e by simp
  then show ?thesis
    using assms(1,3)
    by (cases "msg_pushes ?h1 (p, l)") (simp_all add: MAX_ZNP_PAYLOAD_SIZE_def del: msg_pushes.simps)
qed

definition cfgReport_tail :: "azapZclCfgReportAttr_t \<Rightarrow> azapZclCfgReportAttr_t list \<Rightarrow> msgbuf \<Rightarrow> (bool \<times> msgbuf) exec" where
  "cfgReport_tail a as m = (case m of (p2, l2) \<Rightarrow>
     (case caReportableChange a of
        None \<Rightarrow> cfgReport_encode as (p2, l2)
      | Some ch \<Rightarrow>
          if azapZclIsAnalogDataType (caDataType a)
          then do {
            attrLen \<leftarrow> azapGetZclDataLength (caDataType a) (Some ch);
            if unat attrLen + unat l2 \<ge> MAX_ZNP_PAYLOAD_SIZE then Some (False, p2, l2)
            else do {
              d \<leftarrow> memread 0 (unat attrLen) ch;
              p3 \<leftarrow> memcpy_at (unat l2) d p2;
              cfgReport_encode as (p3, l2 + attrLen)
            }
          }
          else cfgReport_encode as (p2, l2)))"

lemma cfgReport_encode_head:
  assumes "caDirection a = 0" "unat (snd m) < 247"
  shows "cfgReport_encode (a # as) m =
    msg_pushes ((caDirection a # le16 (caAttrId a)) @ (caDataType a # le16 (caMinReportInt a) @ le16 (caMaxReportInt a))) m
      \<bind> cfgReport_tail a as"
  using assms unfolding msg_pushes_append
  by (cases "msg_pushes (caDirection a # le16 (caAttrId a)) m")
    (simp_all add: MAX_ZNP_PAYLOAD_SIZE_def cfgReport_tail_def [abs_def] del: msg_pushes.simps)

lemma cfgReport_tail_eq:
  assumes "caDirection a = 0" "cfgReport_ok a" "length q = 255" "unat l < 255"
  shows "cfgReport_tail a as (q, l) =
    (if unat l + length (report_change a) < 255
     then cfgReport_encode as (take (unat l) q @ report_change a @ drop (unat l + length (report_change a)) q,
            l + of_nat (length (report_change a)))
     else Some (False, q, l))"
proof (cases "case caReportableChange a of None \<Rightarrow> False | Some ch \<Rightarrow> azapZclIsAnalogDataType (caDataType a)")
  case True
  then obtain ch where ch: "caReportableChange a = Some ch" "azapZclIsAnalogDataType (caDataType a)"
    "report_change a = zcl_data (caDataType a) (Some ch)"
    by (auto simp: report_change_def split: option.splits)
  with assms(1,2) have "zcl_data_ok (caDataType a) (Some ch)" by (simp add: cfgReport_ok_def)
  then obtain n where n: "azapGetZclDataLength (caDataType a) (Some ch) = Some n" "unat n = length (report_change a)"
    "memread 0 (unat n) ch = Some (report_change a)" using ch(3) by (auto elim: zcl_dataE)
  have "of_nat (length (report_change a)) = n" using n(2) by (simp flip: n(2))
  then show ?thesis
    using ch(1,2) n assms(3) by (auto simp: cfgReport_tail_def MAX_ZNP_PAYLOAD_SIZE_def memcpy_at_def)
next
  case False
  then show ?thesis using assms(4) by (auto simp: cfgReport_tail_def report_change_def split: option.splits)
qed

lemma enc_cfgReport_reports:
  assumes "caDirection a = 0" "cfgReport_ok a" "length p = 255" "unat l < 247"
  shows "cfgReport_encode (a # as) (p, l) =
    (if unat l + length (enc_cfgReport a) < 255
     then cfgReport_encode as (take (unat l) p @ enc_cfgReport a @ drop (unat l + length (enc_cfgReport a)) p,
        l + of_nat (length (enc_cfgReport a)))
     else Some (False, take (unat l) p @ take 8 (enc_cfgReport a) @ drop (unat l + 8) p, l + 8))"
proof -
  define h where "h = (caDirection a # le16 (caAttrId a)) @ (caDataType a # le16 (caMinReportInt a) @ le16 (caMaxReportInt a))"
  have e: "enc_cfgReport a = h @ report_change a" "length h = 8"
    using assms(1) by (simp_all add: enc_cfgReport_def h_def)
  let ?q = "take (unat l) p @ h @ drop (unat l + 8) p"
  have h: "msg_pushes h (p, l) = Some (?q, l + 8)"
    using pushes_255 [OF assms(3), of l h] assms(4) e(2) by simp
  have t8: "take 8 (h @ report_change a) = h" using e(2) by simp
  have l8: "unat (l + 8) = unat l + 8" using assms(4) by (subst unat_add_u8) simp_all
  have q: "length ?q = 255" "take (unat l + 8) ?q = take (unat l) p @ h"
    "drop (unat l + 8 + k) ?q = drop (unat l + 8 + k) p" for k
    using assms(3,4) e(2) by (simp_all add: add.commute)
  have hd: "cfgReport_encode (a # as) (p, l) = cfgReport_tail a as (?q, l + 8)"
    using cfgReport_encode_head [OF assms(1), of "(p, l)" as, folded h_def] h assms(4)
    by (simp del: cfgReport_encode.simps)
  show ?thesis
    unfolding hd using cfgReport_tail_eq [OF assms(1,2) q(1), of "l + 8" as] assms(4) l8 q(2,3) e t8
    by (simp add: add.assoc del: take_append drop_append)
qed

interpretation cfgReport_enc: payload_encoder cfgReport_encode enc_cfgReport cfgReport_ok 8 5
proof (unfold_locales, goal_cases)
  case (3 a p l as)
  then show ?case
    by (cases "caDirection a = 0") (simp_all add: enc_cfgReport_reports enc_cfgReport_timeout del: cfgReport_encode.simps)
next
  case (4 a p l as)
  then have "caDirection a = 0" by (auto simp: enc_cfgReport_def split: if_splits)
  with 4 show ?case by (simp add: enc_cfgReport_reports del: cfgReport_encode.simps)
qed (simp_all add: MAX_ZNP_PAYLOAD_SIZE_def enc_cfgReport_def)

definition enc_readReport :: "azapZclReadReportCfgAttr_t \<Rightarrow> bytes" where
  "enc_readReport a = raDirection a # le16 (raAttrId a)"

interpretation readReport_enc: payload_encoder "\<lambda>as m. map_option (Pair True) (readReport_encode as m)" enc_readReport
  "\<lambda>_. True" 3 3
proof (unfold_locales, goal_cases)
  case (3 a p l as)
  from pushes_255 [OF 3(2), of l "enc_readReport a"] 3(3,4) show ?case
    by (simp add: enc_readReport_def MAX_ZNP_PAYLOAD_SIZE_def del: msg_pushes.simps)
qed (simp_all add: MAX_ZNP_PAYLOAD_SIZE_def enc_readReport_def)

subsection \<open>ZDO payloads\<close>

lemma ext_written:
  assumes "length a = 8" "written w (room + 8) c"
  shows "\<exists>c'. azap_extAddrCpyPayloadAndShift (Some a) c = Some c' \<and> written (w @ a) room c'"
proof -
  obtain buf pos where c: "c = Some (buf, pos)" using assms(2) by (auto simp: written_def)
  from memcpy_written [of w a room buf pos] assms c show ?thesis
    by (auto simp: azap_extAddrCpyPayloadAndShift_def IEEE_ADDR_LEN_def memread_def add.commute)
qed

text \<open>A step that appends its bytes to the payload.\<close>

definition writes :: "(wcursor \<Rightarrow> wcursor exec) \<Rightarrow> bytes \<Rightarrow> bool" where
  "writes f d = (\<forall>w room c. written w (room + length d) c \<longrightarrow> (\<exists>c'. f c = Some c' \<and> written (w @ d) room c'))"

lemma writes_steps:
  "writes (azap_uint8CpyPayloadAndShift b) [b]"
  "writes (azap_uint16CpyPayloadAndShift v) (le16 v)"
  "length a = 8 \<Longrightarrow> writes (azap_extAddrCpyPayloadAndShift (Some a)) a"
  using cpy8_written cpy16_written ext_written by (auto simp: writes_def le16_def)

lemma cpy_steps_written:
  "list_all2 writes fs ds \<Longrightarrow> written w (room + length (concat ds)) c \<Longrightarrow>
   \<exists>c'. cpy_steps fs c = Some c' \<and> written (w @ concat ds) room c'"
proof (induction fs ds arbitrary: w c rule: list_all2_induct)
  case Nil
  then show ?case by simp
next
  case (Cons f fs d ds)
  have "written w (room + length (concat ds) + length d) c" using Cons.prems by (simp add: ac_simps)
  with Cons.hyps(1) obtain c1 where "f c = Some c1" "written (w @ d) (room + length (concat ds)) c1"
    unfolding writes_def by blast
  with Cons.IH [of "w @ d" c1] show ?case by auto
qed

lemma cpy_steps_payload:
  assumes "list_all2 writes fs ds" "n = length (concat ds)"
  shows "\<exists>pos. cpy_steps fs (Some (replicate n 0, 0)) = Some (Some (concat ds, pos))"
proof -
  have "written [] (0 + length (concat ds)) (Some (replicate n 0, 0))" using assms(2) by (simp add: written_def)
  from cpy_steps_written [OF assms(1) this] show ?thesis by (auto simp: written_def)
qed

text \<open>A ZDO request is a request of the port with the concatenation of its fields as payload.\<close>

lemma send_zdo_steps_eq:
  assumes "list_all2 writes fs ds" "n = length (concat ds)"
  shows "send_zdo_steps mallocOk ttl issuer type resp dest ep n fs port lib =
     with_port False lib (unat port) (\<lambda>p g. portContext_t_sendZdo mallocOk p ttl issuer type resp dest ep (of_nat n)
       (Some (concat ds)) (g\<lparr>azapNbZdoRequestsIssued := azapNbZdoRequestsIssued g + 1\<rparr>))"
proof -
  from cpy_steps_payload [OF assms] obtain pos where
    "cpy_steps fs (Some (replicate n 0, 0)) = Some (Some (concat ds, pos))" by blast
  then show ?thesis by (simp add: send_zdo_steps_def Let_def)
qed

lemma zdo_sent_frame:
  assumes "requestManager p = Some rm" "tx p = Some b" "uart_wf b" "request_family type = REQ_ZDO_FAMILY cmd"
    "requestManager_t_readyToSendDoublonCheck rm dest type 0 ep 0" "unat n = length d" "length d \<le> 250"
    "length (uart_contents b) + length d + 5 \<le> uart_capacity b"
  shows "\<exists>b' rm'. portContext_t_sendZdo True p ttl issuer type True dest ep n (Some d) g
       = Some (True, p\<lparr>tx := Some b', requestManager := Some rm'\<rparr>, g) \<and>
     uart_contents b' = uart_contents b @ znp_frame cmd d"
proof -
  from znpSend_cases [OF assms(3), of n d cmd] assms(6-8) obtain b' where
    "znpSend b cmd n d = Some (True, b')" "uart_contents b' = uart_contents b @ znp_frame cmd d" by auto
  with assms(1,2,4,5) show ?thesis
    by (auto simp: portContext_t_sendZdo_def portContext_t_sendRequest_def new_postponedRequestElts_t_def
        requestManager_t_addPendingRequest_def new_requestContext_t_def requestManager_t_sendRequest_def Let_def
        intro!: exI [of _ b'])
qed

subsection \<open>Properties\<close>

definition apiLib :: azapLib where
  "apiLib = azapLib_init\<lparr>g_portContexts := LivePort apiPort # replicate 4 NoPort, g_portContextIndex := 1\<rparr>"

text \<open>C37: the write request never writes outside its 255-byte payload, whatever the number and the
  sizes of the attributes, and when the records take at most 254 bytes together, all of them are
  encoded one after the other (identifier in little-endian order, type, data).\<close>

theorem write_encoder_bounds:
  assumes "\<forall>a \<in> set attrs. write_ok a"
  shows "(\<exists>ok p' l'. write_fill attrs (replicate 255 0, 0) = Some (ok, p', l') \<and> length p' = 255) \<and>
    (length (concat (map enc_write attrs)) \<le> 254 \<longrightarrow>
      write_fill attrs (replicate 255 0, 0)
        = Some (True, concat (map enc_write attrs) @ replicate (255 - length (concat (map enc_write attrs))) 0,
            of_nat (length (concat (map enc_write attrs)))))"
  using write_enc.fill_total [OF assms, of "replicate 255 0" 0] write_enc.fill_complete [OF assms, of "replicate 255 0" 0]
  by simp

theorem write_encoder_bounds_witness:
  "write_fill [\<lparr>waAttrId = 0x0102, waDataType = ZCL_DATATYPE_UINT16, waAttrData = Some [7, 8]\<rparr>] (replicate 255 0, 0)
     = Some (True, [2, 1, ZCL_DATATYPE_UINT16, 7, 8] @ replicate 250 0, 5)"
  using write_encoder_bounds [of "[\<lparr>waAttrId = 0x0102, waDataType = ZCL_DATATYPE_UINT16, waAttrData = Some [7, 8]\<rparr>]"]
  by (simp add: enc_write_def write_ok_def zcl_data_def zcl_data_ok_def azapGetZclDataLength_def le16_def LO_UINT16_def
      HI_UINT16_def)

text \<open>The configure-reporting request never writes outside its payload either, and is complete
  when its records take at most 251 bytes together (each with its direction, identifier and, to
  send reports, type, interval bounds and reportable change, or else the timeout).\<close>

theorem configure_encoder_bounds:
  assumes "\<forall>a \<in> set attrs. cfgReport_ok a"
  shows "(\<exists>ok p' l'. cfgReport_encode attrs (replicate 255 0, 0) = Some (ok, p', l') \<and> length p' = 255) \<and>
    (length (concat (map enc_cfgReport attrs)) \<le> 251 \<longrightarrow>
      cfgReport_encode attrs (replicate 255 0, 0)
        = Some (True, concat (map enc_cfgReport attrs) @ replicate (255 - length (concat (map enc_cfgReport attrs))) 0,
            of_nat (length (concat (map enc_cfgReport attrs)))))"
  using cfgReport_enc.fill_total [OF assms, of "replicate 255 0" 0]
    cfgReport_enc.fill_complete [OF assms, of "replicate 255 0" 0]
  by simp

theorem configure_encoder_bounds_witness:
  "\<exists>p' l'. cfgReport_encode [\<lparr>caDirection = 1, caAttrId = 5, caDataType = 0, caMinReportInt = 0, caMaxReportInt = 0,
       caTimeoutPeriod = 9, caReportableChange = None\<rparr>] (replicate 255 0, 0) = Some (True, p', l') \<and> l' = 5"
  using configure_encoder_bounds [of "[\<lparr>caDirection = 1, caAttrId = 5, caDataType = 0, caMinReportInt = 0, caMaxReportInt = 0,
       caTimeoutPeriod = 9, caReportableChange = None\<rparr>]"]
  by (simp add: cfgReport_ok_def enc_cfgReport_def)

text \<open>A bind request goes out as the ZDO\_BIND\_REQ frame of the dongle: destination, source
  address and end point, cluster, 64-bit address mode, destination address and end point. It
  is counted, filed for its answer, and nothing else of the library changes.\<close>

theorem bind_request_on_wire:
  assumes "idx (g_portContexts lib) (unat port) = Some (LivePort p)" "idx (g_counters lib) (unat port) = Some c"
    "requestManager p = Some rm" "tx p = Some b" "uart_wf b"
    "requestManager_t_readyToSendDoublonCheck rm dest AZAP_ZDO_BIND_REQ 0 srcEp 0"
    "length src = 8" "length dst = 8" "length (uart_contents b) + 28 \<le> uart_capacity b"
  shows "\<exists>b' rm'. azapZdpBindReq True port ttl issuer dest src srcEp cluster dst dstEp lib
       = Some (True, lib\<lparr>g_portContexts := (g_portContexts lib)[unat port := LivePort (p\<lparr>tx := Some b', requestManager := Some rm'\<rparr>)],
           g_counters := (g_counters lib)[unat port := c\<lparr>ctZdoRequestsIssued := ctZdoRequestsIssued c + 1\<rparr>]\<rparr>) \<and>
     uart_contents b' = uart_contents b @ znp_frame 0x2125
       (le16 dest @ src @ [srcEp] @ le16 cluster @ [0x03] @ dst @ [dstEp])"
proof -
  let ?ds = "[le16 dest, src, [srcEp], le16 cluster, [ZDO_RTG_ADDR_MODE_64BIT], dst, [dstEp]]"
  let ?g = "(globals_of lib c)\<lparr>azapNbZdoRequestsIssued := azapNbZdoRequestsIssued (globals_of lib c) + 1\<rparr>"
  have n: "0x17 = length (concat ?ds)" using assms(7,8) by simp
  obtain b' rm' where r: "portContext_t_sendZdo True p ttl issuer AZAP_ZDO_BIND_REQ True dest srcEp 0x17 (Some (concat ?ds)) ?g
       = Some (True, p\<lparr>tx := Some b', requestManager := Some rm'\<rparr>, ?g)"
     "uart_contents b' = uart_contents b @ znp_frame 0x2125 (concat ?ds)"
  proof -
    have "request_family AZAP_ZDO_BIND_REQ = REQ_ZDO_FAMILY 0x2125" "unat (0x17 :: u8) = length (concat ?ds)"
      "length (concat ?ds) \<le> 250" "length (uart_contents b) + length (concat ?ds) + 5 \<le> uart_capacity b"
      using assms(7-9) by (simp_all add: request_family_def)
    from zdo_sent_frame [OF assms(3-5) this(1) assms(6) this(2-4)] that show ?thesis by blast
  qed
  have eq: "azapZdpBindReq True port ttl issuer dest src srcEp cluster dst dstEp lib =
      with_port False lib (unat port) (\<lambda>p g. portContext_t_sendZdo True p ttl issuer AZAP_ZDO_BIND_REQ True dest srcEp (of_nat 0x17)
       (Some (concat ?ds)) (g\<lparr>azapNbZdoRequestsIssued := azapNbZdoRequestsIssued g + 1\<rparr>))"
    unfolding azapZdpBindReq_def by (rule send_zdo_steps_eq [OF _ n]) (simp add: writes_steps assms(7,8))
  have l: "lib\<lparr>g_portContexts := ps, g_counters := cs, g_tid := g_tid lib, g_log := g_log lib\<rparr>
      = lib\<lparr>g_portContexts := ps, g_counters := cs\<rparr>" for ps cs by (cases lib) simp
  have "counters_of ?g = c\<lparr>ctZdoRequestsIssued := ctZdoRequestsIssued c + 1\<rparr>"
    "g_zclTransactionId ?g = g_tid lib" "cbLog ?g = g_log lib"
    by (simp_all add: counters_of_def globals_of_def)
  with assms(1,2) r(1) have "azapZdpBindReq True port ttl issuer dest src srcEp cluster dst dstEp lib
      = Some (True, lib\<lparr>g_portContexts := (g_portContexts lib)[unat port := LivePort (p\<lparr>tx := Some b', requestManager := Some rm'\<rparr>)],
           g_counters := (g_counters lib)[unat port := c\<lparr>ctZdoRequestsIssued := ctZdoRequestsIssued c + 1\<rparr>]\<rparr>)"
    unfolding eq with_port_def of_nat_numeral by (simp only: bind.bind_lunit portSlot.case prod.case l)
  with r(2) show ?thesis by (auto simp: ZDO_RTG_ADDR_MODE_64BIT_def)
qed

theorem bind_request_on_wire_witness:
  "\<exists>b' rm'. azapZdpBindReq True 0 AZAP_REQ_TTL_START_AT_API 7 0x1234 (replicate 8 1) 5 6 (replicate 8 2) 4 apiLib
       = Some (True, apiLib\<lparr>g_portContexts := LivePort (apiPort\<lparr>tx := Some b', requestManager := Some rm'\<rparr>) # replicate 4 NoPort,
           g_counters := zeroCounters\<lparr>ctZdoRequestsIssued := 1\<rparr> # replicate 4 zeroCounters\<rparr>) \<and>
     uart_contents b' = znp_frame 0x2125 (le16 0x1234 @ replicate 8 1 @ [5] @ le16 6 @ [0x03] @ replicate 8 2 @ [4])"
proof -
  let ?rm = "\<lparr>postponedRequests = [], pendingRequests = [sampleReq\<lparr>rqType := AZAP_ZDO_SIMPLE_DESC_REQ,
         nwkAddrDest := 0x1234, rqClusterId := 0, remoteEndp := 3, expectedCmdCode := 0, issuerContext := 77\<rparr>]\<rparr>"
  have r: "requestManager_t_readyToSendDoublonCheck ?rm 0x1234 AZAP_ZDO_BIND_REQ 0 5 0"
    by (simp add: sampleReq_def requestManager_t_readyToSendDoublonCheck_def count_elt_def counts_below_def doublon_match_def
        const_defs Let_def)
  have i: "idx (g_portContexts apiLib) (unat (0 :: u8)) = Some (LivePort apiPort)"
    "idx (g_counters apiLib) (unat (0 :: u8)) = Some zeroCounters" "requestManager apiPort = Some ?rm" "tx apiPort = Some bigUart"
    by (simp_all add: apiLib_def azapLib_init_def idx_def MAX_NB_PORT_CONTEXT_def apiPort_def samplePort_def)
  have u: "(g_portContexts apiLib)[unat (0 :: u8) := x] = x # replicate 4 NoPort"
    "(g_counters apiLib)[unat (0 :: u8) := y] = y # replicate 4 zeroCounters" for x y
    by (simp_all add: apiLib_def azapLib_init_def MAX_NB_PORT_CONTEXT_def numeral_eq_Suc)
  from bind_request_on_wire [OF i bigUart_simps(1) r, of "replicate 8 1" "replicate 8 2" AZAP_REQ_TTL_START_AT_API 7 6 4]
  show ?thesis unfolding u by (simp add: bigUart_simps zeroCounters_def)
qed

end
