(* ===== verification/Azap_Safety.thy ===== *)
theory Azap_Safety
  imports Azap_Api
begin

section \<open>The library under any sequence of API calls\<close>

text \<open>
  The calls of the API and the clock ticks as data, their legal uses, and the proof that every
  sequence of legal calls from the initial state is free of undefined behaviour and keeps the
  invariant of each port. What makes a call illegal: a port number outside the table, a request on
  a port that is not started, a request whose response callback is missing (its failure would call
  \<open>NULL\<close>), addresses or data that are not readable, callbacks without \<open>azapStartedCb\<close> or with the two
  configure-reporting ones (which read outside the message; so the request for the reporting
  configuration is never legal), an end point that the registration frame cannot hold, a tick with a
  buffered frame of 250 bytes or more, an allocation that fails, and \<open>azapStop\<close>, whose freed context
  stays in the table.
\<close>

subsection \<open>The invariant\<close>







subsection \<open>Requests\<close>








subsection \<open>Ticks\<close>













subsection \<open>Life cycle\<close>








subsection \<open>Calls as data\<close>




















subsection \<open>Sequences of calls\<close>





lemma clock_loop_freed:
  "i \<in> set ns \<Longrightarrow> idx (g_portContexts lib) i = Some FreedPort \<Longrightarrow> clock_loop f ns lib = None"
proof (induction ns arbitrary: lib)
  case Nil
  then show ?case by simp
next
  case (Cons j ns)
  show ?case
  proof (cases "j = i")
    case True
    with Cons.prems(2) show ?thesis by (simp add: with_port_def)
  next
    case False
    have "idx (g_portContexts lib') i = Some FreedPort" if "with_port () lib j h = Some (r, lib')" for h r lib'
      using that Cons.prems(2) False by (auto simp: with_port_def idx_def split: bind_splits portSlot.splits if_splits)
    then have "clock_loop f ns lib' = None" if "with_port () lib j h = Some (r, lib')" for h r lib'
      using that Cons.IH Cons.prems(1) False by auto
    then show ?thesis by (auto split: bind_splits)
  qed
qed

subsection \<open>Properties\<close>








text \<open>C39: after \<open>azapStop\<close>, which always reports failure, the port table still points to the freed
  context: the next tick of either clock is undefined behaviour, whatever the other ports are.\<close>

theorem stop_leaves_dangling_port:
  assumes "idx (g_portContexts lib) (unat port) = Some (LivePort p)" "idx (g_counters lib) (unat port) = Some c" "unat port < 5"
  shows "\<exists>lib'. azapStop port lib = Some (False, lib') \<and> azapClockMs mallocOk env lib' = None \<and> azapClockSc lib' = None"
proof -
  let ?d = "snd (portContext_t_disconnect p)"
  have d: "portContext_t_disconnect p = (False, ?d)" by (simp add: portContext_t_disconnect_def)
  from assms(1) have i: "unat port < length (g_portContexts lib)" by (auto simp: idx_def split: if_splits)
  define lib1 where "lib1 = lib\<lparr>g_portContexts := (g_portContexts lib)[unat port := LivePort ?d],
      g_counters := (g_counters lib)[unat port := counters_of (globals_of lib c)],
      g_tid := g_zclTransactionId (globals_of lib c), g_log := cbLog (globals_of lib c)\<rparr>"
  define lib' where "lib' = lib1\<lparr>g_portContexts := (g_portContexts lib1)[unat port := FreedPort]\<rparr>"
  have "with_port False lib (unat port) (\<lambda>p g. case portContext_t_disconnect p of (r, p') \<Rightarrow> Some (r, p', g)) = Some (False, lib1)"
    unfolding with_port_def assms bind.bind_lunit portSlot.case by (subst d) (simp add: lib1_def)
  moreover have "idx (g_portContexts lib1) (unat port) = Some (LivePort ?d)" using i by (simp add: lib1_def idx_def)
  ultimately have s: "azapStop port lib = Some (False, lib')" "idx (g_portContexts lib') (unat port) = Some FreedPort"
    using i by (simp_all add: azapStop_def azapUnInitImpl_def lib'_def lib1_def idx_def)
  have "unat port \<in> set [0..<MAX_NB_PORT_CONTEXT]" using assms(3) by (simp add: MAX_NB_PORT_CONTEXT_def)
  from clock_loop_freed [OF this s(2)] s(1) show ?thesis by (auto simp: azapClockMs_def azapClockSc_def)
qed

theorem stop_leaves_dangling_port_witness:
  "\<exists>lib'. azapStop 0 apiLib = Some (False, lib') \<and> azapClockSc lib' = None"
proof -
  have "idx (g_portContexts apiLib) (unat (0 :: u8)) = Some (LivePort apiPort)"
    "idx (g_counters apiLib) (unat (0 :: u8)) = Some zeroCounters"
    by (simp_all add: apiLib_def azapLib_init_def idx_def MAX_NB_PORT_CONTEXT_def)
  from stop_leaves_dangling_port [OF this] show ?thesis by auto
qed

text \<open>A request on a port that is initialised but not started is undefined behaviour: the
  request manager is created by \<open>azapStart\<close> and the API does not check for it.\<close>

theorem request_before_start_undefined:
  assumes "idx (g_portContexts lib) (unat port) = Some (LivePort p)" "requestManager p = None"
  shows "azapZdpNodeDescReq mallocOk port ttl issuer dest interest lib = None"
proof -
  have "list_all2 writes [azap_uint16CpyPayloadAndShift dest, azap_uint16CpyPayloadAndShift interest] [le16 dest, le16 interest]"
    by (simp add: writes_steps)
  from send_zdo_steps_eq [OF this, of 4] assms show ?thesis
    by (auto simp: azapZdpNodeDescReq_def with_port_def portContext_t_sendZdo_def portContext_t_sendRequest_def Let_def
        split: bind_splits)
qed

theorem request_before_start_undefined_witness:
  "azapZdpNodeDescReq True 0 AZAP_REQ_TTL_START_AT_API 7 5 5
     (azapLib_init\<lparr>g_portContexts := LivePort (portContext_t_create 0) # replicate 4 NoPort\<rparr>) = None"
  by (rule request_before_start_undefined [of _ _ "portContext_t_create 0"]) (simp_all add: idx_def portContext_t_create_def)

end
