(* ===== verification/Zcl_Attr_Val.thy ===== *)
theory Zcl_Attr_Val
  imports Format_Af
begin

section \<open>ZCL attribute values (azap\_zcl\_attr\_val.c)\<close>

text \<open>
  The object \<open>azapZclAttrVal_t\<close> that holds the value of one ZCL attribute: construction from
  the ZigBee data type, typed getters and setters, and the conversion from and to the bytes of a
  ZCL payload. The union \<open>u\<close> is a datatype with a constructor per member; reading another member
  than the one written last is \<open>None\<close>. A \<open>long long\<close>, an \<open>int\<close> and a \<open>time_t\<close> (64 bits) are HOL
  integers, with the conversion to a narrower type written out where the code has one; \<open>valueSize\<close>,
  \<open>len\<close> and the sizes are \<open>azap_uint8\<close> and wrap. A \<open>double\<close> is its IEEE 754 bit pattern. A heap
  block is the list of its bytes; \<open>memcpy\<close> of no bytes is allowed from \<open>NULL\<close>. Of the C library
  the theory defines \<open>strlen\<close>, \<open>timegm\<close>, \<open>gmtime\<close>, the conversions between \<open>float\<close> and \<open>double\<close>
  and the directives of \<open>sscanf\<close> that are used, except \<open>%lg\<close>, which is a parameter.
\<close>

subsection \<open>The object\<close>

datatype AZAP_ATTR_VAL_TYPE =
  AZAP_UNKNOWN_VAL_TYPE | AZAP_BOOLEAN_VAL | AZAP_FLOAT_VAL | AZAP_INTEGER_VAL
| AZAP_CHAR_STRING_VAL | AZAP_DATE_TIME_VAL | AZAP_RAW_VAL

record tm_t =
  tm_sec :: int
  tm_min :: int
  tm_hour :: int
  tm_mday :: int
  tm_mon :: int
  tm_year :: int
  tm_wday :: int
  tm_yday :: int
  tm_isdst :: int

record azapDateTime_t =
  dateTime :: tm_t
  mseconds :: int

datatype attr_u =
  Uninit
| BooleanVal bool
| FloatVal "64 word"
| LongVal int
| StringVal "bytes option"
| DateTimeVal azapDateTime_t
| RawVal "bytes option"

record azapZclAttrVal_t =
  valueType :: AZAP_ATTR_VAL_TYPE
  zigbeeDataType :: u8
  attr_value :: attr_u
  valueSize :: u8

abbreviation "ZCL_DATATYPE_UNKNOWN \<equiv> (0xff :: u8)"

definition tm_zero :: tm_t where
  "tm_zero = \<lparr>tm_sec = 0, tm_min = 0, tm_hour = 0, tm_mday = 0, tm_mon = 0, tm_year = 0,
     tm_wday = 0, tm_yday = 0, tm_isdst = 0\<rparr>"

definition dateTime_zero :: azapDateTime_t where
  "dateTime_zero = \<lparr>dateTime = tm_zero, mseconds = 0\<rparr>"

definition azapZclAttrVal_t_init :: azapZclAttrVal_t where
  "azapZclAttrVal_t_init =
     \<lparr>valueType = AZAP_UNKNOWN_VAL_TYPE, zigbeeDataType = 0, attr_value = Uninit, valueSize = 0\<rparr>"

definition raw_types :: "u8 list" where
  "raw_types = [ZCL_DATATYPE_IEEE_ADDR, ZCL_DATATYPE_DATA8, ZCL_DATATYPE_DATA16,
     ZCL_DATATYPE_DATA24, ZCL_DATATYPE_DATA32, ZCL_DATATYPE_BITMAP8, ZCL_DATATYPE_BITMAP16,
     ZCL_DATATYPE_BITMAP24, ZCL_DATATYPE_BITMAP32, ZCL_DATATYPE_ENUM8, ZCL_DATATYPE_ENUM16,
     ZCL_DATATYPE_CLUSTER_ID, ZCL_DATATYPE_ATTR_ID, ZCL_DATATYPE_BAC_OID,
     ZCL_DATATYPE_OCTET_STR, ZCL_DATATYPE_LONG_OCTET_STR]"

definition integer_types :: "u8 list" where
  "integer_types = [ZCL_DATATYPE_INT8, ZCL_DATATYPE_INT16, ZCL_DATATYPE_INT24,
     ZCL_DATATYPE_INT32, ZCL_DATATYPE_UINT8, ZCL_DATATYPE_UINT16, ZCL_DATATYPE_UINT24,
     ZCL_DATATYPE_UINT32, ZCL_DATATYPE_UINT40, ZCL_DATATYPE_UINT48]"

definition azapZclAttrVal_t_setType :: "azapZclAttrVal_t \<Rightarrow> u8 \<Rightarrow> azapZclAttrVal_t" where
  "azapZclAttrVal_t_setType This type =
     (let This1 = This\<lparr>zigbeeDataType := type\<rparr> in
      if type \<in> set raw_types then
        This1\<lparr>valueType := AZAP_RAW_VAL, attr_value := RawVal None\<rparr>
      else if type \<in> {ZCL_DATATYPE_CHAR_STR, ZCL_DATATYPE_LONG_CHAR_STR} then
        This1\<lparr>valueType := AZAP_CHAR_STRING_VAL, attr_value := StringVal None\<rparr>
      else if type = ZCL_DATATYPE_BOOLEAN then
        This1\<lparr>valueType := AZAP_BOOLEAN_VAL, attr_value := BooleanVal False\<rparr>
      else if type \<in> set integer_types then
        This1\<lparr>valueType := AZAP_INTEGER_VAL, attr_value := LongVal 0\<rparr>
      else if type \<in> {ZCL_DATATYPE_SEMI_PREC, ZCL_DATATYPE_SINGLE_PREC, ZCL_DATATYPE_DOUBLE_PREC} then
        This1\<lparr>valueType := AZAP_FLOAT_VAL, attr_value := FloatVal 0\<rparr>
      else if type \<in> {ZCL_DATATYPE_TOD, ZCL_DATATYPE_DATE, ZCL_DATATYPE_UTC} then
        This1\<lparr>valueType := AZAP_DATE_TIME_VAL, attr_value := DateTimeVal dateTime_zero\<rparr>
      else This1\<lparr>valueType := AZAP_UNKNOWN_VAL_TYPE\<rparr>)"

definition azapZclAttrVal_t_create :: "u8 \<Rightarrow> azapZclAttrVal_t" where
  "azapZclAttrVal_t_create type = azapZclAttrVal_t_setType azapZclAttrVal_t_init type"

definition new_azapZclAttrVal_t :: "bool \<Rightarrow> u8 \<Rightarrow> azapZclAttrVal_t option" where
  "new_azapZclAttrVal_t mallocOk type =
     (if mallocOk then Some (azapZclAttrVal_t_setType azapZclAttrVal_t_init type) else None)"

subsection \<open>The members of the union\<close>

fun u_boolean :: "attr_u \<Rightarrow> bool exec" where
  "u_boolean (BooleanVal b) = Some b"
| "u_boolean _ = None"

fun u_float :: "attr_u \<Rightarrow> 64 word exec" where
  "u_float (FloatVal d) = Some d"
| "u_float _ = None"

fun u_long :: "attr_u \<Rightarrow> int exec" where
  "u_long (LongVal v) = Some v"
| "u_long _ = None"

fun u_string :: "attr_u \<Rightarrow> bytes option exec" where
  "u_string (StringVal s) = Some s"
| "u_string _ = None"

fun u_dateTime :: "attr_u \<Rightarrow> azapDateTime_t exec" where
  "u_dateTime (DateTimeVal t) = Some t"
| "u_dateTime _ = None"

fun u_raw :: "attr_u \<Rightarrow> bytes option exec" where
  "u_raw (RawVal r) = Some r"
| "u_raw _ = None"

text \<open>The destructors: the heap blocks they hand to \<open>free\<close> (the dynamic one then frees the
  object itself).\<close>

definition azapZclAttrVal_t_free :: "azapZclAttrVal_t \<Rightarrow> bytes list exec" where
  "azapZclAttrVal_t_free This =
     (if valueType This = AZAP_CHAR_STRING_VAL then do {
        s \<leftarrow> u_string (attr_value This);
        Some (case s of None \<Rightarrow> [] | Some b \<Rightarrow> [b])
      } else Some [])"

definition azapZclAttrVal_t_newFree :: "azapZclAttrVal_t \<Rightarrow> bytes list exec" where
  "azapZclAttrVal_t_newFree This =
     (if valueType This = AZAP_CHAR_STRING_VAL then do {
        s \<leftarrow> u_string (attr_value This);
        Some (case s of None \<Rightarrow> [] | Some b \<Rightarrow> [b])
      } else Some [])"

subsection \<open>Getters and setters\<close>

definition azapZclAttrVal_t_getBooleanValue :: "azapZclAttrVal_t \<Rightarrow> bool exec" where
  "azapZclAttrVal_t_getBooleanValue This =
     (if valueType This \<noteq> AZAP_BOOLEAN_VAL then Some False else u_boolean (attr_value This))"

definition azapZclAttrVal_t_setBooleanValue :: "azapZclAttrVal_t \<Rightarrow> bool \<Rightarrow> azapZclAttrVal_t" where
  "azapZclAttrVal_t_setBooleanValue This val =
     (if valueType This \<noteq> AZAP_BOOLEAN_VAL then This else This\<lparr>attr_value := BooleanVal val\<rparr>)"

definition azapZclAttrVal_t_getFloatValue :: "azapZclAttrVal_t \<Rightarrow> 64 word exec" where
  "azapZclAttrVal_t_getFloatValue This =
     (if valueType This \<noteq> AZAP_FLOAT_VAL then Some 0 else u_float (attr_value This))"

definition azapZclAttrVal_t_setFloatValue :: "azapZclAttrVal_t \<Rightarrow> 64 word \<Rightarrow> azapZclAttrVal_t" where
  "azapZclAttrVal_t_setFloatValue This val =
     (if valueType This \<noteq> AZAP_FLOAT_VAL then This else This\<lparr>attr_value := FloatVal val\<rparr>)"

definition azapZclAttrVal_t_getIntegerValue :: "azapZclAttrVal_t \<Rightarrow> int exec" where
  "azapZclAttrVal_t_getIntegerValue This =
     (if valueType This \<noteq> AZAP_INTEGER_VAL then Some 0 else u_long (attr_value This))"

text \<open>The range test of the setter, per data type. The lower bounds are written in the code as
  \<open>(signed)0xFFFFFFFFFFFFFF80LL\<close>: an unsigned constant converted to \<open>int\<close>.\<close>

definition c_int :: "int \<Rightarrow> int" where
  "c_int k = signed_take_bit 31 k"

definition integer_in_range :: "u8 \<Rightarrow> int \<Rightarrow> bool" where
  "integer_in_range type val =
     (if type = ZCL_DATATYPE_INT8 then \<not> (val > 0x7F \<or> val < c_int 0xFFFFFFFFFFFFFF80)
      else if type = ZCL_DATATYPE_INT16 then \<not> (val > 0x7FFF \<or> val < c_int 0xFFFFFFFFFFFF8000)
      else if type = ZCL_DATATYPE_INT24 then \<not> (val > 0x7FFFFF \<or> val < c_int 0xFFFFFFFFFF800000)
      else if type = ZCL_DATATYPE_INT32 then \<not> (val > 0x7FFFFFFF \<or> val < c_int 0xFFFFFFFF80000000)
      else if type = ZCL_DATATYPE_UINT8 then \<not> (val > 0xFF \<or> val < 0)
      else if type = ZCL_DATATYPE_UINT16 then \<not> (val > 0xFFFF \<or> val < 0)
      else if type = ZCL_DATATYPE_UINT24 then \<not> (val > 0xFFFFFF \<or> val < 0)
      else if type = ZCL_DATATYPE_UINT32 then \<not> (val > 0xFFFFFFFF \<or> val < 0)
      else if type = ZCL_DATATYPE_UINT40 then \<not> (val > 0xFFFFFFFFFF \<or> val < 0)
      else if type = ZCL_DATATYPE_UINT48 then \<not> (val > 0xFFFFFFFFFFFF \<or> val < 0)
      else True)"

definition azapZclAttrVal_t_setIntegerValue :: "azapZclAttrVal_t \<Rightarrow> int \<Rightarrow> azapZclAttrVal_t" where
  "azapZclAttrVal_t_setIntegerValue This val =
     (if valueType This \<noteq> AZAP_INTEGER_VAL then This
      else if \<not> integer_in_range (zigbeeDataType This) val then This
      else This\<lparr>attr_value := LongVal val\<rparr>)"

text \<open>A C string is the memory from its first character on; without a terminator in it,
  \<open>strlen\<close> reads outside.\<close>

fun strlen :: "bytes \<Rightarrow> nat exec" where
  "strlen [] = None"
| "strlen (c # cs) = (if c = 0 then Some 0 else map_option Suc (strlen cs))"

definition azapZclAttrVal_t_getStringValue :: "azapZclAttrVal_t \<Rightarrow> bytes option exec" where
  "azapZclAttrVal_t_getStringValue This =
     (if valueType This \<noteq> AZAP_CHAR_STRING_VAL then Some (Some [0]) else u_string (attr_value This))"

definition azapZclAttrVal_t_setStringValue ::
  "bool \<Rightarrow> azapZclAttrVal_t \<Rightarrow> bytes option \<Rightarrow> azapZclAttrVal_t exec" where
  "azapZclAttrVal_t_setStringValue mallocOk This val =
     (if valueType This \<noteq> AZAP_CHAR_STRING_VAL then Some This
      else do {
        _ \<leftarrow> u_string (attr_value This);
        let This1 = This\<lparr>valueSize := 0\<rparr>;
        case val of
          None \<Rightarrow> Some (This1\<lparr>attr_value := StringVal None\<rparr>)
        | Some v \<Rightarrow> do {
            l \<leftarrow> strlen v;
            let size = (of_nat l :: u8);
            if \<not> mallocOk then Some (This1\<lparr>attr_value := StringVal None\<rparr>)
            else do {
              block \<leftarrow> memread 0 (unat size + 1) v;
              Some (This1\<lparr>valueSize := size, attr_value := StringVal (Some block)\<rparr>)
            }
          }
      })"

definition azapZclAttrVal_t_getDateTimeValue :: "azapZclAttrVal_t \<Rightarrow> tm_t option exec" where
  "azapZclAttrVal_t_getDateTimeValue This =
     (if valueType This \<noteq> AZAP_DATE_TIME_VAL then Some None
      else do { t \<leftarrow> u_dateTime (attr_value This); Some (Some (dateTime t)) })"

definition azapZclAttrVal_t_getDateTimeMSValue :: "azapZclAttrVal_t \<Rightarrow> int exec" where
  "azapZclAttrVal_t_getDateTimeMSValue This =
     (if valueType This \<noteq> AZAP_DATE_TIME_VAL then Some 0
      else do { t \<leftarrow> u_dateTime (attr_value This); Some (mseconds t) })"

definition azapZclAttrVal_t_setDateTimeValue ::
  "azapZclAttrVal_t \<Rightarrow> tm_t option \<Rightarrow> int \<Rightarrow> azapZclAttrVal_t exec" where
  "azapZclAttrVal_t_setDateTimeValue This val msec =
     (if valueType This \<noteq> AZAP_DATE_TIME_VAL then Some This
      else do {
        t \<leftarrow> u_dateTime (attr_value This);
        let t1 = (case val of None \<Rightarrow> t | Some v \<Rightarrow> t\<lparr>dateTime := v\<rparr>);
        Some (This\<lparr>attr_value := DateTimeVal (t1\<lparr>mseconds := msec\<rparr>)\<rparr>)
      })"

definition azapZclAttrVal_t_getRawValue :: "azapZclAttrVal_t \<Rightarrow> bytes option exec" where
  "azapZclAttrVal_t_getRawValue This =
     (if valueType This \<noteq> AZAP_RAW_VAL then Some None else u_raw (attr_value This))"

definition azapZclAttrVal_t_setRawValue ::
  "bool \<Rightarrow> azapZclAttrVal_t \<Rightarrow> bytes option \<Rightarrow> u8 \<Rightarrow> azapZclAttrVal_t exec" where
  "azapZclAttrVal_t_setRawValue mallocOk This val sz =
     (if valueType This \<noteq> AZAP_RAW_VAL then Some This
      else do {
        _ \<leftarrow> u_raw (attr_value This);
        let This1 = This\<lparr>valueSize := 0\<rparr>;
        case val of
          None \<Rightarrow> Some (This1\<lparr>attr_value := RawVal None\<rparr>)
        | Some v \<Rightarrow>
            if \<not> mallocOk then Some (This1\<lparr>attr_value := RawVal None\<rparr>)
            else do {
              block \<leftarrow> memread 0 (unat sz) v;
              Some (This1\<lparr>valueSize := sz, attr_value := RawVal (Some block)\<rparr>)
            }
      })"

definition azapZclAttrVal_t_getValueSize :: "azapZclAttrVal_t \<Rightarrow> u8" where
  "azapZclAttrVal_t_getValueSize This = valueSize This"


subsection \<open>Calendar time of the C library\<close>

definition leap_year :: "int \<Rightarrow> bool" where
  "leap_year y = (y mod 4 = 0 \<and> (y mod 100 \<noteq> 0 \<or> y mod 400 = 0))"

definition year_days :: "int \<Rightarrow> int" where
  "year_days y = (if leap_year y then 366 else 365)"

definition leaps_before :: "int \<Rightarrow> int" where
  "leaps_before y = (y - 1) div 4 - (y - 1) div 100 + (y - 1) div 400"

definition days_before_year :: "int \<Rightarrow> int" where
  "days_before_year y = 365 * (y - 1970) + leaps_before y - leaps_before 1970"

definition month_days :: "int \<Rightarrow> int list" where
  "month_days y = [31, if leap_year y then 29 else 28, 31, 30, 31, 30, 31, 31, 30, 31, 30, 31]"

definition days_before_month :: "int \<Rightarrow> int \<Rightarrow> int" where
  "days_before_month y m = sum_list (take (nat m) (month_days y))"

text \<open>The year of a day and the day's number in it; the month of a day of a year.\<close>

function split_year :: "int \<Rightarrow> int \<Rightarrow> int \<times> int" where
  "split_year y d =
     (if d < 0 then split_year (y - 1) (d + year_days (y - 1))
      else if d \<ge> year_days y then split_year (y + 1) (d - year_days y)
      else (y, d))"
  by auto

fun split_month :: "int \<Rightarrow> int list \<Rightarrow> int \<Rightarrow> int \<times> int" where
  "split_month m [] d = (m, d)"
| "split_month m (l # ls) d = (if d < l then (m, d) else split_month (m + 1) ls (d - l))"

termination split_year
  by (relation "measure (\<lambda>(y, d). if d < 0 then nat (- d) + 1
        else if d \<ge> year_days y then nat d + 1 else 0)")
     (auto simp: year_days_def)

declare split_year.simps [simp del]

definition gmtime :: "int \<Rightarrow> tm_t" where
  "gmtime t =
     (let days = t div 86400;
          secs = t mod 86400;
          (y, yd) = split_year 1970 days;
          (m, md) = split_month 0 (month_days y) yd
      in \<lparr>tm_sec = secs mod 60, tm_min = secs div 60 mod 60, tm_hour = secs div 3600,
          tm_mday = md + 1, tm_mon = m, tm_year = y - 1900, tm_wday = (days + 4) mod 7,
          tm_yday = yd, tm_isdst = 0\<rparr>)"

text \<open>\<open>timegm\<close> accepts fields outside their ranges and also normalizes the structure.\<close>

definition timegm_secs :: "tm_t \<Rightarrow> int" where
  "timegm_secs t =
     (let y = tm_year t + 1900 + tm_mon t div 12;
          m = tm_mon t mod 12
      in (days_before_year y + days_before_month y m + tm_mday t - 1) * 86400
         + tm_hour t * 3600 + tm_min t * 60 + tm_sec t)"

definition timegm :: "tm_t \<Rightarrow> int \<times> tm_t" where
  "timegm t = (timegm_secs t, gmtime (timegm_secs t))"

subsection \<open>Floating-point conversions of the C language\<close>

text \<open>IEEE 754 bit patterns. A number \<open>m \<noteq> 0\<close> times \<open>2 ^ e\<close> with at most 53 significant bits, in the
  range of normal doubles, is exactly a \<open>double\<close>.\<close>

fun nat_log2 :: "nat \<Rightarrow> nat" where
  "nat_log2 n = (if n < 2 then 0 else Suc (nat_log2 (n div 2)))"

declare nat_log2.simps [simp del]

definition double_of_scaled :: "nat \<Rightarrow> int \<Rightarrow> nat" where
  "double_of_scaled m e =
     (if m = 0 then 0
      else nat (int (nat_log2 m) + e + 1023) * 2 ^ 52 + (m - 2 ^ nat_log2 m) * 2 ^ (52 - nat_log2 m))"

definition double_sign :: "nat \<Rightarrow> 64 word" where
  "double_sign s = of_nat (s * 2 ^ 63)"

definition double_of_float :: "32 word \<Rightarrow> 64 word" where
  "double_of_float x =
     (let s = unat (drop_bit 31 x);
          e = unat (drop_bit 23 x) mod 256;
          m = unat x mod 2 ^ 23
      in double_sign s +
         of_nat (if e = 255 then 2047 * 2 ^ 52 + (if m = 0 then 0 else (if m < 2 ^ 22 then m + 2 ^ 22 else m)) * 2 ^ 29
                 else if e = 0 then double_of_scaled m (- 149)
                 else (e + 896) * 2 ^ 52 + m * 2 ^ 29))"

definition round_even :: "nat \<Rightarrow> nat \<Rightarrow> nat" where
  "round_even n k =
     (let q = n div 2 ^ k; r = n mod 2 ^ k
      in if 2 * r > 2 ^ k \<or> 2 * r = 2 ^ k \<and> odd q then q + 1 else q)"

definition float_of_double :: "64 word \<Rightarrow> 32 word" where
  "float_of_double d =
     (let s = unat (drop_bit 63 d);
          e = unat (drop_bit 52 d) mod 2048;
          m = unat d mod 2 ^ 52
      in of_nat (s * 2 ^ 31) +
         of_nat (if e = 2047 then
                   (if m = 0 then 255 * 2 ^ 23
                    else 255 * 2 ^ 23 + (let q = m div 2 ^ 29 in if q < 2 ^ 22 then q + 2 ^ 22 else q))
                 else if e \<ge> 897 then
                   min (255 * 2 ^ 23) ((e - 897) * 2 ^ 23 + round_even (2 ^ 52 + m) 29)
                 else if e = 0 then 0
                 else round_even (2 ^ 52 + m) (926 - e)))"

definition isnan :: "64 word \<Rightarrow> bool" where
  "isnan d = (unat (drop_bit 52 d) mod 2048 = 2047 \<and> unat d mod 2 ^ 52 \<noteq> 0)"

definition isinf :: "64 word \<Rightarrow> bool" where
  "isinf d = (unat (drop_bit 52 d) mod 2048 = 2047 \<and> unat d mod 2 ^ 52 = 0)"


subsection \<open>Serialization\<close>

text \<open>A write position: the array the pointer \<open>*data\<close> points into, the index in it, and \<open>*len\<close>.
  \<open>put_bytes\<close> stores bytes from \<open>(*data)[0]\<close> on, then advances the pointer and lowers \<open>*len\<close>.\<close>

type_synonym cursor = "bytes \<times> nat \<times> u8"

definition put_bytes :: "bytes \<Rightarrow> cursor \<Rightarrow> cursor exec" where
  "put_bytes bs = (\<lambda>(buf, pos, len). do {
     buf1 \<leftarrow> memcpy_at pos bs buf;
     Some (buf1, pos + length bs, len - of_nat (length bs)) })"

text \<open>\<open>memcpy\<close> of the first bytes of a heap block that may be missing.\<close>

definition memcpy_from :: "bytes option \<Rightarrow> nat \<Rightarrow> bytes exec" where
  "memcpy_from src n = (case src of None \<Rightarrow> (if n = 0 then Some [] else None) | Some b \<Rightarrow> memread 0 n b)"

definition azapZclAttrVal_t_serializeBoolean :: "azapZclAttrVal_t \<Rightarrow> cursor \<Rightarrow> cursor exec" where
  "azapZclAttrVal_t_serializeBoolean This c = do {
     b \<leftarrow> u_boolean (attr_value This);
     put_bytes [if b then 0x01 else 0x00] c }"

text \<open>The bits of the semi-precision encoding, from the double and its rounding to single.\<close>

definition semi_bits :: "64 word \<Rightarrow> int" where
  "semi_bits d =
     (let l = uint (float_of_double d);
          sign = drop_bit 16 (l AND 0x80000000)
      in if isnan d then sign OR 0x7E00
         else if isinf d then sign OR 0x7C00
         else
           let mantissa = drop_bit 13 (l AND 0x7FFFFF);
               exponent = drop_bit 23 (l AND 0x7F800000);
               exponent1 = (if exponent = 0 \<and> l AND 0x7FFFFF = 0 then exponent
                            else if exponent = 0 then exponent
                            else if exponent AND 0xFFFF = 0xFFFF then exponent
                            else push_bit 10 ((exponent - 112) AND 0xFFFF))
           in sign OR mantissa OR exponent1)"

definition azapZclAttrVal_t_serializeFloat :: "azapZclAttrVal_t \<Rightarrow> cursor \<Rightarrow> cursor exec" where
  "azapZclAttrVal_t_serializeFloat This c =
     (if zigbeeDataType This = ZCL_DATATYPE_SEMI_PREC then do {
        d \<leftarrow> u_float (attr_value This);
        let val = semi_bits d;
        put_bytes [word_of_int (val AND 0xFF), word_of_int (drop_bit 8 (val AND 0xFF00))] c
      }
      else if zigbeeDataType This = ZCL_DATATYPE_SINGLE_PREC then do {
        d \<leftarrow> u_float (attr_value This);
        let f = float_of_double d;
        put_bytes (map (\<lambda>i. ucast (drop_bit (8 * i) f)) [0 ..< 4]) c
      }
      else if zigbeeDataType This = ZCL_DATATYPE_DOUBLE_PREC then do {
        d \<leftarrow> u_float (attr_value This);
        put_bytes (map (\<lambda>i. ucast (drop_bit (8 * i) d)) [0 ..< 8]) c
      }
      else Some c)"

definition azapZclAttrVal_t_serializeInteger :: "azapZclAttrVal_t \<Rightarrow> cursor \<Rightarrow> cursor exec" where
  "azapZclAttrVal_t_serializeInteger This c = do {
     v \<leftarrow> u_long (attr_value This);
     let sign = (if v < 0 then 0x80 else 0 :: u8);
     let d0 = (word_of_int (v AND 0xFF) :: u8);
     let d1 = (word_of_int (drop_bit 8 (v AND 0xFF00)) :: u8);
     let d2 = (word_of_int (drop_bit 16 (v AND 0xFF0000)) :: u8);
     let d3 = (word_of_int (drop_bit 24 (v AND 0xFF000000)) :: u8);
     let d4 = (word_of_int (drop_bit 32 (v AND 0xFF00000000)) :: u8);
     let d5 = (word_of_int (drop_bit 40 (v AND 0xFF0000000000)) :: u8);
     let ty = zigbeeDataType This;
     if ty = ZCL_DATATYPE_INT8 then put_bytes [word_of_int (v AND 0x7F) OR sign] c
     else if ty = ZCL_DATATYPE_INT16 then
       put_bytes [d0, word_of_int (drop_bit 8 (v AND 0x7F00)) OR sign] c
     else if ty = ZCL_DATATYPE_INT24 then
       put_bytes [d0, d1, word_of_int (drop_bit 16 (v AND 0x7F0000)) OR sign] c
     else if ty = ZCL_DATATYPE_INT32 then
       put_bytes [d0, d1, d2, word_of_int (drop_bit 24 (v AND 0x7F000000)) OR sign] c
     else if ty = ZCL_DATATYPE_UINT8 then put_bytes [d0] c
     else if ty = ZCL_DATATYPE_UINT16 then put_bytes [d0, d1] c
     else if ty = ZCL_DATATYPE_UINT24 then put_bytes [d0, d1, d2] c
     else if ty = ZCL_DATATYPE_UINT32 then put_bytes [d0, d1, d2, d3] c
     else if ty = ZCL_DATATYPE_UINT40 then put_bytes [d0, d1, d2, d3, d4] c
     else if ty = ZCL_DATATYPE_UINT48 then put_bytes [d0, d1, d2, d3, d4, d5] c
     else Some c }"

definition azapZclAttrVal_t_serializeString :: "azapZclAttrVal_t \<Rightarrow> u8 \<Rightarrow> cursor \<Rightarrow> cursor exec" where
  "azapZclAttrVal_t_serializeString This requiredSize c = do {
     (requiredSize1, c1) \<leftarrow>
       (if zigbeeDataType This = ZCL_DATATYPE_CHAR_STR then do {
          c1 \<leftarrow> put_bytes [requiredSize - 1] c; Some (requiredSize - 1, c1) }
        else if zigbeeDataType This = ZCL_DATATYPE_LONG_CHAR_STR then do {
          c1 \<leftarrow> put_bytes [requiredSize - 2, 0] c; Some (requiredSize - 2, c1) }
        else Some (requiredSize, c));
     s \<leftarrow> u_string (attr_value This);
     bs \<leftarrow> memcpy_from s (unat requiredSize1);
     put_bytes bs c1 }"

definition ZIGBEE_EPOCH :: int where
  "ZIGBEE_EPOCH = 946684800"

definition azapZclAttrVal_t_serializeDateTime ::
  "azapZclAttrVal_t \<Rightarrow> cursor \<Rightarrow> (azapZclAttrVal_t \<times> cursor) exec" where
  "azapZclAttrVal_t_serializeDateTime This c =
     (if zigbeeDataType This = ZCL_DATATYPE_TOD then do {
        t \<leftarrow> u_dateTime (attr_value This);
        c1 \<leftarrow> put_bytes [word_of_int (tm_hour (dateTime t)), word_of_int (tm_min (dateTime t)),
                    word_of_int (tm_sec (dateTime t)),
                    word_of_int (sgn (mseconds t) * (\<bar>mseconds t\<bar> div 10))] c;
        Some (This, c1)
      }
      else if zigbeeDataType This = ZCL_DATATYPE_DATE then do {
        t \<leftarrow> u_dateTime (attr_value This);
        c1 \<leftarrow> put_bytes [word_of_int (tm_year (dateTime t)), word_of_int (tm_mon (dateTime t) + 1),
                    word_of_int (tm_mday (dateTime t)),
                    if tm_wday (dateTime t) = 0 then 7 else word_of_int (tm_wday (dateTime t))] c;
        Some (This, c1)
      }
      else if zigbeeDataType This = ZCL_DATATYPE_UTC then do {
        t \<leftarrow> u_dateTime (attr_value This);
        let (secs, tm1) = timegm (dateTime t);
        let elapsedSec = secs - ZIGBEE_EPOCH;
        c1 \<leftarrow> put_bytes [word_of_int (elapsedSec AND 0xFF),
                    word_of_int (drop_bit 8 (elapsedSec AND 0xFF00)),
                    word_of_int (drop_bit 16 (elapsedSec AND 0xFF0000)),
                    word_of_int (drop_bit 24 (elapsedSec AND 0xFF000000))] c;
        Some (This\<lparr>attr_value := DateTimeVal (t\<lparr>dateTime := tm1\<rparr>)\<rparr>, c1)
      }
      else Some (This, c))"

definition azapZclAttrVal_t_serializeRaw :: "azapZclAttrVal_t \<Rightarrow> u8 \<Rightarrow> cursor \<Rightarrow> cursor exec" where
  "azapZclAttrVal_t_serializeRaw This requiredSize c = do {
     (requiredSize1, c1) \<leftarrow>
       (if zigbeeDataType This = ZCL_DATATYPE_OCTET_STR then do {
          c1 \<leftarrow> put_bytes [requiredSize - 1] c; Some (requiredSize - 1, c1) }
        else if zigbeeDataType This = ZCL_DATATYPE_LONG_OCTET_STR then do {
          c1 \<leftarrow> put_bytes [requiredSize - 2, 0] c; Some (requiredSize - 2, c1) }
        else Some (requiredSize, c));
     r \<leftarrow> u_raw (attr_value This);
     bs \<leftarrow> memcpy_from r (unat requiredSize1);
     put_bytes bs c1 }"

text \<open>The switch on the class of the value, then the whole operation.\<close>

definition serialize_switch ::
  "azapZclAttrVal_t \<Rightarrow> u8 \<Rightarrow> cursor \<Rightarrow> (azapZclAttrVal_t \<times> cursor) exec" where
  "serialize_switch This requiredSize c =
     (case valueType This of
        AZAP_BOOLEAN_VAL \<Rightarrow> map_option (Pair This) (azapZclAttrVal_t_serializeBoolean This c)
      | AZAP_FLOAT_VAL \<Rightarrow> map_option (Pair This) (azapZclAttrVal_t_serializeFloat This c)
      | AZAP_INTEGER_VAL \<Rightarrow> map_option (Pair This) (azapZclAttrVal_t_serializeInteger This c)
      | AZAP_CHAR_STRING_VAL \<Rightarrow>
          map_option (Pair This) (azapZclAttrVal_t_serializeString This requiredSize c)
      | AZAP_DATE_TIME_VAL \<Rightarrow> azapZclAttrVal_t_serializeDateTime This c
      | AZAP_RAW_VAL \<Rightarrow> map_option (Pair This) (azapZclAttrVal_t_serializeRaw This requiredSize c)
      | AZAP_UNKNOWN_VAL_TYPE \<Rightarrow> Some (This, c))"

definition azapZclAttrVal_t_serialize ::
  "azapZclAttrVal_t \<Rightarrow> (bytes \<times> nat) option \<Rightarrow> u8 \<Rightarrow>
   (azapZclAttrVal_t \<times> (bytes \<times> nat) option \<times> u8) exec" where
  "azapZclAttrVal_t_serialize This data len =
     (case data of
        None \<Rightarrow> Some (This, data, len)
      | Some (buf, pos) \<Rightarrow>
          if valueType This = AZAP_UNKNOWN_VAL_TYPE then Some (This, data, len)
          else if zigbeeDataType This = ZCL_DATATYPE_UNKNOWN then Some (This, data, len)
          else do {
            size0 \<leftarrow> azapGetZclDataLength (zigbeeDataType This) None;
            let requiredSize =
              (if size0 = 0 then
                 (if zigbeeDataType This \<in> {ZCL_DATATYPE_CHAR_STR, ZCL_DATATYPE_OCTET_STR}
                  then valueSize This + 1 else valueSize This + 2)
               else size0);
            if len < requiredSize then Some (This, data, len)
            else do {
              (This1, buf1, pos1, len1) \<leftarrow> serialize_switch This requiredSize (buf, pos, len);
              Some (This1, Some (buf1, pos1), len1)
            }
          })"

subsection \<open>Deserialization\<close>

text \<open>A read position: the memory from \<open>*data\<close> on, and \<open>*len\<close>. \<open>advance\<close> moves it on. A byte shifted by
  24 bits is an \<open>int\<close> expression: it becomes negative when the byte is 128 or more.\<close>

type_synonym source = "bytes \<times> u8"

definition advance :: "nat \<Rightarrow> source \<Rightarrow> source" where
  "advance n = (\<lambda>(p, len). (drop n p, len - of_nat n))"

definition azapZclAttrVal_t_deserializeBoolean ::
  "azapZclAttrVal_t \<Rightarrow> source \<Rightarrow> (azapZclAttrVal_t \<times> source) exec" where
  "azapZclAttrVal_t_deserializeBoolean This s = do {
     b \<leftarrow> idx (fst s) 0;
     Some (This\<lparr>attr_value := BooleanVal (b \<noteq> 0x00)\<rparr>, advance 1 s) }"

text \<open>The semi-precision value, an exact computation in \<open>double\<close>:
  \<open>pow(-1, sign) * (hidden + mantissa / 1024) * pow(2, exponent - 15)\<close>.\<close>

definition semi_value :: "u8 \<Rightarrow> u8 \<Rightarrow> 64 word" where
  "semi_value b0 b1 =
     (let exponent = unat (drop_bit 2 (b1 AND 0x7c));
          mantissa = unat b0 + unat (b1 AND 0x03) * 2 ^ 8;
          sign = unat (drop_bit 7 (b1 AND 0x80));
          hidden = (if exponent = 0 then 0 else 1)
      in if exponent = 31 then
           (if mantissa \<noteq> 0 then 0x7FF8000000000000
            else if sign = 0 then 0x7FF0000000000000
            else 0xFFF0000000000000)
         else double_sign sign
              + of_nat (double_of_scaled (hidden * 1024 + mantissa) (int exponent - 25)))"

definition azapZclAttrVal_t_deserializeFloat ::
  "azapZclAttrVal_t \<Rightarrow> source \<Rightarrow> (azapZclAttrVal_t \<times> source) exec" where
  "azapZclAttrVal_t_deserializeFloat This s =
     (if zigbeeDataType This = ZCL_DATATYPE_SEMI_PREC then do {
        b1 \<leftarrow> idx (fst s) 1;
        b0 \<leftarrow> idx (fst s) 0;
        Some (This\<lparr>attr_value := FloatVal (semi_value b0 b1)\<rparr>, advance 2 s)
      }
      else if zigbeeDataType This = ZCL_DATATYPE_SINGLE_PREC then do {
        bs \<leftarrow> memread 0 4 (fst s);
        let f = (foldr (\<lambda>b acc. push_bit 8 acc OR ucast b) bs 0 :: 32 word);
        Some (This\<lparr>attr_value := FloatVal (double_of_float f)\<rparr>, advance 4 s)
      }
      else if zigbeeDataType This = ZCL_DATATYPE_DOUBLE_PREC then do {
        bs \<leftarrow> memread 0 8 (fst s);
        let d = (foldr (\<lambda>b acc. push_bit 8 acc OR ucast b) bs 0 :: 64 word);
        Some (This\<lparr>attr_value := FloatVal d\<rparr>, advance 8 s)
      }
      else Some (This, s))"

definition azapZclAttrVal_t_deserializeInteger ::
  "azapZclAttrVal_t \<Rightarrow> source \<Rightarrow> (azapZclAttrVal_t \<times> source) exec" where
  "azapZclAttrVal_t_deserializeInteger This s = (
     let at = (\<lambda>i. map_option uint (idx (fst s) i));
         ret = (\<lambda>v n. Some (This\<lparr>attr_value := LongVal v\<rparr>, advance n s));
         ty = zigbeeDataType This
     in
     if ty = ZCL_DATATYPE_INT8 then do {
       b0 \<leftarrow> at 0;
       ret ((b0 AND 0x7F) - (if b0 AND 0x80 = 0x80 then 2 ^ 7 else 0)) 1 }
     else if ty = ZCL_DATATYPE_INT16 then do {
       b0 \<leftarrow> at 0; b1 \<leftarrow> at 1;
       ret ((b0 AND 0xFF) + push_bit 8 (b1 AND 0x7F)
            - (if b1 AND 0x80 = 0x80 then 2 ^ 15 else 0)) 2 }
     else if ty = ZCL_DATATYPE_INT24 then do {
       b0 \<leftarrow> at 0; b1 \<leftarrow> at 1; b2 \<leftarrow> at 2;
       ret ((b0 AND 0xFF) + push_bit 8 (b1 AND 0xFF) + push_bit 16 (b2 AND 0x7F)
            - (if b2 AND 0x80 = 0x80 then 2 ^ 23 else 0)) 3 }
     else if ty = ZCL_DATATYPE_INT32 then do {
       b0 \<leftarrow> at 0; b1 \<leftarrow> at 1; b2 \<leftarrow> at 2; b3 \<leftarrow> at 3;
       ret ((b0 AND 0xFF) + push_bit 8 (b1 AND 0xFF) + push_bit 16 (b2 AND 0xFF)
            + push_bit 24 (b3 AND 0x7F) - (if b3 AND 0x80 = 0x80 then 2 ^ 31 else 0)) 4 }
     else if ty = ZCL_DATATYPE_UINT8 then do {
       b0 \<leftarrow> at 0;
       ret (b0 AND 0xFF) 1 }
     else if ty = ZCL_DATATYPE_UINT16 then do {
       b0 \<leftarrow> at 0; b1 \<leftarrow> at 1;
       ret ((b0 AND 0xFF) + push_bit 8 (b1 AND 0xFF)) 2 }
     else if ty = ZCL_DATATYPE_UINT24 then do {
       b0 \<leftarrow> at 0; b1 \<leftarrow> at 1; b2 \<leftarrow> at 2;
       ret ((b0 AND 0xFF) + push_bit 8 (b1 AND 0xFF) + push_bit 16 (b2 AND 0xFF)) 3 }
     else if ty = ZCL_DATATYPE_UINT32 then do {
       b0 \<leftarrow> at 0; b1 \<leftarrow> at 1; b2 \<leftarrow> at 2; b3 \<leftarrow> at 3;
       ret ((b0 AND 0xFF) + push_bit 8 (b1 AND 0xFF) + push_bit 16 (b2 AND 0xFF)
            + c_int (push_bit 24 (b3 AND 0xFF))) 4 }
     else if ty = ZCL_DATATYPE_UINT40 then do {
       b0 \<leftarrow> at 0; b1 \<leftarrow> at 1; b2 \<leftarrow> at 2; b3 \<leftarrow> at 3; b4 \<leftarrow> at 4;
       ret ((b0 AND 0xFF) + push_bit 8 (b1 AND 0xFF) + push_bit 16 (b2 AND 0xFF)
            + c_int (push_bit 24 (b3 AND 0xFF)) + push_bit 32 (b4 AND 0xFF)) 5 }
     else if ty = ZCL_DATATYPE_UINT48 then do {
       b0 \<leftarrow> at 0; b1 \<leftarrow> at 1; b2 \<leftarrow> at 2; b3 \<leftarrow> at 3; b4 \<leftarrow> at 4; b5 \<leftarrow> at 5;
       ret ((b0 AND 0xFF) + push_bit 8 (b1 AND 0xFF) + push_bit 16 (b2 AND 0xFF)
            + c_int (push_bit 24 (b3 AND 0xFF)) + push_bit 32 (b4 AND 0xFF)
            + push_bit 40 (b5 AND 0xFF)) 6 }
     else Some (This\<lparr>attr_value := LongVal 0\<rparr>, s))"

definition azapZclAttrVal_t_deserializeString ::
  "bool \<Rightarrow> azapZclAttrVal_t \<Rightarrow> u8 \<Rightarrow> source \<Rightarrow> (azapZclAttrVal_t \<times> source) exec" where
  "azapZclAttrVal_t_deserializeString mallocOk This sz s = do {
     let (s1, sz1) =
       (if zigbeeDataType This = ZCL_DATATYPE_CHAR_STR then (advance 1 s, sz - 1)
        else if zigbeeDataType This = ZCL_DATATYPE_LONG_CHAR_STR then (advance 2 s, sz - 2)
        else (s, sz));
     _ \<leftarrow> u_string (attr_value This);
     if mallocOk then do {
       bs \<leftarrow> memread 0 (unat sz1) (fst s1);
       Some (This\<lparr>valueSize := sz1, attr_value := StringVal (Some (bs @ [0]))\<rparr>, advance (unat sz1) s1)
     }
     else Some (This\<lparr>valueSize := 0, attr_value := StringVal None\<rparr>, advance (unat sz1) s1) }"

definition azapZclAttrVal_t_deserializeDateTime ::
  "azapZclAttrVal_t \<Rightarrow> source \<Rightarrow> (azapZclAttrVal_t \<times> source) exec" where
  "azapZclAttrVal_t_deserializeDateTime This s = (
     let at = (\<lambda>i. map_option uint (idx (fst s) i));
         This0 = This\<lparr>attr_value := DateTimeVal dateTime_zero\<rparr>;
         ty = zigbeeDataType This
     in
     if ty = ZCL_DATATYPE_TOD then do {
       b0 \<leftarrow> at 0; b1 \<leftarrow> at 1; b2 \<leftarrow> at 2; b3 \<leftarrow> at 3;
       Some (This\<lparr>attr_value := DateTimeVal (dateTime_zero
              \<lparr>dateTime := tm_zero\<lparr>tm_hour := b0, tm_min := b1, tm_sec := b2\<rparr>, mseconds := b3 * 10\<rparr>)\<rparr>,
             advance 4 s) }
     else if ty = ZCL_DATATYPE_DATE then do {
       b0 \<leftarrow> at 0; b1 \<leftarrow> at 1; b2 \<leftarrow> at 2; b3 \<leftarrow> at 3;
       Some (This\<lparr>attr_value := DateTimeVal (dateTime_zero
              \<lparr>dateTime := tm_zero\<lparr>tm_year := b0, tm_mon := b1 - 1, tm_mday := b2, tm_wday := b3 mod 7\<rparr>\<rparr>)\<rparr>,
             advance 4 s) }
     else if ty = ZCL_DATATYPE_UTC then do {
       b0 \<leftarrow> at 0; b1 \<leftarrow> at 1; b2 \<leftarrow> at 2; b3 \<leftarrow> at 3;
       let elapsedSec = ZIGBEE_EPOCH + (b0 AND 0xFF) + push_bit 8 (b1 AND 0xFF)
                        + push_bit 16 (b2 AND 0xFF) + c_int (push_bit 24 (b3 AND 0xFF));
       This1 \<leftarrow> azapZclAttrVal_t_setDateTimeValue This0 (Some (gmtime elapsedSec)) 0;
       Some (This1, advance 4 s) }
     else Some (This0, s))"

definition azapZclAttrVal_t_deserializeRaw ::
  "bool \<Rightarrow> azapZclAttrVal_t \<Rightarrow> u8 \<Rightarrow> source \<Rightarrow> (azapZclAttrVal_t \<times> source) exec" where
  "azapZclAttrVal_t_deserializeRaw mallocOk This sz s = do {
     let (s1, sz1) =
       (if zigbeeDataType This = ZCL_DATATYPE_OCTET_STR then (advance 1 s, sz - 1)
        else if zigbeeDataType This = ZCL_DATATYPE_LONG_OCTET_STR then (advance 2 s, sz - 2)
        else (s, sz));
     This1 \<leftarrow> azapZclAttrVal_t_setRawValue mallocOk This (Some (fst s1)) sz1;
     Some (This1, advance (unat sz1) s1) }"

definition deserialize_switch ::
  "bool \<Rightarrow> azapZclAttrVal_t \<Rightarrow> u8 \<Rightarrow> source \<Rightarrow> (azapZclAttrVal_t \<times> source) exec" where
  "deserialize_switch mallocOk This sz s =
     (case valueType This of
        AZAP_BOOLEAN_VAL \<Rightarrow> azapZclAttrVal_t_deserializeBoolean This s
      | AZAP_FLOAT_VAL \<Rightarrow> azapZclAttrVal_t_deserializeFloat This s
      | AZAP_INTEGER_VAL \<Rightarrow> azapZclAttrVal_t_deserializeInteger This s
      | AZAP_CHAR_STRING_VAL \<Rightarrow> azapZclAttrVal_t_deserializeString mallocOk This sz s
      | AZAP_DATE_TIME_VAL \<Rightarrow> azapZclAttrVal_t_deserializeDateTime This s
      | AZAP_RAW_VAL \<Rightarrow> azapZclAttrVal_t_deserializeRaw mallocOk This sz s
      | AZAP_UNKNOWN_VAL_TYPE \<Rightarrow> Some (This, s))"

definition azapZclAttrVal_t_deserialize ::
  "bool \<Rightarrow> azapZclAttrVal_t \<Rightarrow> bytes option \<Rightarrow> u8 \<Rightarrow> (azapZclAttrVal_t \<times> bytes option \<times> u8) exec" where
  "azapZclAttrVal_t_deserialize mallocOk This data len =
     (case data of
        None \<Rightarrow> Some (This, data, len)
      | Some p \<Rightarrow>
          if valueType This = AZAP_UNKNOWN_VAL_TYPE then Some (This, data, len)
          else do {
            sz \<leftarrow> azapGetZclDataLength (zigbeeDataType This) (Some p);
            if len < sz then Some (This, data, len)
            else do {
              (This1, p1, len1) \<leftarrow> deserialize_switch mallocOk This sz (p, len);
              Some (This1, Some p1, len1)
            }
          })"

subsection \<open>Values from strings\<close>

datatype 'a scan_result = Scan_EOF | Scan_mismatch | Scan_value 'a

text \<open>The sign and the magnitude of a decimal number as \<open>sscanf\<close> reads it.\<close>

definition scan_decimal :: "bytes \<Rightarrow> (bool \<times> int) scan_result" where
  "scan_decimal str =
     (let s = dropWhile c_isspace str;
          neg = (s \<noteq> [] \<and> hd s = 45);
          ds = takeWhile c_isdigit (if s \<noteq> [] \<and> (hd s = 45 \<or> hd s = 43) then tl s else s)
      in if s = [] then Scan_EOF
         else if ds = [] then Scan_mismatch
         else Scan_value (neg, c_digits_value ds))"

definition store_lld :: "bool \<times> int \<Rightarrow> int" where
  "store_lld = (\<lambda>(neg, m). if neg then max (- (2 ^ 63)) (- m) else min (2 ^ 63 - 1) m)"

definition store_llu :: "bool \<times> int \<Rightarrow> int" where
  "store_llu = (\<lambda>(neg, m). signed_take_bit 63
     (if m \<ge> 2 ^ 64 then 2 ^ 64 - 1 else if neg then - m else m))"

text \<open>The output of \<open>sprintf\<close> for a format string and no arguments: a directive other than \<open>%%\<close>
  reads an argument that does not exist.\<close>

fun sprintf_noargs :: "bytes \<Rightarrow> bytes exec" where
  "sprintf_noargs [] = Some []"
| "sprintf_noargs [c] = (if c = 37 then None else Some [c])"
| "sprintf_noargs (c # d # cs) =
     (if c = 37 then (if d = 37 then map_option (Cons 37) (sprintf_noargs cs) else None)
      else map_option (Cons c) (sprintf_noargs (d # cs)))"

definition azapZclAttrVal_t_buildFromStringRep ::
  "(bytes \<Rightarrow> 64 word scan_result) \<Rightarrow> bool \<Rightarrow> azapZclAttrVal_t \<Rightarrow> bytes option \<Rightarrow>
   (bool \<times> azapZclAttrVal_t) exec" where
  "azapZclAttrVal_t_buildFromStringRep sscanf_lg mallocOk This strRep =
     (case strRep of
        None \<Rightarrow> Some (False, This)
      | Some v \<Rightarrow>
        (case valueType This of
           AZAP_BOOLEAN_VAL \<Rightarrow> do {
             l \<leftarrow> strlen v;
             let s = take l v;
             if s = [116, 114, 117, 101] then Some (True, This\<lparr>attr_value := BooleanVal True\<rparr>)
             else if s = [102, 97, 108, 115, 101] then Some (False, This\<lparr>attr_value := BooleanVal True\<rparr>)
             else Some (False, This)
           }
         | AZAP_FLOAT_VAL \<Rightarrow> do {
             l \<leftarrow> strlen v;
             case sscanf_lg (take l v) of
               Scan_EOF \<Rightarrow> Some (True, This)
             | Scan_mismatch \<Rightarrow> Some (False, This)
             | Scan_value d \<Rightarrow> Some (True, This\<lparr>attr_value := FloatVal d\<rparr>)
           }
         | AZAP_INTEGER_VAL \<Rightarrow> do {
             l \<leftarrow> strlen v;
             case scan_decimal (take l v) of
               Scan_EOF \<Rightarrow> Some (True, This)
             | Scan_mismatch \<Rightarrow> Some (False, This)
             | Scan_value n \<Rightarrow> Some (True, This\<lparr>attr_value := LongVal
                 (if zigbeeDataType This \<in> {ZCL_DATATYPE_INT8, ZCL_DATATYPE_INT16, ZCL_DATATYPE_INT24,
                                            ZCL_DATATYPE_INT32}
                  then store_lld n else store_llu n)\<rparr>)
           }
         | AZAP_CHAR_STRING_VAL \<Rightarrow> do {
             l \<leftarrow> strlen v;
             let sz = (of_nat l :: u8);
             out \<leftarrow> sprintf_noargs (take l v);
             if mallocOk \<and> length out + 1 \<le> unat sz + 1
             then Some (True, This\<lparr>valueSize := sz,
                    attr_value := StringVal (Some (out @ 0 # replicate (unat sz - length out) 0))\<rparr>)
             else None
           }
         | _ \<Rightarrow> Some (False, This)))"

end
