(* ===== verification/Attr_Codec.thy ===== *)
theory Attr_Codec
  imports Zcl_Attr_Val
begin

section \<open>Attribute values on the wire\<close>

text \<open>
  What the theory \<open>Zcl_Attr_Val\<close> guarantees: the object stays well-typed under every sequence of
  operations; serialization stays inside the room it is given; integers are encoded as their
  two's complement, least significant byte first, and integers, strings and raw values are read
  back as they were written; and the inputs for which this fails (8-bit sizes that wrap, unsigned
  values with bit 31 set, values that were never set).
\<close>

subsection \<open>Masks and shifts on integers\<close>

lemma int_and_byte: "(v :: int) AND 0xFF = v mod 256"
proof -
  have "v AND 0xFF = take_bit 8 v" by (simp add: take_bit_eq_mask mask_eq_exp_minus_1)
  then show ?thesis by (simp add: take_bit_eq_mod)
qed

lemma int_and_7bits: "(v :: int) AND 0x7F = v mod 128"
proof -
  have "v AND 0x7F = take_bit 7 v" by (simp add: take_bit_eq_mask mask_eq_exp_minus_1)
  then show ?thesis by (simp add: take_bit_eq_mod)
qed

lemma int_byte_at:
  "drop_bit 8 ((v :: int) AND 0xFF00) = v div 2 ^ 8 mod 256"
  "drop_bit 16 (v AND 0xFF0000) = v div 2 ^ 16 mod 256"
  "drop_bit 24 (v AND 0xFF000000) = v div 2 ^ 24 mod 256"
  "drop_bit 32 (v AND 0xFF00000000) = v div 2 ^ 32 mod 256"
  "drop_bit 40 (v AND 0xFF0000000000) = v div 2 ^ 40 mod 256"
  by (simp_all only: drop_bit_and) (simp_all add: int_and_byte drop_bit_eq_div)

lemma int_7bits_at:
  "drop_bit 8 ((v :: int) AND 0x7F00) = v div 2 ^ 8 mod 128"
  "drop_bit 16 (v AND 0x7F0000) = v div 2 ^ 16 mod 128"
  "drop_bit 24 (v AND 0x7F000000) = v div 2 ^ 24 mod 128"
  by (simp_all only: drop_bit_and) (simp_all add: int_and_7bits drop_bit_eq_div)

lemma uint_byte: "uint (word_of_int (k mod 256) :: u8) = k mod 256"
  by (simp add: uint_word_of_int take_bit_eq_mod)

lemma uint_u8_bounds: "0 \<le> uint (b :: u8)" "uint (b :: u8) < 256"
  using unsigned_less [of b, where ?'a = int] by simp_all

lemma uint_u8_mod: "uint (b :: u8) mod 256 = uint b"
  using uint_u8_bounds [of b] by simp

lemma c_int_shift24:
  "0 \<le> b \<Longrightarrow> b < 256 \<Longrightarrow> c_int (push_bit 24 b) = (if b < 128 then b * 2 ^ 24 else b * 2 ^ 24 - 2 ^ 32)"
proof -
  assume b: "0 \<le> b" "b < 256"
  have "c_int (push_bit 24 b) = (b * 2 ^ 24 + 2 ^ 31) mod 2 ^ 32 - 2 ^ 31"
    by (simp add: c_int_def signed_take_bit_eq_take_bit_shift take_bit_eq_mod push_bit_eq_mult)
  also have "(b * 2 ^ 24 + 2 ^ 31) mod 2 ^ 32
      = (if b < 128 then b * 2 ^ 24 + 2 ^ 31 else b * 2 ^ 24 + 2 ^ 31 - 2 ^ 32)"
  proof (cases "b < 128")
    case False
    have "(b * 2 ^ 24 + 2 ^ 31) mod 2 ^ 32 = (b * 2 ^ 24 + 2 ^ 31 - 2 ^ 32) mod 2 ^ 32"
      by (rule minus_mod_self2 [symmetric])
    also have "\<dots> = b * 2 ^ 24 + 2 ^ 31 - 2 ^ 32"
      using b False by (intro mod_pos_pos_trivial) simp_all
    finally show ?thesis using False by simp
  qed (use b in simp)
  finally show ?thesis by simp
qed

text \<open>The byte with the sign: the seven value bits and bit 7.\<close>

lemma signed_top_byte:
  fixes k :: int
  shows "uint (word_of_int (k mod 128) OR (if neg then 0x80 else 0) :: u8) AND 0x7F = k mod 128"
    and "(uint (word_of_int (k mod 128) OR (if neg then 0x80 else 0) :: u8) AND 0x80 = 0x80) = neg"
proof -
  have m: "take_bit 8 (k mod 128) = k mod 128" by (simp add: take_bit_eq_mod)
  have "(k mod 128) AND 0x7F = k mod 128" by (simp add: int_and_7bits)
  moreover have "(k mod 128) AND 0x80 = 0"
    using and_exp_eq_0_iff_not_bit [of "take_bit 7 k" 7]
    by (simp add: bit_take_bit_iff) (simp add: take_bit_eq_mod)
  ultimately show "uint (word_of_int (k mod 128) OR (if neg then 0x80 else 0) :: u8) AND 0x7F = k mod 128"
    and "(uint (word_of_int (k mod 128) OR (if neg then 0x80 else 0) :: u8) AND 0x80 = 0x80) = neg"
    by (simp_all add: uint_or uint_word_of_int m bit.conj_disj_distrib2)
qed


subsection \<open>Writing and reading positions\<close>

lemma emit_in:
  "pos + length bs \<le> length buf \<Longrightarrow>
   put_bytes bs (buf, pos, len) =
     Some (take pos buf @ bs @ drop (pos + length bs) buf, pos + length bs, len - of_nat (length bs))"
  by (simp add: put_bytes_def memcpy_at_in)

lemma emit_out: "length buf < pos + length bs \<Longrightarrow> put_bytes bs (buf, pos, len) = None"
  by (simp add: put_bytes_def memcpy_at_def)

lemma advance_append: "advance (length bs) (bs @ rest, len) = (rest, len - of_nat (length bs))"
  by (simp add: advance_def)

subsection \<open>Integers\<close>

text \<open>The number of bytes of each integer type, and the values on the wire.\<close>

definition int_width :: "u8 \<Rightarrow> nat" where
  "int_width ty =
     (if ty \<in> {ZCL_DATATYPE_INT8, ZCL_DATATYPE_UINT8} then 1
      else if ty \<in> {ZCL_DATATYPE_INT16, ZCL_DATATYPE_UINT16} then 2
      else if ty \<in> {ZCL_DATATYPE_INT24, ZCL_DATATYPE_UINT24} then 3
      else if ty \<in> {ZCL_DATATYPE_INT32, ZCL_DATATYPE_UINT32} then 4
      else if ty = ZCL_DATATYPE_UINT40 then 5 else 6)"

fun le_bytes :: "nat \<Rightarrow> int \<Rightarrow> bytes" where
  "le_bytes 0 v = []"
| "le_bytes (Suc n) v = word_of_int v # le_bytes n (v div 256)"

text \<open>The reference encoding of an integer attribute: its two's complement, little-endian, on the
  width of its type.\<close>

lemma length_le_bytes [simp]: "length (le_bytes n v) = n"
  by (induction n arbitrary: v) simp_all

lemma word_of_int_mod_256 [simp]: "(word_of_int (k mod 256) :: u8) = word_of_int k"
  by (simp add: word_of_int_eq_iff take_bit_eq_mod)

lemma signed_top_le:
  fixes k :: int
  assumes "- 128 \<le> k" "k < 128"
  shows "(word_of_int (k mod 128) OR (if k < 0 then 0x80 else 0) :: u8) = word_of_int k"
proof (cases "k < 0")
  case True
  have "(k mod 128) AND 128 = 0"
    using and_exp_eq_0_iff_not_bit [of "take_bit 7 k" 7]
    by (simp add: bit_take_bit_iff) (simp add: take_bit_eq_mod)
  then have "(k mod 128) OR 0x80 = k mod 128 + 128"
    by (simp add: plus_and_or [of "k mod 128" 128, symmetric])
  moreover have "k mod 128 = k + 128"
    using assms True mod_pos_pos_trivial [of "k + 128" 128] by simp
  moreover have "k mod 256 = k + 256"
    using assms True mod_pos_pos_trivial [of "k + 256" 256] by simp
  moreover have "uint (word_of_int (k mod 128) OR 0x80 :: u8) = (k mod 128) OR 0x80"
    by (simp only: uint_or uint_word_of_int) (simp add: take_bit_eq_mod)
  ultimately have "uint (word_of_int (k mod 128) OR 0x80 :: u8) = uint (word_of_int k :: u8)"
    by (simp add: uint_word_of_int take_bit_eq_mod)
  then show ?thesis using True by (simp add: word_uint_eq_iff)
next
  case False
  then show ?thesis using assms by simp
qed


lemma in_range_bounds:
  "integer_in_range ZCL_DATATYPE_INT8 v = (- (2 ^ 7) \<le> v \<and> v < 2 ^ 7)"
  "integer_in_range ZCL_DATATYPE_INT16 v = (- (2 ^ 15) \<le> v \<and> v < 2 ^ 15)"
  "integer_in_range ZCL_DATATYPE_INT24 v = (- (2 ^ 23) \<le> v \<and> v < 2 ^ 23)"
  "integer_in_range ZCL_DATATYPE_INT32 v = (- (2 ^ 31) \<le> v \<and> v < 2 ^ 31)"
  "integer_in_range ZCL_DATATYPE_UINT8 v = (0 \<le> v \<and> v < 2 ^ 8)"
  "integer_in_range ZCL_DATATYPE_UINT16 v = (0 \<le> v \<and> v < 2 ^ 16)"
  "integer_in_range ZCL_DATATYPE_UINT24 v = (0 \<le> v \<and> v < 2 ^ 24)"
  "integer_in_range ZCL_DATATYPE_UINT32 v = (0 \<le> v \<and> v < 2 ^ 32)"
  "integer_in_range ZCL_DATATYPE_UINT40 v = (0 \<le> v \<and> v < 2 ^ 40)"
  "integer_in_range ZCL_DATATYPE_UINT48 v = (0 \<le> v \<and> v < 2 ^ 48)"
  by (auto simp: integer_in_range_def c_int_def)

lemma top_quotient_range:
  fixes v :: int
  assumes "- (2 ^ (n + 7)) \<le> v" "v < 2 ^ (n + 7)"
  shows "- 128 \<le> v div 2 ^ n" "v div 2 ^ n < 128"
proof -
  show "- 128 \<le> v div 2 ^ n"
    using zdiv_mono1 [OF assms(1), of "2 ^ n"] by (simp add: power_add zdiv_zminus1_eq_if)
  show "v div 2 ^ n < 128"
  proof (rule ccontr)
    assume "\<not> v div 2 ^ n < 128"
    then have "128 * 2 ^ n \<le> v div 2 ^ n * 2 ^ n" by (intro mult_right_mono) simp_all
    also have "\<dots> \<le> v" by (simp flip: minus_mod_eq_div_mult)
    finally show False using assms(2) by (simp add: power_add)
  qed
qed

lemma signed_top_div:
  fixes v :: int
  assumes "- (2 ^ (n + 7)) \<le> v" "v < 2 ^ (n + 7)"
  shows "(word_of_int (v div 2 ^ n mod 128) OR (if v < 0 then 0x80 else 0) :: u8) = word_of_int (v div 2 ^ n)"
  using signed_top_le [OF top_quotient_range [OF assms]] by (simp add: pos_imp_zdiv_neg_iff)

lemma le_bytes_pred:
  "le_bytes (numeral k) v = word_of_int v # le_bytes (pred_numeral k) (v div 256)"
  by (simp add: numeral_eq_Suc)

lemma le_bytes_numeral:
  "le_bytes 1 v = [word_of_int v]"
  "le_bytes 2 v = [word_of_int v, word_of_int (v div 2 ^ 8)]"
  "le_bytes 3 v = [word_of_int v, word_of_int (v div 2 ^ 8), word_of_int (v div 2 ^ 16)]"
  "le_bytes 4 v = [word_of_int v, word_of_int (v div 2 ^ 8), word_of_int (v div 2 ^ 16),
     word_of_int (v div 2 ^ 24)]"
  "le_bytes 5 v = [word_of_int v, word_of_int (v div 2 ^ 8), word_of_int (v div 2 ^ 16),
     word_of_int (v div 2 ^ 24), word_of_int (v div 2 ^ 32)]"
  "le_bytes 6 v = [word_of_int v, word_of_int (v div 2 ^ 8), word_of_int (v div 2 ^ 16),
     word_of_int (v div 2 ^ 24), word_of_int (v div 2 ^ 32), word_of_int (v div 2 ^ 40)]"
  by (simp_all add: le_bytes_pred zdiv_zmult2_eq [where b = "numeral k" and c = "numeral l" for k l, symmetric])

lemma integer_types_cases:
  assumes "ty \<in> set integer_types"
  obtains "ty = ZCL_DATATYPE_INT8" | "ty = ZCL_DATATYPE_INT16" | "ty = ZCL_DATATYPE_INT24"
  | "ty = ZCL_DATATYPE_INT32" | "ty = ZCL_DATATYPE_UINT8" | "ty = ZCL_DATATYPE_UINT16"
  | "ty = ZCL_DATATYPE_UINT24" | "ty = ZCL_DATATYPE_UINT32" | "ty = ZCL_DATATYPE_UINT40"
  | "ty = ZCL_DATATYPE_UINT48"
  using assms by (auto simp: integer_types_def)

lemmas int_wire_simps = int_width_def le_bytes_numeral int_and_byte int_byte_at int_and_7bits int_7bits_at

lemma serializeInteger_le_bytes:
  assumes "zigbeeDataType This \<in> set integer_types" "attr_value This = LongVal v"
    and "integer_in_range (zigbeeDataType This) v"
  shows "azapZclAttrVal_t_serializeInteger This c =
           put_bytes (le_bytes (int_width (zigbeeDataType This)) v) c"
  using assms(1)
proof (cases rule: integer_types_cases)
  case 1
  then show ?thesis using assms(2,3) signed_top_div [of 0 v]
    by (cases "v < 0") (simp_all add: azapZclAttrVal_t_serializeInteger_def int_wire_simps in_range_bounds del: drop_bit_and)
next
  case 2
  then show ?thesis using assms(2,3) signed_top_div [of 8 v]
    by (cases "v < 0") (simp_all add: azapZclAttrVal_t_serializeInteger_def int_wire_simps in_range_bounds del: drop_bit_and)
next
  case 3
  then show ?thesis using assms(2,3) signed_top_div [of 16 v]
    by (cases "v < 0") (simp_all add: azapZclAttrVal_t_serializeInteger_def int_wire_simps in_range_bounds del: drop_bit_and)
next
  case 4
  then show ?thesis using assms(2,3) signed_top_div [of 24 v]
    by (cases "v < 0") (simp_all add: azapZclAttrVal_t_serializeInteger_def int_wire_simps in_range_bounds del: drop_bit_and)
qed (simp_all add: assms(2) azapZclAttrVal_t_serializeInteger_def int_wire_simps del: drop_bit_and)


text \<open>Reading back. The byte at position \<open>n\<close> adds the next eight bits; the top byte of a signed type
  adds the quotient, with its sign.\<close>

lemma uint_word_of_int_u8: "uint (word_of_int k :: u8) = k mod 256"
  by (simp add: uint_word_of_int take_bit_eq_mod)

lemma next_byte: "(v :: int) mod 2 ^ n + push_bit n (v div 2 ^ n mod 256) = v mod 2 ^ (n + 8)"
  using zmod_zmult2_eq [of "256" v "2 ^ n"] by (simp add: push_bit_eq_mult power_add mult.commute)

lemma int_and_80: "0 \<le> b \<Longrightarrow> b < 256 \<Longrightarrow> (b :: int) AND 0x80 = b - b mod 128"
proof -
  assume b: "0 \<le> b" "b < 256"
  have "(b AND 0x80) AND (b AND 0x7F) = 0" by (simp add: and.left_commute and.assoc)
  moreover have "(b AND 0x80) OR (b AND 0x7F) = b AND 0xFF"
    using bit.conj_disj_distrib [of b "0x80" "0x7F"] by simp
  ultimately have "(b AND 0x80) + (b AND 0x7F) = b AND 0xFF"
    using plus_and_or [of "b AND 0x80" "b AND 0x7F"] by simp
  then show ?thesis using b by (simp add: int_and_7bits int_and_byte)
qed

lemma signed_top_decode:
  fixes k :: int
  assumes "- 128 \<le> k" "k < 128"
  shows "push_bit n (k mod 256 AND 0x7F) - (if k mod 256 AND 0x80 = 0x80 then 2 ^ (n + 7) else 0)
         = k * 2 ^ n"
proof (cases "k < 0")
  case True
  then have "k mod 256 = k + 256"
    using assms mod_pos_pos_trivial [of "k + 256" 256] by simp
  moreover have "(k + 256) mod 128 = k + 128"
    using assms True mod_pos_pos_trivial [of "k + 128" 128] mod_add_self2 [of "k + 128" 128]
    by (simp add: add.commute)
  ultimately show ?thesis using assms True
    by (simp add: int_and_80 int_and_7bits push_bit_eq_mult power_add ring_distribs)
next
  case False
  then show ?thesis using assms by (simp add: int_and_80 int_and_7bits push_bit_eq_mult)
qed


lemma signed_top_value:
  fixes v :: int
  assumes "- (2 ^ (n + 7)) \<le> v" "v < 2 ^ (n + 7)"
  shows "v mod 2 ^ n + push_bit n (v div 2 ^ n mod 256 AND 0x7F)
          - (if v div 2 ^ n mod 256 AND 0x80 = 0x80 then 2 ^ (n + 7) else 0) = v"
  using signed_top_decode [OF top_quotient_range [OF assms], of n] div_mult_mod_eq [of v "2 ^ n"] by linarith

text \<open>The byte shifted by 24 bits loses \<open>2 ^ 32\<close> when bit 31 is set.\<close>

definition sign_loss :: "int \<Rightarrow> int" where
  "sign_loss v = (if odd (v div 2 ^ 31) then 2 ^ 32 else 0)"

lemma c_int_byte3:
  "v mod 2 ^ 24 + c_int (push_bit 24 (v div 2 ^ 24 mod 256)) = v mod 2 ^ 32 - sign_loss v"
proof -
  let ?b = "v div 2 ^ 24 mod 256"
  have "v div 2 ^ 31 = v div 2 ^ 24 div 2 ^ 7" by (simp flip: zdiv_zmult2_eq)
  moreover have "odd (x div 128) \<longleftrightarrow> \<not> x mod 256 < 128" for x :: int
    using zmod_zmult2_eq [of 2 x 128] by (cases "even (x div 128)") (simp_all add: even_iff_mod_2_eq_zero odd_iff_mod_2_eq_one)
  ultimately have "odd (v div 2 ^ 31) \<longleftrightarrow> \<not> ?b < 128" by simp
  moreover have "v mod 2 ^ 24 + push_bit 24 ?b = v mod 2 ^ 32" using next_byte [of v 24] by simp
  ultimately show ?thesis using c_int_shift24 [of ?b]
    by (simp add: sign_loss_def push_bit_eq_mult)
qed


definition wide_unsigned :: "u8 \<Rightarrow> bool" where
  "wide_unsigned ty = (ty \<in> {ZCL_DATATYPE_UINT32, ZCL_DATATYPE_UINT40, ZCL_DATATYPE_UINT48})"

lemma idx_Cons: "idx (x # xs) 0 = Some x" "idx (x # xs) (numeral k) = idx xs (pred_numeral k)"
    "idx (x # xs) 1 = idx xs 0" "idx (x # xs) (Suc n) = idx xs n"
  by (simp_all add: idx_def numeral_eq_Suc)

lemmas low_bytes = next_byte [of v 8 for v, simplified] next_byte [of v 16 for v, simplified]
  next_byte [of v 32 for v, simplified] next_byte [of v 40 for v, simplified] c_int_byte3 [simplified]

lemmas int_read_simps = azapZclAttrVal_t_deserializeInteger_def int_width_def le_bytes_numeral idx_Cons
  uint_word_of_int_u8 int_and_byte low_bytes wide_unsigned_def

lemma add_chain: "a + p = b \<Longrightarrow> b + q = c \<Longrightarrow> c = v \<Longrightarrow> a - s + p + q = v - s" for a b c p q s v :: int
  by simp

lemma deserializeInteger_le_bytes:
  assumes "zigbeeDataType This \<in> set integer_types"
    and "integer_in_range (zigbeeDataType This) v"
  shows "azapZclAttrVal_t_deserializeInteger This (le_bytes (int_width (zigbeeDataType This)) v @ rest, len) =
           Some (This\<lparr>attr_value := LongVal
                   (v - (if wide_unsigned (zigbeeDataType This) then sign_loss v else 0))\<rparr>,
                 rest, len - of_nat (int_width (zigbeeDataType This)))"
  using assms(1)
proof (cases rule: integer_types_cases)
  case 1
  then show ?thesis using assms(2) signed_top_value [of 0 v]
    by (simp add: int_read_simps in_range_bounds advance_def split: if_splits)
next
  case 2
  then show ?thesis using assms(2) signed_top_value [of 8 v]
    by (simp add: int_read_simps in_range_bounds advance_def split: if_splits)
next
  case 3
  then show ?thesis using assms(2) signed_top_value [of 16 v]
    by (simp add: int_read_simps in_range_bounds advance_def split: if_splits)
next
  case 4
  then show ?thesis using assms(2) signed_top_value [of 24 v]
    by (simp add: int_read_simps in_range_bounds advance_def split: if_splits)
next
  case 8
  then show ?thesis using assms(2)
    by (simp add: int_read_simps in_range_bounds advance_def split: if_splits)
next
  case 9
  then show ?thesis using assms(2)
    by (simp add: int_read_simps in_range_bounds advance_def split: if_splits)
next
  case 10
  with assms(2) have "v mod 281474976710656 = v" by (simp add: in_range_bounds)
  then have wide: "v mod 4294967296 - sign_loss v + push_bit 32 (v div 4294967296 mod 256)
      + push_bit 40 (v div 1099511627776 mod 256) = v - sign_loss v"
    by (rule add_chain [OF low_bytes(3,4)])
  from 10 show ?thesis by (simp add: int_read_simps advance_def wide)
qed (use assms(2) in \<open>simp_all add: int_read_simps in_range_bounds advance_def\<close>)


subsection \<open>The encoded size and the general behaviour of serialization\<close>

lemma create_type [simp]: "zigbeeDataType (azapZclAttrVal_t_create ty) = ty"
  by (simp add: azapZclAttrVal_t_create_def azapZclAttrVal_t_setType_def Let_def)

text \<open>The class of values of a data type.\<close>

definition value_class :: "u8 \<Rightarrow> AZAP_ATTR_VAL_TYPE" where
  "value_class ty = valueType (azapZclAttrVal_t_create ty)"

text \<open>A value that matches its type: the union holds the member of the value's class, and a heap
  block has the recorded size (with the terminator for a character string).\<close>

fun block_ok :: "nat \<Rightarrow> bytes option \<Rightarrow> nat \<Rightarrow> bool" where
  "block_ok extra None n = (n = 0)"
| "block_ok extra (Some b) n = (length b = n + extra)"

fun member_ok :: "AZAP_ATTR_VAL_TYPE \<Rightarrow> attr_u \<Rightarrow> nat \<Rightarrow> bool" where
  "member_ok AZAP_UNKNOWN_VAL_TYPE u n = True"
| "member_ok AZAP_BOOLEAN_VAL (BooleanVal b) n = True"
| "member_ok AZAP_FLOAT_VAL (FloatVal d) n = True"
| "member_ok AZAP_INTEGER_VAL (LongVal v) n = (- (2 ^ 63) \<le> v \<and> v < 2 ^ 63)"
| "member_ok AZAP_CHAR_STRING_VAL (StringVal s) n = block_ok 1 s n"
| "member_ok AZAP_DATE_TIME_VAL (DateTimeVal t) n = True"
| "member_ok AZAP_RAW_VAL (RawVal r) n = block_ok 0 r n"
| "member_ok _ _ n = False"

definition attr_ok :: "azapZclAttrVal_t \<Rightarrow> bool" where
  "attr_ok a = (valueType a = value_class (zigbeeDataType a)
                \<and> member_ok (valueType a) (attr_value a) (unat (valueSize a)))"

lemma attr_ok_class: "attr_ok a \<Longrightarrow> value_class (zigbeeDataType a) = valueType a"
  by (simp add: attr_ok_def)

lemma attr_ok_members:
  "attr_ok a \<Longrightarrow> valueType a = AZAP_BOOLEAN_VAL \<Longrightarrow> \<exists>b. attr_value a = BooleanVal b"
  "attr_ok a \<Longrightarrow> valueType a = AZAP_FLOAT_VAL \<Longrightarrow> \<exists>d. attr_value a = FloatVal d"
  "attr_ok a \<Longrightarrow> valueType a = AZAP_INTEGER_VAL \<Longrightarrow> \<exists>v. attr_value a = LongVal v"
  "attr_ok a \<Longrightarrow> valueType a = AZAP_CHAR_STRING_VAL \<Longrightarrow>
     \<exists>s. attr_value a = StringVal s \<and> block_ok 1 s (unat (valueSize a))"
  "attr_ok a \<Longrightarrow> valueType a = AZAP_DATE_TIME_VAL \<Longrightarrow> \<exists>t. attr_value a = DateTimeVal t"
  "attr_ok a \<Longrightarrow> valueType a = AZAP_RAW_VAL \<Longrightarrow>
     \<exists>r. attr_value a = RawVal r \<and> block_ok 0 r (unat (valueSize a))"
  by (cases "attr_value a"; simp add: attr_ok_def)+

lemma setType_class: "valueType (azapZclAttrVal_t_setType a ty) = value_class ty"
  by (simp add: value_class_def azapZclAttrVal_t_create_def azapZclAttrVal_t_setType_def
      azapZclAttrVal_t_init_def Let_def)

lemma create_ok: "attr_ok (azapZclAttrVal_t_create ty)"
  by (simp add: attr_ok_def value_class_def)
     (simp add: azapZclAttrVal_t_create_def azapZclAttrVal_t_setType_def azapZclAttrVal_t_init_def Let_def)

text \<open>The class of a type, and the types of a class.\<close>

lemma value_class_iff:
  "value_class ty = AZAP_INTEGER_VAL \<longleftrightarrow> ty \<in> set integer_types"
  "value_class ty = AZAP_RAW_VAL \<longleftrightarrow> ty \<in> set raw_types"
  "value_class ty = AZAP_CHAR_STRING_VAL \<longleftrightarrow> ty \<in> {ZCL_DATATYPE_CHAR_STR, ZCL_DATATYPE_LONG_CHAR_STR}"
  "value_class ty = AZAP_BOOLEAN_VAL \<longleftrightarrow> ty = ZCL_DATATYPE_BOOLEAN"
  "value_class ty = AZAP_FLOAT_VAL \<longleftrightarrow>
     ty \<in> {ZCL_DATATYPE_SEMI_PREC, ZCL_DATATYPE_SINGLE_PREC, ZCL_DATATYPE_DOUBLE_PREC}"
  "value_class ty = AZAP_DATE_TIME_VAL \<longleftrightarrow> ty \<in> {ZCL_DATATYPE_TOD, ZCL_DATATYPE_DATE, ZCL_DATATYPE_UTC}"
  by (auto simp: value_class_def azapZclAttrVal_t_create_def azapZclAttrVal_t_setType_def
      azapZclAttrVal_t_init_def Let_def raw_types_def integer_types_def split: if_splits)


lemma attr_ok_types:
  "attr_ok a \<Longrightarrow> valueType a = AZAP_INTEGER_VAL \<Longrightarrow> zigbeeDataType a \<in> set integer_types"
  "attr_ok a \<Longrightarrow> valueType a = AZAP_RAW_VAL \<Longrightarrow> zigbeeDataType a \<in> set raw_types"
  "attr_ok a \<Longrightarrow> valueType a = AZAP_CHAR_STRING_VAL \<Longrightarrow>
     zigbeeDataType a \<in> {ZCL_DATATYPE_CHAR_STR, ZCL_DATATYPE_LONG_CHAR_STR}"
  "attr_ok a \<Longrightarrow> valueType a = AZAP_BOOLEAN_VAL \<Longrightarrow> zigbeeDataType a = ZCL_DATATYPE_BOOLEAN"
  "attr_ok a \<Longrightarrow> valueType a = AZAP_FLOAT_VAL \<Longrightarrow>
     zigbeeDataType a \<in> {ZCL_DATATYPE_SEMI_PREC, ZCL_DATATYPE_SINGLE_PREC, ZCL_DATATYPE_DOUBLE_PREC}"
  "attr_ok a \<Longrightarrow> valueType a = AZAP_DATE_TIME_VAL \<Longrightarrow>
     zigbeeDataType a \<in> {ZCL_DATATYPE_TOD, ZCL_DATATYPE_DATE, ZCL_DATATYPE_UTC}"
  by (drule attr_ok_class, simp only: value_class_iff)+

lemma emit_append: "do { c1 \<leftarrow> put_bytes xs c; put_bytes ys c1 } = put_bytes (xs @ ys) c"
proof -
  obtain buf pos len where c: "c = (buf, pos, len)" by (cases c)
  show ?thesis
  proof (cases "pos + length (xs @ ys) \<le> length buf")
    case True
    then show ?thesis by (simp add: c emit_in ac_simps diff_diff_eq)
  next
    case False
    then show ?thesis
      by (cases "pos + length xs \<le> length buf") (simp_all add: c emit_in emit_out)
  qed
qed

text \<open>The size \<open>azapZclAttrVal_t_serialize\<close> asks for.\<close>

definition required_size :: "azapZclAttrVal_t \<Rightarrow> u8" where
  "required_size a =
     (let size0 = the (azapGetZclDataLength (zigbeeDataType a) None) in
      if size0 = 0 then
        (if zigbeeDataType a \<in> {ZCL_DATATYPE_CHAR_STR, ZCL_DATATYPE_OCTET_STR}
         then valueSize a + 1 else valueSize a + 2)
      else size0)"

text \<open>A value ready to be sent: a string leaves room for its length prefix in the 8-bit size, and a
  raw value of a fixed-size type has that size.\<close>

definition attr_sendable :: "azapZclAttrVal_t \<Rightarrow> bool" where
  "attr_sendable a =
     (unat (valueSize a) \<le> 253 \<and>
      (valueType a = AZAP_RAW_VAL \<and> zigbeeDataType a \<notin> {ZCL_DATATYPE_OCTET_STR, ZCL_DATATYPE_LONG_OCTET_STR}
       \<longrightarrow> valueSize a = required_size a))"

lemma data_length_None: "\<exists>n. azapGetZclDataLength ty None = Some n"
  by (simp add: azapGetZclDataLength_def)

lemma memcpy_from_block: "block_ok k s n \<Longrightarrow> \<exists>bs. memcpy_from s n = Some bs \<and> length bs = n"
  by (cases s) (auto simp: memcpy_from_def memread_def)

lemma memcpy_from_length: "memcpy_from s n = Some bs \<Longrightarrow> length bs = n"
  by (cases s) (auto simp: memcpy_from_def memread_def split: if_splits)

text \<open>The bytes of a string value: prefix and contents.\<close>

lemma serializeString_emit:
  assumes "attr_ok a" "valueType a = AZAP_CHAR_STRING_VAL"
  obtains bs s where "attr_value a = StringVal s" "memcpy_from s (unat (valueSize a)) = Some bs"
    "azapZclAttrVal_t_serializeString a (required_size a) c =
       put_bytes ((if zigbeeDataType a = ZCL_DATATYPE_CHAR_STR then [valueSize a] else [valueSize a, 0]) @ bs) c"
proof -
  from attr_ok_members(4) [OF assms] obtain s where
    s: "attr_value a = StringVal s" "block_ok 1 s (unat (valueSize a))" by blast
  from memcpy_from_block [OF s(2)] obtain bs where bs: "memcpy_from s (unat (valueSize a)) = Some bs" by blast
  from attr_ok_types(3) [OF assms] have "azapZclAttrVal_t_serializeString a (required_size a) c =
       put_bytes ((if zigbeeDataType a = ZCL_DATATYPE_CHAR_STR then [valueSize a] else [valueSize a, 0]) @ bs) c"
    by (auto simp: azapZclAttrVal_t_serializeString_def required_size_def azapGetZclDataLength_def s(1) bs
        emit_append [symmetric] simp del: append_Cons append_Nil)
  with s(1) bs show thesis by (rule that)
qed


lemma serializeRaw_emit:
  assumes "attr_ok a" "valueType a = AZAP_RAW_VAL" "attr_sendable a"
  obtains bs r where "attr_value a = RawVal r" "memcpy_from r (unat (valueSize a)) = Some bs"
    "azapZclAttrVal_t_serializeRaw a (required_size a) c =
       put_bytes ((if zigbeeDataType a = ZCL_DATATYPE_OCTET_STR then [valueSize a]
              else if zigbeeDataType a = ZCL_DATATYPE_LONG_OCTET_STR then [valueSize a, 0] else []) @ bs) c"
proof -
  from attr_ok_members(6) [OF assms(1,2)] obtain r where
    r: "attr_value a = RawVal r" "block_ok 0 r (unat (valueSize a))" by blast
  from memcpy_from_block [OF r(2)] obtain bs where bs: "memcpy_from r (unat (valueSize a)) = Some bs" by blast
  consider (str) "zigbeeDataType a = ZCL_DATATYPE_OCTET_STR"
    | (long) "zigbeeDataType a = ZCL_DATATYPE_LONG_OCTET_STR"
    | (fixed) "zigbeeDataType a \<notin> {ZCL_DATATYPE_OCTET_STR, ZCL_DATATYPE_LONG_OCTET_STR}" by blast
  then have "azapZclAttrVal_t_serializeRaw a (required_size a) c =
       put_bytes ((if zigbeeDataType a = ZCL_DATATYPE_OCTET_STR then [valueSize a]
              else if zigbeeDataType a = ZCL_DATATYPE_LONG_OCTET_STR then [valueSize a, 0] else []) @ bs) c"
  proof cases
    case fixed
    with assms(2,3) have "required_size a = valueSize a" by (simp add: attr_sendable_def)
    with fixed show ?thesis by (simp add: azapZclAttrVal_t_serializeRaw_def r(1) bs)
  qed (simp_all add: azapZclAttrVal_t_serializeRaw_def required_size_def azapGetZclDataLength_def r(1) bs
        emit_append [symmetric] del: append_Cons append_Nil)
  with r(1) bs show thesis by (rule that)
qed

lemma serialize_unfold:
  "azapZclAttrVal_t_serialize a (Some (buf, pos)) len =
     (if valueType a = AZAP_UNKNOWN_VAL_TYPE \<or> zigbeeDataType a = ZCL_DATATYPE_UNKNOWN \<or> len < required_size a
      then Some (a, Some (buf, pos), len)
      else map_option (\<lambda>(a1, buf1, pos1, len1). (a1, Some (buf1, pos1), len1))
             (serialize_switch a (required_size a) (buf, pos, len)))"
proof -
  obtain n where "azapGetZclDataLength (zigbeeDataType a) None = Some n" using data_length_None by blast
  then show ?thesis
    by (cases "serialize_switch a (required_size a) (buf, pos, len)")
       (auto simp: azapZclAttrVal_t_serialize_def required_size_def Let_def)
qed

lemma bind_pair: "x \<bind> (\<lambda>c. Some (a, c)) = map_option (Pair a) x"
  by (cases x) simp_all

lemma serializeDateTime_emit:
  assumes "zigbeeDataType a \<in> {ZCL_DATATYPE_TOD, ZCL_DATATYPE_DATE, ZCL_DATATYPE_UTC}" "attr_value a = DateTimeVal t"
  obtains bs a' where "azapZclAttrVal_t_serializeDateTime a c = map_option (Pair a') (put_bytes bs c)" "length bs = 4"
proof -
  from assms(1) consider "zigbeeDataType a = ZCL_DATATYPE_TOD" | "zigbeeDataType a = ZCL_DATATYPE_DATE"
    | "zigbeeDataType a = ZCL_DATATYPE_UTC" by blast
  then have "\<exists>bs a'. azapZclAttrVal_t_serializeDateTime a c = map_option (Pair a') (put_bytes bs c) \<and> length bs = 4"
    by cases (simp add: assms(2) azapZclAttrVal_t_serializeDateTime_def Let_def timegm_def bind_pair split del: if_split,
        intro exI conjI, rule refl, simp)+
  then show thesis using that by blast
qed

lemma serialize_switch_emit:
  assumes "attr_ok a" "attr_sendable a" "valueType a \<noteq> AZAP_UNKNOWN_VAL_TYPE"
  obtains bs a' where "length bs = unat (required_size a)" "serialize_switch a (required_size a) c = map_option (Pair a') (put_bytes bs c)"
proof (cases "valueType a")
  case AZAP_UNKNOWN_VAL_TYPE
  with assms(3) show thesis by simp
next
  case AZAP_BOOLEAN_VAL
  from attr_ok_members(1) [OF assms(1) this] obtain b where "attr_value a = BooleanVal b" by blast
  moreover have "zigbeeDataType a = ZCL_DATATYPE_BOOLEAN"
    by (rule attr_ok_types(4) [OF assms(1) AZAP_BOOLEAN_VAL])
  ultimately show thesis using AZAP_BOOLEAN_VAL
    by (intro that [of "[if b then 1 else 0]" a])
       (simp_all add: required_size_def azapGetZclDataLength_def serialize_switch_def
         azapZclAttrVal_t_serializeBoolean_def)
next
  case AZAP_FLOAT_VAL
  from attr_ok_members(2) [OF assms(1) this] obtain d where "attr_value a = FloatVal d" by blast
  moreover have "zigbeeDataType a \<in> {ZCL_DATATYPE_SEMI_PREC, ZCL_DATATYPE_SINGLE_PREC, ZCL_DATATYPE_DOUBLE_PREC}"
    by (rule attr_ok_types(5) [OF assms(1) AZAP_FLOAT_VAL])
  ultimately obtain bs where "azapZclAttrVal_t_serializeFloat a c = put_bytes bs c" "length bs = unat (required_size a)"
    by (auto simp: azapZclAttrVal_t_serializeFloat_def required_size_def azapGetZclDataLength_def Let_def)
  with AZAP_FLOAT_VAL show thesis by (intro that [of bs a]) (simp_all add: serialize_switch_def)
next
  case AZAP_INTEGER_VAL
  from attr_ok_members(3) [OF assms(1) this] obtain v where v: "attr_value a = LongVal v" by blast
  from attr_ok_types(1) [OF assms(1) AZAP_INTEGER_VAL] obtain bs where "azapZclAttrVal_t_serializeInteger a c = put_bytes bs c" "length bs = unat (required_size a)"
    by (cases rule: integer_types_cases)
       (auto simp: v azapZclAttrVal_t_serializeInteger_def required_size_def azapGetZclDataLength_def Let_def)
  with AZAP_INTEGER_VAL show thesis by (intro that [of bs a]) (simp_all add: serialize_switch_def)
next
  case AZAP_CHAR_STRING_VAL
  from serializeString_emit [OF assms(1) this, of c] obtain bs s where
    bs: "memcpy_from s (unat (valueSize a)) = Some bs"
    "azapZclAttrVal_t_serializeString a (required_size a) c =
       put_bytes ((if zigbeeDataType a = ZCL_DATATYPE_CHAR_STR then [valueSize a] else [valueSize a, 0]) @ bs) c" .
  show thesis
  proof (rule that)
    show "serialize_switch a (required_size a) c = map_option (Pair a)
       (put_bytes ((if zigbeeDataType a = ZCL_DATATYPE_CHAR_STR then [valueSize a] else [valueSize a, 0]) @ bs) c)"
      using AZAP_CHAR_STRING_VAL bs(2) by (simp add: serialize_switch_def)
    show "length ((if zigbeeDataType a = ZCL_DATATYPE_CHAR_STR then [valueSize a] else [valueSize a, 0]) @ bs)
        = unat (required_size a)"
      using attr_ok_types(3) [OF assms(1) AZAP_CHAR_STRING_VAL] memcpy_from_length [OF bs(1)] assms(2)
      by (auto simp: required_size_def azapGetZclDataLength_def attr_sendable_def unat_add_u8)
  qed
next
  case AZAP_DATE_TIME_VAL
  from attr_ok_members(5) [OF assms(1) this] obtain t where t: "attr_value a = DateTimeVal t" by blast
  from attr_ok_types(6) [OF assms(1) AZAP_DATE_TIME_VAL]
  have "unat (required_size a) = 4" by (auto simp: required_size_def azapGetZclDataLength_def)
  with serializeDateTime_emit [OF attr_ok_types(6) [OF assms(1) AZAP_DATE_TIME_VAL] t, of c] obtain bs a' where
    "azapZclAttrVal_t_serializeDateTime a c = map_option (Pair a') (put_bytes bs c)" "length bs = unat (required_size a)"
    by metis
  with AZAP_DATE_TIME_VAL show thesis by (intro that [of bs a']) (simp_all add: serialize_switch_def)
next
  case AZAP_RAW_VAL
  from serializeRaw_emit [OF assms(1) this assms(2), of c] obtain bs r where
    bs: "memcpy_from r (unat (valueSize a)) = Some bs"
    "azapZclAttrVal_t_serializeRaw a (required_size a) c =
       put_bytes ((if zigbeeDataType a = ZCL_DATATYPE_OCTET_STR then [valueSize a]
              else if zigbeeDataType a = ZCL_DATATYPE_LONG_OCTET_STR then [valueSize a, 0] else []) @ bs) c" .
  show thesis
  proof (rule that)
    show "serialize_switch a (required_size a) c = map_option (Pair a)
       (put_bytes ((if zigbeeDataType a = ZCL_DATATYPE_OCTET_STR then [valueSize a]
              else if zigbeeDataType a = ZCL_DATATYPE_LONG_OCTET_STR then [valueSize a, 0] else []) @ bs) c)"
      using AZAP_RAW_VAL bs(2) by (simp add: serialize_switch_def)
    show "length ((if zigbeeDataType a = ZCL_DATATYPE_OCTET_STR then [valueSize a]
              else if zigbeeDataType a = ZCL_DATATYPE_LONG_OCTET_STR then [valueSize a, 0] else []) @ bs)
        = unat (required_size a)"
      using memcpy_from_length [OF bs(1)] assms(2) AZAP_RAW_VAL
      by (auto simp: required_size_def azapGetZclDataLength_def attr_sendable_def unat_add_u8)
  qed
qed


text \<open>C23: serialization never writes outside the room it is given. For a value that matches its
  type and is ready to be sent (a string of at most 253 bytes, a fixed-size raw value of its
  size), and \<open>*len\<close> free bytes at the write position, \<open>azapZclAttrVal_t_serialize\<close> runs without undefined
  behaviour, changes at most the \<open>n \<le> *len\<close> bytes from the position on, advances the pointer by \<open>n\<close> and
  lowers \<open>*len\<close> by \<open>n\<close>, where \<open>n\<close> is the encoded size, or 0 when that does not fit or the type is
  unknown.\<close>

theorem attr_serialize_bounds:
  assumes "attr_ok a" "attr_sendable a" "pos + unat len \<le> length buf"
  shows "\<exists>a' buf' n. azapZclAttrVal_t_serialize a (Some (buf, pos)) len
            = Some (a', Some (buf', pos + n), len - of_nat n)
          \<and> n \<le> unat len \<and> length buf' = length buf
          \<and> take pos buf' = take pos buf \<and> drop (pos + n) buf' = drop (pos + n) buf
          \<and> n = (if valueType a = AZAP_UNKNOWN_VAL_TYPE \<or> len < required_size a then 0 else unat (required_size a))"
proof (cases "valueType a = AZAP_UNKNOWN_VAL_TYPE \<or> zigbeeDataType a = ZCL_DATATYPE_UNKNOWN \<or> len < required_size a")
  case True
  have "zigbeeDataType a = ZCL_DATATYPE_UNKNOWN \<Longrightarrow> valueType a = AZAP_UNKNOWN_VAL_TYPE"
    using attr_ok_class [OF assms(1)]
    by (simp add: value_class_def azapZclAttrVal_t_create_def azapZclAttrVal_t_setType_def
        raw_types_def integer_types_def Let_def)
  with True show ?thesis
    by (intro exI [of _ a] exI [of _ buf] exI [of _ 0]) (auto simp: serialize_unfold)
next
  case False
  with serialize_switch_emit [OF assms(1,2), of "(buf, pos, len)"] obtain bs a' where
    bs: "length bs = unat (required_size a)"
    "serialize_switch a (required_size a) (buf, pos, len) = map_option (Pair a') (put_bytes bs (buf, pos, len))"
    by metis
  from False have fit: "unat (required_size a) \<le> unat len" by (simp add: word_le_nat_alt not_less)
  with bs assms(3) have "put_bytes bs (buf, pos, len)
      = Some (take pos buf @ bs @ drop (pos + length bs) buf, pos + length bs, len - of_nat (length bs))"
    by (simp add: emit_in)
  with bs False fit assms(3) show ?thesis
    by (intro exI [of _ a'] exI [of _ "take pos buf @ bs @ drop (pos + length bs) buf"] exI [of _ "length bs"])
       (simp add: serialize_unfold)
qed


theorem attr_serialize_bounds_witness:
  "\<exists>a' buf' n. azapZclAttrVal_t_serialize (azapZclAttrVal_t_create ZCL_DATATYPE_UINT16) (Some ([7, 7, 7, 7], 1)) 2
       = Some (a', Some (buf', 1 + n), 2 - of_nat n)
     \<and> n \<le> 2 \<and> length buf' = 4 \<and> take 1 buf' = [7] \<and> drop (1 + n) buf' = drop (1 + n) [7, 7, 7, 7]"
proof -
  have "valueType (azapZclAttrVal_t_create ZCL_DATATYPE_UINT16) = AZAP_INTEGER_VAL"
    using value_class_iff(1) [of ZCL_DATATYPE_UINT16] by (simp add: value_class_def integer_types_def)
  moreover have "valueSize (azapZclAttrVal_t_create ZCL_DATATYPE_UINT16) = 0"
    by (simp add: azapZclAttrVal_t_create_def azapZclAttrVal_t_setType_def azapZclAttrVal_t_init_def Let_def)
  ultimately have "attr_sendable (azapZclAttrVal_t_create ZCL_DATATYPE_UINT16)" by (simp add: attr_sendable_def)
  with attr_serialize_bounds [OF create_ok this, of 1 2 "[7, 7, 7, 7]"] show ?thesis by auto
qed

subsection \<open>Integers through the object\<close>

lemma set_integer:
  assumes "ty \<in> set integer_types" "integer_in_range ty v"
  shows "valueType (azapZclAttrVal_t_create ty) = AZAP_INTEGER_VAL"
    and "azapZclAttrVal_t_setIntegerValue (azapZclAttrVal_t_create ty) v
      = (azapZclAttrVal_t_create ty)\<lparr>attr_value := LongVal v\<rparr>"
  using assms value_class_iff(1) [of ty]
  by (simp_all add: azapZclAttrVal_t_setIntegerValue_def value_class_def)

lemma integer_not_unknown: "ty \<in> set integer_types \<Longrightarrow> ty \<noteq> ZCL_DATATYPE_UNKNOWN"
  by (auto simp: integer_types_def)

lemma integer_data_length:
  "ty \<in> set integer_types \<Longrightarrow> azapGetZclDataLength ty p = Some (of_nat (int_width ty))"
  by (erule integer_types_cases) (simp_all add: azapGetZclDataLength_def int_width_def)

lemma int_width_bounds: "0 < int_width ty \<and> int_width ty \<le> 6"
  by (simp add: int_width_def)

lemma integer_required_size:
  "zigbeeDataType a \<in> set integer_types \<Longrightarrow> required_size a = of_nat (int_width (zigbeeDataType a))"
  by (erule integer_types_cases) (simp_all add: required_size_def azapGetZclDataLength_def int_width_def)

lemma serialize_integer:
  assumes "ty \<in> set integer_types" "integer_in_range ty v"
    and "int_width ty \<le> unat len" "pos + int_width ty \<le> length buf"
  shows "azapZclAttrVal_t_serialize (azapZclAttrVal_t_setIntegerValue (azapZclAttrVal_t_create ty) v)
            (Some (buf, pos)) len
         = Some (azapZclAttrVal_t_setIntegerValue (azapZclAttrVal_t_create ty) v,
                 Some (take pos buf @ le_bytes (int_width ty) v @ drop (pos + int_width ty) buf, pos + int_width ty),
                 len - of_nat (int_width ty))"
proof -
  let ?a = "(azapZclAttrVal_t_create ty)\<lparr>attr_value := LongVal v\<rparr>"
  have "\<not> len < of_nat (int_width ty)"
    using assms(3) int_width_bounds [of ty] by (simp add: word_less_nat_alt unat_of_nat_u8 not_less)
  moreover have "azapZclAttrVal_t_serializeInteger ?a (buf, pos, len) = put_bytes (le_bytes (int_width ty) v) (buf, pos, len)"
    using serializeInteger_le_bytes [of ?a v] assms(1,2) by simp
  moreover have "put_bytes (le_bytes (int_width ty) v) (buf, pos, len)
      = Some (take pos buf @ le_bytes (int_width ty) v @ drop (pos + int_width ty) buf, pos + int_width ty,
              len - of_nat (int_width ty))"
    using assms(4) by (simp add: emit_in)
  ultimately show ?thesis
    using assms(1,2) integer_not_unknown integer_required_size [of ?a]
    by (simp add: set_integer serialize_unfold serialize_switch_def)
qed

lemma deserialize_integer:
  assumes "ty \<in> set integer_types" "integer_in_range ty v" "int_width ty \<le> unat len"
  shows "azapZclAttrVal_t_deserialize mallocOk (azapZclAttrVal_t_create ty)
            (Some (le_bytes (int_width ty) v @ rest)) len
         = Some ((azapZclAttrVal_t_create ty)\<lparr>attr_value := LongVal
                   (v - (if wide_unsigned ty then sign_loss v else 0))\<rparr>,
                 Some rest, len - of_nat (int_width ty))"
proof -
  have "\<not> len < of_nat (int_width ty)"
    using assms(3) int_width_bounds [of ty] by (simp add: word_less_nat_alt unat_of_nat_u8 not_less)
  then show ?thesis
    using assms(1,2) deserializeInteger_le_bytes [of "azapZclAttrVal_t_create ty" v rest len]
    by (simp add: azapZclAttrVal_t_deserialize_def integer_data_length set_integer deserialize_switch_def)
qed

lemma integer_through_wire:
  assumes "ty \<in> set integer_types" "integer_in_range ty v"
    and "int_width ty \<le> unat len" "pos + unat len \<le> length buf"
  shows "\<exists>a buf' b. azapZclAttrVal_t_serialize (azapZclAttrVal_t_setIntegerValue (azapZclAttrVal_t_create ty) v)
            (Some (buf, pos)) len = Some (a, Some (buf', pos + int_width ty), len - of_nat (int_width ty))
         \<and> azapZclAttrVal_t_deserialize mallocOk (azapZclAttrVal_t_create ty) (Some (drop pos buf')) len
            = Some (b, Some (drop (pos + int_width ty) buf'), len - of_nat (int_width ty))
         \<and> azapZclAttrVal_t_getIntegerValue b = Some (v - (if wide_unsigned ty then sign_loss v else 0))"
proof -
  let ?buf = "take pos buf @ le_bytes (int_width ty) v @ drop (pos + int_width ty) buf"
  from assms(3,4) have pos: "pos + int_width ty \<le> length buf" by simp
  then have "drop pos ?buf = le_bytes (int_width ty) v @ drop (pos + int_width ty) ?buf" by simp
  with serialize_integer [OF assms(1-3) pos]
    deserialize_integer [OF assms(1-3), of mallocOk "drop (pos + int_width ty) ?buf"]
  show ?thesis
    using set_integer(1) [OF assms(1,2)]
    by (intro exI [of _ "azapZclAttrVal_t_setIntegerValue (azapZclAttrVal_t_create ty) v"] exI [of _ ?buf]
        exI [of _ "(azapZclAttrVal_t_create ty)\<lparr>attr_value := LongVal
                   (v - (if wide_unsigned ty then sign_loss v else 0))\<rparr>"] conjI)
       (simp_all add: azapZclAttrVal_t_getIntegerValue_def)
qed


text \<open>C24: the encoding of integers. An integer attribute of any of the ten integer types, set to a
  value of its range, is serialized as the two's complement of the value, least significant byte
  first, on the width of the type, and nothing else of the buffer changes.\<close>

theorem attr_integer_on_wire:
  assumes "ty \<in> set integer_types" "integer_in_range ty v"
    and "int_width ty \<le> unat len" "pos + int_width ty \<le> length buf"
  shows "\<exists>a. azapZclAttrVal_t_serialize (azapZclAttrVal_t_setIntegerValue (azapZclAttrVal_t_create ty) v)
            (Some (buf, pos)) len
         = Some (a, Some (take pos buf @ le_bytes (int_width ty) v @ drop (pos + int_width ty) buf,
                          pos + int_width ty), len - of_nat (int_width ty))"
  using serialize_integer [OF assms] by blast

theorem attr_integer_on_wire_witness:
  "\<exists>a. azapZclAttrVal_t_serialize (azapZclAttrVal_t_setIntegerValue (azapZclAttrVal_t_create ZCL_DATATYPE_INT24) (- 2))
            (Some ([9, 9, 9, 9, 9], 1)) 3
         = Some (a, Some ([9, 0xFE, 0xFF, 0xFF, 9], 4), 0)"
proof -
  have "int_width ZCL_DATATYPE_INT24 = 3" by (simp add: int_width_def)
  moreover have "le_bytes 3 (- 2) = [0xFE, 0xFF, 0xFF]" by (simp add: le_bytes_numeral)
  ultimately show ?thesis
    using attr_integer_on_wire [of ZCL_DATATYPE_INT24 "- 2" 3 1 "[9, 9, 9, 9, 9]"]
    by (simp add: integer_types_def in_range_bounds)
qed

text \<open>C25: integers survive the radio. What \<open>azapZclAttrVal_t_setIntegerValue\<close> accepts for any of the
  ten integer types and \<open>azapZclAttrVal_t_serialize\<close> writes, \<open>azapZclAttrVal_t_deserialize\<close> reads back
  unchanged, leaving the read position behind it and the same remaining length; for the unsigned
  types of 32 bits and more this holds when bit 31 of the value is clear.\<close>

theorem attr_integer_roundtrip:
  assumes "ty \<in> set integer_types" "integer_in_range ty v"
    and "wide_unsigned ty \<Longrightarrow> even (v div 2 ^ 31)"
    and "int_width ty \<le> unat len" "pos + unat len \<le> length buf"
  shows "\<exists>a buf' b. azapZclAttrVal_t_serialize (azapZclAttrVal_t_setIntegerValue (azapZclAttrVal_t_create ty) v)
            (Some (buf, pos)) len = Some (a, Some (buf', pos + int_width ty), len - of_nat (int_width ty))
         \<and> azapZclAttrVal_t_deserialize mallocOk (azapZclAttrVal_t_create ty) (Some (drop pos buf')) len
            = Some (b, Some (drop (pos + int_width ty) buf'), len - of_nat (int_width ty))
         \<and> azapZclAttrVal_t_getIntegerValue b = Some v"
proof -
  have "(if wide_unsigned ty then sign_loss v else 0) = 0" using assms(3) by (simp add: sign_loss_def)
  with integer_through_wire [OF assms(1,2,4,5), of mallocOk] show ?thesis by simp
qed

theorem attr_integer_roundtrip_witness:
  "\<exists>a buf' b. azapZclAttrVal_t_serialize
       (azapZclAttrVal_t_setIntegerValue (azapZclAttrVal_t_create ZCL_DATATYPE_UINT40) 0xFF12345678)
       (Some ([1, 2, 3, 4, 5, 6], 1)) 5 = Some (a, Some (buf', 6), 0)
     \<and> azapZclAttrVal_t_deserialize True (azapZclAttrVal_t_create ZCL_DATATYPE_UINT40) (Some (drop 1 buf')) 5
       = Some (b, Some (drop 6 buf'), 0)
     \<and> azapZclAttrVal_t_getIntegerValue b = Some 0xFF12345678"
proof -
  have "int_width ZCL_DATATYPE_UINT40 = 5" by (simp add: int_width_def)
  then show ?thesis
    using attr_integer_roundtrip [of ZCL_DATATYPE_UINT40 "0xFF12345678" 5 1 "[1, 2, 3, 4, 5, 6]" True]
    by (simp add: integer_types_def in_range_bounds)
qed

text \<open>Large unsigned values come back wrong. For the unsigned types of 32, 40 and 48 bits, a value
  of the range with bit 31 set is read back \<open>2 ^ 32\<close> too small, because the byte shifted by 24 is an
  \<open>int\<close>; a 32-bit value even comes back negative.\<close>

theorem attr_wide_unsigned_loses:
  assumes "wide_unsigned ty" "integer_in_range ty v" "odd (v div 2 ^ 31)"
    and "int_width ty \<le> unat len" "pos + unat len \<le> length buf"
  shows "\<exists>a buf' b. azapZclAttrVal_t_serialize (azapZclAttrVal_t_setIntegerValue (azapZclAttrVal_t_create ty) v)
            (Some (buf, pos)) len = Some (a, Some (buf', pos + int_width ty), len - of_nat (int_width ty))
         \<and> azapZclAttrVal_t_deserialize mallocOk (azapZclAttrVal_t_create ty) (Some (drop pos buf')) len
            = Some (b, Some (drop (pos + int_width ty) buf'), len - of_nat (int_width ty))
         \<and> azapZclAttrVal_t_getIntegerValue b = Some (v - 2 ^ 32)"
proof -
  have "ty \<in> set integer_types" using assms(1) by (auto simp: wide_unsigned_def integer_types_def)
  from integer_through_wire [OF this assms(2,4,5), of mallocOk] assms(1,3) show ?thesis
    by (simp add: sign_loss_def)
qed

theorem attr_wide_unsigned_loses_witness:
  "\<exists>a buf' b. azapZclAttrVal_t_serialize
       (azapZclAttrVal_t_setIntegerValue (azapZclAttrVal_t_create ZCL_DATATYPE_UINT32) 0xFFFFFFFF)
       (Some ([1, 2, 3, 4], 0)) 4 = Some (a, Some (buf', 4), 0)
     \<and> azapZclAttrVal_t_deserialize True (azapZclAttrVal_t_create ZCL_DATATYPE_UINT32) (Some (drop 0 buf')) 4
       = Some (b, Some (drop 4 buf'), 0)
     \<and> azapZclAttrVal_t_getIntegerValue b = Some (- 1)"
proof -
  have "int_width ZCL_DATATYPE_UINT32 = 4" by (simp add: int_width_def)
  then show ?thesis
    using attr_wide_unsigned_loses [of ZCL_DATATYPE_UINT32 "0xFFFFFFFF" 4 0 "[1, 2, 3, 4]" True]
    by (simp add: wide_unsigned_def in_range_bounds)
qed

subsection \<open>Strings and raw values\<close>

text \<open>The contents of a string or raw value: the first \<open>valueSize\<close> bytes of its block.\<close>

fun u_contents :: "attr_u \<Rightarrow> nat \<Rightarrow> bytes" where
  "u_contents (StringVal (Some b)) n = take n b"
| "u_contents (RawVal (Some b)) n = take n b"
| "u_contents _ n = []"

definition contents :: "azapZclAttrVal_t \<Rightarrow> bytes" where
  "contents a = u_contents (attr_value a) (unat (valueSize a))"

definition is_block_value :: "azapZclAttrVal_t \<Rightarrow> bool" where
  "is_block_value a = (valueType a = AZAP_CHAR_STRING_VAL \<or> valueType a = AZAP_RAW_VAL)"

definition block_prefix :: "azapZclAttrVal_t \<Rightarrow> bytes" where
  "block_prefix a =
     (if zigbeeDataType a \<in> {ZCL_DATATYPE_CHAR_STR, ZCL_DATATYPE_OCTET_STR} then [valueSize a]
      else if zigbeeDataType a \<in> {ZCL_DATATYPE_LONG_CHAR_STR, ZCL_DATATYPE_LONG_OCTET_STR}
      then [valueSize a, 0] else [])"

lemma memcpy_from_contents:
  "block_ok k s n \<Longrightarrow> memcpy_from s n = Some bs \<Longrightarrow> bs = u_contents (StringVal s) n"
  "block_ok k s n \<Longrightarrow> memcpy_from s n = Some bs \<Longrightarrow> bs = u_contents (RawVal s) n"
  by (cases s; auto simp: memcpy_from_def memread_def split: if_splits)+

lemma serialize_block:
  assumes "attr_ok a" "attr_sendable a" "is_block_value a"
  shows "serialize_switch a (required_size a) c = map_option (Pair a) (put_bytes (block_prefix a @ contents a) c)"
proof (cases "valueType a = AZAP_RAW_VAL")
  case True
  have ty: "zigbeeDataType a \<notin> {ZCL_DATATYPE_CHAR_STR, ZCL_DATATYPE_LONG_CHAR_STR}"
    using attr_ok_types(2) [OF assms(1) True] by (auto simp: raw_types_def)
  from serializeRaw_emit [OF assms(1) True assms(2), of c] obtain bs r where
    r: "attr_value a = RawVal r" "memcpy_from r (unat (valueSize a)) = Some bs"
    "azapZclAttrVal_t_serializeRaw a (required_size a) c =
       put_bytes ((if zigbeeDataType a = ZCL_DATATYPE_OCTET_STR then [valueSize a]
              else if zigbeeDataType a = ZCL_DATATYPE_LONG_OCTET_STR then [valueSize a, 0] else []) @ bs) c" .
  have "block_ok 0 r (unat (valueSize a))" using attr_ok_members(6) [OF assms(1) True] r(1) by auto
  from memcpy_from_contents(2) [OF this r(2)] have "bs = contents a" by (simp add: contents_def r(1))
  with r(3) ty True show ?thesis by (simp add: serialize_switch_def block_prefix_def)
next
  case False
  with assms(3) have str: "valueType a = AZAP_CHAR_STRING_VAL" by (simp add: is_block_value_def)
  have ty: "zigbeeDataType a \<in> {ZCL_DATATYPE_CHAR_STR, ZCL_DATATYPE_LONG_CHAR_STR}"
    by (rule attr_ok_types(3) [OF assms(1) str])
  from serializeString_emit [OF assms(1) str, of c] obtain bs s where
    s: "attr_value a = StringVal s" "memcpy_from s (unat (valueSize a)) = Some bs"
    "azapZclAttrVal_t_serializeString a (required_size a) c =
       put_bytes ((if zigbeeDataType a = ZCL_DATATYPE_CHAR_STR then [valueSize a] else [valueSize a, 0]) @ bs) c" .
  have "block_ok 1 s (unat (valueSize a))" using attr_ok_members(4) [OF assms(1) str] s(1) by auto
  from memcpy_from_contents(1) [OF this s(2)] have "bs = contents a" by (simp add: contents_def s(1))
  with s(3) ty str show ?thesis by (auto simp: serialize_switch_def block_prefix_def)
qed

lemma length_contents:
  assumes "attr_ok a" "is_block_value a"
  shows "length (contents a) = unat (valueSize a)"
proof (cases "valueType a = AZAP_RAW_VAL")
  case True
  from attr_ok_members(6) [OF assms(1) True] obtain r where
    "attr_value a = RawVal r" "block_ok 0 r (unat (valueSize a))" by blast
  then show ?thesis by (cases r) (simp_all add: contents_def)
next
  case False
  with assms(2) have str: "valueType a = AZAP_CHAR_STRING_VAL" by (simp add: is_block_value_def)
  from attr_ok_members(4) [OF assms(1) str] obtain s where
    "attr_value a = StringVal s" "block_ok 1 s (unat (valueSize a))" by blast
  then show ?thesis by (cases s) (simp_all add: contents_def)
qed


lemma length_block:
  assumes "attr_ok a" "attr_sendable a" "is_block_value a"
  shows "length (block_prefix a @ contents a) = unat (required_size a)"
proof -
  have ty: "valueType a = AZAP_RAW_VAL \<or> zigbeeDataType a \<in> {ZCL_DATATYPE_CHAR_STR, ZCL_DATATYPE_LONG_CHAR_STR}"
    using assms attr_ok_types(3) by (auto simp: is_block_value_def)
  have sz: "unat (valueSize a) \<le> 253" using assms(2) by (simp add: attr_sendable_def)
  show ?thesis
  proof (cases "zigbeeDataType a \<in> {ZCL_DATATYPE_CHAR_STR, ZCL_DATATYPE_LONG_CHAR_STR,
                                    ZCL_DATATYPE_OCTET_STR, ZCL_DATATYPE_LONG_OCTET_STR}")
    case True
    then show ?thesis using sz length_contents [OF assms(1,3)]
      by (auto simp: block_prefix_def required_size_def azapGetZclDataLength_def unat_add_u8)
  next
    case False
    with ty assms(2) have "valueSize a = required_size a" by (simp add: attr_sendable_def)
    with False length_contents [OF assms(1,3)] show ?thesis by (simp add: block_prefix_def)
  qed
qed

text \<open>The length table on an encoded block gives its encoded size.\<close>

lemma block_data_length:
  assumes "attr_ok a" "attr_sendable a" "is_block_value a"
  shows "azapGetZclDataLength (zigbeeDataType a) (Some (block_prefix a @ contents a @ rest)) = Some (required_size a)"
proof (cases "zigbeeDataType a \<in> {ZCL_DATATYPE_CHAR_STR, ZCL_DATATYPE_LONG_CHAR_STR,
                                    ZCL_DATATYPE_OCTET_STR, ZCL_DATATYPE_LONG_OCTET_STR}")
  case True
  then show ?thesis
    by (auto simp: azapGetZclDataLength_def block_prefix_def required_size_def idx_Cons idx_def)
next
  case False
  have "zigbeeDataType a \<in> set raw_types"
    using False assms(1,3) attr_ok_types(2,3) by (auto simp: is_block_value_def)
  with False show ?thesis
    by (auto simp: raw_types_def azapGetZclDataLength_def required_size_def)
qed

lemma memread_exact: "memread 0 (length bs) (bs @ rest) = Some bs"
  by (simp add: memread_def)

text \<open>Both readers skip the prefix and copy \<open>valueSize\<close> bytes.\<close>

lemma skip_prefix:
  assumes "attr_ok a" "attr_sendable a" "is_block_value a"
    and pre: "p1 = (if zigbeeDataType a \<in> {ZCL_DATATYPE_CHAR_STR, ZCL_DATATYPE_OCTET_STR}
                    then (advance 1 (block_prefix a @ contents a @ rest, len), required_size a - 1)
                    else if zigbeeDataType a \<in> {ZCL_DATATYPE_LONG_CHAR_STR, ZCL_DATATYPE_LONG_OCTET_STR}
                    then (advance 2 (block_prefix a @ contents a @ rest, len), required_size a - 2)
                    else ((block_prefix a @ contents a @ rest, len), required_size a))"
  shows "p1 = ((contents a @ rest, len - required_size a + valueSize a), valueSize a)"
proof -
  consider "zigbeeDataType a \<in> {ZCL_DATATYPE_CHAR_STR, ZCL_DATATYPE_OCTET_STR}"
    | "zigbeeDataType a \<in> {ZCL_DATATYPE_LONG_CHAR_STR, ZCL_DATATYPE_LONG_OCTET_STR}"
    | (fixed) "zigbeeDataType a \<notin> {ZCL_DATATYPE_CHAR_STR, ZCL_DATATYPE_OCTET_STR, ZCL_DATATYPE_LONG_CHAR_STR,
         ZCL_DATATYPE_LONG_OCTET_STR}" by blast
  then show ?thesis
  proof cases
    case fixed
    with assms attr_ok_types(3) have "valueSize a = required_size a" by (auto simp: attr_sendable_def is_block_value_def)
    with fixed show ?thesis by (simp add: pre block_prefix_def)
  qed (auto simp: pre block_prefix_def required_size_def azapGetZclDataLength_def advance_def)
qed

lemma deserialize_block:
  assumes "attr_ok a" "attr_sendable a" "is_block_value a" "required_size a \<le> len"
    and "attr_ok b" "zigbeeDataType b = zigbeeDataType a"
  shows "\<exists>b'. azapZclAttrVal_t_deserialize True b (Some (block_prefix a @ contents a @ rest)) len
           = Some (b', Some rest, len - required_size a)
         \<and> contents b' = contents a \<and> valueSize b' = valueSize a \<and> attr_ok b'"
proof -
  let ?p = "block_prefix a @ contents a @ rest"
  have vt: "valueType b = valueType a" using assms(1,5,6) by (simp add: attr_ok_def)
  have known: "valueType b \<noteq> AZAP_UNKNOWN_VAL_TYPE" using assms(3) vt by (auto simp: is_block_value_def)
  have n: "unat (valueSize a) = length (contents a)" using length_contents [OF assms(1,3)] by simp
  have sw: "azapZclAttrVal_t_deserialize True b (Some ?p) len =
      map_option (\<lambda>(b1, p1, len1). (b1, Some p1, len1)) (deserialize_switch True b (required_size a) (?p, len))"
    using assms(4) known block_data_length [OF assms(1-3), of rest]
    by (cases "deserialize_switch True b (required_size a) (?p, len)")
       (auto simp: azapZclAttrVal_t_deserialize_def assms(6))
  define b' where "b' = b\<lparr>valueSize := valueSize a,
      attr_value := (if valueType a = AZAP_RAW_VAL then RawVal (Some (contents a))
                     else StringVal (Some (contents a @ [0])))\<rparr>"
  have "deserialize_switch True b (required_size a) (?p, len) = Some (b', rest, len - required_size a)"
  proof (cases "valueType a = AZAP_RAW_VAL")
    case True
    have raw: "zigbeeDataType a \<notin> {ZCL_DATATYPE_CHAR_STR, ZCL_DATATYPE_LONG_CHAR_STR}"
      using attr_ok_types(2) [OF assms(1) True] by (auto simp: raw_types_def)
    from attr_ok_members(6) [OF assms(5)] True vt obtain r where r: "attr_value b = RawVal r" by auto
    have pre: "(if zigbeeDataType b = ZCL_DATATYPE_OCTET_STR then (advance 1 (?p, len), required_size a - 1)
        else if zigbeeDataType b = ZCL_DATATYPE_LONG_OCTET_STR then (advance 2 (?p, len), required_size a - 2)
        else ((?p, len), required_size a))
      = ((contents a @ rest, len - required_size a + valueSize a), valueSize a)"
      using raw by (intro skip_prefix [OF assms(1-3)]) (simp add: assms(6))
    have "azapZclAttrVal_t_deserializeRaw True b (required_size a) (?p, len) = Some (b', rest, len - required_size a)"
      unfolding azapZclAttrVal_t_deserializeRaw_def pre using True vt
      by (simp add: r azapZclAttrVal_t_setRawValue_def n memread_exact advance_append b'_def)
         (simp add: n [symmetric])
    then show ?thesis using True vt by (simp add: deserialize_switch_def)
  next
    case False
    with assms(3) have str: "valueType a = AZAP_CHAR_STRING_VAL" by (simp add: is_block_value_def)
    have ty: "zigbeeDataType a \<in> {ZCL_DATATYPE_CHAR_STR, ZCL_DATATYPE_LONG_CHAR_STR}"
      by (rule attr_ok_types(3) [OF assms(1) str])
    from attr_ok_members(4) [OF assms(5)] str vt obtain s where s: "attr_value b = StringVal s" by auto
    have pre: "(if zigbeeDataType b = ZCL_DATATYPE_CHAR_STR then (advance 1 (?p, len), required_size a - 1)
        else if zigbeeDataType b = ZCL_DATATYPE_LONG_CHAR_STR then (advance 2 (?p, len), required_size a - 2)
        else ((?p, len), required_size a))
      = ((contents a @ rest, len - required_size a + valueSize a), valueSize a)"
      using ty by (intro skip_prefix [OF assms(1-3)]) (auto simp: assms(6))
    have "azapZclAttrVal_t_deserializeString True b (required_size a) (?p, len) = Some (b', rest, len - required_size a)"
      unfolding azapZclAttrVal_t_deserializeString_def pre using False
      by (simp add: s n memread_exact advance_append b'_def) (simp add: n [symmetric])
    then show ?thesis using str vt by (simp add: deserialize_switch_def)
  qed
  moreover have "contents b' = contents a" unfolding contents_def [of b'] by (simp add: b'_def n)
  moreover have "attr_ok b'" using assms(3,5) vt n by (auto simp: b'_def attr_ok_def is_block_value_def)
  ultimately show ?thesis using sw by (intro exI [of _ b']) (simp add: b'_def)
qed


text \<open>C26: strings and raw values survive the radio. A character string, an octet string or a raw value
  of a fixed-size type that is ready to be sent is serialized into \<open>*len\<close> free bytes and read back
  into any object of its type with the same contents and size; the reader stops where the writer
  stopped, with the same remaining length.\<close>

theorem attr_block_roundtrip:
  assumes "attr_ok a" "attr_sendable a" "is_block_value a"
    and "required_size a \<le> len" "pos + unat len \<le> length buf"
    and "attr_ok b" "zigbeeDataType b = zigbeeDataType a"
  shows "\<exists>buf' b'. azapZclAttrVal_t_serialize a (Some (buf, pos)) len
            = Some (a, Some (buf', pos + unat (required_size a)), len - required_size a)
         \<and> azapZclAttrVal_t_deserialize True b (Some (drop pos buf')) len
            = Some (b', Some (drop (pos + unat (required_size a)) buf'), len - required_size a)
         \<and> contents b' = contents a \<and> valueSize b' = valueSize a \<and> attr_ok b'"
proof -
  let ?bs = "block_prefix a @ contents a"
  let ?n = "unat (required_size a)"
  let ?buf = "take pos buf @ ?bs @ drop (pos + ?n) buf"
  have n: "length ?bs = ?n" by (rule length_block [OF assms(1-3)])
  have room: "pos + ?n \<le> length buf" using assms(4,5) by (simp add: word_le_nat_alt)
  have "zigbeeDataType a \<noteq> ZCL_DATATYPE_UNKNOWN"
    using assms(1,3) attr_ok_types(2,3) [OF assms(1)] by (auto simp: is_block_value_def raw_types_def)
  then have ser: "azapZclAttrVal_t_serialize a (Some (buf, pos)) len
      = Some (a, Some (?buf, pos + ?n), len - required_size a)"
    using assms(3,4) n room serialize_block [OF assms(1-3), of "(buf, pos, len)"]
      emit_in [of pos ?bs buf len]
    by (auto simp: serialize_unfold is_block_value_def not_less)
  have "drop pos ?buf = ?bs @ drop (pos + ?n) ?buf" using n room by simp
  with deserialize_block [OF assms(1-4,6,7), of "drop (pos + ?n) ?buf"] obtain b' where
    "azapZclAttrVal_t_deserialize True b (Some (drop pos ?buf)) len
       = Some (b', Some (drop (pos + ?n) ?buf), len - required_size a)"
    "contents b' = contents a" "valueSize b' = valueSize a" "attr_ok b'"
    by auto
  with ser show ?thesis by blast
qed


theorem attr_block_roundtrip_witness:
  "\<exists>buf' b'. azapZclAttrVal_t_serialize
        ((azapZclAttrVal_t_create ZCL_DATATYPE_CHAR_STR)\<lparr>attr_value := StringVal (Some [104, 105, 0]), valueSize := 2\<rparr>)
        (Some ([1, 2, 3, 4, 5], 1)) 4
      = Some ((azapZclAttrVal_t_create ZCL_DATATYPE_CHAR_STR)
                \<lparr>attr_value := StringVal (Some [104, 105, 0]), valueSize := 2\<rparr>, Some (buf', 4), 1)
     \<and> azapZclAttrVal_t_deserialize True (azapZclAttrVal_t_create ZCL_DATATYPE_CHAR_STR) (Some (drop 1 buf')) 4
      = Some (b', Some (drop 4 buf'), 1)
     \<and> contents b' = [104, 105]"
proof -
  let ?a = "(azapZclAttrVal_t_create ZCL_DATATYPE_CHAR_STR)
              \<lparr>attr_value := StringVal (Some [104, 105, 0]), valueSize := 2\<rparr>"
  have t: "valueType (azapZclAttrVal_t_create ZCL_DATATYPE_CHAR_STR) = AZAP_CHAR_STRING_VAL"
    using value_class_iff(3) [of ZCL_DATATYPE_CHAR_STR] by (simp add: value_class_def)
  have r: "required_size ?a = 3" by (simp add: required_size_def azapGetZclDataLength_def)
  have "attr_ok ?a" using t by (simp add: attr_ok_def value_class_def)
  moreover have "attr_sendable ?a" using t by (simp add: attr_sendable_def)
  moreover have "is_block_value ?a" using t by (simp add: is_block_value_def)
  ultimately show ?thesis
    using attr_block_roundtrip [of ?a 4 1 "[1, 2, 3, 4, 5]" "azapZclAttrVal_t_create ZCL_DATATYPE_CHAR_STR"] create_ok r
    by (auto simp: contents_def [of ?a])
qed

subsection \<open>Sizes at the edge\<close>

lemma minus_one_u8: "(- 1 :: u8) = 255" "unat (- 1 :: u8) = 255" "(256 :: u8) = 0"
  by (simp_all add: unsigned_minus_1_eq_mask mask_eq_exp_minus_1)

text \<open>C35: an invalid string length makes the reader leave the payload. The length byte 0xFF, ZigBee's mark
  of an invalid string, makes \<open>azapGetZclDataLength\<close> wrap to 0, which passes the test against
  \<open>*len\<close>; the reader then copies 255 bytes, whatever \<open>*len\<close> says. If the payload array ends
  before, the read is out of bounds.\<close>

theorem attr_invalid_string_overread:
  assumes "attr_ok b" "zigbeeDataType b \<in> {ZCL_DATATYPE_CHAR_STR, ZCL_DATATYPE_OCTET_STR}" "length rest < 255"
  shows "azapZclAttrVal_t_deserialize True b (Some (0xFF # rest)) len = None"
proof -
  have vt: "valueType b = (if zigbeeDataType b = ZCL_DATATYPE_CHAR_STR then AZAP_CHAR_STRING_VAL else AZAP_RAW_VAL)"
    using attr_ok_class [OF assms(1)] assms(2) value_class_iff(2,3) [of "zigbeeDataType b"]
    by (auto simp: raw_types_def)
  have "memread 0 255 rest = None" using assms(3) by (simp add: memread_def)
  then have "deserialize_switch True b 0 (0xFF # rest, len) = None"
    using assms(2) vt attr_ok_members(4,6) [OF assms(1)]
    by (auto simp: deserialize_switch_def azapZclAttrVal_t_deserializeString_def azapZclAttrVal_t_deserializeRaw_def
        azapZclAttrVal_t_setRawValue_def advance_def minus_one_u8(2))
  with vt assms(2) show ?thesis
    by (auto simp: azapZclAttrVal_t_deserialize_def azapGetZclDataLength_def idx_def minus_one_u8(3))
qed

theorem attr_invalid_string_overread_witness:
  "azapZclAttrVal_t_deserialize True (azapZclAttrVal_t_create ZCL_DATATYPE_OCTET_STR) (Some [0xFF, 1, 2]) 3 = None"
  by (rule attr_invalid_string_overread) (simp_all add: create_ok)

text \<open>The writer has the same wrap: a string of 255 bytes needs 256, which is 0 in 8 bits, passes the
  test for any \<open>*len\<close>, and is then written in full.\<close>

lemma attr_long_string_overflow:
  assumes "attr_ok a" "zigbeeDataType a \<in> {ZCL_DATATYPE_CHAR_STR, ZCL_DATATYPE_OCTET_STR}" "valueSize a = 255"
    and "length buf < pos + 256"
  shows "azapZclAttrVal_t_serialize a (Some (buf, pos)) len = None"
proof -
  have vt: "valueType a = (if zigbeeDataType a = ZCL_DATATYPE_CHAR_STR then AZAP_CHAR_STRING_VAL else AZAP_RAW_VAL)"
    using attr_ok_class [OF assms(1)] assms(2) value_class_iff(2,3) [of "zigbeeDataType a"]
    by (auto simp: raw_types_def)
  have r: "required_size a = 0" using assms(2,3) by (auto simp: required_size_def azapGetZclDataLength_def)
  obtain s where s: "attr_value a = (if zigbeeDataType a = ZCL_DATATYPE_CHAR_STR then StringVal s else RawVal s)"
    "\<exists>k. block_ok k s 255"
    using attr_ok_members(4,6) [OF assms(1)] vt assms(3) by (auto split: if_splits)
  then obtain bs where bs: "memcpy_from s 255 = Some bs" "length bs = 255" using memcpy_from_block by blast
  have "put_bytes ([255] @ bs) (buf, pos, len) = None" using assms(4) bs(2) by (intro emit_out) simp
  then have out: "do { c1 \<leftarrow> put_bytes [255] (buf, pos, len); put_bytes bs c1 } = None" by (simp only: emit_append)
  show ?thesis
    using assms(2) vt s(1) bs(1) out
    by (auto simp: serialize_unfold r serialize_switch_def azapZclAttrVal_t_serializeString_def
        azapZclAttrVal_t_serializeRaw_def minus_one_u8)
qed

text \<open>A raw value of a fixed-size type that was never set is read through the null pointer.\<close>

lemma attr_unset_raw_null:
  "0 < len \<Longrightarrow> azapZclAttrVal_t_serialize (azapZclAttrVal_t_create ZCL_DATATYPE_ENUM8) (Some (buf, pos)) len = None"
  by (simp add: serialize_unfold required_size_def azapGetZclDataLength_def serialize_switch_def
      azapZclAttrVal_t_create_def azapZclAttrVal_t_setType_def azapZclAttrVal_t_init_def raw_types_def Let_def
      azapZclAttrVal_t_serializeRaw_def memcpy_from_def word_less_nat_alt unat_gt_0)

text \<open>The destructor of a raw value frees nothing: its block is lost.\<close>

lemma attr_raw_leaks: "valueType a = AZAP_RAW_VAL \<Longrightarrow> azapZclAttrVal_t_newFree a = Some []"
  by (simp add: azapZclAttrVal_t_newFree_def)

text \<open>The string \<open>false\<close> sets a boolean attribute to true, and reports failure.\<close>

lemma attr_false_reads_true:
  "azapZclAttrVal_t_buildFromStringRep lg mallocOk (azapZclAttrVal_t_create ZCL_DATATYPE_BOOLEAN)
     (Some [102, 97, 108, 115, 101, 0])
   = Some (False, (azapZclAttrVal_t_create ZCL_DATATYPE_BOOLEAN)\<lparr>attr_value := BooleanVal True\<rparr>)"
  by (simp add: azapZclAttrVal_t_buildFromStringRep_def azapZclAttrVal_t_create_def azapZclAttrVal_t_setType_def
      raw_types_def Let_def)


subsection \<open>Every operation keeps a value in its type\<close>

text \<open>One call of an operation that changes the object, with any arguments a caller can pass.\<close>

inductive attr_step :: "azapZclAttrVal_t \<Rightarrow> azapZclAttrVal_t \<Rightarrow> bool" where
  step_boolean: "attr_step a (azapZclAttrVal_t_setBooleanValue a b)"
| step_float: "attr_step a (azapZclAttrVal_t_setFloatValue a d)"
| step_integer: "- (2 ^ 63) \<le> v \<Longrightarrow> v < 2 ^ 63 \<Longrightarrow> attr_step a (azapZclAttrVal_t_setIntegerValue a v)"
| step_string: "azapZclAttrVal_t_setStringValue mallocOk a val = Some a' \<Longrightarrow> attr_step a a'"
| step_dateTime: "azapZclAttrVal_t_setDateTimeValue a t msec = Some a' \<Longrightarrow> attr_step a a'"
| step_raw: "azapZclAttrVal_t_setRawValue mallocOk a val sz = Some a' \<Longrightarrow> attr_step a a'"
| step_build: "azapZclAttrVal_t_buildFromStringRep lg mallocOk a str = Some (r, a') \<Longrightarrow> attr_step a a'"
| step_serialize: "azapZclAttrVal_t_serialize a data len = Some (a', data', len') \<Longrightarrow> attr_step a a'"
| step_deserialize: "azapZclAttrVal_t_deserialize mallocOk a p len = Some (a', p', len') \<Longrightarrow> attr_step a a'"

inductive attr_reach :: "u8 \<Rightarrow> azapZclAttrVal_t \<Rightarrow> bool" for ty where
  reach_new: "attr_reach ty (azapZclAttrVal_t_create ty)"
| reach_step: "attr_reach ty a \<Longrightarrow> attr_step a a' \<Longrightarrow> attr_reach ty a'"

text \<open>A change that keeps the type and puts a member of the right class.\<close>

lemma attr_ok_change:
  assumes "attr_ok a" "zigbeeDataType a' = zigbeeDataType a" "valueType a' = valueType a"
    and "member_ok (valueType a) (attr_value a') (unat (valueSize a'))"
  shows "attr_ok a' \<and> zigbeeDataType a' = zigbeeDataType a"
  using assms by (simp add: attr_ok_def)

lemma setString_ok:
  assumes "attr_ok a" "azapZclAttrVal_t_setStringValue mallocOk a val = Some a'"
  shows "attr_ok a' \<and> zigbeeDataType a' = zigbeeDataType a"
  using assms
  by (intro attr_ok_change [OF assms(1)])
     (auto simp: azapZclAttrVal_t_setStringValue_def attr_ok_def Let_def dest: memread_SomeD
       split: if_splits option.splits Option.bind_splits)

lemma setRaw_ok:
  assumes "attr_ok a" "azapZclAttrVal_t_setRawValue mallocOk a val sz = Some a'"
  shows "attr_ok a' \<and> zigbeeDataType a' = zigbeeDataType a"
  using assms
  by (intro attr_ok_change [OF assms(1)])
     (auto simp: azapZclAttrVal_t_setRawValue_def attr_ok_def Let_def dest: memread_SomeD
       split: if_splits option.splits Option.bind_splits)

lemma setDateTime_ok:
  assumes "attr_ok a" "azapZclAttrVal_t_setDateTimeValue a t msec = Some a'"
  shows "attr_ok a' \<and> zigbeeDataType a' = zigbeeDataType a"
  using assms
  by (intro attr_ok_change [OF assms(1)])
     (auto simp: azapZclAttrVal_t_setDateTimeValue_def attr_ok_def Let_def
       split: if_splits Option.bind_splits)

lemma setSimple_ok:
  assumes "attr_ok a"
  shows "attr_ok (azapZclAttrVal_t_setBooleanValue a b)"
    and "attr_ok (azapZclAttrVal_t_setFloatValue a d)"
    and "- (2 ^ 63) \<le> v \<Longrightarrow> v < 2 ^ 63 \<Longrightarrow> attr_ok (azapZclAttrVal_t_setIntegerValue a v)"
    and "zigbeeDataType (azapZclAttrVal_t_setBooleanValue a b) = zigbeeDataType a"
    and "zigbeeDataType (azapZclAttrVal_t_setFloatValue a d) = zigbeeDataType a"
    and "zigbeeDataType (azapZclAttrVal_t_setIntegerValue a v) = zigbeeDataType a"
  using assms
  by (auto simp: azapZclAttrVal_t_setBooleanValue_def azapZclAttrVal_t_setFloatValue_def
      azapZclAttrVal_t_setIntegerValue_def attr_ok_def)

lemma scan_decimal_nonneg: "scan_decimal s = Scan_value (neg, m) \<Longrightarrow> 0 \<le> m"
  using digits_nonneg [of _ 0]
  by (auto simp: scan_decimal_def c_digits_value_def Let_def dest: set_takeWhileD split: if_splits)

lemma store_bounds:
  "0 \<le> m \<Longrightarrow> - (2 ^ 63) \<le> store_lld (neg, m) \<and> store_lld (neg, m) < 2 ^ 63"
  "- (2 ^ 63) \<le> store_llu (neg, m) \<and> store_llu (neg, m) < 2 ^ 63"
proof -
  show "0 \<le> m \<Longrightarrow> - (2 ^ 63) \<le> store_lld (neg, m) \<and> store_lld (neg, m) < 2 ^ 63"
    by (auto simp: store_lld_def)
  have "- (2 ^ 63) \<le> signed_take_bit 63 k \<and> signed_take_bit 63 k < 2 ^ 63" for k :: int
    using signed_take_bit_int_greater_eq_minus_exp [of 63 k] signed_take_bit_int_less_exp [of 63 k] by blast
  then show "- (2 ^ 63) \<le> store_llu (neg, m) \<and> store_llu (neg, m) < 2 ^ 63"
    unfolding store_llu_def prod.case by blast
qed

lemma build_ok:
  assumes "attr_ok a" "azapZclAttrVal_t_buildFromStringRep lg mallocOk a str = Some (r, a')"
  shows "attr_ok a' \<and> zigbeeDataType a' = zigbeeDataType a"
proof (rule attr_ok_change [OF assms(1)])
  have m: "member_ok (valueType a) (attr_value a) (unat (valueSize a))" using assms(1) unfolding attr_ok_def by blast
  note d = azapZclAttrVal_t_buildFromStringRep_def Let_def
  note sp = option.splits Option.bind_splits if_splits scan_result.splits
  show "zigbeeDataType a' = zigbeeDataType a" "valueType a' = valueType a"
    using assms(2) by (cases "valueType a"; auto simp: d split: sp)+
  show "member_ok (valueType a) (attr_value a') (unat (valueSize a'))"
  proof (cases "valueType a")
    case AZAP_INTEGER_VAL
    with assms(2) m show ?thesis
      using scan_decimal_nonneg store_bounds(1) store_bounds(2)
      by (auto simp: d split: sp)
  qed (use assms(2) m in \<open>auto simp: d split: sp\<close>)
qed


lemma byte_term_bounds:
  "0 \<le> push_bit n (uint (b :: u8) AND 0xFF) \<and> push_bit n (uint b AND 0xFF) < 2 ^ (n + 8)"
  "0 \<le> push_bit n (uint b AND 0x7F) \<and> push_bit n (uint b AND 0x7F) < 2 ^ (n + 8)"
  "0 \<le> uint b AND 0xFF \<and> uint b AND 0xFF < 2 ^ 8"
  "0 \<le> uint b AND 0x7F \<and> uint b AND 0x7F < 2 ^ 8"
proof -
  have "0 \<le> k \<Longrightarrow> k < 256 \<Longrightarrow> 0 \<le> push_bit n k \<and> push_bit n k < 2 ^ (n + 8)" for k :: int
    by (simp add: push_bit_eq_mult power_add)
  moreover show "0 \<le> uint b AND 0xFF \<and> uint b AND 0xFF < 2 ^ 8" by (simp add: int_and_byte)
  moreover show "0 \<le> uint b AND 0x7F \<and> uint b AND 0x7F < 2 ^ 8"
    using pos_mod_bound [of 128 "uint b"] by (simp add: int_and_7bits)
  ultimately show "0 \<le> push_bit n (uint b AND 0xFF) \<and> push_bit n (uint b AND 0xFF) < 2 ^ (n + 8)"
    "0 \<le> push_bit n (uint b AND 0x7F) \<and> push_bit n (uint b AND 0x7F) < 2 ^ (n + 8)" by simp_all
qed

lemma c_int_bounds: "- (2 ^ 31) \<le> c_int k \<and> c_int k < 2 ^ 31"
  unfolding c_int_def
  using signed_take_bit_int_greater_eq_minus_exp [of 31 k] signed_take_bit_int_less_exp [of 31 k] by blast

lemma deserializeInteger_ok:
  assumes "azapZclAttrVal_t_deserializeInteger a (p, len) = Some (a', s')"
  shows "zigbeeDataType a' = zigbeeDataType a \<and> valueType a' = valueType a
         \<and> member_ok AZAP_INTEGER_VAL (attr_value a') n"
proof -
  have bounds: "0 \<le> uint (p ! 0) AND 0xFF" "uint (p ! 0) AND 0xFF < 0x100"
    "0 \<le> uint (p ! 0) AND 0x7F" "uint (p ! 0) AND 0x7F < 0x100"
    "0 \<le> push_bit 8 (uint (p ! Suc 0) AND 0xFF)" "push_bit 8 (uint (p ! Suc 0) AND 0xFF) < 0x10000"
    "0 \<le> push_bit 8 (uint (p ! Suc 0) AND 0x7F)" "push_bit 8 (uint (p ! Suc 0) AND 0x7F) < 0x10000"
    "0 \<le> push_bit 16 (uint (p ! 2) AND 0xFF)" "push_bit 16 (uint (p ! 2) AND 0xFF) < 0x1000000"
    "0 \<le> push_bit 16 (uint (p ! 2) AND 0x7F)" "push_bit 16 (uint (p ! 2) AND 0x7F) < 0x1000000"
    "0 \<le> push_bit 24 (uint (p ! 3) AND 0x7F)" "push_bit 24 (uint (p ! 3) AND 0x7F) < 0x100000000"
    "0 \<le> push_bit 32 (uint (p ! 4) AND 0xFF)" "push_bit 32 (uint (p ! 4) AND 0xFF) < 0x10000000000"
    "0 \<le> push_bit 40 (uint (p ! 5) AND 0xFF)" "push_bit 40 (uint (p ! 5) AND 0xFF) < 0x1000000000000"
    "- 0x80000000 \<le> c_int (push_bit 24 (uint (p ! 3) AND 0xFF))"
    "c_int (push_bit 24 (uint (p ! 3) AND 0xFF)) < 0x80000000"
    using byte_term_bounds(3,4) [of "p ! 0"] byte_term_bounds(1,2) [of 8 "p ! Suc 0"]
      byte_term_bounds(1,2) [of 16 "p ! 2"] byte_term_bounds(2) [of 24 "p ! 3"]
      byte_term_bounds(1) [of 32 "p ! 4"] byte_term_bounds(1) [of 40 "p ! 5"]
      c_int_bounds [of "push_bit 24 (uint (p ! 3) AND 0xFF)"]
    by (simp_all del: push_bit_and)
  show ?thesis
    using assms
    by (auto simp: azapZclAttrVal_t_deserializeInteger_def Let_def idx_def simp del: push_bit_and
        split: if_splits; use bounds in linarith)
qed


lemma deserializeString_ok:
  assumes "azapZclAttrVal_t_deserializeString mallocOk a sz s = Some (a', s')"
  shows "zigbeeDataType a' = zigbeeDataType a \<and> valueType a' = valueType a
         \<and> member_ok AZAP_CHAR_STRING_VAL (attr_value a') (unat (valueSize a'))"
  using assms
  by (auto simp: azapZclAttrVal_t_deserializeString_def case_prod_beta Let_def dest: memread_SomeD
      split: if_splits Option.bind_splits)

lemma deserializeSimple_ok:
  "azapZclAttrVal_t_deserializeBoolean a s = Some (a', s') \<Longrightarrow>
     zigbeeDataType a' = zigbeeDataType a \<and> valueType a' = valueType a
     \<and> member_ok AZAP_BOOLEAN_VAL (attr_value a') n"
  "azapZclAttrVal_t_deserializeFloat a s = Some (a', s') \<Longrightarrow>
     zigbeeDataType a \<in> {ZCL_DATATYPE_SEMI_PREC, ZCL_DATATYPE_SINGLE_PREC, ZCL_DATATYPE_DOUBLE_PREC} \<Longrightarrow>
     zigbeeDataType a' = zigbeeDataType a \<and> valueType a' = valueType a
     \<and> member_ok AZAP_FLOAT_VAL (attr_value a') n"
  "azapZclAttrVal_t_deserializeDateTime a s = Some (a', s') \<Longrightarrow> valueType a = AZAP_DATE_TIME_VAL \<Longrightarrow>
     zigbeeDataType a' = zigbeeDataType a \<and> valueType a' = valueType a
     \<and> member_ok AZAP_DATE_TIME_VAL (attr_value a') n"
    apply (auto simp: azapZclAttrVal_t_deserializeBoolean_def split: Option.bind_splits)[1]
   apply (auto simp: azapZclAttrVal_t_deserializeFloat_def Let_def split: if_splits Option.bind_splits)[1]
  apply (auto simp: azapZclAttrVal_t_deserializeDateTime_def azapZclAttrVal_t_setDateTimeValue_def Let_def
      split: if_splits Option.bind_splits)[1]
  done

lemma deserializeRaw_ok:
  assumes "attr_ok a" "azapZclAttrVal_t_deserializeRaw mallocOk a sz s = Some (a', s')"
  shows "attr_ok a' \<and> zigbeeDataType a' = zigbeeDataType a"
  using assms setRaw_ok [OF assms(1)]
  by (auto simp: azapZclAttrVal_t_deserializeRaw_def case_prod_beta Let_def split: if_splits Option.bind_splits)

lemma deserialize_ok:
  assumes "attr_ok a" "azapZclAttrVal_t_deserialize mallocOk a data len = Some (a', data', len')"
  shows "attr_ok a' \<and> zigbeeDataType a' = zigbeeDataType a"
proof -
  have "a' = a \<or> (\<exists>sz s s'. deserialize_switch mallocOk a sz s = Some (a', s'))"
    using assms(2)
    by (auto simp: azapZclAttrVal_t_deserialize_def split: option.splits if_splits Option.bind_splits)
  then show ?thesis
  proof (elim disjE exE)
    fix sz s s' assume sw: "deserialize_switch mallocOk a sz s = Some (a', s')"
    show ?thesis
    proof (cases "valueType a")
      case AZAP_RAW_VAL
      with sw have "azapZclAttrVal_t_deserializeRaw mallocOk a sz s = Some (a', s')" by (simp add: deserialize_switch_def)
      then show ?thesis by (rule deserializeRaw_ok [OF assms(1)])
    next
      case AZAP_INTEGER_VAL
      with sw have "azapZclAttrVal_t_deserializeInteger a (fst s, snd s) = Some (a', s')" by (simp add: deserialize_switch_def)
      from deserializeInteger_ok [OF this] AZAP_INTEGER_VAL show ?thesis
        by (intro attr_ok_change [OF assms(1)]) (simp_all del: member_ok.simps)
    next
      case AZAP_CHAR_STRING_VAL
      with sw have "azapZclAttrVal_t_deserializeString mallocOk a sz s = Some (a', s')" by (simp add: deserialize_switch_def)
      from deserializeString_ok [OF this] AZAP_CHAR_STRING_VAL show ?thesis
        by (intro attr_ok_change [OF assms(1)]) simp_all
    next
      case AZAP_FLOAT_VAL
      with sw have "azapZclAttrVal_t_deserializeFloat a s = Some (a', s')" by (simp add: deserialize_switch_def)
      from deserializeSimple_ok(2) [OF this attr_ok_types(5) [OF assms(1) AZAP_FLOAT_VAL]] AZAP_FLOAT_VAL
      show ?thesis by (intro attr_ok_change [OF assms(1)]) simp_all
    next
      case AZAP_BOOLEAN_VAL
      with sw have "azapZclAttrVal_t_deserializeBoolean a s = Some (a', s')" by (simp add: deserialize_switch_def)
      from deserializeSimple_ok(1) [OF this] AZAP_BOOLEAN_VAL show ?thesis
        by (intro attr_ok_change [OF assms(1)]) simp_all
    next
      case AZAP_DATE_TIME_VAL
      with sw have "azapZclAttrVal_t_deserializeDateTime a s = Some (a', s')" by (simp add: deserialize_switch_def)
      from deserializeSimple_ok(3) [OF this AZAP_DATE_TIME_VAL] AZAP_DATE_TIME_VAL show ?thesis
        by (intro attr_ok_change [OF assms(1)]) simp_all
    qed (use sw assms(1) in \<open>simp add: deserialize_switch_def\<close>)
  qed (use assms(1) in simp)
qed

lemma serialize_ok:
  assumes "attr_ok a" "azapZclAttrVal_t_serialize a data len = Some (a', data', len')"
  shows "attr_ok a' \<and> zigbeeDataType a' = zigbeeDataType a"
proof -
  have "a' = a \<or> (\<exists>t. valueType a = AZAP_DATE_TIME_VAL \<and> a' = a\<lparr>attr_value := DateTimeVal t\<rparr>)"
  proof (cases data)
    case None
    with assms(2) show ?thesis by (simp add: azapZclAttrVal_t_serialize_def)
  next
    case (Some d)
    with assms(2) show ?thesis
      by (cases d; cases "valueType a")
         (auto simp: serialize_unfold serialize_switch_def azapZclAttrVal_t_serializeDateTime_def Let_def
           timegm_def split: if_splits Option.bind_splits)
  qed
  then show ?thesis using assms(1) by (auto simp: attr_ok_def)
qed

lemma attr_step_ok: "attr_step a a' \<Longrightarrow> attr_ok a \<Longrightarrow> attr_ok a' \<and> zigbeeDataType a' = zigbeeDataType a"
  by (induction rule: attr_step.induct)
     (auto dest: setString_ok setDateTime_ok setRaw_ok build_ok serialize_ok deserialize_ok
       simp: setSimple_ok simp del: power_numeral)

text \<open>C22: an attribute value never leaves its type. Whatever sequence of setters, reads from a string,
  serializations and deserializations is applied to a new object, and whatever the arguments, the
  object keeps its data type, the union holds the member that the data type calls for, a heap
  block has the recorded size, and so every getter has a defined result.\<close>

theorem attr_val_stays_typed:
  assumes "attr_reach ty a"
  shows "attr_ok a \<and> zigbeeDataType a = ty
         \<and> azapZclAttrVal_t_getBooleanValue a \<noteq> None \<and> azapZclAttrVal_t_getFloatValue a \<noteq> None
         \<and> azapZclAttrVal_t_getIntegerValue a \<noteq> None \<and> azapZclAttrVal_t_getStringValue a \<noteq> None
         \<and> azapZclAttrVal_t_getDateTimeValue a \<noteq> None \<and> azapZclAttrVal_t_getRawValue a \<noteq> None"
proof -
  have ok: "attr_ok a \<and> zigbeeDataType a = ty"
    using assms by induction (use create_ok attr_step_ok in auto)
  then show ?thesis
    using attr_ok_members [of a]
    by (auto simp: azapZclAttrVal_t_getBooleanValue_def azapZclAttrVal_t_getFloatValue_def
        azapZclAttrVal_t_getIntegerValue_def azapZclAttrVal_t_getStringValue_def
        azapZclAttrVal_t_getDateTimeValue_def azapZclAttrVal_t_getRawValue_def)
qed

theorem attr_val_stays_typed_witness:
  "attr_ok (azapZclAttrVal_t_setIntegerValue (azapZclAttrVal_t_create ZCL_DATATYPE_INT8) 5)"
proof -
  have "attr_reach ZCL_DATATYPE_INT8 (azapZclAttrVal_t_setIntegerValue (azapZclAttrVal_t_create ZCL_DATATYPE_INT8) 5)"
    by (rule reach_step [OF reach_new step_integer]) simp_all
  then show ?thesis using attr_val_stays_typed by blast
qed

end
