(* ===== verification/Attr_Time.thy ===== *)
theory Attr_Time
  imports Attr_Codec
begin

section \<open>Dates and floating-point attribute values\<close>

text \<open>
  The round trips of the calendar functions and of the UTC attribute, and what happens to
  floating-point values on the wire: single- and double-precision patterns, the semi-precision
  conversion and where it fails.
\<close>

subsection \<open>Calendar\<close>

lemma div_step: "0 < c \<Longrightarrow> (y :: int) div c - (y - 1) div c = (if y mod c = 0 then 1 else 0)"
proof -
  assume c: "0 < c"
  show ?thesis
  proof (cases "y mod c = 0")
    case True
    then obtain k where k: "y = c * k" by blast
    have "(c * k - 1) div c = k - 1"
      using c div_pos_pos_trivial [of "c - 1" c] div_mult_self2 [of c "c - 1" "k - 1"]
      by (simp add: algebra_simps)
    with k c show ?thesis by simp
  next
    case False
    have "0 < y mod c" using False c pos_mod_sign [of c y] by linarith
    moreover have "y - 1 = c * (y div c) + (y mod c - 1)" using mult_div_mod_eq [of c y] by simp
    moreover have "y mod c - 1 < c" using c pos_mod_bound [of c y] by linarith
    ultimately have "(y - 1) div c = y div c" by (intro int_div_pos_eq) simp_all
    with False show ?thesis by simp
  qed
qed

lemma leap_arith:
  fixes a b c :: int
  assumes "a - a' = (if P then 1 else 0)" "b - b' = (if Q then 1 else 0)" "c - c' = (if R then 1 else 0)"
    and "Q \<Longrightarrow> P" "R \<Longrightarrow> Q"
  shows "365 * (y + 1 - e) + (a - b + c) - k
         = 365 * (y - e) + (a' - b' + c') - k + (if P \<and> (\<not> Q \<or> R) then 366 else 365)"
  using assms by (cases P; cases Q; cases R) simp_all

lemma days_before_year_Suc: "days_before_year (y + 1) = days_before_year y + year_days y"
proof -
  have "y mod 100 = 0 \<Longrightarrow> y mod 4 = 0" "y mod 400 = 0 \<Longrightarrow> y mod 100 = 0"
    using dvd_trans [of 4 100 y] dvd_trans [of 100 400 y] by (simp_all add: mod_eq_0_iff_dvd)
  from leap_arith [OF div_step [OF zero_less_numeral] div_step [OF zero_less_numeral]
      div_step [OF zero_less_numeral] this, where y = y and e = 1970 and k = "leaps_before 1970"]
  show ?thesis
    unfolding days_before_year_def leaps_before_def [of y] leaps_before_def [of "y + 1"]
      year_days_def leap_year_def add_diff_cancel_right' .
qed

lemma split_year_correct:
  "split_year y d = (y', d') \<Longrightarrow>
   days_before_year y' + d' = days_before_year y + d \<and> 0 \<le> d' \<and> d' < year_days y'"
proof (induction y d rule: split_year.induct)
  case (1 y d)
  show ?case
  proof (cases "d < 0")
    case True
    with 1 have "split_year (y - 1) (d + year_days (y - 1)) = (y', d')" by (simp add: split_year.simps [of y])
    from "1.IH"(1) [OF True this] days_before_year_Suc [of "y - 1"] show ?thesis by simp
  next
    case nonneg: False
    show ?thesis
    proof (cases "year_days y \<le> d")
      case True
      with nonneg 1 have "split_year (y + 1) (d - year_days y) = (y', d')" by (simp add: split_year.simps [of y])
      from "1.IH"(2) [OF nonneg True this] days_before_year_Suc [of y] show ?thesis by simp
    next
      case False
      with nonneg "1.prems" show ?thesis by (simp add: split_year.simps [of y])
    qed
  qed
qed

lemma split_month_correct:
  assumes "split_month m ls d = (m', d')" "0 \<le> d" "d < sum_list ls"
  shows "m \<le> m' \<and> m' < m + int (length ls) \<and> 0 \<le> d' \<and> d = sum_list (take (nat (m' - m)) ls) + d'"
  using assms
proof (induction ls arbitrary: m d)
  case (Cons l ls)
  show ?case
  proof (cases "d < l")
    case False
    with Cons.prems have "split_month (m + 1) ls (d - l) = (m', d')" by simp
    from Cons.IH [OF this] False Cons.prems have
      ih: "m + 1 \<le> m'" "m' < m + 1 + int (length ls)" "0 \<le> d'"
        "d - l = sum_list (take (nat (m' - (m + 1))) ls) + d'" by auto
    moreover have "nat (m' - m) = Suc (nat (m' - (m + 1)))" using ih(1) by simp
    ultimately show ?thesis by simp
  qed (use Cons.prems in auto)
qed simp

lemma sum_month_days: "sum_list (month_days y) = year_days y"
  by (simp add: month_days_def year_days_def)

lemma recompose:
  fixes t s q r h h' m d d1 :: int
  assumes "d1 + m1 + md = d" "h' = h" "d * 86400 + s = t" "q * 60 + r = s" "h * 60 + m = q"
  shows "(d1 + m1 + (md + 1) - 1) * 86400 + h' * 3600 + m * 60 + r = t"
  using assms by simp

lemma timegm_gmtime: "timegm_secs (gmtime t) = t"
proof -
  obtain y yd where y: "split_year 1970 (t div 86400) = (y, yd)" by fastforce
  obtain m md where m: "split_month 0 (month_days y) yd = (m, md)" by fastforce
  have sy: "days_before_year y + yd = t div 86400" "0 \<le> yd" "yd < year_days y"
    using split_year_correct [OF y] by (simp_all add: days_before_year_def)
  have "length (month_days y) = 12" by (simp add: month_days_def)
  with split_month_correct [OF m] sy have
    sm: "0 \<le> m" "m < 12" "yd = days_before_month y m + md"
    by (auto simp: sum_month_days days_before_month_def)
  have "timegm_secs (gmtime t) = (days_before_year y + days_before_month y m + (md + 1) - 1) * 86400
      + t mod 86400 div 3600 * 3600 + t mod 86400 div 60 mod 60 * 60 + t mod 86400 mod 60"
    unfolding gmtime_def timegm_secs_def y m Let_def prod.case using sm(1,2) by simp
  also have "\<dots> = t"
  proof (rule recompose)
    show "days_before_year y + days_before_month y m + md = t div 86400" using sy(1) sm(3) by simp
    show "t mod 86400 div 3600 = t mod 86400 div 60 div 60" using zdiv_zmult2_eq [of 60 "t mod 86400" 60] by simp
  qed (rule div_mult_mod_eq)+
  finally show ?thesis .
qed


subsection \<open>The UTC attribute\<close>

lemma le_bytes_add_multiple: "le_bytes n (v + 256 ^ n * k) = le_bytes n v"
proof (induction n arbitrary: v)
  case (Suc n)
  have "(word_of_int (v + 256 * (256 ^ n * k)) :: u8) = word_of_int v"
    by (simp add: minus_one_u8(3))
  moreover have "(v + 256 * (256 ^ n * k)) div 256 = v div 256 + 256 ^ n * k" by simp
  ultimately show ?case using Suc [of "v div 256"] by (simp only: le_bytes.simps power_Suc mult.assoc)
qed simp

lemma le_bytes_surj: "\<exists>v. le_bytes (length bs) v = bs \<and> 0 \<le> v \<and> v < 256 ^ length bs"
proof (induction bs)
  case (Cons b bs)
  then obtain v where v: "le_bytes (length bs) v = bs" "0 \<le> v" "v < 256 ^ length bs" by blast
  have b: "0 \<le> uint b" "uint b < 256" by (fact uint_u8_bounds)+
  have "le_bytes (Suc (length bs)) (uint b + 256 * v) = b # bs"
  proof -
    have "(word_of_int (uint b + 256 * v) :: u8) = b"
      by (simp add: minus_one_u8(3))
    moreover have "(uint b + 256 * v) div 256 = v" using b by simp
    ultimately show ?thesis using v(1) by simp
  qed
  moreover have "0 \<le> uint b + 256 * v \<and> uint b + 256 * v < 256 ^ Suc (length bs)" using b v(2,3) by simp
  ultimately show ?case by (intro exI [of _ "uint b + 256 * v"]) simp
qed (intro exI [of _ 0], simp)

lemma le_bytes_sign_loss: "le_bytes 4 (v - sign_loss v) = le_bytes 4 v"
  using le_bytes_add_multiple [of 4 v "- 1"] by (simp add: sign_loss_def)

lemma deserialize_utc:
  assumes "attr_ok a" "zigbeeDataType a = ZCL_DATATYPE_UTC" "0 \<le> v" "v < 2 ^ 32" "4 \<le> len"
  shows "\<exists>t. azapZclAttrVal_t_deserialize mallocOk a (Some (le_bytes 4 v @ rest)) len
          = Some (a\<lparr>attr_value := DateTimeVal t\<rparr>, Some rest, len - 4)
         \<and> dateTime t = gmtime (ZIGBEE_EPOCH + (v - sign_loss v))"
proof -
  have vt: "valueType a = AZAP_DATE_TIME_VAL"
    using attr_ok_class [OF assms(1)] assms(2) value_class_iff(6) [of ZCL_DATATYPE_UTC] by simp
  have secs: "ZIGBEE_EPOCH + v mod 256 + push_bit 8 (v div 256 mod 256) + push_bit 16 (v div 65536 mod 256)
      + c_int (push_bit 24 (v div 16777216 mod 256)) = ZIGBEE_EPOCH + (v - sign_loss v)"
  proof -
    have chain: "e + a0 + a1 + a2 + a3 = e + (w - l)" if "a0 + a1 = s1" "s1 + a2 = s2" "s2 + a3 = w - l"
      for e a0 a1 a2 a3 s1 s2 w l :: int using that by simp
    have "v mod 4294967296 = v" using assms(3,4) by simp
    with chain [OF low_bytes(1,2,5), of ZIGBEE_EPOCH v] show ?thesis by (simp only:)
  qed
  show ?thesis
    using assms(5) vt
    by (intro exI [of _ "dateTime_zero\<lparr>dateTime := gmtime (ZIGBEE_EPOCH + (v - sign_loss v)), mseconds := 0\<rparr>"])
       (simp add: azapZclAttrVal_t_deserialize_def deserialize_switch_def assms(2) secs azapGetZclDataLength_def
        azapZclAttrVal_t_deserializeDateTime_def le_bytes_numeral idx_Cons uint_word_of_int_u8 int_and_byte
        azapZclAttrVal_t_setDateTimeValue_def advance_def not_less del: push_bit_and)
qed

lemma serialize_utc:
  assumes "valueType a = AZAP_DATE_TIME_VAL" "zigbeeDataType a = ZCL_DATATYPE_UTC"
    and "attr_value a = DateTimeVal t" "dateTime t = gmtime (ZIGBEE_EPOCH + k)"
    and "4 \<le> len" "pos + 4 \<le> length buf"
  shows "\<exists>a'. azapZclAttrVal_t_serialize a (Some (buf, pos)) len
          = Some (a', Some (take pos buf @ le_bytes 4 k @ drop (pos + 4) buf, pos + 4), len - 4)"
proof -
  have "\<exists>a'. azapZclAttrVal_t_serializeDateTime a (buf, pos, len) = map_option (Pair a') (put_bytes (le_bytes 4 k) (buf, pos, len))"
    by (simp add: azapZclAttrVal_t_serializeDateTime_def assms(2-4) timegm_def timegm_gmtime bind_pair
        le_bytes_numeral int_and_byte int_byte_at del: drop_bit_and) blast
  moreover have "put_bytes (le_bytes 4 k) (buf, pos, len)
      = Some (take pos buf @ le_bytes 4 k @ drop (pos + 4) buf, pos + 4, len - 4)"
    using assms(6) by (simp add: emit_in)
  ultimately show ?thesis
    using assms(1,2,5)
    by (auto simp: serialize_unfold serialize_switch_def required_size_def azapGetZclDataLength_def not_less)
qed

text \<open>Time stamps survive a relay. Any four bytes of a UTC attribute, read into an object, give the
  calendar time of that many seconds after the ZigBee epoch (2000-01-01), less \<open>2 ^ 32\<close> seconds when
  bit 31 is set, because the byte shifted by 24 is an \<open>int\<close>; serialized again they give the same four
  bytes.\<close>

theorem attr_utc_roundtrip:
  assumes "attr_ok a" "zigbeeDataType a = ZCL_DATATYPE_UTC" "length bs = 4" "4 \<le> len"
    and "4 \<le> len'" "pos + 4 \<le> length buf"
  shows "\<exists>a1 a2 s. azapZclAttrVal_t_deserialize mallocOk a (Some (bs @ rest)) len = Some (a1, Some rest, len - 4)
         \<and> bs = le_bytes 4 s \<and> 0 \<le> s \<and> s < 2 ^ 32
         \<and> azapZclAttrVal_t_getDateTimeValue a1 = Some (Some (gmtime (ZIGBEE_EPOCH + s - sign_loss s)))
         \<and> azapZclAttrVal_t_serialize a1 (Some (buf, pos)) len'
           = Some (a2, Some (take pos buf @ bs @ drop (pos + 4) buf, pos + 4), len' - 4)"
proof -
  have vt: "valueType a = AZAP_DATE_TIME_VAL"
    using attr_ok_class [OF assms(1)] assms(2) value_class_iff(6) [of ZCL_DATATYPE_UTC] by simp
  from le_bytes_surj [of bs] assms(3) obtain s where s: "le_bytes 4 s = bs" "0 \<le> s" "s < 2 ^ 32" by auto
  from deserialize_utc [OF assms(1,2) s(2,3) assms(4), of mallocOk rest] s(1) obtain t where
    t: "azapZclAttrVal_t_deserialize mallocOk a (Some (bs @ rest)) len
        = Some (a\<lparr>attr_value := DateTimeVal t\<rparr>, Some rest, len - 4)"
      "dateTime t = gmtime (ZIGBEE_EPOCH + (s - sign_loss s))" by auto
  from serialize_utc [of "a\<lparr>attr_value := DateTimeVal t\<rparr>", OF _ _ _ t(2) assms(5,6)] vt assms(2) s(1)
  obtain a2 where "azapZclAttrVal_t_serialize (a\<lparr>attr_value := DateTimeVal t\<rparr>) (Some (buf, pos)) len'
      = Some (a2, Some (take pos buf @ bs @ drop (pos + 4) buf, pos + 4), len' - 4)"
    by (auto simp: le_bytes_sign_loss)
  moreover have "azapZclAttrVal_t_getDateTimeValue (a\<lparr>attr_value := DateTimeVal t\<rparr>)
      = Some (Some (gmtime (ZIGBEE_EPOCH + s - sign_loss s)))"
    using vt t(2) by (simp add: azapZclAttrVal_t_getDateTimeValue_def add_diff_eq)
  ultimately show ?thesis using t(1) s by blast
qed

theorem attr_utc_roundtrip_witness:
  "\<exists>a1 a2. azapZclAttrVal_t_deserialize True (azapZclAttrVal_t_create ZCL_DATATYPE_UTC) (Some [1, 2, 3, 0x84]) 4
       = Some (a1, Some [], 0)
     \<and> azapZclAttrVal_t_serialize a1 (Some ([0, 0, 0, 0], 0)) 4 = Some (a2, Some ([1, 2, 3, 0x84], 4), 0)"
  using attr_utc_roundtrip [of "azapZclAttrVal_t_create ZCL_DATATYPE_UTC" "[1, 2, 3, 0x84]" 4 4 0 "[0, 0, 0, 0]" True "[]"]
  by (auto simp: create_ok)


subsection \<open>Semi-precision values\<close>

lemma nat_log2_eq: "2 ^ k \<le> n \<Longrightarrow> n < 2 ^ Suc k \<Longrightarrow> nat_log2 n = k"
proof (induction k arbitrary: n)
  case 0
  then show ?case by (simp add: nat_log2.simps)
next
  case (Suc k)
  then have "nat_log2 (n div 2) = k" by (intro Suc.IH) auto
  moreover have "\<not> n < 2"
  proof -
    have "(1 :: nat) \<le> 2 ^ k" by simp
    with Suc.prems(1) show ?thesis unfolding power_Suc by linarith
  qed
  ultimately show ?case by (simp add: nat_log2.simps [of n])
qed

text \<open>The double that the reader makes of a normal semi-precision number with sign \<open>s\<close>, exponent \<open>e\<close>
  and mantissa \<open>m\<close>, its single-precision pattern, and the bits the writer makes of it.\<close>

lemma double_of_semi:
  assumes "m < 1024" "1 \<le> e" "e \<le> 30"
  shows "double_of_scaled (1024 + m) (int e - 25) = (e + 1008) * 2 ^ 52 + m * 2 ^ 42"
proof -
  have "nat_log2 (1024 + m) = 10" using assms(1) by (intro nat_log2_eq) simp_all
  then show ?thesis using assms(2,3) by (simp add: double_of_scaled_def nat_add_distrib)
qed


lemma hi_lo: "x < c \<Longrightarrow> (k * c + x) div c = k" "x < c \<Longrightarrow> (k * c + x) mod c = x" for k c x :: nat
  by simp_all

lemma unat_of_nat_64: "N < 2 ^ 64 \<Longrightarrow> unat (of_nat N :: 64 word) = N"
  by (simp add: unat_of_nat take_bit_nat_eq_self)

lemma unat_of_nat_32: "N < 2 ^ 32 \<Longrightarrow> unat (of_nat N :: 32 word) = N"
  by (simp add: unat_of_nat take_bit_nat_eq_self)

lemma unat_double_bits:
  assumes "n < 2 ^ 63" "s < 2"
  shows "unat (double_sign s + of_nat n) = s * 2 ^ 63 + n"
proof -
  have "s * 2 ^ 63 + n < 2 ^ 64" using assms by (cases s) auto
  from unat_of_nat_64 [OF this] show ?thesis by (simp only: double_sign_def of_nat_add [symmetric])
qed

lemma unat_drop_bit: "unat (drop_bit n (w :: 'a :: len word)) = unat w div 2 ^ n"
  by (simp add: unsigned_drop_bit_eq take_bit_nat_eq_self [OF unsigned_less] flip: drop_bit_eq_div)

lemma semi_double_fields:
  assumes m: "m < 1024" and e: "1 \<le> e" "e \<le> 30" and s: "s < 2"
    and d: "d = double_sign s + of_nat ((e + 1008) * 2 ^ 52 + m * 2 ^ 42)"
  shows "unat d div 2 ^ 63 = s" "unat d div 2 ^ 52 mod 2048 = e + 1008" "unat d mod 2 ^ 52 = m * 2 ^ 42"
proof -
  have lt: "(e + 1008) * 2 ^ 52 + m * 2 ^ 42 < 2 ^ 63" using m e by simp
  have n: "unat d = s * 2 ^ 63 + ((e + 1008) * 2 ^ 52 + m * 2 ^ 42)"
    unfolding d by (rule unat_double_bits [OF lt s])
  have mlt: "m * 2 ^ 42 < 2 ^ 52" using m by simp
  show "unat d div 2 ^ 63 = s" unfolding n by (rule hi_lo(1) [OF lt])
  have "s * 2 ^ 63 + ((e + 1008) * 2 ^ 52 + m * 2 ^ 42) = (s * 2 ^ 11 + (e + 1008)) * 2 ^ 52 + m * 2 ^ 42" by simp
  with n have n': "unat d = (s * 2 ^ 11 + (e + 1008)) * 2 ^ 52 + m * 2 ^ 42" by (simp only:)
  show "unat d mod 2 ^ 52 = m * 2 ^ 42" unfolding n' by (rule hi_lo(2) [OF mlt])
  have "unat d div 2 ^ 52 = s * 2 ^ 11 + (e + 1008)" unfolding n' by (rule hi_lo(1) [OF mlt])
  with e show "unat d div 2 ^ 52 mod 2048 = e + 1008" by simp
qed

lemma float_of_semi_double:
  assumes m: "m < 1024" and e: "1 \<le> e" "e \<le> 30" and s: "s < 2"
  shows "float_of_double (double_sign s + of_nat ((e + 1008) * 2 ^ 52 + m * 2 ^ 42))
         = of_nat (s * 2 ^ 31 + ((e + 112) * 2 ^ 23 + m * 2 ^ 13))"
proof -
  define d :: "64 word" where "d = double_sign s + of_nat ((e + 1008) * 2 ^ 52 + m * 2 ^ 42)"
  note f = semi_double_fields [OF assms d_def]
  have "2 ^ 52 + m * 2 ^ 42 = (2 ^ 23 + m * 2 ^ 13) * 2 ^ 29" by simp
  then have r: "round_even (2 ^ 52 + m * 2 ^ 42) 29 = 2 ^ 23 + m * 2 ^ 13"
    by (simp only: round_even_def Let_def) simp
  have "float_of_double d = of_nat (s * 2 ^ 31) + of_nat ((e + 112) * 2 ^ 23 + m * 2 ^ 13)"
    unfolding float_of_double_def unat_drop_bit f Let_def r using e m by (simp add: algebra_simps)
  then show ?thesis by (simp only: d_def of_nat_add)
qed


lemma int_and_exp: "0 \<le> b \<Longrightarrow> b < 2 ^ Suc n \<Longrightarrow> (b :: int) AND 2 ^ n = b - b mod 2 ^ n"
proof -
  assume b: "0 \<le> b" "b < 2 ^ Suc n"
  have "b AND 2 ^ n = 2 ^ n * of_bool (bit b n)"
    by (rule bit_eqI) (auto simp: bit_and_iff bit_exp_iff)
  moreover have "b = 2 ^ n * of_bool (bit b n) + take_bit n b"
    using take_bit_Suc_from_most [of n b] b by (simp add: take_bit_int_eq_self)
  ultimately show ?thesis by (simp add: take_bit_eq_mod)
qed

lemma or_push_disjoint: "0 \<le> x \<Longrightarrow> x < 2 ^ n \<Longrightarrow> (x :: int) OR push_bit n y = x + push_bit n y"
proof -
  assume x: "0 \<le> x" "x < 2 ^ n"
  then have t: "take_bit n x = x" by (simp add: take_bit_int_eq_self)
  have "take_bit n x AND push_bit n y = 0" by (rule bit_eqI) (auto simp: bit_simps)
  with t plus_and_or [of x "push_bit n y"] show ?thesis by simp
qed

lemma hi_lo_int:
  "0 \<le> x \<Longrightarrow> x < c \<Longrightarrow> (k * c + x) div c = k" "0 \<le> x \<Longrightarrow> x < c \<Longrightarrow> (k * c + x) mod c = x" for k c x :: int
  by (simp_all add: add.commute)

lemma semi_bits_normal:
  assumes m: "m < 1024" and e: "1 \<le> e" "e \<le> 30" and s: "s < 2"
  shows "semi_bits (double_sign s + of_nat ((e + 1008) * 2 ^ 52 + m * 2 ^ 42)) = int (s * 2 ^ 15 + e * 2 ^ 10 + m)"
proof -
  define d :: "64 word" where "d = double_sign s + of_nat ((e + 1008) * 2 ^ 52 + m * 2 ^ 42)"
  note f = semi_double_fields [OF assms d_def]
  define l where "l = uint (float_of_double d)"
  have lt: "(e + 112) * 2 ^ 23 + m * 2 ^ 13 < 2 ^ 31" using m e by simp
  have "s * 2 ^ 31 + ((e + 112) * 2 ^ 23 + m * 2 ^ 13) < 2 ^ 32" using lt s by (cases s) auto
  from unat_of_nat_32 [OF this] have L: "l = int (s * 2 ^ 31 + ((e + 112) * 2 ^ 23 + m * 2 ^ 13))"
    unfolding l_def d_def float_of_semi_double [OF assms] by (simp only: uint_nat)
  have low: "int m * 2 ^ 13 < 2 ^ 23" using m by simp
  have L1: "l = (int s * 2 ^ 8 + (int e + 112)) * 2 ^ 23 + int m * 2 ^ 13" unfolding L by simp
  have "l AND 0x7FFFFF = l mod 2 ^ 23"
  proof -
    have "l AND 0x7FFFFF = take_bit 23 l" by (simp add: take_bit_eq_mask mask_eq_exp_minus_1)
    then show ?thesis by (simp add: take_bit_eq_mod)
  qed
  also have "\<dots> = int m * 2 ^ 13" unfolding L1 by (rule hi_lo_int(2)) (use low in simp_all)
  finally have mant: "l AND 0x7FFFFF = int m * 2 ^ 13" .
  have mant': "drop_bit 13 (int m * 2 ^ 13) = int m" by (simp add: drop_bit_eq_div)
  have "l div 2 ^ 23 = int s * 2 ^ 8 + (int e + 112)" unfolding L1 by (rule hi_lo_int(1)) (use low in simp_all)
  then have "l div 2 ^ 23 mod 256 = int e + 112" using e by simp
  moreover have "drop_bit 23 (l AND 0x7F800000) = l div 2 ^ 23 mod 256"
    by (simp only: drop_bit_and) (simp add: int_and_byte drop_bit_eq_div)
  ultimately have expo: "drop_bit 23 (l AND 0x7F800000) = int e + 112" by simp
  have lt': "(int e + 112) * 2 ^ 23 + int m * 2 ^ 13 < 2 ^ 31" using m e by simp
  have L2: "l = int s * 2 ^ 31 + ((int e + 112) * 2 ^ 23 + int m * 2 ^ 13)" unfolding L by simp
  have "0 \<le> l" "l < 2 ^ Suc 31" using s lt' unfolding L2 by (cases s; simp)+
  from int_and_exp [OF this] have "l AND 2 ^ 31 = l - l mod 2 ^ 31" .
  also have "l mod 2 ^ 31 = (int e + 112) * 2 ^ 23 + int m * 2 ^ 13"
    unfolding L2 by (rule hi_lo_int(2)) (use lt' in simp_all)
  finally have sign: "drop_bit 16 (l AND 0x80000000) = push_bit 15 (int s)"
    unfolding L2 by (simp add: drop_bit_eq_div push_bit_eq_mult)
  have "(int e + 112 - 112) AND 0xFFFF = take_bit 16 (int e)" by (simp add: take_bit_eq_mask mask_eq_exp_minus_1)
  then have ex: "(int e + 112 - 112) AND 0xFFFF = int e" using e by (simp add: take_bit_eq_mod)
  have "(int e + 112) AND 0xFFFF = take_bit 16 (int e + 112)" by (simp add: take_bit_eq_mask mask_eq_exp_minus_1)
  then have nx: "(int e + 112) AND 0xFFFF \<noteq> 0xFFFF" using e by (simp add: take_bit_eq_mod)
  have "push_bit 15 (int s) OR int m OR push_bit 10 (int e) = int (s * 2 ^ 15 + e * 2 ^ 10 + m)"
  proof -
    have "int m OR push_bit 10 (int e) = int m + push_bit 10 (int e)" using m by (intro or_push_disjoint) simp_all
    moreover have "(int m + push_bit 10 (int e)) OR push_bit 15 (int s) = int m + push_bit 10 (int e) + push_bit 15 (int s)"
      using m e by (intro or_push_disjoint) (simp_all add: push_bit_eq_mult)
    ultimately show ?thesis by (simp add: or.commute or.left_commute push_bit_eq_mult or.assoc)
  qed
  then show ?thesis
    unfolding semi_bits_def Let_def d_def [symmetric] l_def [symmetric] isnan_def isinf_def unat_drop_bit f
      expo sign mant mant' ex
    using e nx by simp
qed


lemma semi_fields:
  fixes b1 :: u8
  shows "unat (b1 AND 0x03) = unat b1 mod 4"
    and "unat (drop_bit 2 (b1 AND 0x7c)) = unat b1 div 4 mod 32"
    and "unat (drop_bit 7 (b1 AND 0x80)) = unat b1 div 128"
proof -
  have m: "unat (w AND mask n) = unat w mod 2 ^ n" for n and w :: u8
    by (simp only: take_bit_eq_mask [symmetric] unsigned_take_bit_eq) (simp add: take_bit_eq_mod)
  show "unat (b1 AND 0x03) = unat b1 mod 4" using m [of b1 2] by (simp add: mask_eq_exp_minus_1)
  have "drop_bit 2 (b1 AND 0x7c) = drop_bit 2 b1 AND mask 5" by (simp add: mask_eq_exp_minus_1)
  then show "unat (drop_bit 2 (b1 AND 0x7c)) = unat b1 div 4 mod 32" by (simp only: m unat_drop_bit) simp
  have "drop_bit 7 (b1 AND 0x80) = drop_bit 7 b1 AND mask 1" by (simp add: mask_eq_exp_minus_1)
  then have "unat (drop_bit 7 (b1 AND 0x80)) = unat b1 div 128 mod 2" by (simp only: m unat_drop_bit) simp
  moreover have "unat b1 div 128 < 2" using unat_u8_bound [of b1] by simp
  ultimately show "unat (drop_bit 7 (b1 AND 0x80)) = unat b1 div 128" by simp
qed

text \<open>Semi-precision numbers survive a relay. The two bytes of a normal semi-precision number
  (exponent field from 1 to 30), read into an object and serialized again, are the same two bytes.\<close>

theorem attr_semi_roundtrip:
  assumes "attr_ok a" "zigbeeDataType a = ZCL_DATATYPE_SEMI_PREC"
    and "1 \<le> unat b1 div 4 mod 32" "unat b1 div 4 mod 32 \<le> 30"
    and "2 \<le> len" "2 \<le> len'" "pos + 2 \<le> length buf"
  shows "\<exists>a1. azapZclAttrVal_t_deserialize mallocOk a (Some (b0 # b1 # rest)) len = Some (a1, Some rest, len - 2)
         \<and> azapZclAttrVal_t_serialize a1 (Some (buf, pos)) len'
           = Some (a1, Some (take pos buf @ [b0, b1] @ drop (pos + 2) buf, pos + 2), len' - 2)"
proof -
  define s e m where "s = unat b1 div 128" and "e = unat b1 div 4 mod 32" and "m = unat b0 + unat b1 mod 4 * 256"
  have fields: "s < 2" "1 \<le> e" "e \<le> 30" "m < 1024"
    using assms(3,4) unat_u8_bound [of b0] unat_u8_bound [of b1] by (auto simp: s_def e_def m_def)
  have sv: "semi_value b0 b1 = double_sign s + of_nat ((e + 1008) * 2 ^ 52 + m * 2 ^ 42)"
    unfolding semi_value_def Let_def semi_fields s_def [symmetric] e_def [symmetric]
    using fields(2,3) double_of_semi [OF fields(4,2,3)] by (simp add: m_def)
  have "unat b1 = s * 128 + e * 4 + unat b1 mod 4"
  proof -
    have "q * 4 + r = n \<Longrightarrow> h * 32 + e' = q \<Longrightarrow> n = h * 128 + e' * 4 + r" for q r n h e' :: nat by simp
    from this [OF div_mult_mod_eq div_mult_mod_eq] show ?thesis
      unfolding s_def e_def using div_mult2_eq [of "unat b1" 4 32] by simp
  qed
  then have "s * 2 ^ 15 + e * 2 ^ 10 + m = unat b1 * 256 + unat b0" by (simp add: m_def)
  then have bits: "semi_bits (semi_value b0 b1) = int (unat b1) * 256 + int (unat b0)"
    unfolding sv semi_bits_normal [OF fields(4,2,3,1)] by simp
  have "(word_of_int (semi_bits (semi_value b0 b1) AND 0xFF) :: u8) = b0"
    unfolding bits int_and_byte by (simp add: minus_one_u8(3))
  moreover have "(word_of_int (drop_bit 8 (semi_bits (semi_value b0 b1) AND 0xFF00)) :: u8) = b1"
    unfolding bits int_byte_at using unat_u8_bound [of b0] by simp
  ultimately have em: "azapZclAttrVal_t_serializeFloat (a\<lparr>attr_value := FloatVal (semi_value b0 b1)\<rparr>) (buf, pos, len')
      = put_bytes [b0, b1] (buf, pos, len')"
    by (simp add: azapZclAttrVal_t_serializeFloat_def assms(2) Let_def del: drop_bit_and)
  have vt: "valueType a = AZAP_FLOAT_VAL"
    using attr_ok_class [OF assms(1)] assms(2) value_class_iff(5) [of ZCL_DATATYPE_SEMI_PREC] by simp
  have "azapZclAttrVal_t_deserialize mallocOk a (Some (b0 # b1 # rest)) len
      = Some (a\<lparr>attr_value := FloatVal (semi_value b0 b1)\<rparr>, Some rest, len - 2)"
    using vt assms(5)
    by (simp add: azapZclAttrVal_t_deserialize_def assms(2) azapGetZclDataLength_def deserialize_switch_def
        azapZclAttrVal_t_deserializeFloat_def idx_Cons advance_def not_less)
  moreover have "azapZclAttrVal_t_serialize (a\<lparr>attr_value := FloatVal (semi_value b0 b1)\<rparr>) (Some (buf, pos)) len'
      = Some (a\<lparr>attr_value := FloatVal (semi_value b0 b1)\<rparr>,
              Some (take pos buf @ [b0, b1] @ drop (pos + 2) buf, pos + 2), len' - 2)"
    using vt assms(2,6,7) em emit_in [of pos "[b0, b1]" buf len']
    by (simp add: serialize_unfold serialize_switch_def required_size_def azapGetZclDataLength_def not_less)
  ultimately show ?thesis by blast
qed

theorem attr_semi_roundtrip_witness:
  "\<exists>a1. azapZclAttrVal_t_deserialize True (azapZclAttrVal_t_create ZCL_DATATYPE_SEMI_PREC) (Some [0x01, 0xC2]) 2
       = Some (a1, Some [], 0)
     \<and> azapZclAttrVal_t_serialize a1 (Some ([0, 0], 0)) 2 = Some (a1, Some ([0x01, 0xC2], 2), 0)"
  using attr_semi_roundtrip [of "azapZclAttrVal_t_create ZCL_DATATYPE_SEMI_PREC" "0xC2" 2 2 0 "[0, 0]" True "0x01" "[]"]
  by (auto simp: create_ok)

text \<open>Outside the range of semi-precision the writer does not saturate: the exponent wraps into the
  sign bit. The smallest value below the range, \<open>2 ^ - 16\<close>, becomes minus infinity, \<open>2 ^ 17\<close> becomes minus
  zero, and \<open>2 ^ 1000\<close>, which is infinite as a \<open>float\<close> but not as a \<open>double\<close>, becomes one.\<close>

lemma semi_underflow_is_infinite: "semi_bits 0x3EF0000000000000 AND 0xFFFF = 0xFC00"
  by (simp add: semi_bits_def float_of_double_def round_even_def isnan_def isinf_def unat_drop_bit Let_def)

lemma semi_overflow_is_zero: "semi_bits 0x4100000000000000 AND 0xFFFF = 0x8000"
  by (simp add: semi_bits_def float_of_double_def round_even_def isnan_def isinf_def unat_drop_bit Let_def)

lemma semi_huge_is_one: "semi_bits 0x7E70000000000000 AND 0xFFFF = 0x3C00"
  by (simp add: semi_bits_def float_of_double_def round_even_def isnan_def isinf_def unat_drop_bit Let_def)

end
