(* ===== verification/Azap_Attribute.thy ===== *)
theory Azap_Attribute
  imports Attr_Codec
begin

section \<open>Attributes of an end point (azap\_attribute.c, azap\_endpoint.c)\<close>

text \<open>
  The attribute objects and the list \<open>clusterAttributeList\<close> of an end point, in the order of the
  list. An operation that returns a pointer into the list returns the object; \<open>addAttribute\<close> also
  returns the new list. When \<open>new_azapAttribute_t\<close> fails, \<open>addAttribute\<close> links the null pointer into
  the list: \<open>None\<close>.
\<close>

record azapAttribute_t =
  at_clusterId :: u16
  at_attrId :: u16
  at_manufacturerCode :: u16
  at_value :: "azapZclAttrVal_t option"

definition azapAttribute_t_init :: azapAttribute_t where
  "azapAttribute_t_init = \<lparr>at_clusterId = 0, at_attrId = 0, at_manufacturerCode = 0, at_value = None\<rparr>"

definition new_azapAttribute_t :: "bool \<Rightarrow> u16 \<Rightarrow> u16 \<Rightarrow> azapAttribute_t option" where
  "new_azapAttribute_t mallocOk clId atId =
     (if mallocOk then Some (azapAttribute_t_init\<lparr>at_clusterId := clId, at_attrId := atId\<rparr>) else None)"

text \<open>The heap blocks of values that the destructor frees (besides the objects themselves).\<close>

definition azapAttribute_t_newFree :: "azapAttribute_t \<Rightarrow> bytes list exec" where
  "azapAttribute_t_newFree This =
     (case at_value This of None \<Rightarrow> Some [] | Some v \<Rightarrow> azapZclAttrVal_t_newFree v)"

fun azapEndPoint_t_getAttribute :: "azapAttribute_t list \<Rightarrow> u16 \<Rightarrow> u16 \<Rightarrow> azapAttribute_t option" where
  "azapEndPoint_t_getAttribute [] clId attrId = None"
| "azapEndPoint_t_getAttribute (a # as) clId attrId =
     (if clId = at_clusterId a \<and> attrId = at_attrId a then Some a
      else azapEndPoint_t_getAttribute as clId attrId)"

definition azapEndPoint_t_addAttribute ::
  "bool \<Rightarrow> azapAttribute_t list \<Rightarrow> u16 \<Rightarrow> u16 \<Rightarrow> (azapAttribute_t \<times> azapAttribute_t list) exec" where
  "azapEndPoint_t_addAttribute mallocOk as clId attrId =
     (case azapEndPoint_t_getAttribute as clId attrId of
        Some a \<Rightarrow> Some (a, as)
      | None \<Rightarrow> do {
          a \<leftarrow> new_azapAttribute_t mallocOk clId attrId;
          Some (a, as @ [a])
        })"

fun azapEndPoint_t_getNthAttribute :: "azapAttribute_t list \<Rightarrow> u16 \<Rightarrow> u8 \<Rightarrow> azapAttribute_t option" where
  "azapEndPoint_t_getNthAttribute [] clId index = None"
| "azapEndPoint_t_getNthAttribute (a # as) clId index =
     (if clId = 0xFFFF \<or> at_clusterId a = clId then
        (if index = 0 then Some a else azapEndPoint_t_getNthAttribute as clId (index - 1))
      else azapEndPoint_t_getNthAttribute as clId index)"

subsection \<open>What a store that keeps the first entry promises\<close>

locale first_wins =
  fixes lookup :: "'s \<Rightarrow> 'k \<Rightarrow> 'v option"
    and add :: "'s \<Rightarrow> 'k \<Rightarrow> 's"
  assumes lookup_added: "lookup (add s k) k \<noteq> None"
    and lookup_kept: "lookup s k = Some v \<Longrightarrow> lookup (add s j) k = Some v"
    and lookup_other: "j \<noteq> k \<Longrightarrow> lookup (add s j) k = lookup s k"
begin

lemma lookup_foldl_kept: "lookup s k = Some v \<Longrightarrow> lookup (foldl add s ks) k = Some v"
  by (induction ks arbitrary: s) (simp_all add: lookup_kept)

lemma lookup_foldl_iff: "lookup (foldl add s ks) k \<noteq> None \<longleftrightarrow> lookup s k \<noteq> None \<or> k \<in> set ks"
proof (induction ks arbitrary: s)
  case (Cons j ks)
  show ?case
  proof (cases "j = k")
    case True
    with Cons [of "add s j"] lookup_added [of s k] show ?thesis by simp
  next
    case False
    with Cons [of "add s j"] lookup_other [OF False] show ?thesis by simp
  qed
qed simp

text \<open>Entries found once are found for ever, the same ones.\<close>

lemma lookup_prefix: "lookup (foldl add s ks) k = Some v \<Longrightarrow> lookup (foldl add s (ks @ js)) k = Some v"
  by (simp add: lookup_foldl_kept)

end

definition at_key :: "azapAttribute_t \<Rightarrow> u16 \<times> u16" where
  "at_key a = (at_clusterId a, at_attrId a)"

definition get_key :: "azapAttribute_t list \<Rightarrow> u16 \<times> u16 \<Rightarrow> azapAttribute_t option" where
  "get_key as k = azapEndPoint_t_getAttribute as (fst k) (snd k)"

definition add_key :: "azapAttribute_t list \<Rightarrow> u16 \<times> u16 \<Rightarrow> azapAttribute_t list" where
  "add_key as k = snd (the (azapEndPoint_t_addAttribute True as (fst k) (snd k)))"

lemma get_find: "azapEndPoint_t_getAttribute as clId attrId = find (\<lambda>a. at_key a = (clId, attrId)) as"
  by (induction as) (auto simp: at_key_def)

lemma find_append: "find P (xs @ ys) = (case find P xs of None \<Rightarrow> find P ys | Some x \<Rightarrow> Some x)"
  by (induction xs) auto

lemma add_key_eq:
  "add_key as k = (if get_key as k = None
     then as @ [azapAttribute_t_init\<lparr>at_clusterId := fst k, at_attrId := snd k\<rparr>] else as)"
  by (cases "get_key as k")
     (simp_all add: add_key_def get_key_def azapEndPoint_t_addAttribute_def new_azapAttribute_t_def)

interpretation attr_store: first_wins get_key add_key
proof
  fix as k j v
  show "get_key (add_key as k) k \<noteq> None"
    by (cases "get_key as k")
       (simp_all add: add_key_eq, simp_all add: get_key_def get_find find_append at_key_def)
  show "get_key as k = Some v \<Longrightarrow> get_key (add_key as j) k = Some v"
    by (simp add: add_key_eq) (simp add: get_key_def get_find find_append)
  show "j \<noteq> k \<Longrightarrow> get_key (add_key as j) k = get_key as k"
    by (simp add: add_key_eq)
       (auto simp: get_key_def get_find find_append at_key_def prod_eq_iff split: option.split)
qed

text \<open>The calls, one after the other.\<close>

fun add_attributes :: "azapAttribute_t list \<Rightarrow> (u16 \<times> u16) list \<Rightarrow> azapAttribute_t list exec" where
  "add_attributes as [] = Some as"
| "add_attributes as ((clId, attrId) # ks) = do {
     (a, as') \<leftarrow> azapEndPoint_t_addAttribute True as clId attrId;
     add_attributes as' ks }"

definition first_occurrences :: "'a list \<Rightarrow> 'a list" where
  "first_occurrences ks = foldl (\<lambda>acc k. if k \<in> set acc then acc else acc @ [k]) [] ks"

lemma addAttribute_defined:
  "\<exists>a. azapEndPoint_t_addAttribute True as clId attrId = Some (a, add_key as (clId, attrId))"
  by (cases "azapEndPoint_t_getAttribute as clId attrId")
     (simp_all add: add_key_def azapEndPoint_t_addAttribute_def new_azapAttribute_t_def)

lemma add_attributes_foldl: "add_attributes as ks = Some (foldl add_key as ks)"
proof (induction ks arbitrary: as)
  case (Cons k ks)
  obtain cl at where k: "k = (cl, at)" by (cases k)
  from addAttribute_defined [of as cl at] obtain a where
    "azapEndPoint_t_addAttribute True as cl at = Some (a, add_key as k)" unfolding k by blast
  with Cons show ?case by (simp add: k)
qed simp

lemma get_key_None_iff: "get_key as k = None \<longleftrightarrow> k \<notin> set (map at_key as)"
  by (auto simp: get_key_def get_find find_None_iff)

lemma keys_foldl:
  "map at_key (foldl add_key as ks) = foldl (\<lambda>acc k. if k \<in> set acc then acc else acc @ [k]) (map at_key as) ks"
proof (induction ks arbitrary: as)
  case (Cons k ks)
  have "map at_key (add_key as k) = (if k \<in> set (map at_key as) then map at_key as else map at_key as @ [k])"
    by (auto simp: add_key_eq get_key_None_iff at_key_def)
  with Cons [of "add_key as k"] show ?case by simp
qed simp

lemma getNth_filter:
  "azapEndPoint_t_getNthAttribute as clId i =
     (let ys = filter (\<lambda>a. clId = 0xFFFF \<or> at_clusterId a = clId) as
      in if unat i < length ys then Some (ys ! unat i) else None)"
proof (induction as arbitrary: i)
  case (Cons a as)
  show ?case
  proof (cases "i = 0")
    case True
    with Cons.IH [of 0] show ?thesis by (simp add: Let_def)
  next
    case False
    then have "0 < unat i" by (simp add: unat_gt_0)
    then obtain j where j: "unat i = Suc j" by (cases "unat i") auto
    with False have "unat (i - 1) = j" by (simp add: unat_minus_one)
    with False j Cons.IH [of i] Cons.IH [of "i - 1"] show ?thesis by (simp add: Let_def)
  qed
qed simp

text \<open>C27: the attributes of an end point. Adding attributes by their cluster and attribute identifiers, in
  any order and with repetitions, always ends with a list in which each pair occurs once, in the
  order of the first additions; \<open>getAttribute\<close> finds exactly the pairs that were added, each with its
  identifiers; and \<open>getNthAttribute\<close> numbers the attributes of a cluster (of all clusters, for 0xFFFF)
  in that order, and answers \<open>NULL\<close> behind the last.\<close>

theorem end_point_attributes:
  "\<exists>as. add_attributes [] ks = Some as
    \<and> map at_key as = first_occurrences ks
    \<and> (azapEndPoint_t_getAttribute as clId attrId \<noteq> None \<longleftrightarrow> (clId, attrId) \<in> set ks)
    \<and> (\<forall>a. azapEndPoint_t_getAttribute as clId attrId = Some a \<longrightarrow> a \<in> set as \<and> at_key a = (clId, attrId))
    \<and> azapEndPoint_t_getNthAttribute as c i =
        (let ys = filter (\<lambda>a. c = 0xFFFF \<or> at_clusterId a = c) as
         in if unat i < length ys then Some (ys ! unat i) else None)"
proof -
  let ?as = "foldl add_key [] ks"
  have "azapEndPoint_t_getAttribute ?as clId attrId \<noteq> None \<longleftrightarrow> (clId, attrId) \<in> set ks"
    using attr_store.lookup_foldl_iff [of "[]" ks "(clId, attrId)"] by (simp add: get_key_def)
  moreover have "\<forall>a. azapEndPoint_t_getAttribute ?as clId attrId = Some a \<longrightarrow> a \<in> set ?as \<and> at_key a = (clId, attrId)"
    by (auto simp: get_find find_Some_iff)
  moreover have "map at_key ?as = first_occurrences ks" using keys_foldl [of "[]" ks] by (simp add: first_occurrences_def)
  ultimately show ?thesis using add_attributes_foldl [of "[]" ks] getNth_filter [of ?as c i] by blast
qed

theorem end_point_attributes_witness:
  "\<exists>as. add_attributes [] [(6, 0), (8, 0), (6, 0), (6, 1)] = Some as
     \<and> map at_key as = [(6, 0), (8, 0), (6, 1)]
     \<and> azapEndPoint_t_getAttribute as 6 1 \<noteq> None"
proof -
  have "first_occurrences [(6, 0), (8, 0), (6, 0), (6, 1)] = [(6, 0), (8, 0), (6 :: u16, 1 :: u16)]"
    by (simp add: first_occurrences_def)
  with end_point_attributes [of "[(6, 0), (8, 0), (6, 0), (6, 1)]" 6 1 0 0] show ?thesis
    by (metis (no_types, lifting) list.set_intros)
qed

end
