(* ===== verification/Azap_Tools.thy ===== *)
theory Azap_Tools
  imports Zcl_Attr_Val
begin

section \<open>Text tools (azap\_tools.c)\<close>

text \<open>
  Hexadecimal text of numbers, addresses and byte arrays, and its reading. The functions that
  print return one of five static buffers, used in turn; the model passes the buffers and the
  counter as a state and returns the buffer written. A string argument is the memory from its
  first character on. \<open>sscanf\<close> with \<open>%2x\<close> is modelled as the C library defines it (leading blanks,
  a sign and a \<open>0x\<close> prefix count within the width); a conversion that fails leaves the variable
  uninitialized, which is undefined behaviour, as is a store outside a buffer.
\<close>

definition STR_MAX_SIZE :: nat where
  "STR_MAX_SIZE = 255"

record strRep_t =
  str_rep :: "bytes list"
  str_rep_i :: u8

definition strRep_init :: strRep_t where
  "strRep_init = \<lparr>str_rep = replicate 5 (replicate STR_MAX_SIZE 0), str_rep_i = 0\<rparr>"

definition next_rep :: "strRep_t \<Rightarrow> u8" where
  "next_rep st = (let i = str_rep_i st + 1 in if i \<ge> 5 then 0 else i)"

text \<open>The buffer after \<open>memset\<close> and the writing of a terminated text, and the new state.\<close>

definition store_rep :: "bytes \<Rightarrow> strRep_t \<Rightarrow> (bytes \<times> strRep_t) exec" where
  "store_rep s st =
     (let i = next_rep st;
          buf = s @ replicate (STR_MAX_SIZE - length s) 0
      in if length s < STR_MAX_SIZE \<and> unat i < length (str_rep st)
         then Some (buf, \<lparr>str_rep = (str_rep st)[unat i := buf], str_rep_i = i\<rparr>)
         else None)"

definition hex_digit :: "nat \<Rightarrow> u8" where
  "hex_digit n = of_nat (if n < 10 then 48 + n else 87 + n)"

text \<open>The formats \<open>%.2x\<close> and \<open>%.4x\<close>.\<close>

definition hex2 :: "u8 \<Rightarrow> bytes" where
  "hex2 b = [hex_digit (unat b div 16), hex_digit (unat b mod 16)]"

definition hex4 :: "u16 \<Rightarrow> bytes" where
  "hex4 w = [hex_digit (unat w div 4096), hex_digit (unat w div 256 mod 16),
             hex_digit (unat w div 16 mod 16), hex_digit (unat w mod 16)]"

definition hex_prefix :: bytes where
  "hex_prefix = [48, 120]"

definition azap_uint8ToString :: "u8 \<Rightarrow> bool \<Rightarrow> strRep_t \<Rightarrow> (bytes \<times> strRep_t) exec" where
  "azap_uint8ToString d hexprefix st = store_rep ((if hexprefix then hex_prefix else []) @ hex2 d) st"

definition azap_uint16ToString :: "u16 \<Rightarrow> bool \<Rightarrow> strRep_t \<Rightarrow> (bytes \<times> strRep_t) exec" where
  "azap_uint16ToString d hexprefix st = store_rep ((if hexprefix then hex_prefix else []) @ hex4 d) st"

text \<open>The loop runs from the last byte of the address to the first.\<close>

fun extAddr_loop :: "bytes \<Rightarrow> nat \<Rightarrow> bytes exec" where
  "extAddr_loop d 0 = Some []"
| "extAddr_loop d (Suc i) = do { b \<leftarrow> idx d i; r \<leftarrow> extAddr_loop d i; Some (hex2 b @ r) }"

definition azap_extAddrToString :: "bytes option \<Rightarrow> bool \<Rightarrow> strRep_t \<Rightarrow> (bytes \<times> strRep_t) exec" where
  "azap_extAddrToString d hexprefix st =
     (case d of
        None \<Rightarrow> store_rep [] st
      | Some a \<Rightarrow> do {
          h \<leftarrow> extAddr_loop a IEEE_ADDR_LEN;
          store_rep ((if hexprefix then hex_prefix else []) @ h) st
        })"

definition hex_value :: "u8 \<Rightarrow> nat option" where
  "hex_value c =
     (if 48 \<le> c \<and> c \<le> 57 then Some (unat c - 48)
      else if 97 \<le> c \<and> c \<le> 102 then Some (unat c - 87)
      else if 65 \<le> c \<and> c \<le> 70 then Some (unat c - 55)
      else None)"

definition sscanf_2x :: "bytes \<Rightarrow> u32 exec" where
  "sscanf_2x str =
     (case dropWhile c_isspace str of
        [] \<Rightarrow> None
      | c # cs \<Rightarrow>
          if c = 45 \<or> c = 43 then
            (case cs of
               [] \<Rightarrow> None
             | d # _ \<Rightarrow> map_option (\<lambda>n. if c = 45 then - of_nat n else of_nat n) (hex_value d))
          else
            (case hex_value c of
               None \<Rightarrow> None
             | Some n \<Rightarrow>
                 (case cs of
                    [] \<Rightarrow> Some (of_nat n)
                  | d # _ \<Rightarrow>
                      if c = 48 \<and> (d = 120 \<or> d = 88) then Some 0
                      else (case hex_value d of
                              None \<Rightarrow> Some (of_nat n)
                            | Some k \<Rightarrow> Some (of_nat (16 * n + k))))))"

text \<open>The reading loop: \<open>n\<close> bytes from the text, in the order of the text.\<close>

fun scan_bytes :: "nat \<Rightarrow> bytes \<Rightarrow> bytes exec" where
  "scan_bytes 0 str = Some []"
| "scan_bytes (Suc n) str = do {
     v \<leftarrow> sscanf_2x str;
     r \<leftarrow> scan_bytes n (drop 2 str);
     Some (ucast v # r) }"

definition stringToAzap_extAddr :: "bytes option \<Rightarrow> bytes option \<Rightarrow> (bool \<times> bytes option) exec" where
  "stringToAzap_extAddr extAddr strRep =
     (case (extAddr, strRep) of
        (Some a, Some v) \<Rightarrow> do {
          l \<leftarrow> strlen v;
          if l \<noteq> 18 then Some (False, extAddr)
          else if take 2 v \<noteq> hex_prefix then Some (False, extAddr)
          else do {
            bs \<leftarrow> scan_bytes IEEE_ADDR_LEN (drop 2 (take l v));
            a1 \<leftarrow> memcpy_at 0 (rev bs) a;
            Some (True, Some a1)
          }
        }
      | _ \<Rightarrow> Some (False, extAddr))"

text \<open>\<open>i\<close> counts the bytes, \<open>s\<close> the characters written so far.\<close>

fun byteArray_loop :: "bytes \<Rightarrow> nat \<Rightarrow> nat \<Rightarrow> nat \<Rightarrow> bytes exec" where
  "byteArray_loop d 0 i s = Some []"
| "byteArray_loop d (Suc n) i s =
     (if s < STR_MAX_SIZE - 3 then do {
        b \<leftarrow> idx d i; r \<leftarrow> byteArray_loop d n (i + 1) (s + 2); Some (hex2 b @ r) }
      else Some [])"

definition azap_byteArrayToString :: "bytes option \<Rightarrow> u16 \<Rightarrow> strRep_t \<Rightarrow> (bytes \<times> strRep_t) exec" where
  "azap_byteArrayToString d len st =
     (case d of
        None \<Rightarrow> store_rep [] st
      | Some a \<Rightarrow>
          if len = 0 then store_rep [] st
          else do {
            h \<leftarrow> byteArray_loop a (unat len) 0 2;
            store_rep (hex_prefix @ h) st
          })"

text \<open>The length is computed in 64-bit \<open>size_t\<close>, where it wraps for a string of less than two
  characters, and kept in 16 bits.\<close>

definition stringToAzap_byteArray :: "bytes option \<Rightarrow> u16 \<Rightarrow> bytes option \<Rightarrow> (u16 \<times> bytes option) exec" where
  "stringToAzap_byteArray d len strRep =
     (case (d, strRep) of
        (Some a, Some v) \<Rightarrow> do {
          n \<leftarrow> strlen v;
          let l = (ucast ((of_nat n - 2 :: 64 word) div 2) :: u16);
          if len < l then Some (0, d)
          else if take 2 v \<noteq> hex_prefix then Some (0, d)
          else do {
            bs \<leftarrow> scan_bytes (unat l) (drop 2 (take n v));
            a1 \<leftarrow> memcpy_at 0 bs a;
            Some (l, Some a1)
          }
        }
      | _ \<Rightarrow> Some (0, d))"

fun uint8Array_loop :: "bytes \<Rightarrow> nat \<Rightarrow> nat \<Rightarrow> nat \<Rightarrow> bytes exec" where
  "uint8Array_loop d 0 i s = Some []"
| "uint8Array_loop d (Suc n) i s =
     (if s < STR_MAX_SIZE - 5 then do {
        b \<leftarrow> idx d i; r \<leftarrow> uint8Array_loop d n (i + 1) (s + 5); Some (hex_prefix @ hex2 b @ [32] @ r) }
      else Some [])"

definition azap_uint8ArrayToString :: "bytes option \<Rightarrow> u16 \<Rightarrow> strRep_t \<Rightarrow> (bytes \<times> strRep_t) exec" where
  "azap_uint8ArrayToString array len st =
     (case array of
        None \<Rightarrow> store_rep [] st
      | Some a \<Rightarrow>
          if len = 0 then store_rep [] st
          else do {
            h \<leftarrow> uint8Array_loop a (unat len) 0 0;
            store_rep (butlast h) st
          })"

fun uint16Array_loop :: "u16 list \<Rightarrow> nat \<Rightarrow> nat \<Rightarrow> nat \<Rightarrow> bytes exec" where
  "uint16Array_loop d 0 i s = Some []"
| "uint16Array_loop d (Suc n) i s =
     (if s < STR_MAX_SIZE - 7 then do {
        w \<leftarrow> idx d i; r \<leftarrow> uint16Array_loop d n (i + 1) (s + 7); Some (hex_prefix @ hex4 w @ [32] @ r) }
      else Some [])"

text \<open>Here nothing tests \<open>len\<close>: without elements the store of the terminator has index -1.\<close>

definition azap_uint16ArrayToString :: "u16 list option \<Rightarrow> u16 \<Rightarrow> strRep_t \<Rightarrow> (bytes \<times> strRep_t) exec" where
  "azap_uint16ArrayToString array len st =
     (case array of
        None \<Rightarrow> store_rep [] st
      | Some a \<Rightarrow> do {
          h \<leftarrow> uint16Array_loop a (unat len) 0 0;
          if h = [] then None else store_rep (butlast h) st
        })"

definition isExtAddrNull :: "bytes option \<Rightarrow> bool exec" where
  "isExtAddrNull extAddr =
     (case extAddr of
        None \<Rightarrow> Some True
      | Some a \<Rightarrow> do { bs \<leftarrow> memread 0 IEEE_ADDR_LEN a; Some (bs = replicate IEEE_ADDR_LEN 0) })"


subsection \<open>Hexadecimal digits\<close>

lemma below_16: "n < (16 :: nat) \<Longrightarrow> n \<in> {0, 1, 2, 3, 4, 5, 6, 7, 8, 9, 10, 11, 12, 13, 14, 15}"
  by (simp add: insert_iff) presburger

lemma hex_value_digit: "n < 16 \<Longrightarrow> hex_value (hex_digit n) = Some n"
  by (drule below_16) (auto simp: hex_value_def hex_digit_def)

lemma hex_digit_chars:
  assumes "n < 16"
  shows "\<not> c_isspace (hex_digit n)" "hex_digit n \<noteq> 45" "hex_digit n \<noteq> 43" "hex_digit n \<noteq> 120"
    "hex_digit n \<noteq> 88" "hex_digit n \<noteq> 0"
  using below_16 [OF assms] by (auto simp: hex_digit_def c_isspace_def)

lemma nibbles: "unat (b :: u8) div 16 < 16" "unat b mod 16 < 16"
  using unat_u8_bound [of b] by simp_all

lemma sscanf_hex2: "sscanf_2x (hex2 b @ rest) = Some (of_nat (unat b))"
  by (simp add: sscanf_2x_def hex2_def hex_digit_chars [OF nibbles(1)] hex_digit_chars [OF nibbles(2)]
      hex_value_digit nibbles mult.commute del: of_nat_add of_nat_mult of_nat_unat_same)

lemma ucast_of_unat: "(ucast (of_nat (unat (b :: u8)) :: u32) :: u8) = b"
proof -
  have "unat b < 2 ^ 32" using unat_u8_bound [of b] by simp
  then show ?thesis
    using unat_u8_bound [of b] by (simp add: word_unat_eq_iff unsigned_ucast_eq unat_of_nat take_bit_nat_eq_self)
qed

lemma scan_hex: "scan_bytes (length bs) (concat (map hex2 bs) @ rest) = Some bs"
proof (induction bs)
  case (Cons b bs)
  have "drop 2 (hex2 b @ concat (map hex2 bs) @ rest) = concat (map hex2 bs) @ rest" by (simp add: hex2_def)
  with Cons show ?case by (simp add: sscanf_hex2 ucast_of_unat)
qed simp

lemma strlen_text: "0 \<notin> set s \<Longrightarrow> strlen (s @ 0 # r) = Some (length s)"
  by (induction s) auto

lemma hex_text_no_zero: "0 \<notin> set (concat (map hex2 bs))"
  using hex_digit_chars(6) nibbles by (auto simp: hex2_def)

lemma length_hex_text: "length (concat (map hex2 bs)) = 2 * length bs"
  by (induction bs) (simp_all add: hex2_def)

text \<open>What a stored text looks like to a reader.\<close>

lemma store_rep_text:
  assumes "length s < STR_MAX_SIZE" "length (str_rep st) = 5" "0 \<notin> set s"
  shows "\<exists>buf st'. store_rep s st = Some (buf, st') \<and> strlen buf = Some (length s)
          \<and> take (length s) buf = s \<and> length buf = STR_MAX_SIZE
          \<and> st' = \<lparr>str_rep = (str_rep st)[unat (next_rep st) := buf], str_rep_i = next_rep st\<rparr>"
proof -
  let ?buf = "s @ replicate (STR_MAX_SIZE - length s) 0"
  have "unat (next_rep st) < 5" by (simp add: next_rep_def Let_def word_less_nat_alt not_le)
  then have "store_rep s st = Some (?buf, \<lparr>str_rep = (str_rep st)[unat (next_rep st) := ?buf], str_rep_i = next_rep st\<rparr>)"
    using assms(1,2) by (simp add: store_rep_def Let_def)
  moreover obtain k where "STR_MAX_SIZE - length s = Suc k" using assms(1) by (cases "STR_MAX_SIZE - length s") auto
  then have "strlen ?buf = Some (length s)" using strlen_text [OF assms(3)] by simp
  ultimately show ?thesis using assms(1) by (intro exI conjI) (assumption | rule refl | simp)+
qed


subsection \<open>Round trips\<close>

lemma extAddr_loop_hex: "n \<le> length d \<Longrightarrow> extAddr_loop d n = Some (concat (map hex2 (rev (take n d))))"
  by (induction n) (simp_all add: idx_in take_Suc_conv_app_nth)

lemma byteArray_loop_hex:
  "i + n \<le> length d \<Longrightarrow> s + 2 * n \<le> 252 \<Longrightarrow> byteArray_loop d n i s = Some (concat (map hex2 (take n (drop i d))))"
proof (induction n arbitrary: i s)
  case (Suc n)
  then have "take (Suc n) (drop i d) = d ! i # take n (drop (i + 1) d)" by (simp add: Cons_nth_drop_Suc [symmetric])
  with Suc show ?case by (simp add: idx_in STR_MAX_SIZE_def)
qed simp

definition rep_ok :: "strRep_t \<Rightarrow> bool" where
  "rep_ok st = (length (str_rep st) = 5 \<and> (\<forall>b \<in> set (str_rep st). length b = STR_MAX_SIZE) \<and> str_rep_i st < 5)"

lemma hex_prefix_no_zero: "0 \<notin> set hex_prefix" "length hex_prefix = 2"
  by (simp_all add: hex_prefix_def)

text \<open>Addresses survive their text. The text that \<open>azap_extAddrToString\<close> makes of an address, with the
  prefix, is read back by \<open>stringToAzap_extAddr\<close> as that address.\<close>

theorem ext_addr_text_roundtrip:
  assumes "rep_ok st" "length addr = IEEE_ADDR_LEN" "length out = IEEE_ADDR_LEN"
  shows "\<exists>chars st'. azap_extAddrToString (Some addr) True st = Some (chars, st')
          \<and> stringToAzap_extAddr (Some out) (Some chars) = Some (True, Some addr)"
proof -
  let ?h = "concat (map hex2 (rev addr))"
  have loop: "extAddr_loop addr IEEE_ADDR_LEN = Some ?h" using extAddr_loop_hex [of IEEE_ADDR_LEN addr] assms(2) by simp
  have len: "length (hex_prefix @ ?h) = 18" using assms(2) length_hex_text [of "rev addr"] hex_prefix_no_zero(2)
    by (simp add: IEEE_ADDR_LEN_def)
  have "0 \<notin> set (hex_prefix @ ?h)" using hex_text_no_zero [of "rev addr"] hex_prefix_no_zero(1) by simp
  with len assms(1) store_rep_text [of "hex_prefix @ ?h" st] obtain buf st' where
    buf: "store_rep (hex_prefix @ ?h) st = Some (buf, st')" "strlen buf = Some 18" "take 18 buf = hex_prefix @ ?h"
    by (auto simp: STR_MAX_SIZE_def rep_ok_def)
  have "take 2 buf = hex_prefix"
    using arg_cong [OF buf(3), of "take 2"] hex_prefix_no_zero(2) by (simp add: min_def)
  moreover have "drop 2 (take 18 buf) = ?h" unfolding buf(3) using hex_prefix_no_zero(2) by simp
  moreover have "scan_bytes IEEE_ADDR_LEN ?h = Some (rev addr)" using scan_hex [of "rev addr" "[]"] assms(2) by simp
  ultimately have "stringToAzap_extAddr (Some out) (Some buf) = Some (True, Some addr)"
    using buf(2) assms(2,3) by (simp add: stringToAzap_extAddr_def memcpy_at_0)
  with buf(1) loop show ?thesis by (simp add: azap_extAddrToString_def)
qed

theorem ext_addr_text_roundtrip_witness:
  "\<exists>chars st'. azap_extAddrToString (Some [1, 2, 3, 4, 0xAB, 6, 7, 8]) True strRep_init = Some (chars, st')
     \<and> stringToAzap_extAddr (Some (replicate 8 0)) (Some chars) = Some (True, Some [1, 2, 3, 4, 0xAB, 6, 7, 8])"
  using ext_addr_text_roundtrip [of strRep_init "[1, 2, 3, 4, 0xAB, 6, 7, 8]" "replicate 8 0"]
  by (simp add: rep_ok_def strRep_init_def IEEE_ADDR_LEN_def)

text \<open>The same for byte arrays of up to 125 bytes, the capacity of a buffer.\<close>

lemma byte_array_text_roundtrip:
  assumes "rep_ok st" "d \<noteq> []" "length d \<le> 125" "length out = length d"
  shows "\<exists>chars st'. azap_byteArrayToString (Some d) (of_nat (length d)) st = Some (chars, st')
          \<and> stringToAzap_byteArray (Some out) (of_nat (length d)) (Some chars) = Some (of_nat (length d), Some d)"
proof -
  let ?h = "concat (map hex2 d)"
  let ?n = "of_nat (length d) :: u16"
  have n: "unat ?n = length d" using assms(3) by (intro unat_of_nat_u16) simp
  then have nz: "?n \<noteq> 0" using assms(2) by (metis length_0_conv unat_0)
  have loop: "byteArray_loop d (length d) 0 2 = Some ?h" using byteArray_loop_hex [of 0 "length d" d 2] assms(3) by simp
  have len: "length (hex_prefix @ ?h) = 2 + 2 * length d" using length_hex_text hex_prefix_no_zero(2) by simp
  have "0 \<notin> set (hex_prefix @ ?h)" using hex_text_no_zero hex_prefix_no_zero(1) by simp
  with len assms(1,3) store_rep_text [of "hex_prefix @ ?h" st] obtain buf st' where
    buf: "store_rep (hex_prefix @ ?h) st = Some (buf, st')" "strlen buf = Some (2 + 2 * length d)"
      "take (2 + 2 * length d) buf = hex_prefix @ ?h"
    by (auto simp: STR_MAX_SIZE_def rep_ok_def)
  have "take 2 buf = hex_prefix"
    using arg_cong [OF buf(3), of "take 2"] hex_prefix_no_zero(2) by (simp add: min_def)
  moreover have "drop 2 (take (2 + 2 * length d) buf) = ?h" unfolding buf(3) using hex_prefix_no_zero(2) by simp
  moreover have "scan_bytes (length d) ?h = Some d" using scan_hex [of d "[]"] by simp
  moreover have "(ucast ((of_nat (2 + 2 * length d) - 2 :: 64 word) div 2) :: u16) = ?n"
  proof -
    have "of_nat (2 + 2 * length d) - 2 = (of_nat (2 * length d) :: 64 word)" by simp
    moreover have "unat (of_nat (2 * length d) :: 64 word) = 2 * length d"
      using assms(3) by (simp add: unat_of_nat take_bit_nat_eq_self del: of_nat_mult)
    ultimately have "unat ((of_nat (2 + 2 * length d) - 2 :: 64 word) div 2) = length d"
      by (simp add: unat_div del: of_nat_mult)
    then show ?thesis using n assms(3)
      by (simp add: word_unat_eq_iff [where 'a = 16] unsigned_ucast_eq take_bit_nat_eq_self)
  qed
  ultimately have "stringToAzap_byteArray (Some out) ?n (Some buf) = Some (?n, Some d)"
    using buf(2) assms(4) n by (simp add: stringToAzap_byteArray_def memcpy_at_0 Let_def)
  with buf(1) loop n nz show ?thesis by (simp add: azap_byteArrayToString_def)
qed


subsection \<open>The five buffers\<close>

inductive text_call :: "strRep_t \<Rightarrow> bytes \<Rightarrow> strRep_t \<Rightarrow> bool" where
  "azap_uint8ToString b p st = Some (chars, st') \<Longrightarrow> text_call st chars st'"
| "azap_uint16ToString w p st = Some (chars, st') \<Longrightarrow> text_call st chars st'"
| "azap_extAddrToString a p st = Some (chars, st') \<Longrightarrow> text_call st chars st'"
| "azap_byteArrayToString d len st = Some (chars, st') \<Longrightarrow> text_call st chars st'"
| "azap_uint8ArrayToString d len st = Some (chars, st') \<Longrightarrow> text_call st chars st'"
| "azap_uint16ArrayToString ws len st = Some (chars, st') \<Longrightarrow> text_call st chars st'"

inductive text_calls :: "nat \<Rightarrow> strRep_t \<Rightarrow> strRep_t \<Rightarrow> bool" where
  "text_calls 0 st st"
| "text_calls n st st1 \<Longrightarrow> text_call st1 chars st2 \<Longrightarrow> text_calls (Suc n) st st2"

lemma text_call_store: "text_call st chars st' \<Longrightarrow> \<exists>s. store_rep s st = Some (chars, st')"
  by (induction rule: text_call.induct)
     (auto simp: azap_uint8ToString_def azap_uint16ToString_def azap_extAddrToString_def azap_byteArrayToString_def
       azap_uint8ArrayToString_def azap_uint16ArrayToString_def split: option.splits if_splits Option.bind_splits)

lemma next_rep_mod: "str_rep_i st < 5 \<Longrightarrow> unat (next_rep st) = (unat (str_rep_i st) + 1) mod 5"
proof -
  assume "str_rep_i st < 5"
  then have i: "unat (str_rep_i st) < 5" by (simp add: word_less_nat_alt)
  then have "unat (str_rep_i st + 1) = unat (str_rep_i st) + 1" by (simp add: unat_add_u8)
  with i show ?thesis by (auto simp: next_rep_def Let_def word_le_nat_alt not_le less_Suc_eq_le mod_Suc)
qed

lemma text_call_slot:
  assumes "rep_ok st" "text_call st chars st'"
  shows "rep_ok st'" "unat (str_rep_i st') = (unat (str_rep_i st) + 1) mod 5"
    "str_rep st' = (str_rep st)[unat (str_rep_i st') := chars]"
proof -
  obtain s where s: "store_rep s st = Some (chars, st')" using text_call_store [OF assms(2)] by blast
  have i: "unat (next_rep st) = (unat (str_rep_i st) + 1) mod 5" using assms(1) by (simp add: rep_ok_def next_rep_mod)
  then have "unat (next_rep st) < 5" by simp
  then have "next_rep st < 5" by (simp add: word_less_nat_alt)
  moreover have "length chars = STR_MAX_SIZE" using s by (auto simp: store_rep_def Let_def split: if_splits)
  then have "\<forall>b \<in> set ((str_rep st)[k := chars]). length b = STR_MAX_SIZE" for k
    using set_update_subset_insert [of "str_rep st" k chars] assms(1) by (auto simp: rep_ok_def)
  moreover have "st' = \<lparr>str_rep = (str_rep st)[unat (next_rep st) := chars], str_rep_i = next_rep st\<rparr>"
    using s by (auto simp: store_rep_def Let_def split: if_splits)
  ultimately show "rep_ok st'" using assms(1) by (simp add: rep_ok_def)
  show "unat (str_rep_i st') = (unat (str_rep_i st) + 1) mod 5"
    "str_rep st' = (str_rep st)[unat (str_rep_i st') := chars]"
    using s i by (auto simp: store_rep_def Let_def split: if_splits)
qed

lemma text_calls_slot:
  "text_calls n st st' \<Longrightarrow> rep_ok st \<Longrightarrow>
   rep_ok st' \<and> unat (str_rep_i st') = (unat (str_rep_i st) + n) mod 5
   \<and> (n \<le> 4 \<longrightarrow> str_rep st' ! unat (str_rep_i st) = str_rep st ! unat (str_rep_i st))"
proof (induction rule: text_calls.induct)
  case (1 st)
  then show ?case by (simp add: rep_ok_def word_less_nat_alt)
next
  case (2 n st st1 chars st2)
  then have ih: "rep_ok st1" "unat (str_rep_i st1) = (unat (str_rep_i st) + n) mod 5"
    "n \<le> 4 \<longrightarrow> str_rep st1 ! unat (str_rep_i st) = str_rep st ! unat (str_rep_i st)" by auto
  note c = text_call_slot [OF ih(1) "2.hyps"(2)]
  have i: "unat (str_rep_i st2) = (unat (str_rep_i st) + Suc n) mod 5" using c(2) ih(2) by (simp add: mod_Suc_eq)
  have lt: "unat (str_rep_i st) < 5" using "2.prems" by (simp add: rep_ok_def word_less_nat_alt)
  have "Suc n \<le> 4 \<Longrightarrow> (unat (str_rep_i st) + Suc n) mod 5 \<noteq> unat (str_rep_i st)"
    using lt by presburger
  with c i ih(3) show ?case by auto
qed

text \<open>Five texts at a time. A text that one of the six printing functions returned is still in its
  buffer, unchanged, after up to four further calls of any of them, whatever they print.\<close>

theorem text_kept_for_four_calls:
  assumes "rep_ok st" "text_call st chars st1" "text_calls n st1 st2" "n \<le> 4"
  shows "str_rep st2 ! unat (str_rep_i st1) = chars \<and> rep_ok st2"
proof -
  note c = text_call_slot [OF assms(1,2)]
  have "length (str_rep st) = 5" using assms(1) by (simp add: rep_ok_def)
  moreover have "unat (str_rep_i st1) < 5" using c(1) by (simp add: rep_ok_def word_less_nat_alt)
  ultimately have "str_rep st1 ! unat (str_rep_i st1) = chars" unfolding c(3) by simp
  with text_calls_slot [OF assms(3) c(1)] assms(4) show ?thesis by simp
qed

theorem text_kept_for_four_calls_witness:
  "\<exists>chars st1 st2. text_call strRep_init chars st1 \<and> text_calls 1 st1 st2
     \<and> str_rep st2 ! unat (str_rep_i st1) = chars \<and> take 2 chars = [97, 98]"
proof -
  have ok: "rep_ok strRep_init" by (simp add: rep_ok_def strRep_init_def)
  have ab: "hex2 0xAB = [97, 98]" by (simp add: hex2_def hex_digit_def)
  from store_rep_text [of "hex2 0xAB" strRep_init] ok obtain chars st1 where
    c: "azap_uint8ToString 0xAB False strRep_init = Some (chars, st1)" "take (Suc (Suc 0)) chars = [97, 98]"
    by (auto simp: azap_uint8ToString_def rep_ok_def STR_MAX_SIZE_def ab)
  then have t1: "text_call strRep_init chars st1" by (intro text_call.intros(1))
  from text_call_slot(1) [OF ok t1] have ok1: "rep_ok st1" .
  from store_rep_text [of "hex2 1" st1] ok1 obtain b st2 where "azap_uint8ToString 1 False st1 = Some (b, st2)"
    by (auto simp: azap_uint8ToString_def rep_ok_def hex2_def hex_digit_def STR_MAX_SIZE_def)
  then have "text_calls 1 st1 st2" unfolding One_nat_def by (blast intro: text_calls.intros text_call.intros)
  with text_kept_for_four_calls [OF ok t1 this] t1 c(2) show ?thesis by (auto simp: numeral_2_eq_2)
qed

text \<open>An empty list of 16-bit numbers makes \<open>azap_uint16ArrayToString\<close> store its terminator before the
  buffer.\<close>

lemma empty_uint16_list_out_of_bounds: "azap_uint16ArrayToString (Some a) 0 st = None"
  by (simp add: azap_uint16ArrayToString_def)

end
