(* ===== verification/Rtl_Path.thy ===== *)
theory Rtl_Path
  imports Ong_Prelude "HOL-Library.Sublist"
begin

section \<open>Variables in strings (rtbase/lib/dolpath.c, dolpath2.c)\<close>

text \<open>
  The two functions that copy a string and replace the variables in it, used by the configuration
  loader and by the XML templates. A C string is the list of its characters without the
  terminator. The output buffer is given by its size (\<open>None\<close> for \<open>NULL\<close>); a store at or behind that size is
  undefined behaviour, as is the use of the variable \<open>ptskip\<close> when no case of the switch has set
  it. The function that gives the value of a variable is an argument, a map from names to values
  (\<open>None\<close> for \<open>NULL\<close>); \<open>getenv\<close> is an argument too.
\<close>

definition rtl_getvar :: "(bytes \<Rightarrow> bytes option) \<Rightarrow> bytes option \<Rightarrow> bytes option" where
  "rtl_getvar getenv name =
     (case name of
        None \<Rightarrow> Some []
      | Some n \<Rightarrow> if n = [] then Some [] else (case getenv n of None \<Rightarrow> Some [] | Some v \<Rightarrow> Some v))"

definition rtl_getvar2 :: "(bytes \<Rightarrow> bytes option) \<Rightarrow> bytes option \<Rightarrow> bytes option" where
  "rtl_getvar2 getenv name =
     (case name of
        None \<Rightarrow> Some []
      | Some n \<Rightarrow> if n = [] then Some [] else (case getenv n of None \<Rightarrow> Some [] | Some v \<Rightarrow> Some v))"

definition rtl_isIn :: "u8 \<Rightarrow> bytes \<Rightarrow> bool" where
  "rtl_isIn c lst = (c \<in> set lst)"

text \<open>The characters before the first one that is in \<open>stop\<close>, and the rest from it on.\<close>

fun rtl_skipto :: "bytes \<Rightarrow> bytes \<Rightarrow> bytes \<times> bytes" where
  "rtl_skipto [] stop = ([], [])"
| "rtl_skipto (c # cs) stop =
     (if rtl_isIn c stop then ([], c # cs)
      else (case rtl_skipto cs stop of (a, b) \<Rightarrow> (c # a, b)))"

abbreviation "DOLLAR \<equiv> (36 :: u8)"
abbreviation "LBRACE \<equiv> (123 :: u8)"
abbreviation "RBRACE \<equiv> (125 :: u8)"
abbreviation "LPAREN \<equiv> (40 :: u8)"
abbreviation "RPAREN \<equiv> (41 :: u8)"

text \<open>The terminator that ends the output, and the store of characters behind it.\<close>

definition put_end :: "nat \<Rightarrow> bytes \<Rightarrow> bytes exec" where
  "put_end cap out = (if length out < cap then Some out else None)"

definition put_chars :: "nat \<Rightarrow> bytes \<Rightarrow> bytes \<Rightarrow> bytes exec" where
  "put_chars cap out cs = (if length out + length cs \<le> cap then Some (out @ cs) else None)"

text \<open>The value of a variable, cut at the room that is left.\<close>

definition clip_value :: "int \<Rightarrow> bytes \<Rightarrow> bytes \<Rightarrow> bytes" where
  "clip_value lgmax out v =
     (if int (length out) + int (length v) \<ge> lgmax then take (nat (lgmax - int (length out))) v else v)"

lemma length_skipto: "rtl_skipto cs stop = (a, b) \<Longrightarrow> length a + length b = length cs"
  by (induction cs arbitrary: a) (auto split: prod.splits if_splits)

lemma length_skipto_rest: "length (snd (rtl_skipto cs stop)) \<le> length cs"
  using length_skipto [of cs "stop"] by (cases "rtl_skipto cs stop") auto

function evalPath2_loop ::
  "(bytes \<Rightarrow> bytes option) \<Rightarrow> nat \<Rightarrow> int \<Rightarrow> bytes \<Rightarrow> bytes \<Rightarrow> bytes exec" where
  "evalPath2_loop fctvar cap lgmax [] out = put_end cap out"
| "evalPath2_loop fctvar cap lgmax (c # cs) out =
     (if \<not> int (length out) < lgmax then put_end cap out
      else if c = DOLLAR \<and> cs \<noteq> [] \<and> (hd cs = LBRACE \<or> hd cs = RPAREN) then
        (if hd cs = RPAREN then None
         else
           let name = fst (rtl_skipto (tl cs) [RBRACE]);
               rest = snd (rtl_skipto (tl cs) [RBRACE])
           in if rest = [] then put_end cap out
              else if length name + 1 \<ge> 128 then put_end cap out
              else do {
                let v = (case fctvar name of None \<Rightarrow> [] | Some v \<Rightarrow> v);
                out1 \<leftarrow> put_chars cap out (clip_value lgmax out v);
                evalPath2_loop fctvar cap lgmax (if hd rest = DOLLAR then rest else tl rest) out1
              })
      else do {
        out1 \<leftarrow> put_chars cap out [c];
        evalPath2_loop fctvar cap lgmax cs out1
      })"
  by pat_completeness auto

lemma skipto_shorter:
  "cs \<noteq> [] \<Longrightarrow> length (snd (rtl_skipto (tl cs) stop)) < Suc (length cs)"
  using length_skipto_rest [of "tl cs" "stop"] by (cases cs) auto

termination evalPath2_loop
proof (relation "measure (\<lambda>(f, cap, lgmax, cs, out). length cs)")
  fix f cap lgmax c cs out name rest v out1
  assume "c = DOLLAR \<and> cs \<noteq> [] \<and> (hd cs = LBRACE \<or> hd cs = RPAREN)"
    "rest = snd (rtl_skipto (tl cs) [RBRACE])"
  then show "((f, cap, lgmax, if hd rest = DOLLAR then rest else tl rest, out1), f, cap, lgmax, c # cs, out)
      \<in> measure (\<lambda>(f, cap, lgmax, cs, out). length cs)"
    using skipto_shorter [of cs "[RBRACE]"] by auto
qed auto

definition rtl_evalPath2 ::
  "(bytes \<Rightarrow> bytes option) \<Rightarrow> bytes \<Rightarrow> nat option \<Rightarrow> int \<Rightarrow> (bytes \<Rightarrow> bytes option) option \<Rightarrow> bytes option exec" where
  "rtl_evalPath2 getenv str out lgmax fctvar =
     (case out of
        None \<Rightarrow> Some None
      | Some cap \<Rightarrow>
          if cap = 0 then None
          else map_option Some
            (evalPath2_loop (case fctvar of Some f \<Rightarrow> f | None \<Rightarrow> (\<lambda>n. rtl_getvar2 getenv (Some n))) cap lgmax str []))"

text \<open>The first function also knows \<open>$NAME\<close> followed by a delimiter, which it copies.\<close>

definition path_delims :: bytes where
  "path_delims = [92, 47, 46, 36, 60, 62, 32, 9]"

function evalPath_loop ::
  "(bytes \<Rightarrow> bytes option) \<Rightarrow> nat \<Rightarrow> int \<Rightarrow> bytes \<Rightarrow> bytes \<Rightarrow> bytes exec" where
  "evalPath_loop fctvar cap lgmax [] out = put_end cap out"
| "evalPath_loop fctvar cap lgmax (c # cs) out =
     (if \<not> int (length out) < lgmax then put_end cap out
      else if c = DOLLAR then
        let braced = (cs \<noteq> [] \<and> (hd cs = LBRACE \<or> hd cs = LPAREN));
            ptskip = (if cs \<noteq> [] \<and> hd cs = LBRACE then [RBRACE]
                      else if cs \<noteq> [] \<and> hd cs = LPAREN then [RPAREN] else path_delims);
            str = (if braced then tl cs else cs);
            name = fst (rtl_skipto str ptskip);
            rest = snd (rtl_skipto str ptskip)
        in if rest = [] then put_end cap out
           else if length name + 1 \<ge> 128 then put_end cap out
           else do {
             let v = (case fctvar name of None \<Rightarrow> [] | Some v \<Rightarrow> v);
             out1 \<leftarrow> put_chars cap out (clip_value lgmax out v);
             if hd rest = DOLLAR then evalPath_loop fctvar cap lgmax rest out1
             else do {
               out2 \<leftarrow> (if \<not> braced then put_chars cap out1 [hd rest] else Some out1);
               evalPath_loop fctvar cap lgmax (tl rest) out2
             }
           }
      else do {
        out1 \<leftarrow> put_chars cap out [c];
        evalPath_loop fctvar cap lgmax cs out1
      })"
  by pat_completeness auto

termination evalPath_loop
proof (relation "measure (\<lambda>(f, cap, lgmax, cs, out). length cs)")
  have lt: "length (snd (rtl_skipto (if b then tl cs else cs) e)) < Suc (length cs)" for b e and cs :: bytes
    using length_skipto_rest [of "if b then tl cs else cs" e] by (cases b) auto
  fix f cap lgmax c cs out braced ptskip str name rest v out1
  assume "str = (if braced then tl cs else cs)" "rest = snd (rtl_skipto str ptskip)"
  then show "((f, cap, lgmax, rest, out1), f, cap, lgmax, c # cs, out) \<in> measure (\<lambda>(f, cap, lgmax, cs, out). length cs)"
    "((f, cap, lgmax, tl rest, out2), f, cap, lgmax, c # cs, out) \<in> measure (\<lambda>(f, cap, lgmax, cs, out). length cs)" for out2
    using lt [of braced cs ptskip] by auto
qed auto

definition rtl_evalPath ::
  "(bytes \<Rightarrow> bytes option) \<Rightarrow> bytes \<Rightarrow> nat option \<Rightarrow> int \<Rightarrow> (bytes \<Rightarrow> bytes option) option \<Rightarrow> bytes option exec" where
  "rtl_evalPath getenv str out lgmax fctvar =
     (case out of
        None \<Rightarrow> Some None
      | Some cap \<Rightarrow>
          if cap = 0 then None
          else map_option Some
            (evalPath_loop (case fctvar of Some f \<Rightarrow> f | None \<Rightarrow> (\<lambda>n. rtl_getvar getenv (Some n))) cap lgmax str []))"

declare evalPath2_loop.simps(2) [simp del] evalPath_loop.simps(2) [simp del]


subsection \<open>Bounds\<close>

lemma skipto_eq: "rtl_skipto cs stop = (takeWhile (\<lambda>c. c \<notin> set stop) cs, dropWhile (\<lambda>c. c \<notin> set stop) cs)"
  by (induction cs) (auto simp: rtl_isIn_def)

lemma skipto_stops: "rtl_skipto cs stop = (name, rest) \<Longrightarrow> rest \<noteq> [] \<Longrightarrow> hd rest \<in> set stop"
  by (induction cs arbitrary: name) (auto simp: rtl_isIn_def split: if_splits prod.splits)

lemma skipto_suffix: "rtl_skipto cs stop = (name, rest) \<Longrightarrow> suffix rest cs"
  by (auto simp: skipto_eq suffix_dropWhile)

lemma suffix_tl: "suffix xs ys \<Longrightarrow> suffix (tl xs) ys"
  by (cases xs) (auto dest: suffix_ConsD)

lemma clip_length: "int (length out) < lgmax \<Longrightarrow> int (length out) + int (length (clip_value lgmax out v)) \<le> lgmax"
  by (auto simp: clip_value_def)

lemma clip_all: "int (length out) + int (length v) \<le> lgmax \<Longrightarrow> clip_value lgmax out v = v"
  by (auto simp: clip_value_def)

definition value_of :: "(bytes \<Rightarrow> bytes option) \<Rightarrow> bytes \<Rightarrow> bytes" where
  "value_of fctvar name = (case fctvar name of None \<Rightarrow> [] | Some v \<Rightarrow> v)"

lemma put_chars_fits: "length out + length cs \<le> cap \<Longrightarrow> put_chars cap out cs = Some (out @ cs)"
  by (simp add: put_chars_def)

lemma put_end_fits: "length out < cap \<Longrightarrow> put_end cap out = Some out"
  by (simp add: put_end_def)

lemma evalPath_loop_stop: "\<not> int (length out) < lgmax \<Longrightarrow> evalPath_loop fctvar cap lgmax cs out = put_end cap out"
  by (cases cs) (simp_all add: evalPath_loop.simps(2))

lemma evalPath_loop_char:
  "int (length out) < lgmax \<Longrightarrow> lgmax \<le> int cap \<Longrightarrow> c \<noteq> DOLLAR \<Longrightarrow>
   evalPath_loop fctvar cap lgmax (c # cs) out = evalPath_loop fctvar cap lgmax cs (out @ [c])"
  by (simp add: evalPath_loop.simps(2) put_chars_fits)

text \<open>The name behind a \<open>$\<close>: whether it is bracketed, the name and the string from its end on.\<close>

definition path_var :: "bytes \<Rightarrow> bool \<times> bytes \<times> bytes" where
  "path_var cs =
     (if cs \<noteq> [] \<and> hd cs = LBRACE then (True, rtl_skipto (tl cs) [RBRACE])
      else if cs \<noteq> [] \<and> hd cs = LPAREN then (True, rtl_skipto (tl cs) [RPAREN])
      else (False, rtl_skipto cs path_delims))"

lemma path_var_shorter: "path_var cs = (b, name, rest) \<Longrightarrow> length rest \<le> length cs"
  using length_skipto_rest [of "tl cs" "[RBRACE]"] length_skipto_rest [of "tl cs" "[RPAREN]"]
    length_skipto_rest [of cs path_delims]
  by (auto simp: path_var_def split: if_splits)

lemma evalPath_loop_var:
  assumes "int (length out) < lgmax" "lgmax \<le> int cap" "path_var cs = (b, name, rest)"
  shows "evalPath_loop fctvar cap lgmax (DOLLAR # cs) out =
    (if rest = [] \<or> length name \<ge> 127 then put_end cap out
     else let out1 = out @ clip_value lgmax out (value_of fctvar name) in
       if hd rest = DOLLAR then evalPath_loop fctvar cap lgmax rest out1
       else if b then evalPath_loop fctvar cap lgmax (tl rest) out1
       else do { out2 \<leftarrow> put_chars cap out1 [hd rest]; evalPath_loop fctvar cap lgmax (tl rest) out2 })"
proof -
  have "put_chars cap out (clip_value lgmax out (value_of fctvar name)) = Some (out @ clip_value lgmax out (value_of fctvar name))"
    using clip_length [OF assms(1), of "value_of fctvar name"] assms(2) by (intro put_chars_fits) linarith
  with assms(1,3) show ?thesis
    by (auto simp: evalPath_loop.simps(2) path_var_def Let_def value_of_def split: if_splits)
qed

lemma evalPath_loop_bound:
  "int (length out) \<le> lgmax + 1 \<Longrightarrow> lgmax + 2 \<le> int cap \<Longrightarrow>
   \<exists>r. evalPath_loop fctvar cap lgmax cs out = Some r \<and> int (length r) \<le> lgmax + 1"
proof (induction cs arbitrary: out rule: length_induct)
  case (1 cs)
  note room = 1(2,3)
  have end_ok: "\<exists>r. put_end cap out = Some r \<and> int (length r) \<le> lgmax + 1"
    using room by (simp add: put_end_fits)
  show ?case
  proof (cases "cs = [] \<or> \<not> int (length out) < lgmax")
    case True
    with end_ok show ?thesis by (auto simp: evalPath_loop_stop)
  next
    case False
    then obtain c ds where cs: "cs = c # ds" and lt: "int (length out) < lgmax" by (cases cs) auto
    show ?thesis
    proof (cases "c = DOLLAR")
      case False
      with 1(1)[rule_format, of ds "out @ [c]"] lt room show ?thesis
        by (simp add: cs evalPath_loop_char)
    next
      case True
      obtain b name rest where v: "path_var ds = (b, name, rest)" by (cases "path_var ds")
      define out1 where "out1 = out @ clip_value lgmax out (value_of fctvar name)"
      have len: "length rest < length cs" "length (tl rest) < length cs"
        using path_var_shorter [OF v] by (auto simp: cs)
      have o1: "int (length out1) \<le> lgmax"
        using clip_length [OF lt, of "value_of fctvar name"] by (simp add: out1_def)
      then have "put_chars cap out1 [hd rest] = Some (out1 @ [hd rest])"
        using room by (intro put_chars_fits) simp
      moreover note 1(1)[rule_format, of rest out1] 1(1)[rule_format, of "tl rest" out1]
        1(1)[rule_format, of "tl rest" "out1 @ [hd rest]"]
      ultimately show ?thesis
        using len o1 room end_ok evalPath_loop_var [OF lt _ v, of cap fctvar]
        by (auto simp: cs True Let_def simp flip: out1_def)
    qed
  qed
qed

subsection \<open>Templates\<close>

text \<open>A template as the list of its parts, its text, and its value: the specification of both
  functions.\<close>

datatype tmpl = Lit bytes | Braced bytes | Paren bytes | Bare bytes u8

fun tmpl_print :: "tmpl \<Rightarrow> bytes" where
  "tmpl_print (Lit l) = l"
| "tmpl_print (Braced n) = DOLLAR # LBRACE # n @ [RBRACE]"
| "tmpl_print (Paren n) = DOLLAR # LPAREN # n @ [RPAREN]"
| "tmpl_print (Bare n d) = DOLLAR # n @ [d]"

fun tmpl_value :: "(bytes \<Rightarrow> bytes option) \<Rightarrow> tmpl \<Rightarrow> bytes" where
  "tmpl_value fctvar (Lit l) = l"
| "tmpl_value fctvar (Braced n) = value_of fctvar n"
| "tmpl_value fctvar (Paren n) = value_of fctvar n"
| "tmpl_value fctvar (Bare n d) = value_of fctvar n @ [d]"

fun tmpl_ok :: "tmpl \<Rightarrow> bool" where
  "tmpl_ok (Lit l) = (DOLLAR \<notin> set l)"
| "tmpl_ok (Braced n) = (RBRACE \<notin> set n \<and> length n < 127)"
| "tmpl_ok (Paren n) = (RPAREN \<notin> set n \<and> length n < 127)"
| "tmpl_ok (Bare n d) = (set n \<inter> set path_delims = {} \<and> length n < 127 \<and> d \<in> set path_delims \<and> d \<noteq> DOLLAR \<and>
     (case n of [] \<Rightarrow> True | c # cs \<Rightarrow> c \<noteq> LBRACE \<and> c \<noteq> LPAREN))"

abbreviation "tmpl_text ts \<equiv> concat (map tmpl_print ts)"
abbreviation "tmpl_result fctvar ts \<equiv> concat (map (tmpl_value fctvar) ts)"

lemma skipto_found: "set n \<inter> set stop = {} \<Longrightarrow> d \<in> set stop \<Longrightarrow> rtl_skipto (n @ d # cs) stop = (n, d # cs)"
  by (induction n) (auto simp: rtl_isIn_def)

lemma evalPath_loop_lit:
  "DOLLAR \<notin> set l \<Longrightarrow> int (length out) + int (length l) \<le> lgmax \<Longrightarrow> lgmax < int cap \<Longrightarrow>
   evalPath_loop fctvar cap lgmax (l @ cs) out = evalPath_loop fctvar cap lgmax cs (out @ l)"
  by (induction l arbitrary: out) (simp_all add: evalPath_loop_char)

lemma path_var_bare: "tmpl_ok (Bare n d) \<Longrightarrow> path_var (n @ d # cs) = (False, n, d # cs)"
proof -
  assume ok: "tmpl_ok (Bare n d)"
  then have "hd (n @ d # cs) \<noteq> LBRACE" "hd (n @ d # cs) \<noteq> LPAREN"
    by (auto simp: path_delims_def split: list.splits)
  with ok show ?thesis by (simp add: path_var_def skipto_found)
qed

lemma evalPath_loop_part:
  assumes "tmpl_ok t" "int (length out) + int (length (tmpl_value fctvar t)) \<le> lgmax" "lgmax < int cap"
    "int (length out) < lgmax"
  shows "evalPath_loop fctvar cap lgmax (tmpl_print t @ cs) out =
    evalPath_loop fctvar cap lgmax cs (out @ tmpl_value fctvar t)"
proof (cases t)
  case (Lit l)
  with assms show ?thesis by (simp add: evalPath_loop_lit)
next
  case (Braced n)
  then have "path_var (LBRACE # n @ RBRACE # cs) = (True, n, RBRACE # cs)"
    using assms(1) by (simp add: path_var_def skipto_found)
  from evalPath_loop_var [OF assms(4) _ this, of cap fctvar] Braced assms show ?thesis
    by (simp add: Let_def clip_all)
next
  case (Paren n)
  then have "path_var (LPAREN # n @ RPAREN # cs) = (True, n, RPAREN # cs)"
    using assms(1) by (simp add: path_var_def skipto_found)
  from evalPath_loop_var [OF assms(4) _ this, of cap fctvar] Paren assms show ?thesis
    by (simp add: Let_def clip_all)
next
  case (Bare n d)
  from evalPath_loop_var [OF assms(4) _ path_var_bare, of cap n d fctvar cs] Bare assms show ?thesis
    by (simp add: Let_def clip_all put_chars_fits)
qed

lemma evalPath_loop_template:
  "list_all tmpl_ok ts \<Longrightarrow> int (length out) + int (length (tmpl_result fctvar ts)) \<le> lgmax \<Longrightarrow> lgmax < int cap \<Longrightarrow>
   evalPath_loop fctvar cap lgmax (tmpl_text ts) out = Some (out @ tmpl_result fctvar ts)"
proof (induction ts arbitrary: out)
  case Nil
  then show ?case by (simp add: put_end_fits)
next
  case (Cons t ts)
  show ?case
  proof (cases "int (length out) < lgmax")
    case True
    with Cons show ?thesis by (simp add: evalPath_loop_part)
  next
    case False
    with Cons.prems(2) have "length (tmpl_result fctvar (t # ts)) = 0" by linarith
    then have "tmpl_result fctvar (t # ts) = []" by (simp only: length_0_conv)
    with False show ?thesis using Cons.prems by (simp add: evalPath_loop_stop put_end_fits)
  qed
qed

text \<open>\<open>rtl_evalPath2\<close> knows the braces only.\<close>

fun tmpl2_ok :: "tmpl \<Rightarrow> bool" where
  "tmpl2_ok (Lit l) = (DOLLAR \<notin> set l)"
| "tmpl2_ok (Braced n) = (RBRACE \<notin> set n \<and> length n < 127)"
| "tmpl2_ok _ = False"

lemma evalPath2_loop_stop: "\<not> int (length out) < lgmax \<Longrightarrow> evalPath2_loop fctvar cap lgmax cs out = put_end cap out"
  by (cases cs) (simp_all add: evalPath2_loop.simps(2))

lemma evalPath2_loop_char:
  "int (length out) < lgmax \<Longrightarrow> lgmax \<le> int cap \<Longrightarrow> c \<noteq> DOLLAR \<or> cs = [] \<or> hd cs \<noteq> LBRACE \<and> hd cs \<noteq> RPAREN \<Longrightarrow>
   evalPath2_loop fctvar cap lgmax (c # cs) out = evalPath2_loop fctvar cap lgmax cs (out @ [c])"
  by (auto simp: evalPath2_loop.simps(2) put_chars_fits)

lemma clip_take: "int (length out) < lgmax \<Longrightarrow> out @ clip_value lgmax out v = take (nat lgmax) (out @ v)"
  by (auto simp: clip_value_def nat_diff_distrib')

lemma evalPath2_loop_var:
  assumes "int (length out) < lgmax" "lgmax \<le> int cap" "rtl_skipto cs [RBRACE] = (name, rest)"
  shows "evalPath2_loop fctvar cap lgmax (DOLLAR # LBRACE # cs) out =
    (if rest = [] \<or> length name \<ge> 127 then put_end cap out
     else evalPath2_loop fctvar cap lgmax (tl rest) (take (nat lgmax) (out @ value_of fctvar name)))"
proof -
  have "put_chars cap out (clip_value lgmax out (value_of fctvar name)) = Some (take (nat lgmax) (out @ value_of fctvar name))"
    using clip_length [OF assms(1), of "value_of fctvar name"] assms(2)
    by (subst put_chars_fits) (simp_all add: clip_take [OF assms(1)])
  moreover from skipto_stops [OF assms(3)] have "rest \<noteq> [] \<Longrightarrow> hd rest = RBRACE" by simp
  ultimately show ?thesis
    using assms(1,3) by (auto simp: evalPath2_loop.simps(2) Let_def value_of_def)
qed

lemma evalPath2_loop_bound:
  "\<not> sublist [DOLLAR, RPAREN] cs \<Longrightarrow> int (length out) \<le> lgmax \<Longrightarrow> lgmax < int cap \<Longrightarrow>
   \<exists>r. evalPath2_loop fctvar cap lgmax cs out = Some r \<and> int (length r) \<le> lgmax"
proof (induction cs arbitrary: out rule: length_induct)
  case (1 cs)
  note room = 1(3,4)
  have end_ok: "\<exists>r. put_end cap out = Some r \<and> int (length r) \<le> lgmax"
    using room by (simp add: put_end_fits)
  have tails: "suffix ds cs \<Longrightarrow> \<not> sublist [DOLLAR, RPAREN] ds" for ds
    using 1(2) by (meson sublist_order.order_trans suffix_imp_sublist)
  show ?case
  proof (cases "cs = [] \<or> \<not> int (length out) < lgmax")
    case True
    with end_ok show ?thesis by (auto simp: evalPath2_loop_stop)
  next
    case False
    then obtain c ds where cs: "cs = c # ds" and lt: "int (length out) < lgmax" by (cases cs) auto
    show ?thesis
    proof (cases "c = DOLLAR \<and> ds \<noteq> [] \<and> hd ds = LBRACE")
      case True
      then obtain es where ds: "ds = LBRACE # es" by (cases ds) auto
      obtain name rest where v: "rtl_skipto es [RBRACE] = (name, rest)" by (cases "rtl_skipto es [RBRACE]")
      have sf: "suffix (tl rest) es" by (rule suffix_tl [OF skipto_suffix [OF v]])
      then have sfc: "suffix (tl rest) cs" by (simp add: cs ds suffix_ConsI)
      from sf have "length (tl rest) < length cs" using suffix_length_le [OF sf] by (simp add: cs ds)
      with 1(1)[rule_format, of "tl rest" "take (nat lgmax) (out @ value_of fctvar name)"] tails [OF sfc] end_ok lt room
      show ?thesis
        using True by (auto simp: cs ds evalPath2_loop_var [OF lt _ v])
    next
      case False
      have "\<not> (c = DOLLAR \<and> ds \<noteq> [] \<and> hd ds = RPAREN)"
        using 1(2) by (cases ds) (auto simp: cs)
      with False 1(1)[rule_format, of ds "out @ [c]"] lt room tails [of ds] show ?thesis
        by (auto simp: cs evalPath2_loop_char suffix_ConsI)
    qed
  qed
qed

lemma take_take_append: "take n (take n xs @ ys) = take n (xs @ ys)"
  by (simp add: min_def)

lemma evalPath2_loop_lit:
  "DOLLAR \<notin> set l \<Longrightarrow> int (length out) \<le> lgmax \<Longrightarrow> lgmax < int cap \<Longrightarrow>
   evalPath2_loop fctvar cap lgmax (l @ cs) out = evalPath2_loop fctvar cap lgmax cs (take (nat lgmax) (out @ l))"
proof (induction l arbitrary: out)
  case (Cons c l)
  show ?case
  proof (cases "int (length out) < lgmax")
    case True
    with Cons show ?thesis by (simp add: evalPath2_loop_char del: take_append)
  next
    case False
    with Cons.prems have "nat lgmax = length out" by simp
    with False show ?thesis by (simp add: evalPath2_loop_stop)
  qed
qed simp

lemma evalPath2_loop_part:
  assumes "tmpl2_ok t" "int (length out) \<le> lgmax" "lgmax < int cap"
  shows "evalPath2_loop fctvar cap lgmax (tmpl_print t @ cs) out =
    evalPath2_loop fctvar cap lgmax cs (take (nat lgmax) (out @ tmpl_value fctvar t))"
proof (cases t)
  case (Lit l)
  with assms show ?thesis by (simp add: evalPath2_loop_lit)
next
  case (Braced n)
  show ?thesis
  proof (cases "int (length out) < lgmax")
    case True
    have "rtl_skipto (n @ RBRACE # cs) [RBRACE] = (n, RBRACE # cs)"
      using assms(1) Braced by (simp add: skipto_found)
    from evalPath2_loop_var [OF True _ this, of cap fctvar] Braced assms show ?thesis by simp
  next
    case False
    with assms(2) have "nat lgmax = length out" by simp
    with False show ?thesis by (simp add: evalPath2_loop_stop)
  qed
qed (use assms(1) in simp_all)

lemma evalPath2_loop_template:
  "list_all tmpl2_ok ts \<Longrightarrow> int (length out) \<le> lgmax \<Longrightarrow> lgmax < int cap \<Longrightarrow>
   evalPath2_loop fctvar cap lgmax (tmpl_text ts) out = Some (take (nat lgmax) (out @ tmpl_result fctvar ts))"
proof (induction ts arbitrary: out)
  case Nil
  then show ?case by (simp add: put_end_fits)
next
  case (Cons t ts)
  then show ?case using take_take_append [of "nat lgmax" "out @ tmpl_value fctvar t" "tmpl_result fctvar ts"]
    by (simp add: evalPath2_loop_part del: take_append)
qed

subsection \<open>Properties\<close>

text \<open>C16: \<open>rtl_evalPath2\<close> into a buffer that has room for \<open>lgmax\<close> characters and the terminator
  gives the value of a template with braced variables, cut at \<open>lgmax\<close> characters; and for any other
  string without a \<open>$)\<close> it stays inside that buffer.\<close>

theorem evalPath2_expands:
  assumes "0 \<le> lgmax" "lgmax < int cap"
  shows "(list_all tmpl2_ok ts \<longrightarrow>
      rtl_evalPath2 getenv (tmpl_text ts) (Some cap) lgmax (Some fctvar) = Some (Some (take (nat lgmax) (tmpl_result fctvar ts)))) \<and>
    (\<not> sublist [DOLLAR, RPAREN] str \<longrightarrow>
      (\<exists>r. rtl_evalPath2 getenv str (Some cap) lgmax (Some fctvar) = Some (Some r) \<and> int (length r) \<le> lgmax))"
  using assms evalPath2_loop_template [of ts "[]" lgmax cap fctvar] evalPath2_loop_bound [of str "[]" lgmax cap fctvar]
  by (auto simp: rtl_evalPath2_def)

definition sampleVar :: "bytes \<Rightarrow> bytes option" where
  "sampleVar n = (if n = [65] then Some [49, 50] else None)"

theorem evalPath2_expands_witness:
  "rtl_evalPath2 Map.empty (tmpl_text [Lit [120], Braced [65], Braced [66], Lit [121]]) (Some 4) 3 (Some sampleVar) = Some (Some [120, 49, 50])"
  using evalPath2_expands [of 3 4 "[Lit [120], Braced [65], Braced [66], Lit [121]]" Map.empty sampleVar "[]"]
  by (simp add: value_of_def sampleVar_def)

text \<open>C17: \<open>rtl_evalPath\<close> into a buffer of \<open>lgmax + 2\<close> bytes never stores behind it and writes at most
  \<open>lgmax + 1\<close> characters, whatever the string; the text of a template whose value has at most \<open>lgmax\<close>
  characters gives exactly that value.\<close>

theorem evalPath_needs_two_more:
  assumes "0 \<le> lgmax" "lgmax + 2 \<le> int cap"
  shows "\<exists>r. rtl_evalPath getenv str (Some cap) lgmax (Some fctvar) = Some (Some r) \<and> int (length r) \<le> lgmax + 1 \<and>
    (\<forall>ts. list_all tmpl_ok ts \<longrightarrow> str = tmpl_text ts \<longrightarrow> int (length (tmpl_result fctvar ts)) \<le> lgmax \<longrightarrow>
       r = tmpl_result fctvar ts)"
proof -
  from evalPath_loop_bound [of "[]" lgmax cap fctvar str] assms obtain r where
    r: "evalPath_loop fctvar cap lgmax str [] = Some r" "int (length r) \<le> lgmax + 1" by auto
  moreover have "r = tmpl_result fctvar ts"
    if "list_all tmpl_ok ts" "str = tmpl_text ts" "int (length (tmpl_result fctvar ts)) \<le> lgmax" for ts
    using evalPath_loop_template [of ts "[]" fctvar lgmax cap] that assms r(1) by simp
  ultimately show ?thesis using assms by (auto simp: rtl_evalPath_def)
qed

theorem evalPath_needs_two_more_witness:
  "rtl_evalPath Map.empty (tmpl_text [Bare [65] 47, Paren [65], Lit [120]]) (Some 8) 6 (Some sampleVar) = Some (Some [49, 50, 47, 49, 50, 120])"
proof -
  let ?ts = "[Bare [65] 47, Paren [65], Lit [120]]"
  have ok: "list_all tmpl_ok ?ts" and val: "tmpl_result sampleVar ?ts = [49, 50, 47, 49, 50, 120]"
    by (simp_all add: path_delims_def value_of_def sampleVar_def)
  from evalPath_needs_two_more [of 6 8 Map.empty "tmpl_text ?ts" sampleVar] obtain r where
    r: "rtl_evalPath Map.empty (tmpl_text ?ts) (Some 8) 6 (Some sampleVar) = Some (Some r)"
    and "\<forall>ts. list_all tmpl_ok ts \<longrightarrow> tmpl_text ?ts = tmpl_text ts \<longrightarrow>
      int (length (tmpl_result sampleVar ts)) \<le> 6 \<longrightarrow> r = tmpl_result sampleVar ts" by auto
  from this(2) [rule_format, OF ok refl] have "r = [49, 50, 47, 49, 50, 120]" unfolding val by simp
  with r show ?thesis by simp
qed

text \<open>A smaller buffer is overrun. With \<open>lgmax\<close> bytes, which is what the callers of
  \<open>rtl_evalPath\<close> allocate, any plain string of at least \<open>lgmax\<close> characters stores the terminator
  behind the buffer; with \<open>lgmax + 1\<close> bytes, so does the value of \<open>lgmax\<close> or more characters of an
  unbracketed name, whose delimiter is copied without looking at the room left.\<close>

theorem evalPath_overrun:
  assumes "0 < n"
  shows "(DOLLAR \<notin> set str \<longrightarrow> n \<le> length str \<longrightarrow> rtl_evalPath getenv str (Some n) (int n) fctvar = None) \<and>
    (tmpl_ok (Bare name d) \<longrightarrow> n \<le> length (value_of f name) \<longrightarrow>
      rtl_evalPath getenv (tmpl_print (Bare name d)) (Some (n + 1)) (int n) (Some f) = None)"
proof (intro conjI impI)
  have "evalPath_loop f n (int n) str out = None" if "DOLLAR \<notin> set str" "n \<le> length out + length str" "length out \<le> n" for f out
    using that
  proof (induction str arbitrary: out)
    case Nil
    then show ?case by (simp add: put_end_def)
  next
    case (Cons c cs)
    then show ?case
      by (cases "length out = n") (simp_all add: evalPath_loop_stop evalPath_loop_char put_end_def)
  qed
  then show "rtl_evalPath getenv str (Some n) (int n) fctvar = None" if "DOLLAR \<notin> set str" "n \<le> length str"
    using that by (simp add: rtl_evalPath_def)
  assume ok: "tmpl_ok (Bare name d)" and long: "n \<le> length (value_of f name)"
  show "rtl_evalPath getenv (tmpl_print (Bare name d)) (Some (n + 1)) (int n) (Some f) = None"
    using ok long assms evalPath_loop_var [OF _ _ path_var_bare [OF ok, of "[]"], of "[]" "int n" "n + 1" f]
    by (simp add: rtl_evalPath_def Let_def clip_value_def put_chars_fits put_end_def)
qed

theorem evalPath_overrun_witness:
  "rtl_evalPath Map.empty [120, 121] (Some 2) 2 None = None \<and>
   rtl_evalPath Map.empty [36, 65, 47] (Some 3) 2 (Some sampleVar) = None"
  using evalPath_overrun [of 2 "[120, 121]" Map.empty None "[65]" 47 sampleVar]
  by (simp add: path_delims_def value_of_def sampleVar_def)

end
