(* ===== verification/Rtl_Poll.thy ===== *)
theory Rtl_Poll
  imports Rtl_Htbl
begin

unbundle bit_operations_syntax

section \<open>The poll table (rtbase/lib/poll.c)\<close>

text \<open>
  The table of the file descriptors a process waits for, with the functions to call for each: the
  main loop that drives the ports of the ZigBee library. The two parallel arrays are lists
  (\<open>None\<close> for \<open>NULL\<close>); the fields of an array cell that \<open>malloc\<close> has not initialised are \<open>Uninit\<close>, and reading
  them is undefined behaviour (\<open>None\<close>). A function pointer is a value of the type \<open>'f\<close>; \<open>call\<close> says what calling it
  does to the table and to the rest of the process (the state \<open>'w\<close>). The outcome of an allocation
  and the system call \<open>poll\<close> are arguments. The two loops that call functions read the size of the
  table again in each turn, so they end only when the functions stop growing it.
\<close>

subsection \<open>Data\<close>

datatype 'a cell = Uninit | Init 'a

fun read_cell :: "'a cell \<Rightarrow> 'a exec" where
  "read_cell Uninit = None"
| "read_cell (Init x) = Some x"

record POLLFD =
  poll_fd :: int
  poll_events :: u16
  poll_revents :: u16

record ('f, 'r) HAND =
  fctevent :: "'f option cell"
  fctrequest :: "'f option cell"
  hand_ref :: "'r cell"
  hand_ref2 :: "'r cell"

record ('f, 'r) polltable_t =
  tbPoll :: "POLLFD list option"
  handPoll :: "('f, 'r) HAND list option"
  szTbPoll :: int
  nbPoll :: int

definition SZPOLL :: nat where "SZPOLL = 10"
definition POLLIN :: u16 where [const_defs]: "POLLIN = 1"
definition POLLPRI :: u16 where [const_defs]: "POLLPRI = 2"
definition POLLOUT :: u16 where [const_defs]: "POLLOUT = 4"
definition POLL_MASK :: u16 where "POLL_MASK = POLLIN OR POLLOUT OR POLLPRI"
definition EINVAL :: int where "EINVAL = 22"

definition NEW_POLLFD :: POLLFD where
  "NEW_POLLFD = \<lparr>poll_fd = -1, poll_events = 0, poll_revents = 0\<rparr>"

definition NEW_HAND :: "('f, 'r) HAND" where
  "NEW_HAND = \<lparr>fctevent = Uninit, fctrequest = Uninit, hand_ref = Uninit, hand_ref2 = Uninit\<rparr>"

subsection \<open>Operations\<close>

definition rtl_pollInit :: "bool \<Rightarrow> ('f, 'r) polltable_t option" where
  "rtl_pollInit callocOk =
     (if callocOk then Some \<lparr>tbPoll = None, handPoll = None, szTbPoll = 0, nbPoll = 0\<rparr> else None)"

text \<open>Access to the cells at index \<open>i\<close> of the arrays.\<close>

definition tb_get :: "nat \<Rightarrow> ('f, 'r) polltable_t \<Rightarrow> POLLFD exec" where
  "tb_get i t = do { ps \<leftarrow> tbPoll t; idx ps i }"

definition tb_set :: "nat \<Rightarrow> (POLLFD \<Rightarrow> POLLFD) \<Rightarrow> ('f, 'r) polltable_t \<Rightarrow> ('f, 'r) polltable_t exec" where
  "tb_set i f t = do { ps \<leftarrow> tbPoll t; p \<leftarrow> idx ps i; Some (t\<lparr>tbPoll := Some (ps[i := f p])\<rparr>) }"

definition hand_get :: "nat \<Rightarrow> ('f, 'r) polltable_t \<Rightarrow> ('f, 'r) HAND exec" where
  "hand_get i t = do { hs \<leftarrow> handPoll t; idx hs i }"

definition hand_set :: "nat \<Rightarrow> (('f, 'r) HAND \<Rightarrow> ('f, 'r) HAND) \<Rightarrow> ('f, 'r) polltable_t \<Rightarrow> ('f, 'r) polltable_t exec" where
  "hand_set i f t = do { hs \<leftarrow> handPoll t; h \<leftarrow> idx hs i; Some (t\<lparr>handPoll := Some (hs[i := f h])\<rparr>) }"

text \<open>The first of \<open>n\<close> cells from the index \<open>i\<close> on whose descriptor satisfies \<open>P\<close>.\<close>

fun scan_fd :: "(int \<Rightarrow> bool) \<Rightarrow> nat \<Rightarrow> nat \<Rightarrow> ('f, 'r) polltable_t \<Rightarrow> nat option exec" where
  "scan_fd P i 0 t = Some None"
| "scan_fd P i (Suc n) t = do {
     p \<leftarrow> tb_get i t;
     if P (poll_fd p) then Some (Some i) else scan_fd P (Suc i) n t
   }"

text \<open>The growth of a full table. An array that could not be reallocated is lost, with the new size
  already stored; \<open>realloc\<close> of \<open>NULL\<close> with a size other than 0 is not modelled further (\<open>None\<close>): no
  operation leaves such a table full.\<close>

definition grow_table :: "bool \<Rightarrow> bool \<Rightarrow> ('f, 'r) polltable_t \<Rightarrow> ('f, 'r) polltable_t exec" where
  "grow_table handOk tbOk t =
     (if szTbPoll t = 0
      then Some (t\<lparr>szTbPoll := int SZPOLL,
                   handPoll := (if handOk then Some (replicate SZPOLL NEW_HAND) else None),
                   tbPoll := (if tbOk then Some (replicate SZPOLL NEW_POLLFD) else None)\<rparr>)
      else do {
        hs \<leftarrow> handPoll t;
        ps \<leftarrow> tbPoll t;
        Some (t\<lparr>szTbPoll := szTbPoll t + int SZPOLL,
                handPoll := (if handOk then Some (hs @ replicate SZPOLL NEW_HAND) else None),
                tbPoll := (if tbOk then Some (ps @ replicate SZPOLL NEW_POLLFD) else None)\<rparr>)
      })"

definition rtl_pollAdd ::
  "bool \<Rightarrow> bool \<Rightarrow> ('f, 'r) polltable_t \<Rightarrow> int \<Rightarrow> 'f option \<Rightarrow> 'f option \<Rightarrow> 'r \<Rightarrow> 'r \<Rightarrow>
   (int \<times> ('f, 'r) polltable_t) exec" where
  "rtl_pollAdd handOk tbOk table fd event request ref ref2 = do {
     t \<leftarrow> (if nbPoll table = szTbPoll table then grow_table handOk tbOk table else Some table);
     if nbPoll table = szTbPoll table \<and> (handPoll t = None \<or> tbPoll t = None) then Some (-1, t)
     else do {
       free \<leftarrow> scan_fd (\<lambda>x. x < 0) 0 (nat (szTbPoll t)) t;
       case free of
         None \<Rightarrow> Some (-1, t)
       | Some i \<Rightarrow> do {
           t1 \<leftarrow> tb_set i (\<lambda>p. \<lparr>poll_fd = fd, poll_events = (if request \<noteq> None then 0 else POLLIN), poll_revents = 0\<rparr>) t;
           t2 \<leftarrow> hand_set i (\<lambda>h. \<lparr>fctevent = Init event, fctrequest = Init request, hand_ref = Init ref, hand_ref2 = Init ref2\<rparr>) t1;
           Some (int i, t2\<lparr>nbPoll := nbPoll t2 + 1\<rparr>)
         }
     }
   }"

definition rtl_pollFind :: "('f, 'r) polltable_t \<Rightarrow> int \<Rightarrow> int exec" where
  "rtl_pollFind table fd = do {
     r \<leftarrow> scan_fd (\<lambda>x. x = fd) 0 (nat (szTbPoll table)) table;
     Some (case r of None \<Rightarrow> -1 | Some i \<Rightarrow> int i)
   }"

definition rtl_pollChg ::
  "('f, 'r) polltable_t \<Rightarrow> int \<Rightarrow> 'f option \<Rightarrow> 'r \<Rightarrow> 'r \<Rightarrow> (int \<times> ('f, 'r) polltable_t) exec" where
  "rtl_pollChg table fd event ref ref2 = do {
     i \<leftarrow> rtl_pollFind table fd;
     if i < 0 then Some (-1, table)
     else do {
       t \<leftarrow> hand_set (nat i) (\<lambda>h. h\<lparr>fctevent := Init event, hand_ref := Init ref, hand_ref2 := Init ref2\<rparr>) table;
       Some (0, t)
     }
   }"

definition rtl_pollSetEvt :: "('f, 'r) polltable_t \<Rightarrow> int \<Rightarrow> int \<Rightarrow> (int \<times> ('f, 'r) polltable_t) exec" where
  "rtl_pollSetEvt table fd mode = do {
     i \<leftarrow> rtl_pollFind table fd;
     if i \<ge> 0
     then do { t \<leftarrow> tb_set (nat i) (\<lambda>p. p\<lparr>poll_events := word_of_int mode AND POLL_MASK\<rparr>) table; Some (0, t) }
     else Some (-1, table)
   }"

definition rtl_pollSetEvt2 :: "('f, 'r) polltable_t \<Rightarrow> int \<Rightarrow> int \<Rightarrow> (int \<times> ('f, 'r) polltable_t) exec" where
  "rtl_pollSetEvt2 table pos mode =
     (if pos < 0 then Some (-1, table)
      else do { t \<leftarrow> tb_set (nat pos) (\<lambda>p. p\<lparr>poll_events := word_of_int mode AND POLL_MASK\<rparr>) table; Some (0, t) })"

definition rtl_pollGetEvt :: "('f, 'r) polltable_t \<Rightarrow> int \<Rightarrow> int exec" where
  "rtl_pollGetEvt table fd = do {
     i \<leftarrow> rtl_pollFind table fd;
     if i \<ge> 0 then do { p \<leftarrow> tb_get (nat i) table; Some (sint (poll_revents p)) } else Some 0
   }"

definition rtl_pollGetMode :: "('f, 'r) polltable_t \<Rightarrow> int \<Rightarrow> int exec" where
  "rtl_pollGetMode table fd = do {
     i \<leftarrow> rtl_pollFind table fd;
     if i \<ge> 0 then do { p \<leftarrow> tb_get (nat i) table; Some (sint (poll_events p)) } else Some 0
   }"

definition rtl_pollRmv :: "('f, 'r) polltable_t \<Rightarrow> int \<Rightarrow> (int \<times> ('f, 'r) polltable_t) exec" where
  "rtl_pollRmv table fd =
     (if fd < 0 then Some (-1, table)
      else do {
        i \<leftarrow> rtl_pollFind table fd;
        if i < 0 then Some (-1, table)
        else do {
          t1 \<leftarrow> tb_set (nat i) (\<lambda>p. p\<lparr>poll_fd := -1, poll_events := 0\<rparr>) table;
          t2 \<leftarrow> hand_set (nat i) (\<lambda>h. h\<lparr>fctevent := Init None, fctrequest := Init None\<rparr>) t1;
          Some (0, t2\<lparr>nbPoll := nbPoll t2 - 1\<rparr>)
        }
      })"

subsection \<open>Waiting and calling\<close>

type_synonym ('f, 'r, 'w) fct_call =
  "'f \<Rightarrow> ('f, 'r) polltable_t \<Rightarrow> 'w \<Rightarrow> int \<Rightarrow> 'r \<Rightarrow> 'r \<Rightarrow> int \<Rightarrow> (int \<times> ('f, 'r) polltable_t \<times> 'w) exec"

text \<open>One turn of the loop of \<open>rtl_pollRequest\<close>, then the loop; the count is the number of calls.\<close>

definition request_turn ::
  "('f, 'r, 'w) fct_call \<Rightarrow> nat \<Rightarrow> ('f, 'r) polltable_t \<Rightarrow> 'w \<Rightarrow> (int \<times> ('f, 'r) polltable_t \<times> 'w) exec" where
  "request_turn call i table w = do {
     p \<leftarrow> tb_get i table;
     if \<not> poll_fd p \<ge> 0 then Some (0, table, w)
     else do {
       h \<leftarrow> hand_get i table;
       f \<leftarrow> read_cell (fctrequest h);
       (case f of
          None \<Rightarrow> Some (0, table, w)
        | Some g \<Rightarrow> do {
            ref \<leftarrow> read_cell (hand_ref h);
            ref2 \<leftarrow> read_cell (hand_ref2 h);
            (ret, t1, w1) \<leftarrow> call g table w (poll_fd p) ref ref2 (sint (poll_events p));
            t2 \<leftarrow> (if ret \<ge> 0 then tb_set i (\<lambda>p. p\<lparr>poll_events := word_of_int ret\<rparr>) t1 else Some t1);
            Some (1, t2, w1)
          })
     }
   }"

definition scan_turn ::
  "('f, 'r, 'w) fct_call \<Rightarrow> nat \<Rightarrow> ('f, 'r) polltable_t \<Rightarrow> 'w \<Rightarrow> (int \<times> ('f, 'r) polltable_t \<times> 'w) exec" where
  "scan_turn call i table w = do {
     p \<leftarrow> tb_get i table;
     t1 \<leftarrow> (if poll_fd p \<ge> 0
           then do {
             h \<leftarrow> hand_get i table;
             f \<leftarrow> read_cell (fctevent h);
             if f = None then tb_set i (\<lambda>p. p\<lparr>poll_fd := -1, poll_revents := 0\<rparr>) table else Some table
           }
           else Some table);
     p1 \<leftarrow> tb_get i t1;
     if poll_revents p1 AND POLL_MASK = 0 then Some (0, t1, w)
     else do {
       (t2, w2) \<leftarrow> (if poll_fd p1 \<ge> 0
                   then do {
                     h \<leftarrow> hand_get i t1;
                     f \<leftarrow> read_cell (fctevent h);
                     (case f of
                        None \<Rightarrow> Some (t1, w)
                      | Some g \<Rightarrow> do {
                          ref \<leftarrow> read_cell (hand_ref h);
                          ref2 \<leftarrow> read_cell (hand_ref2 h);
                          (ret, t2, w2) \<leftarrow> call g t1 w (poll_fd p1) ref ref2 (sint (poll_revents p1));
                          Some (t2, w2)
                        })
                   }
                   else Some (t1, w));
       t3 \<leftarrow> tb_set i (\<lambda>p. p\<lparr>poll_revents := 0\<rparr>) t2;
       Some (1, t3, w2)
     }
   }"

partial_function (option) poll_loop ::
  "(nat \<Rightarrow> ('f, 'r) polltable_t \<Rightarrow> 'w \<Rightarrow> (int \<times> ('f, 'r) polltable_t \<times> 'w) exec) \<Rightarrow>
   nat \<Rightarrow> int \<Rightarrow> ('f, 'r) polltable_t \<Rightarrow> 'w \<Rightarrow> (int \<times> ('f, 'r) polltable_t \<times> 'w) exec" where
  "poll_loop turn i nb table w =
     (if \<not> int i < szTbPoll table then Some (nb, table, w)
      else do {
        r \<leftarrow> turn i table w;
        poll_loop turn (Suc i) (nb + fst r) (fst (snd r)) (snd (snd r))
      })"

definition rtl_pollRequest ::
  "('f, 'r, 'w) fct_call \<Rightarrow> ('f, 'r) polltable_t \<Rightarrow> 'w \<Rightarrow> (int \<times> ('f, 'r) polltable_t \<times> 'w) exec" where
  "rtl_pollRequest call table w = poll_loop (request_turn call) 0 0 table w"

definition rtl_pollScan ::
  "('f, 'r, 'w) fct_call \<Rightarrow> ('f, 'r) polltable_t \<Rightarrow> 'w \<Rightarrow> (int \<times> ('f, 'r) polltable_t \<times> 'w) exec" where
  "rtl_pollScan call table w = poll_loop (scan_turn call) 0 0 table w"

text \<open>The system call gets the cells and the timeout and gives its result, the events it found for
  each cell and \<open>errno\<close>.\<close>

type_synonym poll_sys = "POLLFD list \<Rightarrow> int \<Rightarrow> int \<times> u16 list \<times> int"

definition store_revents :: "u16 list \<Rightarrow> ('f, 'r) polltable_t \<Rightarrow> ('f, 'r) polltable_t" where
  "store_revents rs t = t\<lparr>tbPoll := map_option (\<lambda>ps. map2 (\<lambda>p r. p\<lparr>poll_revents := r\<rparr>) ps rs) (tbPoll t)\<rparr>"

definition rtl_poll ::
  "poll_sys \<Rightarrow> ('f, 'r, 'w) fct_call \<Rightarrow> ('f, 'r) polltable_t \<Rightarrow> int \<Rightarrow> 'w \<Rightarrow> (int \<times> ('f, 'r) polltable_t \<times> 'w) exec" where
  "rtl_poll sys call table timeout w =
     (if nbPoll table < 0 then Some (-1, table, w)
      else do {
        (nb, t1, w1) \<leftarrow> rtl_pollRequest call table w;
        let (rc, rs, errno) = sys (case tbPoll t1 of None \<Rightarrow> [] | Some ps \<Rightarrow> ps) timeout;
        let t2 = store_revents rs t1;
        if rc = 0 then Some (0, t2, w1)
        else if rc < 0 then Some (if errno = EINVAL then - EINVAL else -1, t2, w1)
        else rtl_pollScan call t2 w1
      })"

subsection \<open>Well-formed tables\<close>

abbreviation tbl :: "POLLFD list \<Rightarrow> ('f, 'r) HAND list \<Rightarrow> int \<Rightarrow> ('f, 'r) polltable_t" where
  "tbl ps hs n \<equiv> \<lparr>tbPoll = Some ps, handPoll = Some hs, szTbPoll = int (length ps), nbPoll = n\<rparr>"

abbreviation no_tbl :: "('f, 'r) polltable_t" where
  "no_tbl \<equiv> \<lparr>tbPoll = None, handPoll = None, szTbPoll = 0, nbPoll = 0\<rparr>"

definition hand_ok :: "('f, 'r) HAND \<Rightarrow> bool" where
  "hand_ok h = (fctevent h \<noteq> Uninit \<and> fctrequest h \<noteq> Uninit \<and> hand_ref h \<noteq> Uninit \<and> hand_ref2 h \<noteq> Uninit)"

definition slots_ok :: "POLLFD list \<Rightarrow> ('f, 'r) HAND list \<Rightarrow> bool" where
  "slots_ok ps hs = list_all2 (\<lambda>p h. poll_fd p \<ge> 0 \<longrightarrow> hand_ok h) ps hs"

definition used :: "POLLFD list \<Rightarrow> nat" where
  "used ps = length (filter (\<lambda>p. poll_fd p \<ge> 0) ps)"

definition poll_ok :: "('f, 'r) polltable_t \<Rightarrow> bool" where
  "poll_ok t = (case (tbPoll t, handPoll t) of
      (Some ps, Some hs) \<Rightarrow> ps \<noteq> [] \<and> slots_ok ps hs \<and> szTbPoll t = int (length ps) \<and>
        int (used ps) \<le> nbPoll t \<and> nbPoll t \<le> szTbPoll t
    | (None, None) \<Rightarrow> szTbPoll t = 0 \<and> nbPoll t = 0
    | _ \<Rightarrow> False)"

lemma poll_ok_tbl:
  "poll_ok \<lparr>tbPoll = Some ps, handPoll = Some hs, szTbPoll = z, nbPoll = n\<rparr> \<longleftrightarrow>
   ps \<noteq> [] \<and> slots_ok ps hs \<and> z = int (length ps) \<and> int (used ps) \<le> n \<and> n \<le> z"
  by (simp add: poll_ok_def)

lemma poll_ok_cases:
  assumes "poll_ok t"
  obtains "t = no_tbl" | ps hs n where "t = tbl ps hs n" "ps \<noteq> []" "slots_ok ps hs" "int (used ps) \<le> n" "n \<le> int (length ps)"
  using assms by (cases t) (auto simp: poll_ok_def split: option.splits)

lemma slots_len: "slots_ok ps hs \<Longrightarrow> length hs = length ps"
  by (auto simp: slots_ok_def dest: list_all2_lengthD)

lemma slots_nth: "slots_ok ps hs \<Longrightarrow> i < length ps \<Longrightarrow> poll_fd (ps ! i) \<ge> 0 \<Longrightarrow> hand_ok (hs ! i)"
  by (auto simp: slots_ok_def dest: list_all2_nthD)

lemma slots_update: "slots_ok ps hs \<Longrightarrow> i < length ps \<Longrightarrow> (poll_fd p \<ge> 0 \<Longrightarrow> hand_ok h) \<Longrightarrow> slots_ok (ps[i := p]) (hs[i := h])"
  by (auto simp: slots_ok_def intro!: list_all2_update_cong)

lemma slots_grow: "slots_ok ps hs \<Longrightarrow> slots_ok (ps @ replicate k NEW_POLLFD) (hs @ replicate k NEW_HAND)"
  by (auto simp: slots_ok_def NEW_POLLFD_def list_all2_conv_all_nth nth_append)

lemma used_update:
  "i < length ps \<Longrightarrow> used (ps[i := p]) + (if poll_fd (ps ! i) \<ge> 0 then 1 else 0) = used ps + (if poll_fd p \<ge> 0 then 1 else 0)"
proof (induction ps arbitrary: i)
  case (Cons x xs)
  then show ?case by (cases i) (auto simp: used_def)
qed simp

lemma used_fds: "used ps = length (filter (\<lambda>x. 0 \<le> x) (map poll_fd ps))"
  by (simp add: used_def filter_map comp_def)

lemma used_grow: "used (ps @ replicate k NEW_POLLFD) = used ps"
  by (simp add: used_def NEW_POLLFD_def)

lemma used_full: "(\<forall>i < length ps. \<not> poll_fd (ps ! i) < 0) \<Longrightarrow> used ps = length ps"
  unfolding used_def by (subst filter_True) (auto simp: in_set_conv_nth not_less)

lemma scan_fd_find:
  "i + n \<le> length ps \<Longrightarrow> scan_fd P i n (tbl ps hs m) = Some (find (\<lambda>j. P (poll_fd (ps ! j))) [i ..< i + n])"
proof (induction n arbitrary: i)
  case (Suc n)
  then have "[i ..< i + Suc n] = i # [Suc i ..< Suc i + n]" by (simp add: upt_conv_Cons)
  with Suc show ?case by (simp add: tb_get_def idx_def del: upt_Suc)
qed simp

lemma scan_fd_tbl:
  "scan_fd P 0 (nat (int (length ps))) (tbl ps hs m) = Some (find (\<lambda>j. P (poll_fd (ps ! j))) [0 ..< length ps])"
  using scan_fd_find [where i = 0 and n = "length ps" and ps = ps] by simp

lemma find_upt_cases:
  obtains "find P [0 ..< n] = None" "\<forall>i < n. \<not> P i"
  | j where "find P [0 ..< n] = Some j" "j < n" "P j" "\<forall>i < j. \<not> P i"
proof (cases "find P [0 ..< n]")
  case None
  then show ?thesis using that(1) by (auto simp: find_None_iff)
next
  case (Some j)
  then show ?thesis using that(2) [of j] by (auto simp: find_Some_iff)
qed

lemma tb_get_tbl: "i < length ps \<Longrightarrow> tb_get i \<lparr>tbPoll = Some ps, handPoll = Some hs, szTbPoll = z, nbPoll = n\<rparr> = Some (ps ! i)"
  by (simp add: tb_get_def idx_def)

lemma tb_set_tbl: "i < length ps \<Longrightarrow> tb_set i f \<lparr>tbPoll = Some ps, handPoll = Some hs, szTbPoll = z, nbPoll = n\<rparr> = Some (\<lparr>tbPoll = Some (ps[i := f (ps ! i)]), handPoll = Some hs, szTbPoll = z, nbPoll = n\<rparr>)"
  by (simp add: tb_set_def idx_def)

lemma hand_get_tbl: "i < length hs \<Longrightarrow> hand_get i \<lparr>tbPoll = Some ps, handPoll = Some hs, szTbPoll = z, nbPoll = n\<rparr> = Some (hs ! i)"
  by (simp add: hand_get_def idx_def)

lemma hand_set_tbl: "i < length hs \<Longrightarrow> hand_set i f \<lparr>tbPoll = Some ps, handPoll = Some hs, szTbPoll = z, nbPoll = n\<rparr> = Some (\<lparr>tbPoll = Some ps, handPoll = Some (hs[i := f (hs ! i)]), szTbPoll = z, nbPoll = n\<rparr>)"
  by (simp add: hand_set_def idx_def)

lemmas tbl_access = tb_get_tbl tb_set_tbl hand_get_tbl hand_set_tbl

lemma pollFind_tbl:
  "rtl_pollFind (tbl ps hs n) fd =
    Some (case find (\<lambda>j. poll_fd (ps ! j) = fd) [0 ..< length ps] of None \<Rightarrow> -1 | Some i \<Rightarrow> int i)"
  by (simp add: rtl_pollFind_def scan_fd_find)

lemma pollFind_no_tbl: "rtl_pollFind no_tbl fd = Some (-1)"
  by (simp add: rtl_pollFind_def)

subsection \<open>The table as a map\<close>

text \<open>What is registered for a descriptor: its functions, its references and the events asked for.\<close>

type_synonym ('f, 'r) reg = "'f option cell \<times> 'f option cell \<times> 'r cell \<times> 'r cell \<times> u16"

definition reg_of :: "POLLFD \<Rightarrow> ('f, 'r) HAND \<Rightarrow> ('f, 'r) reg" where
  "reg_of p h = (fctevent h, fctrequest h, hand_ref h, hand_ref2 h, poll_events p)"

definition look :: "POLLFD list \<Rightarrow> ('f, 'r) HAND list \<Rightarrow> int \<rightharpoonup> ('f, 'r) reg" where
  "look ps hs fd = (if fd < 0 then None
     else map_option (\<lambda>j. reg_of (ps ! j) (hs ! j)) (find (\<lambda>j. poll_fd (ps ! j) = fd) [0 ..< length ps]))"

definition registered :: "('f, 'r) polltable_t \<Rightarrow> int \<rightharpoonup> ('f, 'r) reg" where
  "registered t = (case (tbPoll t, handPoll t) of (Some ps, Some hs) \<Rightarrow> look ps hs | _ \<Rightarrow> Map.empty)"

lemma registered_tbl [simp]: "registered \<lparr>tbPoll = Some ps, handPoll = Some hs, szTbPoll = z, nbPoll = n\<rparr> = look ps hs"
  by (simp add: registered_def)

definition uniq :: "POLLFD list \<Rightarrow> bool" where
  "uniq ps = (\<forall>i < length ps. \<forall>j < length ps. poll_fd (ps ! i) = poll_fd (ps ! j) \<longrightarrow> 0 \<le> poll_fd (ps ! i) \<longrightarrow> i = j)"

definition poll_inv :: "('f, 'r) polltable_t \<Rightarrow> bool" where
  "poll_inv t = (poll_ok t \<and> (case tbPoll t of Some ps \<Rightarrow> uniq ps | None \<Rightarrow> True))"

lemma look_Some: "uniq ps \<Longrightarrow> j < length ps \<Longrightarrow> poll_fd (ps ! j) = fd \<Longrightarrow> 0 \<le> fd \<Longrightarrow> look ps hs fd = Some (reg_of (ps ! j) (hs ! j))"
  by (rule find_upt_cases [of "\<lambda>j. poll_fd (ps ! j) = fd" "length ps"]) (auto simp: look_def uniq_def)

lemma look_None: "(\<forall>j < length ps. poll_fd (ps ! j) \<noteq> fd) \<Longrightarrow> look ps hs fd = None"
  by (auto simp: look_def find_None_iff)

lemma look_NoneD: "look ps hs fd = None \<Longrightarrow> 0 \<le> fd \<Longrightarrow> j < length ps \<Longrightarrow> poll_fd (ps ! j) \<noteq> fd"
  by (auto simp: look_def find_None_iff)

lemma look_update:
  assumes "uniq ps" "uniq (ps[i := p])" "i < length ps" "length hs = length ps"
  shows "look (ps[i := p]) (hs[i := h]) fd =
    (if fd = poll_fd p \<and> 0 \<le> fd then Some (reg_of p h) else if fd = poll_fd (ps ! i) then None else look ps hs fd)"
proof -
  consider "fd < 0" | "0 \<le> fd" "fd = poll_fd p" | "0 \<le> fd" "fd \<noteq> poll_fd p" "\<exists>j < length ps. j \<noteq> i \<and> poll_fd (ps ! j) = fd"
    | "0 \<le> fd" "fd \<noteq> poll_fd p" "\<forall>j < length ps. j \<noteq> i \<longrightarrow> poll_fd (ps ! j) \<noteq> fd" by force
  then show ?thesis
  proof cases
    case 1
    then show ?thesis by (simp add: look_def)
  next
    case 2
    with look_Some [OF assms(2), of i fd "hs[i := h]"] assms(3,4) show ?thesis by simp
  next
    case 3
    then obtain j where j: "j < length ps" "j \<noteq> i" "poll_fd (ps ! j) = fd" by blast
    with assms(1,3) 3 have "fd \<noteq> poll_fd (ps ! i)" by (auto simp: uniq_def)
    with look_Some [OF assms(2), of j fd "hs[i := h]"] look_Some [OF assms(1), of j fd hs] 3 j assms(3,4) show ?thesis by simp
  next
    case 4
    have "look (ps[i := p]) (hs[i := h]) fd = None"
    proof (intro look_None allI impI)
      fix j assume "j < length (ps[i := p])"
      with 4 show "poll_fd (ps[i := p] ! j) \<noteq> fd" by (cases "j = i") auto
    qed
    moreover from 4 have "fd \<noteq> poll_fd (ps ! i) \<Longrightarrow> look ps hs fd = None" by (intro look_None) metis
    ultimately show ?thesis using 4 by auto
  qed
qed

lemma uniq_update:
  "uniq ps \<Longrightarrow> i < length ps \<Longrightarrow> poll_fd p < 0 \<or> poll_fd p = poll_fd (ps ! i) \<or> (\<forall>j < length ps. poll_fd (ps ! j) \<noteq> poll_fd p) \<Longrightarrow>
   uniq (ps[i := p])"
  by (auto simp: uniq_def nth_list_update)

lemma uniq_grow: "uniq ps \<Longrightarrow> uniq (ps @ replicate k NEW_POLLFD)"
  by (auto simp: uniq_def nth_append NEW_POLLFD_def)

lemma find_append_none: "(\<forall>x \<in> set ys. \<not> P x) \<Longrightarrow> find P (xs @ ys) = find P xs"
  by (induction xs) (auto simp: find_None_iff)

lemma find_cong_set: "(\<And>x. x \<in> set xs \<Longrightarrow> P x = Q x) \<Longrightarrow> find P xs = find Q xs"
  by (induction xs) auto

lemma look_grow: "length hs = length ps \<Longrightarrow> look (ps @ replicate k NEW_POLLFD) (hs @ replicate k NEW_HAND) = look ps hs"
proof (rule ext)
  fix fd assume len: "length hs = length ps"
  have "find (\<lambda>j. poll_fd ((ps @ replicate k NEW_POLLFD) ! j) = fd) [0 ..< length ps + k] = find (\<lambda>j. poll_fd (ps ! j) = fd) [0 ..< length ps]"
    if "0 \<le> fd" using that unfolding upt_add_eq_append [OF le0]
    by (subst find_append_none) (auto simp: nth_append NEW_POLLFD_def intro!: find_cong_set)
  then show "look (ps @ replicate k NEW_POLLFD) (hs @ replicate k NEW_HAND) fd = look ps hs fd"
    using len by (auto simp: look_def find_Some_iff nth_append intro!: map_option_cong)
qed

subsection \<open>Operations on well-formed tables\<close>

definition new_poll :: "int \<Rightarrow> 'f option \<Rightarrow> POLLFD" where
  "new_poll fd rq = \<lparr>poll_fd = fd, poll_events = (if rq \<noteq> None then 0 else POLLIN), poll_revents = 0\<rparr>"

definition new_hand :: "'f option \<Rightarrow> 'f option \<Rightarrow> 'r \<Rightarrow> 'r \<Rightarrow> ('f, 'r) HAND" where
  "new_hand ev rq r r2 = \<lparr>fctevent = Init ev, fctrequest = Init rq, hand_ref = Init r, hand_ref2 = Init r2\<rparr>"

lemma new_poll_fd [simp]: "poll_fd (new_poll fd rq) = fd"
  by (simp add: new_poll_def)

lemma new_hand_ok [simp]: "hand_ok (new_hand ev rq r r2)"
  by (simp add: new_hand_def hand_ok_def)

text \<open>A well-formed table has a free cell after the check for growth, and keeps what is registered.\<close>

lemma grown_table:
  assumes "poll_inv t"
  obtains ps hs i where
    "(if nbPoll t = szTbPoll t then grow_table True True t else Some t) = Some (tbl ps hs (nbPoll t))"
    "slots_ok ps hs" "uniq ps" "int (used ps) \<le> nbPoll t" "nbPoll t < int (length ps)"
    "look ps hs = registered t" "find (\<lambda>j. poll_fd (ps ! j) < 0) [0 ..< length ps] = Some i"
    "i < length ps" "poll_fd (ps ! i) < 0"
proof -
  note result = that
  have free: thesis if g: "(if nbPoll t = szTbPoll t then grow_table True True t else Some t) = Some (tbl ps hs (nbPoll t))"
    "slots_ok ps hs" "uniq ps" "int (used ps) \<le> nbPoll t" "nbPoll t < int (length ps)" "look ps hs = registered t" for ps hs
  proof (rule find_upt_cases [of "\<lambda>j. poll_fd (ps ! j) < 0" "length ps"])
    assume "\<forall>i < length ps. \<not> poll_fd (ps ! i) < 0"
    from used_full [OF this] g(4,5) show thesis by simp
  next
    fix j assume "find (\<lambda>j. poll_fd (ps ! j) < 0) [0 ..< length ps] = Some j" "j < length ps" "poll_fd (ps ! j) < 0"
    with result [OF g(1-6)] show thesis by blast
  qed
  from assms have "poll_ok t" by (simp add: poll_inv_def)
  then show thesis
  proof (cases rule: poll_ok_cases)
    case 1
    show thesis
    proof (rule free)
      show "(if nbPoll t = szTbPoll t then grow_table True True t else Some t) =
        Some (tbl (replicate SZPOLL NEW_POLLFD) (replicate SZPOLL NEW_HAND) (nbPoll t))"
        by (simp add: 1 grow_table_def)
      show "slots_ok (replicate SZPOLL NEW_POLLFD) (replicate SZPOLL NEW_HAND)"
        using slots_grow [of "[]" "[]" SZPOLL] by (simp add: slots_ok_def)
      show "uniq (replicate SZPOLL NEW_POLLFD)" by (simp add: uniq_def NEW_POLLFD_def)
      show "int (used (replicate SZPOLL NEW_POLLFD)) \<le> nbPoll t" using used_grow [of "[]" SZPOLL] by (simp add: 1 used_def)
      show "nbPoll t < int (length (replicate SZPOLL NEW_POLLFD))" by (simp add: 1 SZPOLL_def)
      show "look (replicate SZPOLL NEW_POLLFD) (replicate SZPOLL NEW_HAND) = registered t"
        by (rule ext) (auto simp: 1 registered_def look_def find_None_iff NEW_POLLFD_def)
    qed
  next
    case (2 ps hs n)
    have u: "uniq ps" using assms 2 by (simp add: poll_inv_def)
    have len: "length hs = length ps" using 2 slots_len by blast
    show thesis
    proof (cases "n = int (length ps)")
      case True
      show thesis
        by (rule free [of "ps @ replicate SZPOLL NEW_POLLFD" "hs @ replicate SZPOLL NEW_HAND"])
          (use 2 True u in \<open>simp_all add: grow_table_def slots_grow uniq_grow used_grow look_grow len registered_def SZPOLL_def\<close>)
    next
      case False
      show thesis by (rule free [of ps hs]) (use 2 False u in \<open>simp_all add: registered_def\<close>)
    qed
  qed
qed

lemma pollAdd_inv:
  assumes "poll_inv t" "0 \<le> fd" "registered t fd = None"
  shows "\<exists>i t'. rtl_pollAdd True True t fd ev rq r r2 = Some (int i, t') \<and> poll_inv t' \<and>
    registered t' = (registered t)(fd \<mapsto> reg_of (new_poll fd rq) (new_hand ev rq r r2)) \<and> nbPoll t' = nbPoll t + 1"
proof -
  from grown_table [OF assms(1)] obtain ps hs i where
    g: "(if nbPoll t = szTbPoll t then grow_table True True t else Some t) = Some (tbl ps hs (nbPoll t))"
    and ok: "slots_ok ps hs" "uniq ps" "int (used ps) \<le> nbPoll t" "nbPoll t < int (length ps)"
    and look: "look ps hs = registered t"
    and i: "find (\<lambda>j. poll_fd (ps ! j) < 0) [0 ..< length ps] = Some i" "i < length ps" "poll_fd (ps ! i) < 0" .
  have len: "length hs = length ps" using ok slots_len by blast
  let ?ps = "ps[i := new_poll fd rq]" and ?hs = "hs[i := new_hand ev rq r r2]"
  have new: "\<forall>j < length ps. poll_fd (ps ! j) \<noteq> fd" using assms(2,3) look_NoneD [of ps hs fd] by (simp add: look)
  have u: "uniq ?ps" using new by (intro uniq_update) (simp_all add: ok i)
  have "rtl_pollAdd True True t fd ev rq r r2 = Some (int i, tbl ?ps ?hs (nbPoll t + 1))"
    unfolding rtl_pollAdd_def g
    using i len by (simp add: scan_fd_tbl [simplified] tbl_access new_poll_def new_hand_def)
  moreover have "poll_inv (tbl ?ps ?hs (nbPoll t + 1))"
    using ok i u used_update [OF i(2), of "new_poll fd rq"] assms(2)
    by (auto simp: poll_inv_def poll_ok_tbl slots_update)
  moreover have "registered (tbl ?ps ?hs (nbPoll t + 1)) = (registered t)(fd \<mapsto> reg_of (new_poll fd rq) (new_hand ev rq r r2))"
  proof (rule ext)
    fix x
    have "registered t (poll_fd (ps ! i)) = None" using i(3) by (simp add: look_def flip: look)
    then show "registered (tbl ?ps ?hs (nbPoll t + 1)) x = ((registered t)(fd \<mapsto> reg_of (new_poll fd rq) (new_hand ev rq r r2))) x"
      using assms(2) look_update [OF ok(2) u i(2) len, of "new_hand ev rq r r2" x] fun_cong [OF look, of x]
      by simp
  qed
  ultimately show ?thesis by force
qed

text \<open>Where a descriptor is, and what an operation does that changes its cell.\<close>

lemma registered_at:
  assumes "poll_inv t" "registered t fd = Some e"
  obtains ps hs n i where "t = tbl ps hs n" "poll_ok t" "uniq ps" "slots_ok ps hs" "length hs = length ps"
    "i < length ps" "poll_fd (ps ! i) = fd" "0 \<le> fd" "e = reg_of (ps ! i) (hs ! i)" "rtl_pollFind t fd = Some (int i)"
proof -
  from assms(1) have "poll_ok t" by (simp add: poll_inv_def)
  then show thesis
  proof (cases rule: poll_ok_cases)
    case 1
    with assms(2) show thesis by (simp add: registered_def)
  next
    case (2 ps hs n)
    then have look: "look ps hs fd = Some e" using assms(2) by (simp add: registered_def)
    then obtain i where i: "find (\<lambda>j. poll_fd (ps ! j) = fd) [0 ..< length ps] = Some i" "0 \<le> fd" "e = reg_of (ps ! i) (hs ! i)"
      by (auto simp: look_def split: if_splits)
    then have "i < length ps" "poll_fd (ps ! i) = fd" by (auto simp: find_Some_iff)
    moreover have "rtl_pollFind t fd = Some (int i)" by (simp add: 2 pollFind_tbl [simplified] i)
    ultimately show thesis
      using that [of ps hs n i] 2 assms(1) i(2,3) slots_len [of ps hs] by (simp add: poll_inv_def)
  qed
qed

lemma not_registered:
  assumes "poll_inv t" "registered t fd = None" "0 \<le> fd"
  shows "rtl_pollFind t fd = Some (-1)"
proof -
  from assms(1) have "poll_ok t" by (simp add: poll_inv_def)
  then show ?thesis
  proof (cases rule: poll_ok_cases)
    case 1
    then show ?thesis by (simp add: pollFind_no_tbl)
  next
    case (2 ps hs n)
    then have "look ps hs fd = None" using assms(2) by (simp add: registered_def)
    then show ?thesis using assms(3) by (simp add: 2 pollFind_tbl [simplified] look_def)
  qed
qed

lemma registered_update:
  assumes "uniq ps" "uniq (ps[i := p])" "i < length ps" "length hs = length ps" "poll_fd p = poll_fd (ps ! i) \<or> poll_fd p < 0"
    "0 \<le> poll_fd (ps ! i)"
  shows "registered (tbl (ps[i := p]) (hs[i := h]) n) =
    (registered (tbl ps hs m))(poll_fd (ps ! i) := if poll_fd p < 0 then None else Some (reg_of p h))"
  using assms(5,6) by (auto simp: look_update [OF assms(1-4)] fun_eq_iff)

lemma used_pos: "i < length ps \<Longrightarrow> 0 \<le> poll_fd (ps ! i) \<Longrightarrow> 0 < used ps"
  by (auto simp: used_def filter_empty_conv)

lemma pollRmv_inv:
  assumes "poll_inv t" "registered t fd = Some e"
  shows "\<exists>t'. rtl_pollRmv t fd = Some (0, t') \<and> poll_inv t' \<and> registered t' = (registered t)(fd := None) \<and> szTbPoll t' = szTbPoll t"
proof -
  from registered_at [OF assms] obtain ps hs n i where t: "t = tbl ps hs n" "poll_ok t" and u: "uniq ps" "slots_ok ps hs" "length hs = length ps"
    and i: "i < length ps" "poll_fd (ps ! i) = fd" "0 \<le> fd" and find: "rtl_pollFind t fd = Some (int i)" by metis
  define p where "p = (ps ! i)\<lparr>poll_fd := -1, poll_events := 0\<rparr>"
  define h where "h = (hs ! i)\<lparr>fctevent := Init None, fctrequest := Init None\<rparr>"
  have u': "uniq (ps[i := p])" using u(1) i(1) by (rule uniq_update) (simp add: p_def)
  have "rtl_pollRmv t fd = Some (0, tbl (ps[i := p]) (hs[i := h]) (n - 1))"
    using i u find by (simp add: rtl_pollRmv_def t(1) tbl_access p_def h_def)
  moreover have "poll_inv (tbl (ps[i := p]) (hs[i := h]) (n - 1))"
    using t u u' i used_update [OF i(1), of p] used_pos [OF i(1)] slots_update [OF u(2) i(1), of p h]
    by (simp add: poll_inv_def poll_ok_tbl p_def)
  moreover have "registered (tbl (ps[i := p]) (hs[i := h]) (n - 1)) = (registered t)(fd := None)"
    using registered_update [OF u(1) u' i(1) u(3), of h "n - 1" n] i by (simp add: t(1) p_def)
  moreover have "szTbPoll (tbl (ps[i := p]) (hs[i := h]) (n - 1)) = szTbPoll t" by (simp add: t(1))
  ultimately show ?thesis by blast
qed

text \<open>Removal from any well-formed table, also one in which a descriptor occurs twice.\<close>

lemma pollRmv_ok:
  assumes "poll_ok t"
  shows "\<exists>rc t'. rtl_pollRmv t fd = Some (rc, t') \<and> poll_ok t' \<and> szTbPoll t' = szTbPoll t"
  using assms
proof (cases rule: poll_ok_cases)
  case 1
  then show ?thesis using assms by (simp add: rtl_pollRmv_def pollFind_no_tbl)
next
  case (2 ps hs n)
  show ?thesis
  proof (rule find_upt_cases [of "\<lambda>j. poll_fd (ps ! j) = fd" "length ps"])
    assume "find (\<lambda>j. poll_fd (ps ! j) = fd) [0 ..< length ps] = None"
    then show ?thesis using assms by (simp add: rtl_pollRmv_def 2 pollFind_tbl [simplified])
  next
    fix i assume i: "find (\<lambda>j. poll_fd (ps ! j) = fd) [0 ..< length ps] = Some i" "i < length ps" "poll_fd (ps ! i) = fd"
    define p where "p = (ps ! i)\<lparr>poll_fd := -1, poll_events := 0\<rparr>"
    define h where "h = (hs ! i)\<lparr>fctevent := Init None, fctrequest := Init None\<rparr>"
    have "0 \<le> fd \<Longrightarrow> rtl_pollRmv t fd = Some (0, tbl (ps[i := p]) (hs[i := h]) (n - 1))"
      using i 2 slots_len [OF 2(3)] by (simp add: rtl_pollRmv_def pollFind_tbl [simplified] tbl_access p_def h_def)
    moreover have "0 \<le> fd \<Longrightarrow> poll_ok (tbl (ps[i := p]) (hs[i := h]) (n - 1))"
      using 2 i used_update [OF i(2), of p] used_pos [OF i(2)] slots_update [OF 2(3) i(2), of p h]
      by (simp add: poll_ok_tbl p_def)
    ultimately show ?thesis using assms 2 by (cases "0 \<le> fd") (auto simp: rtl_pollRmv_def)
  qed
qed

text \<open>The other operations change a registered cell and keep its descriptor.\<close>

lemma change_cell:
  assumes "poll_inv t" "registered t fd = Some e"
  obtains i ps hs n where "rtl_pollFind t fd = Some (int i)" "t = tbl ps hs n" "i < length ps" "length hs = length ps"
    "e = reg_of (ps ! i) (hs ! i)" "hand_ok (hs ! i)"
    "\<And>p h. poll_fd p = poll_fd (ps ! i) \<Longrightarrow> hand_ok h \<Longrightarrow>
       poll_inv (tbl (ps[i := p]) (hs[i := h]) n) \<and> registered (tbl (ps[i := p]) (hs[i := h]) n) = (registered t)(fd \<mapsto> reg_of p h)"
proof -
  from registered_at [OF assms] obtain ps hs n i where t: "t = tbl ps hs n" "poll_ok t" and u: "uniq ps" "slots_ok ps hs" "length hs = length ps"
    and i: "i < length ps" "poll_fd (ps ! i) = fd" "0 \<le> fd" and e: "e = reg_of (ps ! i) (hs ! i)" and find: "rtl_pollFind t fd = Some (int i)" by metis
  have ch: "poll_inv (tbl (ps[i := p]) (hs[i := h]) n) \<and> registered (tbl (ps[i := p]) (hs[i := h]) n) = (registered t)(fd \<mapsto> reg_of p h)"
    if "poll_fd p = poll_fd (ps ! i)" "hand_ok h" for p h
  proof -
    have u': "uniq (ps[i := p])" using u(1) i(1) by (rule uniq_update) (simp add: that)
    moreover have "poll_inv (tbl (ps[i := p]) (hs[i := h]) n)"
      using t u u' i that used_update [OF i(1), of p] by (simp add: poll_inv_def poll_ok_tbl slots_update)
    moreover have "registered (tbl (ps[i := p]) (hs[i := h]) n) = (registered t)(fd \<mapsto> reg_of p h)"
      using registered_update [OF u(1) u' i(1) u(3), of h n n] i that by (simp add: t(1))
    ultimately show ?thesis by blast
  qed
  have "hand_ok (hs ! i)" using slots_nth [OF u(2) i(1)] i by simp
  from that [OF find t(1) i(1) u(3) e this ch] show thesis .
qed

subsection \<open>A run of operations\<close>

text \<open>The contract of a table of descriptors: a step of the table does what the step of the map of
  registrations says, wherever the latter is defined.\<close>

locale step_refinement =
  fixes inv :: "'t \<Rightarrow> bool" and alpha :: "'t \<Rightarrow> 'a"
    and step :: "'op \<Rightarrow> 't \<Rightarrow> ('res \<times> 't) exec" and spec :: "'op \<Rightarrow> 'a \<Rightarrow> ('res \<times> 'a) option"
  assumes step_law: "inv t \<Longrightarrow> spec op (alpha t) = Some (r, a) \<Longrightarrow> \<exists>t'. step op t = Some (r, t') \<and> inv t' \<and> alpha t' = a"
begin

lemma run_refines:
  "inv t \<Longrightarrow> run_ops spec ops (alpha t) = Some (rs, a) \<Longrightarrow> \<exists>t'. run_ops step ops t = Some (rs, t') \<and> inv t' \<and> alpha t' = a"
proof (induction ops arbitrary: t rs)
  case (Cons op ops)
  from Cons.prems(2) obtain r b rs' where b: "spec op (alpha t) = Some (r, b)" "run_ops spec ops b = Some (rs', a)" "rs = r # rs'"
    by (auto split: bind_splits)
  from step_law [OF Cons.prems(1) b(1)] obtain t1 where "step op t = Some (r, t1)" "inv t1" "alpha t1 = b" by blast
  moreover from Cons.IH [of t1 rs'] b calculation obtain t' where "run_ops step ops t1 = Some (rs', t')" "inv t'" "alpha t' = a" by blast
  ultimately show ?case by (simp add: b(3))
qed auto

end

datatype ('f, 'r) pollOp =
    PollAdd int "'f option" "'f option" 'r 'r
  | PollChg int "'f option" 'r 'r
  | PollSetEvt int int
  | PollGetMode int
  | PollRmv int

fun poll_step :: "('f, 'r) pollOp \<Rightarrow> ('f, 'r) polltable_t \<Rightarrow> (int \<times> ('f, 'r) polltable_t) exec" where
  "poll_step (PollAdd fd ev rq r r2) t = do { (i, t') \<leftarrow> rtl_pollAdd True True t fd ev rq r r2; Some (if i < 0 then -1 else 0, t') }"
| "poll_step (PollChg fd ev r r2) t = rtl_pollChg t fd ev r r2"
| "poll_step (PollSetEvt fd mode) t = rtl_pollSetEvt t fd mode"
| "poll_step (PollGetMode fd) t = do { m \<leftarrow> rtl_pollGetMode t fd; Some (m, t) }"
| "poll_step (PollRmv fd) t = rtl_pollRmv t fd"

text \<open>A client adds a descriptor once and names descriptors that are not negative.\<close>

fun reg_step :: "('f, 'r) pollOp \<Rightarrow> (int \<rightharpoonup> ('f, 'r) reg) \<Rightarrow> (int \<times> (int \<rightharpoonup> ('f, 'r) reg)) option" where
  "reg_step (PollAdd fd ev rq r r2) M =
     (if fd < 0 \<or> M fd \<noteq> None then None
      else Some (0, M(fd \<mapsto> (Init ev, Init rq, Init r, Init r2, if rq \<noteq> None then 0 else POLLIN))))"
| "reg_step (PollChg fd ev r r2) M =
     (if fd < 0 then None else case M fd of None \<Rightarrow> Some (-1, M)
      | Some (e, q, a, b, m) \<Rightarrow> Some (0, M(fd \<mapsto> (Init ev, q, Init r, Init r2, m))))"
| "reg_step (PollSetEvt fd mode) M =
     (if fd < 0 then None else case M fd of None \<Rightarrow> Some (-1, M)
      | Some (e, q, a, b, m) \<Rightarrow> Some (0, M(fd \<mapsto> (e, q, a, b, word_of_int mode AND POLL_MASK))))"
| "reg_step (PollGetMode fd) M =
     (if fd < 0 then None else case M fd of None \<Rightarrow> Some (0, M) | Some (e, q, a, b, m) \<Rightarrow> Some (sint m, M))"
| "reg_step (PollRmv fd) M =
     (if fd < 0 \<or> M fd = None then Some (-1, M) else Some (0, M(fd := None)))"

lemma reg_of_new: "reg_of (new_poll fd rq) (new_hand ev rq r r2) = (Init ev, Init rq, Init r, Init r2, if rq \<noteq> None then 0 else POLLIN)"
  by (simp add: reg_of_def new_poll_def new_hand_def)

lemma poll_step_refines:
  assumes "poll_inv t" "reg_step op (registered t) = Some (r, M)"
  shows "\<exists>t'. poll_step op t = Some (r, t') \<and> poll_inv t' \<and> registered t' = M"
proof (cases op)
  case (PollAdd fd ev rq a b)
  with assms(2) have "0 \<le> fd" "registered t fd = None" "r = 0" and "M = (registered t)(fd \<mapsto> reg_of (new_poll fd rq) (new_hand ev rq a b))"
    by (simp_all add: reg_of_new del: not_None_eq not_Some_eq split: if_splits)
  with pollAdd_inv [OF assms(1), of fd ev rq a b] PollAdd show ?thesis by auto
next
  case (PollRmv fd)
  show ?thesis
  proof (cases "registered t fd")
    case None
    then show ?thesis using not_registered [OF assms(1), of fd] assms PollRmv by (auto simp: rtl_pollRmv_def)
  next
    case (Some e)
    then have "0 \<le> fd" using registered_at [OF assms(1)] by metis
    with pollRmv_inv [OF assms(1) Some] assms(2) PollRmv Some show ?thesis by auto
  qed
next
  case (PollGetMode fd)
  show ?thesis
  proof (cases "registered t fd")
    case None
    then show ?thesis using not_registered [OF assms(1), of fd] assms PollGetMode by (auto simp: rtl_pollGetMode_def split: if_splits)
  next
    case (Some e)
    from change_cell [OF assms(1) Some] obtain i ps hs n where
      "rtl_pollFind t fd = Some (int i)" "t = tbl ps hs n" "i < length ps" "e = reg_of (ps ! i) (hs ! i)" by metis
    with assms PollGetMode Some show ?thesis by (auto simp: rtl_pollGetMode_def reg_of_def tbl_access split: if_splits)
  qed
next
  case (PollSetEvt fd mode)
  show ?thesis
  proof (cases "registered t fd")
    case None
    then show ?thesis using not_registered [OF assms(1), of fd] assms PollSetEvt by (auto simp: rtl_pollSetEvt_def split: if_splits)
  next
    case (Some e)
    from change_cell [OF assms(1) Some] obtain i ps hs n where
      c: "rtl_pollFind t fd = Some (int i)" "t = tbl ps hs n" "i < length ps" "length hs = length ps" "e = reg_of (ps ! i) (hs ! i)" "hand_ok (hs ! i)"
      and ch: "\<And>p h. poll_fd p = poll_fd (ps ! i) \<Longrightarrow> hand_ok h \<Longrightarrow>
       poll_inv (tbl (ps[i := p]) (hs[i := h]) n) \<and> registered (tbl (ps[i := p]) (hs[i := h]) n) = (registered t)(fd \<mapsto> reg_of p h)" by metis
    from ch [of "(ps ! i)\<lparr>poll_events := word_of_int mode AND POLL_MASK\<rparr>" "hs ! i"] c assms PollSetEvt Some show ?thesis
      by (auto simp: rtl_pollSetEvt_def reg_of_def tbl_access split: if_splits)
  qed
next
  case (PollChg fd ev a b)
  show ?thesis
  proof (cases "registered t fd")
    case None
    then show ?thesis using not_registered [OF assms(1), of fd] assms PollChg by (auto simp: rtl_pollChg_def split: if_splits)
  next
    case (Some e)
    from change_cell [OF assms(1) Some] obtain i ps hs n where
      c: "rtl_pollFind t fd = Some (int i)" "t = tbl ps hs n" "i < length ps" "length hs = length ps" "e = reg_of (ps ! i) (hs ! i)" "hand_ok (hs ! i)"
      and ch: "\<And>p h. poll_fd p = poll_fd (ps ! i) \<Longrightarrow> hand_ok h \<Longrightarrow>
       poll_inv (tbl (ps[i := p]) (hs[i := h]) n) \<and> registered (tbl (ps[i := p]) (hs[i := h]) n) = (registered t)(fd \<mapsto> reg_of p h)" by metis
    from ch [of "ps ! i" "(hs ! i)\<lparr>fctevent := Init ev, hand_ref := Init a, hand_ref2 := Init b\<rparr>"] c assms PollChg Some show ?thesis
      by (auto simp: rtl_pollChg_def reg_of_def hand_ok_def tbl_access split: if_splits)
  qed
qed

interpretation poll_map: step_refinement poll_inv registered poll_step reg_step
  by unfold_locales (rule poll_step_refines)

subsection \<open>One turn of the main loop\<close>

lemma poll_loop_end: "\<not> int i < szTbPoll t \<Longrightarrow> poll_loop turn i nb t w = Some (nb, t, w)"
  by (simp add: poll_loop.simps)

lemma poll_loop_turn:
  "int i < szTbPoll t \<Longrightarrow> turn i t w = Some (k, t', w') \<Longrightarrow> poll_loop turn i nb t w = poll_loop turn (Suc i) (nb + k) t' w'"
  by (simp add: poll_loop.simps [of turn i])

text \<open>What the scan does to a cell, which cells it counts and which function it calls.\<close>

definition dropped :: "POLLFD \<times> ('f, 'r) HAND \<Rightarrow> bool" where
  "dropped c = (0 \<le> poll_fd (fst c) \<and> fctevent (snd c) = Init None)"

definition cell_ready :: "POLLFD \<times> ('f, 'r) HAND \<Rightarrow> bool" where
  "cell_ready c = (\<not> dropped c \<and> poll_revents (fst c) AND POLL_MASK \<noteq> 0)"

definition scanned :: "POLLFD \<times> ('f, 'r) HAND \<Rightarrow> POLLFD" where
  "scanned c = (if dropped c then (fst c)\<lparr>poll_fd := -1, poll_revents := 0\<rparr>
     else if cell_ready c then (fst c)\<lparr>poll_revents := 0\<rparr> else fst c)"

type_synonym ('f, 'r, 'w) fct_act = "'f \<Rightarrow> int \<Rightarrow> 'r \<Rightarrow> 'r \<Rightarrow> int \<Rightarrow> 'w \<Rightarrow> int \<times> 'w"

fun called :: "('f, 'r, 'w) fct_act \<Rightarrow> POLLFD \<times> ('f, 'r) HAND \<Rightarrow> 'w \<Rightarrow> 'w" where
  "called act (p, h) w =
     (case (fctevent h, hand_ref h, hand_ref2 h) of
        (Init (Some f), Init r, Init r2) \<Rightarrow>
          if cell_ready (p, h) \<and> 0 \<le> poll_fd p then snd (act f (poll_fd p) r r2 (sint (poll_revents p)) w) else w
      | _ \<Rightarrow> w)"

text \<open>What the request functions are asked for, before the system call.\<close>

fun ask_cell :: "('f, 'r, 'w) fct_act \<Rightarrow> POLLFD \<times> ('f, 'r) HAND \<Rightarrow> 'w \<Rightarrow> POLLFD \<times> 'w" where
  "ask_cell act (p, h) w =
     (case (fctrequest h, hand_ref h, hand_ref2 h) of
        (Init (Some f), Init r, Init r2) \<Rightarrow>
          if 0 \<le> poll_fd p
          then (case act f (poll_fd p) r r2 (sint (poll_events p)) w of
                  (ret, w') \<Rightarrow> (if 0 \<le> ret then p\<lparr>poll_events := word_of_int ret\<rparr> else p, w'))
          else (p, w)
      | _ \<Rightarrow> (p, w))"

fun asked :: "('f, 'r, 'w) fct_act \<Rightarrow> (POLLFD \<times> ('f, 'r) HAND) list \<Rightarrow> 'w \<Rightarrow> POLLFD list \<times> 'w" where
  "asked act [] w = ([], w)"
| "asked act (c # cs) w = (case ask_cell act c w of (p, w1) \<Rightarrow> case asked act cs w1 of (ps, w2) \<Rightarrow> (p # ps, w2))"

definition keeps_table :: "('f, 'r, 'w) fct_call \<Rightarrow> ('f, 'r, 'w) fct_act \<Rightarrow> bool" where
  "keeps_table call act =
     (\<forall>f t w fd r r2 ev. call f t w fd r r2 ev = Some (fst (act f fd r r2 ev w), t, snd (act f fd r r2 ev w)))"

lemma hand_ok_cells:
  assumes "hand_ok h"
  obtains e q r r2 where "fctevent h = Init e" "fctrequest h = Init q" "hand_ref h = Init r" "hand_ref2 h = Init r2"
  using assms by (cases "fctevent h"; cases "fctrequest h"; cases "hand_ref h"; cases "hand_ref2 h") (auto simp: hand_ok_def)

lemma scan_turn_at:
  assumes "keeps_table call act" "i < length ps" "length hs = length ps" "0 \<le> poll_fd (ps ! i) \<longrightarrow> hand_ok (hs ! i)"
  shows "scan_turn call i (tbl ps hs n) w =
    Some (if cell_ready (ps ! i, hs ! i) then 1 else 0, tbl (ps[i := scanned (ps ! i, hs ! i)]) hs n, called act (ps ! i, hs ! i) w)"
proof (cases "0 \<le> poll_fd (ps ! i)")
  case False
  then show ?thesis using assms(2,3)
    by (auto simp: scan_turn_def tbl_access cell_ready_def dropped_def scanned_def split: cell.splits option.splits)
next
  case True
  with assms(4) obtain e q r r2 where h: "fctevent (hs ! i) = Init e" "hand_ref (hs ! i) = Init r" "hand_ref2 (hs ! i) = Init r2"
    using hand_ok_cells by metis
  show ?thesis
  proof (cases e)
    case None
    with True h assms(2,3) show ?thesis
      by (auto simp: scan_turn_def tbl_access cell_ready_def dropped_def scanned_def)
  next
    case (Some f)
    with True h assms(1-3) show ?thesis
      by (auto simp: scan_turn_def tbl_access cell_ready_def dropped_def scanned_def keeps_table_def)
  qed
qed

lemma scan_loop:
  assumes "keeps_table call act"
  shows "slots_ok (as @ bs) (gs @ hs) \<Longrightarrow> length gs = length as \<Longrightarrow>
    poll_loop (scan_turn call) (length as) nb (tbl (as @ bs) (gs @ hs) n) w =
    Some (nb + int (length (filter cell_ready (zip bs hs))), tbl (as @ map scanned (zip bs hs)) (gs @ hs) n,
          fold (called act) (zip bs hs) w)"
proof (induction bs arbitrary: as gs hs nb w)
  case Nil
  then have "hs = []" using slots_len [OF Nil(1)] by simp
  then show ?case by (simp add: poll_loop_end)
next
  case (Cons b bs)
  then obtain h hs' where hs: "hs = h # hs'" using slots_len [OF Cons(2)] by (cases hs) auto
  have ok: "slots_ok as gs" "slots_ok bs hs'" "0 \<le> poll_fd b \<longrightarrow> hand_ok h"
    using Cons(2,3) by (auto simp: hs slots_ok_def list_all2_append)
  have sc: "slots_ok (as @ scanned (b, h) # bs) (gs @ h # hs')"
    using ok Cons(3) by (auto simp: slots_ok_def list_all2_append scanned_def)
  have "scan_turn call (length as) (tbl (as @ b # bs) (gs @ h # hs') n) w =
    Some (if cell_ready (b, h) then 1 else 0, tbl (as @ scanned (b, h) # bs) (gs @ h # hs') n, called act (b, h) w)"
    using scan_turn_at [OF assms, of "length as" "as @ b # bs" "gs @ h # hs'" n w] ok slots_len [OF Cons(2)] Cons(3)
    by (simp add: hs nth_append)
  then have "poll_loop (scan_turn call) (length as) nb (tbl (as @ b # bs) (gs @ h # hs') n) w =
    poll_loop (scan_turn call) (length (as @ [scanned (b, h)])) (nb + (if cell_ready (b, h) then 1 else 0))
      (tbl ((as @ [scanned (b, h)]) @ bs) ((gs @ [h]) @ hs') n) (called act (b, h) w)"
    by (subst poll_loop_turn) simp_all
  also have "\<dots> = Some (nb + (if cell_ready (b, h) then 1 else 0) + int (length (filter cell_ready (zip bs hs'))),
      tbl ((as @ [scanned (b, h)]) @ map scanned (zip bs hs')) ((gs @ [h]) @ hs') n,
      fold (called act) (zip bs hs') (called act (b, h) w))"
    by (rule Cons.IH) (use sc Cons(3) in simp_all)
  finally show ?case by (simp add: hs)
qed

lemma pollScan_tbl:
  "keeps_table call act \<Longrightarrow> slots_ok ps hs \<Longrightarrow>
   rtl_pollScan call (tbl ps hs n) w =
     Some (int (length (filter cell_ready (zip ps hs))), tbl (map scanned (zip ps hs)) hs n, fold (called act) (zip ps hs) w)"
  using scan_loop [of call act "[]" ps "[]" hs 0 n w] by (simp add: rtl_pollScan_def)

lemma request_turn_at:
  assumes "keeps_table call act" "i < length ps" "length hs = length ps" "0 \<le> poll_fd (ps ! i) \<longrightarrow> hand_ok (hs ! i)"
    "ask_cell act (ps ! i, hs ! i) w = (p, w')"
  shows "\<exists>k. request_turn call i (tbl ps hs n) w = Some (k, tbl (ps[i := p]) hs n, w') \<and> poll_fd p = poll_fd (ps ! i)"
proof (cases "0 \<le> poll_fd (ps ! i)")
  case False
  then show ?thesis using assms(2,3,5)
    by (auto simp: request_turn_def tbl_access split: cell.splits option.splits)
next
  case True
  with assms(4) obtain q r r2 where h: "fctrequest (hs ! i) = Init q" "hand_ref (hs ! i) = Init r" "hand_ref2 (hs ! i) = Init r2"
    using hand_ok_cells by metis
  with True assms(1-3,5) show ?thesis
    by (cases q) (auto simp: request_turn_def tbl_access keeps_table_def split: prod.splits if_splits)
qed

lemma request_loop:
  assumes "keeps_table call act"
  shows "slots_ok (as @ bs) (gs @ hs) \<Longrightarrow> length gs = length as \<Longrightarrow>
    \<exists>k. poll_loop (request_turn call) (length as) nb (tbl (as @ bs) (gs @ hs) n) w =
      Some (k, tbl (as @ fst (asked act (zip bs hs) w)) (gs @ hs) n, snd (asked act (zip bs hs) w)) \<and>
      map poll_fd (fst (asked act (zip bs hs) w)) = map poll_fd bs"
proof (induction bs arbitrary: as gs hs nb w)
  case Nil
  then have "hs = []" using slots_len [OF Nil(1)] by simp
  then show ?case by (simp add: poll_loop_end)
next
  case (Cons b bs)
  then obtain h hs' where hs: "hs = h # hs'" using slots_len [OF Cons(2)] by (cases hs) auto
  have ok: "slots_ok as gs" "slots_ok bs hs'" "0 \<le> poll_fd b \<longrightarrow> hand_ok h"
    using Cons(2,3) by (auto simp: hs slots_ok_def list_all2_append)
  obtain p w1 where c: "ask_cell act (b, h) w = (p, w1)" by (cases "ask_cell act (b, h) w")
  from request_turn_at [OF assms, of "length as" "as @ b # bs" "gs @ h # hs'" w p w1 n] ok slots_len [OF Cons(2)] Cons(3) c obtain k where
    p: "request_turn call (length as) (tbl (as @ b # bs) (gs @ h # hs') n) w = Some (k, tbl (as @ p # bs) (gs @ h # hs') n, w1)"
    "poll_fd p = poll_fd b"
    by (auto simp: hs nth_append)
  from p(1) have "poll_loop (request_turn call) (length as) nb (tbl (as @ b # bs) (gs @ h # hs') n) w =
    poll_loop (request_turn call) (length (as @ [p])) (nb + k) (tbl ((as @ [p]) @ bs) ((gs @ [h]) @ hs') n) w1"
    by (subst poll_loop_turn) simp_all
  moreover from Cons.IH [of "as @ [p]" "gs @ [h]" hs' "nb + k" w1] ok p(2) Cons(3) obtain k' where
    "poll_loop (request_turn call) (length (as @ [p])) (nb + k) (tbl ((as @ [p]) @ bs) ((gs @ [h]) @ hs') n) w1 =
      Some (k', tbl ((as @ [p]) @ fst (asked act (zip bs hs') w1)) ((gs @ [h]) @ hs') n, snd (asked act (zip bs hs') w1))"
    "map poll_fd (fst (asked act (zip bs hs') w1)) = map poll_fd bs"
    by (force simp: slots_ok_def list_all2_append)
  ultimately show ?case
    using p(2) c by (auto simp: hs split_beta simp del: ask_cell.simps)
qed

lemma pollRequest_tbl:
  "keeps_table call act \<Longrightarrow> slots_ok ps hs \<Longrightarrow>
   \<exists>k. rtl_pollRequest call (tbl ps hs n) w =
     Some (k, tbl (fst (asked act (zip ps hs) w)) hs n, snd (asked act (zip ps hs) w)) \<and>
     map poll_fd (fst (asked act (zip ps hs) w)) = map poll_fd ps"
  using request_loop [of call act "[]" ps "[]" hs 0 n w]
  by (auto simp: rtl_pollRequest_def dest: map_eq_imp_length_eq)

text \<open>Functions that change the table: they keep it well formed, never shrink it, let it grow to
  \<open>N\<close> cells at most, and keep an invariant \<open>I\<close> of the process.\<close>

definition well_behaved :: "int \<Rightarrow> ('w \<Rightarrow> bool) \<Rightarrow> ('f, 'r, 'w) fct_call \<Rightarrow> bool" where
  "well_behaved N I call = (\<forall>f t w fd r r2 ev. poll_ok t \<and> szTbPoll t \<le> N \<and> I w \<longrightarrow>
     (\<exists>ret t' w'. call f t w fd r r2 ev = Some (ret, t', w') \<and> poll_ok t' \<and> szTbPoll t \<le> szTbPoll t' \<and> szTbPoll t' \<le> N \<and> I w'))"

definition turn_ok ::
  "int \<Rightarrow> ('w \<Rightarrow> bool) \<Rightarrow> (nat \<Rightarrow> ('f, 'r) polltable_t \<Rightarrow> 'w \<Rightarrow> (int \<times> ('f, 'r) polltable_t \<times> 'w) exec) \<Rightarrow> bool" where
  "turn_ok N I turn = (\<forall>i t w. poll_ok t \<and> szTbPoll t \<le> N \<and> int i < szTbPoll t \<and> I w \<longrightarrow>
     (\<exists>k t' w'. turn i t w = Some (k, t', w') \<and> poll_ok t' \<and> szTbPoll t \<le> szTbPoll t' \<and> szTbPoll t' \<le> N \<and> I w'))"

lemma poll_loop_ends:
  assumes "turn_ok N I turn"
  shows "poll_ok t \<Longrightarrow> szTbPoll t \<le> N \<Longrightarrow> I w \<Longrightarrow>
    \<exists>k t' w'. poll_loop turn i nb t w = Some (k, t', w') \<and> poll_ok t' \<and> szTbPoll t \<le> szTbPoll t' \<and> szTbPoll t' \<le> N \<and> I w'"
proof (induction "nat (N - int i)" arbitrary: i nb t w rule: less_induct)
  case less
  show ?case
  proof (cases "int i < szTbPoll t")
    case False
    with less.prems show ?thesis by (simp add: poll_loop_end)
  next
    case True
    with assms less.prems obtain k t1 w1 where
      1: "turn i t w = Some (k, t1, w1)" "poll_ok t1" "szTbPoll t \<le> szTbPoll t1" "szTbPoll t1 \<le> N" "I w1"
      unfolding turn_ok_def by metis
    from less.hyps [of "Suc i" t1 w1 "nb + k"] True less.prems 1 obtain k' t' w' where
      "poll_loop turn (Suc i) (nb + k) t1 w1 = Some (k', t', w')" "poll_ok t'" "szTbPoll t1 \<le> szTbPoll t'" "szTbPoll t' \<le> N" "I w'"
      by force
    with 1 poll_loop_turn [where turn = turn and i = i and nb = nb, OF True 1(1)] show ?thesis by auto
  qed
qed

text \<open>A change of a cell that frees it or keeps its descriptor.\<close>

lemma tb_set_ok:
  assumes "poll_ok t" "int i < szTbPoll t" "\<And>p. poll_fd (f p) = poll_fd p \<or> poll_fd (f p) < 0"
  obtains t' where "tb_set i f t = Some t'" "poll_ok t'" "szTbPoll t' = szTbPoll t" "handPoll t' = handPoll t"
  using assms(1)
proof (cases rule: poll_ok_cases)
  case 1
  with assms(2) show thesis by simp
next
  case (2 ps hs n)
  then have i: "i < length ps" using assms(2) by simp
  have "hs[i := hs ! i] = hs" using i slots_len [OF 2(3)] by simp
  with slots_update [OF 2(3) i, of "f (ps ! i)" "hs ! i"] slots_nth [OF 2(3) i] assms(3) [of "ps ! i"]
  have "slots_ok (ps[i := f (ps ! i)]) hs" by auto
  with 2 i used_update [OF i, of "f (ps ! i)"] assms(3) [of "ps ! i"]
  show thesis by (intro that [of "tbl (ps[i := f (ps ! i)]) hs n"]) (auto simp: tbl_access poll_ok_tbl split: if_splits)
qed

lemma cell_at:
  assumes "poll_ok t" "int i < szTbPoll t"
  obtains p h where "tb_get i t = Some p" "hand_get i t = Some h" "0 \<le> poll_fd p \<longrightarrow> hand_ok h"
  using assms(1)
proof (cases rule: poll_ok_cases)
  case 1
  with assms(2) show thesis by simp
next
  case (2 ps hs n)
  then have "i < length ps" "length hs = length ps" using assms(2) slots_len by auto
  with 2 slots_nth [OF 2(3), of i] show thesis by (intro that [of "ps ! i" "hs ! i"]) (simp_all add: tbl_access)
qed

lemma request_turn_ok:
  fixes call :: "('f, 'r, 'w) fct_call"
  assumes "well_behaved N I call"
  shows "turn_ok N I (request_turn call)"
  unfolding turn_ok_def
proof (intro allI impI)
  fix i and t :: "('f, 'r) polltable_t" and w :: 'w
  assume t: "poll_ok t \<and> szTbPoll t \<le> N \<and> int i < szTbPoll t \<and> I w"
  then obtain p h where c: "tb_get i t = Some p" "hand_get i t = Some h" "0 \<le> poll_fd p \<longrightarrow> hand_ok h"
    using cell_at by metis
  show "\<exists>k t' w'. request_turn call i t w = Some (k, t', w') \<and> poll_ok t' \<and> szTbPoll t \<le> szTbPoll t' \<and> szTbPoll t' \<le> N \<and> I w'"
  proof (cases "0 \<le> poll_fd p")
    case False
    with t c show ?thesis by (simp add: request_turn_def)
  next
    case True
    with c(3) obtain e q r r2 where h: "fctevent h = Init e" "fctrequest h = Init q" "hand_ref h = Init r" "hand_ref2 h = Init r2"
      using hand_ok_cells by metis
    show ?thesis
    proof (cases q)
      case None
      with t c h True show ?thesis by (simp add: request_turn_def)
    next
      case (Some g)
      from assms t obtain ret t1 w1 where 1: "call g t w (poll_fd p) r r2 (sint (poll_events p)) = Some (ret, t1, w1)"
        "poll_ok t1" "szTbPoll t \<le> szTbPoll t1" "szTbPoll t1 \<le> N" "I w1"
        unfolding well_behaved_def by metis
      have "int i < szTbPoll t1" using t 1 by simp
      from tb_set_ok [OF 1(2) this, of "\<lambda>p. p\<lparr>poll_events := word_of_int ret\<rparr>"] obtain t2 where
        "tb_set i (\<lambda>p. p\<lparr>poll_events := word_of_int ret\<rparr>) t1 = Some t2" "poll_ok t2" "szTbPoll t2 = szTbPoll t1" by auto
      with c h True Some 1 show ?thesis by (cases "0 \<le> ret") (simp_all add: request_turn_def)
    qed
  qed
qed

lemma scan_turn_ok:
  fixes call :: "('f, 'r, 'w) fct_call"
  assumes "well_behaved N I call"
  shows "turn_ok N I (scan_turn call)"
  unfolding turn_ok_def
proof (intro allI impI)
  fix i and t :: "('f, 'r) polltable_t" and w :: 'w
  assume t: "poll_ok t \<and> szTbPoll t \<le> N \<and> int i < szTbPoll t \<and> I w"
  then obtain p h where c: "tb_get i t = Some p" "hand_get i t = Some h" "0 \<le> poll_fd p \<longrightarrow> hand_ok h"
    using cell_at by metis
  have clear: "\<exists>t3. tb_set i (\<lambda>p. p\<lparr>poll_revents := 0\<rparr>) t2 = Some t3 \<and> poll_ok t3 \<and> szTbPoll t3 = szTbPoll t2"
    if "poll_ok t2" "int i < szTbPoll t2" for t2
  proof -
    from tb_set_ok [OF that, of "\<lambda>p. p\<lparr>poll_revents := 0\<rparr>"] obtain t3 where
      "tb_set i (\<lambda>p. p\<lparr>poll_revents := 0\<rparr>) t2 = Some t3" "poll_ok t3" "szTbPoll t3 = szTbPoll t2" by auto
    then show ?thesis by blast
  qed
  show "\<exists>k t' w'. scan_turn call i t w = Some (k, t', w') \<and> poll_ok t' \<and> szTbPoll t \<le> szTbPoll t' \<and> szTbPoll t' \<le> N \<and> I w'"
  proof (cases "0 \<le> poll_fd p")
    case False
    with t c clear [of t] show ?thesis by (auto simp: scan_turn_def)
  next
    case True
    with c(3) obtain e q r r2 where h: "fctevent h = Init e" "fctrequest h = Init q" "hand_ref h = Init r" "hand_ref2 h = Init r2"
      using hand_ok_cells by metis
    show ?thesis
    proof (cases e)
      case None
      from t tb_set_ok [of t i "\<lambda>p. p\<lparr>poll_fd := -1, poll_revents := 0\<rparr>"] obtain t1 where
        1: "tb_set i (\<lambda>p. p\<lparr>poll_fd := -1, poll_revents := 0\<rparr>) t = Some t1" "poll_ok t1" "szTbPoll t1 = szTbPoll t" by auto
      have "tb_get i t1 = Some (p\<lparr>poll_fd := -1, poll_revents := 0\<rparr>)"
        using 1(1) c(1) by (auto simp: tb_set_def tb_get_def idx_def split: bind_splits if_splits)
      with t c h True None 1 show ?thesis by (simp add: scan_turn_def)
    next
      case (Some g)
      show ?thesis
      proof (cases "poll_revents p AND POLL_MASK = 0")
        case True
        with t c h Some \<open>0 \<le> poll_fd p\<close> show ?thesis by (simp add: scan_turn_def)
      next
        case False
        from assms t obtain ret t1 w1 where 1: "call g t w (poll_fd p) r r2 (sint (poll_revents p)) = Some (ret, t1, w1)"
          "poll_ok t1" "szTbPoll t \<le> szTbPoll t1" "szTbPoll t1 \<le> N" "I w1"
          unfolding well_behaved_def by metis
        from clear [of t1] t 1 obtain t3 where "tb_set i (\<lambda>p. p\<lparr>poll_revents := 0\<rparr>) t1 = Some t3" "poll_ok t3" "szTbPoll t3 = szTbPoll t1"
          by auto
        with c h True Some False 1 show ?thesis by (simp add: scan_turn_def)
      qed
    qed
  qed
qed

lemma store_revents_ok:
  assumes "poll_ok t" "length rs = (case tbPoll t of None \<Rightarrow> 0 | Some ps \<Rightarrow> length ps)"
  shows "poll_ok (store_revents rs t) \<and> szTbPoll (store_revents rs t) = szTbPoll t"
  using assms(1)
proof (cases rule: poll_ok_cases)
  case 1
  then show ?thesis by (simp add: store_revents_def poll_ok_def)
next
  case (2 ps hs n)
  define qs where "qs = map2 (\<lambda>p r. p\<lparr>poll_revents := r\<rparr>) ps rs"
  have len: "length qs = length ps" using assms(2) 2 by (simp add: qs_def)
  have fds: "map poll_fd qs = map poll_fd ps"
    using assms(2) 2 by (intro nth_equalityI) (simp_all add: qs_def)
  then have "used qs = used ps"
    by (simp add: used_fds)
  moreover have "slots_ok qs hs"
    using 2(3) fds len by (auto simp: slots_ok_def list_all2_conv_all_nth) (metis nth_map)
  ultimately show ?thesis using 2 len by (auto simp: store_revents_def poll_ok_tbl simp flip: qs_def)
qed

lemma rtl_poll_returns:
  assumes "well_behaved N I call" "poll_ok t" "szTbPoll t \<le> N" "I w" "\<forall>qs. length (fst (snd (sys qs timeout))) = length qs"
  shows "\<exists>nb t' w'. rtl_poll sys call t timeout w = Some (nb, t', w') \<and> poll_ok t' \<and> szTbPoll t' \<le> N \<and> I w'"
proof -
  from poll_loop_ends [OF request_turn_ok [OF assms(1)] assms(2-4), of 0 0] obtain k t1 w1 where
    1: "rtl_pollRequest call t w = Some (k, t1, w1)" "poll_ok t1" "szTbPoll t \<le> szTbPoll t1" "szTbPoll t1 \<le> N" "I w1"
    by (auto simp: rtl_pollRequest_def)
  define qs where "qs = (case tbPoll t1 of None \<Rightarrow> [] | Some ps \<Rightarrow> ps)"
  obtain rc rs errno where y: "sys qs timeout = (rc, rs, errno)" by (cases "sys qs timeout")
  have "length rs = (case tbPoll t1 of None \<Rightarrow> 0 | Some ps \<Rightarrow> length ps)"
    using assms(5) [rule_format, of qs] y by (simp add: qs_def split: option.splits)
  from store_revents_ok [OF 1(2) this] have 2: "poll_ok (store_revents rs t1)" "szTbPoll (store_revents rs t1) = szTbPoll t1" by auto
  with poll_loop_ends [OF scan_turn_ok [OF assms(1)] _ _ 1(5), of "store_revents rs t1" 0 0] 1 obtain k' t2 w2 where
    "rtl_pollScan call (store_revents rs t1) w1 = Some (k', t2, w2)" "poll_ok t2" "szTbPoll t2 \<le> N" "I w2"
    by (auto simp: rtl_pollScan_def)
  moreover have "0 \<le> nbPoll t" using assms(2) by (cases rule: poll_ok_cases) auto
  ultimately show ?thesis using 1 2 y by (auto simp: rtl_poll_def Let_def simp flip: qs_def)
qed

subsection \<open>Properties\<close>

text \<open>C14: a run of \<open>rtl_pollAdd\<close>, \<open>rtl_pollChg\<close>, \<open>rtl_pollSetEvt\<close>, \<open>rtl_pollGetMode\<close> and
  \<open>rtl_pollRmv\<close> on a new table, in which the allocations succeed and no descriptor is registered twice,
  is a run of a map from descriptors to registrations: the results are those of the map, what is
  registered is what the map holds, and the table is well formed.\<close>

theorem poll_table_is_map:
  assumes "rtl_pollInit True = Some t" "run_ops reg_step ops Map.empty = Some (rs, M)"
  shows "\<exists>t'. run_ops poll_step ops t = Some (rs, t') \<and> registered t' = M \<and> poll_inv t'"
proof -
  have t: "t = no_tbl" using assms(1) by (simp add: rtl_pollInit_def)
  then have "poll_inv t" "registered t = Map.empty" by (simp_all add: poll_inv_def poll_ok_def registered_def)
  with poll_map.run_refines [of t ops rs M] assms(2) show ?thesis by auto
qed

theorem poll_table_is_map_witness:
  "\<exists>t'. run_ops poll_step [PollAdd 5 (Some (4 :: nat)) None () (), PollAdd 7 (Some 2) (Some 3) () (), PollRmv 5, PollGetMode 7] no_tbl
     = Some ([0, 0, 0, 0], t') \<and> registered t' = [7 \<mapsto> (Init (Some 2), Init (Some 3), Init (), Init (), 0)]"
proof -
  let ?ops = "[PollAdd 5 (Some (4 :: nat)) None () (), PollAdd 7 (Some 2) (Some 3) () (), PollRmv 5, PollGetMode 7]"
  have "run_ops reg_step ?ops Map.empty = Some ([0, 0, 0, 0], [7 \<mapsto> (Init (Some 2), Init (Some 3), Init (), Init (), 0)])"
    by (auto simp: fun_eq_iff)
  from poll_table_is_map [OF _ this, of no_tbl] show ?thesis by (simp only: rtl_pollInit_def if_True) blast
qed

text \<open>C15: one turn of the main loop, when the functions leave the table alone: \<open>rtl_poll\<close> asks the
  request function of each registered cell for the events to wait for, gives the cells to \<open>poll\<close>, and,
  when that found events, calls the event function of each registered cell with a read, write or urgent
  event, once, in the order of the cells, with the descriptor, the references and the events found. It returns
  the number of cells with such an event, clears their events, and frees the cells without an event
  function.\<close>

theorem poll_dispatches:
  assumes "keeps_table call act" "slots_ok ps hs" "0 \<le> n" "\<forall>qs. length (fst (snd (sys qs timeout))) = length qs"
  shows "rtl_poll sys call (tbl ps hs n) timeout w =
    (let (ps1, w1) = asked act (zip ps hs) w;
         (rc, rs, errno) = sys ps1 timeout;
         ps2 = map2 (\<lambda>p r. p\<lparr>poll_revents := r\<rparr>) ps1 rs;
         cells = zip ps2 hs
     in if rc = 0 then Some (0, tbl ps2 hs n, w1)
        else if rc < 0 then Some (if errno = EINVAL then - EINVAL else -1, tbl ps2 hs n, w1)
        else Some (int (length (filter cell_ready cells)), tbl (map scanned cells) hs n, fold (called act) cells w1))"
proof -
  obtain ps1 w1 where a: "asked act (zip ps hs) w = (ps1, w1)" by (cases "asked act (zip ps hs) w")
  obtain rc rs errno where y: "sys ps1 timeout = (rc, rs, errno)" by (cases "sys ps1 timeout")
  from pollRequest_tbl [OF assms(1,2), of n w] obtain k where
    r: "rtl_pollRequest call (tbl ps hs n) w = Some (k, tbl ps1 hs n, w1)" "map poll_fd ps1 = map poll_fd ps"
    by (auto simp: a)
  have len: "length ps1 = length ps" "length rs = length ps"
    using assms(4) [rule_format, of ps1] map_eq_imp_length_eq [OF r(2)] by (simp_all add: y)
  have "slots_ok (map2 (\<lambda>p r. p\<lparr>poll_revents := r\<rparr>) ps1 rs) hs"
    using assms(2) len r(2) by (auto simp: slots_ok_def list_all2_conv_all_nth) (metis nth_map)
  from pollScan_tbl [OF assms(1) this] show ?thesis
    using r(1) len assms(3) by (simp add: rtl_poll_def store_revents_def Let_def a y)
qed

definition echo_act :: "(nat, unit, int list) fct_act" where
  "echo_act f fd r r2 ev w = (1, w @ [int f, fd, ev])"

definition echo_call :: "(nat, unit, int list) fct_call" where
  "echo_call f t w fd r r2 ev = (case echo_act f fd r r2 ev w of (ret, w') \<Rightarrow> Some (ret, t, w'))"

definition echo_sys :: poll_sys where
  "echo_sys ps timeout = (1, map (\<lambda>p. if poll_fd p = 7 then 1 else 0) ps, 0)"

definition echo_ps :: "POLLFD list" where
  "echo_ps = [new_poll 5 (None :: nat option), new_poll 7 (Some (3 :: nat)), new_poll 9 (None :: nat option)]"

definition echo_hs :: "(nat, unit) HAND list" where
  "echo_hs = [new_hand (Some 4) None () (), new_hand (Some 2) (Some 3) () (), new_hand None None () ()]"

theorem poll_dispatches_witness:
  "rtl_poll echo_sys echo_call (tbl echo_ps echo_hs 3) 100 [] =
   Some (1, tbl [new_poll 5 (None :: nat option), (new_poll 7 (Some (3 :: nat)))\<lparr>poll_events := 1\<rparr>,
                 (new_poll 9 (None :: nat option))\<lparr>poll_fd := -1\<rparr>] echo_hs 3, [3, 7, 0, 2, 7, 1])"
proof -
  have k: "keeps_table echo_call echo_act" by (simp add: keeps_table_def echo_call_def split_beta)
  have s: "slots_ok echo_ps echo_hs" by (simp add: slots_ok_def echo_ps_def echo_hs_def)
  have l: "\<forall>qs. length (fst (snd (echo_sys qs 100))) = length qs" by (simp add: echo_sys_def)
  have a: "asked echo_act (zip echo_ps echo_hs) [] = ([new_poll 5 (None :: nat option), (new_poll 7 (Some (3 :: nat)))\<lparr>poll_events := 1\<rparr>,
      new_poll 9 (None :: nat option)], [3, 7, 0])"
    by (simp add: echo_ps_def echo_hs_def echo_act_def new_poll_def new_hand_def const_defs)
  show ?thesis
    apply (subst poll_dispatches [where sys = echo_sys, OF k s])
      apply simp
     apply (rule l)
    apply (subst a)
    apply (simp add: Let_def echo_hs_def echo_sys_def new_poll_def new_hand_def echo_act_def cell_ready_def dropped_def scanned_def
        POLL_MASK_def const_defs)
    done
qed

text \<open>After an allocation of the table that failed, the size of the table is already stored:
  \<open>rtl_pollAdd\<close> returns -1, and the next call goes through an array that does not exist.\<close>

theorem poll_add_after_failure:
  assumes "\<not> (handOk \<and> tbOk)"
  shows "\<exists>t. rtl_pollAdd handOk tbOk no_tbl fd ev rq r r2 = Some (-1, t) \<and> \<not> poll_ok t \<and>
    rtl_pollAdd True True t fd' ev' rq' s s2 = None"
proof -
  have scan: "scan_fd P 0 SZPOLL \<lparr>tbPoll = None, handPoll = hs, szTbPoll = z, nbPoll = n\<rparr> = None" for P z n and hs :: "('a, 'b) HAND list option"
    by (simp add: SZPOLL_def numeral_eq_Suc tb_get_def)
  have found: "scan_fd (\<lambda>x. x < 0) 0 SZPOLL \<lparr>tbPoll = Some (replicate SZPOLL NEW_POLLFD), handPoll = hs, szTbPoll = z, nbPoll = n\<rparr> = Some (Some 0)"
    for z n and hs :: "('a, 'b) HAND list option"
    by (simp add: SZPOLL_def numeral_eq_Suc tb_get_def idx_def NEW_POLLFD_def)
  have no_hand: "hand_set i f \<lparr>tbPoll = ps, handPoll = None, szTbPoll = z, nbPoll = n\<rparr> = None" for i f ps z n
    by (simp add: hand_set_def)
  show ?thesis
  proof (cases tbOk)
    case True
    with assms show ?thesis
      by (simp add: rtl_pollAdd_def grow_table_def poll_ok_def found tbl_access) (simp add: tb_set_def idx_def SZPOLL_def no_hand)
  next
    case False
    then show ?thesis
      by (simp add: rtl_pollAdd_def grow_table_def poll_ok_def scan) (simp add: SZPOLL_def)
  qed
qed

theorem poll_add_after_failure_witness:
  "\<exists>t. rtl_pollAdd True False no_tbl 5 (Some (1 :: nat)) None () () = Some (-1, t) \<and> \<not> poll_ok t \<and>
    rtl_pollAdd True True t 6 None None () () = None"
  by (rule poll_add_after_failure) simp

end
