(* ===== verification/Port_Poll.thy ===== *)
theory Port_Poll
  imports Port_Run Rtl_Poll
begin

unbundle bit_operations_syntax

section \<open>A port in the main loop (AZAP/lib/port_context.c with rtbase/lib/poll.c)\<close>

text \<open>
  \<open>portContext_t_open\<close> registers the descriptor of the TTY with \<open>portContextRequestPollCb\<close> as event
  function, \<open>portContextEventPollCb\<close> as request function and the port as reference. Here the two
  functions are calls of the poll table's model: the process is the port, what \<open>read\<close> returns in this turn
  and the bytes handed to \<open>write\<close> so far. The removals that the functions (and \<open>portContext_t_disconnect\<close>) make
  in the table are done on the table of the loop.
\<close>

datatype portFct = EventPollCb | RequestPollCb

record portIo =
  io_port :: portContext_t
  io_read :: "bytes option"
  io_out :: bytes

definition port_fct :: "(portFct, unit, portIo) fct_call" where
  "port_fct f table w fd r1 r2 revents =
     (case f of
        EventPollCb \<Rightarrow> do {
          (res, p) \<leftarrow> portContextEventPollCb fd (Some (io_port w));
          This \<leftarrow> p;
          (rc, t) \<leftarrow> (if fd \<noteq> deviceFd (io_port w) then rtl_pollRmv table (deviceFd (io_port w)) else Some (0, table));
          Some (res, t, w\<lparr>io_port := This\<rparr>)
        }
      | RequestPollCb \<Rightarrow> do {
          (res, p, out) \<leftarrow> portContextRequestPollCb (word_of_int revents AND POLLIN = POLLIN)
                             (word_of_int revents AND POLLOUT = POLLOUT) fd (io_read w) (Some (io_port w));
          This \<leftarrow> p;
          (rc, t) \<leftarrow> (if deviceFd (io_port w) \<noteq> -1 \<and> deviceFd This = -1
                     then rtl_pollRmv table (deviceFd (io_port w)) else Some (0, table));
          Some (res, t, w\<lparr>io_port := This, io_out := io_out w @ out\<rparr>)
        })"

definition port_registered :: "int \<Rightarrow> (portFct, unit) polltable_t" where
  "port_registered fd =
     (case rtl_pollAdd True True no_tbl fd (Some RequestPollCb) (Some EventPollCb) () () of
        Some (i, t) \<Rightarrow> t | None \<Rightarrow> no_tbl)"

definition io_ok :: "portIo \<Rightarrow> bool" where
  "io_ok w = (port_running (io_port w) \<and> (case io_read w of None \<Rightarrow> True | Some d \<Rightarrow> length d \<le> 255))"

lemma running_buffers:
  assumes "port_running This"
  obtains b c where "rx This = Some b" "uart_wf b" "tx This = Some c" "uart_wf c"
proof -
  from assms obtain b where "rx This = Some b" "uart_wf b" by (auto simp: port_running_def)
  moreover from assms obtain c where "tx This = Some c" "uart_wf c"
    by (auto simp: port_running_def port_inv_def tx_ok_def split: option.splits)
  ultimately show thesis by (rule that)
qed

lemma unat_byte: "unat (n :: u8) \<le> 255"
  using unat_u8_bound [of n] by simp

lemma read_put:
  assumes "uart_wf b" "n = (case readRes of None \<Rightarrow> (-1 :: u8) | Some d \<Rightarrow> of_nat (length d))"
  shows "\<exists>rc b'. uartBufControl_t_put b (ucast n)
      (Some (take 255 ((case readRes of None \<Rightarrow> [] | Some d \<Rightarrow> d) @ replicate 255 0))) = Some (rc, b') \<and> uart_wf b'"
proof -
  let ?d = "take 255 ((case readRes of None \<Rightarrow> [] | Some d \<Rightarrow> d) @ replicate 255 0)"
  have "unat (ucast n :: u16) \<le> 255" using unat_byte [of n] by (simp add: unsigned_ucast_eq)
  moreover have "length ?d = 255" by (simp only: length_take length_append length_replicate)
  ultimately have "unat (ucast n :: u16) \<le> length ?d" by simp
  from uart_put_cases [OF assms(1) this] show ?thesis by blast
qed

text \<open>The write half, whatever the read half has left in \<open>len\<close>.\<close>

lemma write_get:
  assumes "uart_wf c"
  shows "\<exists>rc c' out. uartBufControl_t_get c
      (ucast (if uartBufControl_t_getBufferedSize c < 255 then ucast (uartBufControl_t_getBufferedSize c) else len :: u8))
      (Some (replicate 255 0)) = Some (rc, c', Some out) \<and> uart_wf c'"
proof -
  let ?n = "if uartBufControl_t_getBufferedSize c < 255 then ucast (uartBufControl_t_getBufferedSize c) else len :: u8"
  have n: "unat (uartBufControl_t_getBufferedSize c) = length (uart_contents c)" by (rule unat_getBufferedSize [OF assms])
  have "unat len \<le> 255" by (rule unat_byte)
  then have "unat (ucast ?n :: u16) \<le> length (uart_contents c)" "unat (ucast ?n :: u16) \<le> 255"
    using n by (auto simp: word_less_nat_alt unsigned_ucast_eq take_bit_nat_eq_self)
  from poll_get [OF assms this] show ?thesis by metis
qed

lemma request_cb_running:
  assumes "port_running This"
  shows "\<exists>res This' out. portContextRequestPollCb pin pout fd readRes (Some This) = Some (res, Some This', out) \<and> port_running This'"
proof (cases "fd = deviceFd This")
  case False
  with assms show ?thesis by (simp add: portContextRequestPollCb_def)
next
  case True
  from running_buffers [OF assms] obtain b c where b: "rx This = Some b" "uart_wf b" and c: "tx This = Some c" "uart_wf c" .
  define n where "n = (case readRes of None \<Rightarrow> (-1 :: u8) | Some d \<Rightarrow> of_nat (length d))"
  from read_put [OF b(2) n_def] obtain rc b' where
    put: "uartBufControl_t_put b (ucast n) (Some (take 255 ((case readRes of None \<Rightarrow> [] | Some d \<Rightarrow> d) @ replicate 255 0))) = Some (rc, b')"
      "uart_wf b'" by blast
  define data where "data = take 255 ((case readRes of None \<Rightarrow> [] | Some d \<Rightarrow> d) @ replicate 255 0)"
  define half where "half = (if pin then if n \<noteq> 0
        then do { rxb \<leftarrow> rx This; (rc, rxb') \<leftarrow> uartBufControl_t_put rxb (ucast n) (Some data); Some (This\<lparr>rx := Some rxb'\<rparr>, n) }
        else Some (snd (portContext_t_disconnect This), n) else Some (This, 255))"
  have eq: "portContextRequestPollCb pin pout fd readRes (Some This) = do {
      (This1, len) \<leftarrow> half;
      if pout
      then do {
        txb \<leftarrow> tx This1;
        let len' = (if uartBufControl_t_getBufferedSize txb < 255
                    then ucast (uartBufControl_t_getBufferedSize txb) else len);
        (rc, txb', dst) \<leftarrow> uartBufControl_t_get txb (ucast len') (Some (replicate 255 0));
        d \<leftarrow> dst;
        Some (0, Some (This1\<lparr>tx := Some txb'\<rparr>), take (unat len') d)
      }
      else Some (0, Some This1, []) }"
    unfolding half_def data_def n_def portContextRequestPollCb_def using True by (simp add: Let_def)
  have "\<exists>This1 len. half = Some (This1, len) \<and> port_running This1 \<and> tx This1 = Some c"
    using b c put assms running_disconnect [OF assms]
    by (auto simp: half_def portContext_t_disconnect_def simp del: take_append simp flip: data_def)
  then obtain This1 len where h: "half = Some (This1, len)" "port_running This1" "tx This1 = Some c" by blast
  from write_get [OF c(2), of len] obtain rc' c' out where
    "uartBufControl_t_get c (ucast (if uartBufControl_t_getBufferedSize c < 255 then ucast (uartBufControl_t_getBufferedSize c) else len))
      (Some (replicate 255 0)) = Some (rc', c', Some out)" "uart_wf c'" by blast
  with h show ?thesis by (simp add: eq Let_def)
qed

lemma event_cb_running:
  assumes "port_running This"
  shows "\<exists>res This'. portContextEventPollCb fd (Some This) = Some (res, Some This') \<and> port_running This'"
proof -
  from running_buffers [OF assms] obtain c where "tx This = Some c" by metis
  with assms show ?thesis by (cases "fd = deviceFd This") (simp_all add: portContextEventPollCb_def)
qed

lemma port_fct_well_behaved: "well_behaved N io_ok port_fct"
  unfolding well_behaved_def
proof (intro allI impI)
  fix f r r2 ev fd and t :: "(portFct, unit) polltable_t" and w
  assume a: "poll_ok t \<and> szTbPoll t \<le> N \<and> io_ok w"
  then have run: "port_running (io_port w)" by (simp add: io_ok_def)
  from pollRmv_ok [of t "deviceFd (io_port w)"] a obtain rc t1 where
    rmv: "rtl_pollRmv t (deviceFd (io_port w)) = Some (rc, t1)" "poll_ok t1" "szTbPoll t1 = szTbPoll t" by blast
  show "\<exists>ret t' w'. port_fct f t w fd r r2 ev = Some (ret, t', w') \<and> poll_ok t' \<and> szTbPoll t \<le> szTbPoll t' \<and> szTbPoll t' \<le> N \<and> io_ok w'"
  proof (cases f)
    case EventPollCb
    from event_cb_running [OF run, of fd] obtain res This' where
      "portContextEventPollCb fd (Some (io_port w)) = Some (res, Some This')" "port_running This'" by blast
    with EventPollCb rmv a show ?thesis by (auto simp: port_fct_def io_ok_def)
  next
    case RequestPollCb
    from request_cb_running [OF run, of "word_of_int ev AND POLLIN = POLLIN" "word_of_int ev AND POLLOUT = POLLOUT" fd "io_read w"]
    obtain res This' out where
      "portContextRequestPollCb (word_of_int ev AND POLLIN = POLLIN) (word_of_int ev AND POLLOUT = POLLOUT) fd (io_read w) (Some (io_port w))
         = Some (res, Some This', out)" "port_running This'" by blast
    with RequestPollCb rmv a show ?thesis by (auto simp: port_fct_def io_ok_def)
  qed
qed

subsection \<open>One turn for a connected port\<close>

text \<open>A table whose first cell alone is in use: the loops go over the other cells.\<close>

definition free_cells :: "nat \<Rightarrow> POLLFD list \<Rightarrow> bool" where
  "free_cells i ps = (\<forall>j. i \<le> j \<and> j < length ps \<longrightarrow> poll_fd (ps ! j) < 0 \<and> poll_revents (ps ! j) = 0)"

lemma poll_loop_free:
  assumes "\<And>j w. i \<le> j \<Longrightarrow> j < length ps \<Longrightarrow> turn j (tbl ps hs n) w = Some (0, tbl ps hs n, w)"
  shows "poll_loop turn i nb (tbl ps hs n) w = Some (nb, tbl ps hs n, w)"
  using assms
proof (induction "length ps - i" arbitrary: i)
  case 0
  then show ?case by (simp add: poll_loop_end)
next
  case (Suc k)
  then have "i < length ps" by simp
  with Suc(3) [of i w] have "poll_loop turn i nb (tbl ps hs n) w = poll_loop turn (Suc i) (nb + 0) (tbl ps hs n) w"
    by (intro poll_loop_turn) simp_all
  with Suc(1) [of "Suc i"] Suc(2,3) show ?case by simp
qed

lemma free_turns:
  "free_cells i ps \<Longrightarrow> i \<le> j \<Longrightarrow> j < length ps \<Longrightarrow> request_turn call j (tbl ps hs n) w = Some (0, tbl ps hs n, w)"
  "free_cells i ps \<Longrightarrow> i \<le> j \<Longrightarrow> j < length ps \<Longrightarrow> scan_turn call j (tbl ps hs n) w = Some (0, tbl ps hs n, w)"
  by (auto simp: free_cells_def request_turn_def scan_turn_def tbl_access dest!: spec [of _ j])

lemma poll_loop_first:
  assumes "0 < length ps" "turn 0 (tbl ps hs n) w = Some (k, tbl qs hs n, w')" "length qs = length ps"
    "\<And>j w. 1 \<le> j \<Longrightarrow> j < length qs \<Longrightarrow> turn j (tbl qs hs n) w = Some (0, tbl qs hs n, w)"
  shows "poll_loop turn 0 0 (tbl ps hs n) w = Some (k, tbl qs hs n, w')"
proof -
  have "poll_loop turn 0 0 (tbl ps hs n) w = poll_loop turn (Suc 0) (0 + k) (tbl qs hs n) w'"
    using assms(1,2) by (intro poll_loop_turn) simp_all
  with poll_loop_free [of "Suc 0" qs turn hs n k w'] assms(4) show ?thesis by simp
qed

lemma request_cb_moves:
  assumes "rx This = Some b" "uart_wf b" "tx This = Some c" "uart_wf c" "0 < length d" "length d \<le> 255"
    "length (uart_contents b) + length d \<le> uart_capacity b"
  shows "\<exists>b' c' written. portContextRequestPollCb True (uart_contents c \<noteq> []) (deviceFd This) (Some d) (Some This)
      = Some (0, Some (This\<lparr>rx := Some b', tx := Some c'\<rparr>), written) \<and>
    uart_wf b' \<and> uart_contents b' = uart_contents b @ d \<and> uart_wf c' \<and> written @ uart_contents c' = uart_contents c \<and>
    length written = (if length (uart_contents c) < 255 then length (uart_contents c) else length d)"
proof -
  define n :: u8 where "n = of_nat (length d)"
  have n: "unat n = length d" using assms(6) by (simp add: n_def unat_of_nat)
  then have n0: "n \<noteq> 0" using assms(5) by auto
  define data where "data = take 255 (d @ replicate 255 (0 :: u8))"
  have data: "length data = 255" "take (length d) data = d" using assms(6) by (simp_all add: data_def min_def)
  have u: "unat (ucast n :: u16) = length d" using n assms(6) by simp
  from uart_put_fits [OF assms(2), of "ucast n" data] u data assms(5-7) obtain b' where
    put: "uartBufControl_t_put b (ucast n) (Some data) = Some (ucast n, b')" "uart_wf b'" "uart_contents b' = uart_contents b @ d" by auto
  show ?thesis
  proof (cases "uart_contents c = []")
    case True
    have "portContextRequestPollCb True False (deviceFd This) (Some d) (Some This) = Some (0, Some (This\<lparr>rx := Some b'\<rparr>), [])"
      using assms(1) put(1) n0 by (simp add: portContextRequestPollCb_def Let_def del: take_append flip: n_def data_def)
    with True put(2,3) assms(3,4) show ?thesis
      by (intro exI [of _ b'] exI [of _ c] exI [of _ "[]"]) simp
  next
    case False
    define len where "len = (if uartBufControl_t_getBufferedSize c < 255 then ucast (uartBufControl_t_getBufferedSize c) else n)"
    have sz: "unat (uartBufControl_t_getBufferedSize c) = length (uart_contents c)" by (rule unat_getBufferedSize [OF assms(4)])
    have len: "unat len = (if length (uart_contents c) < 255 then length (uart_contents c) else length d)"
      using sz n by (auto simp: len_def word_less_nat_alt unsigned_ucast_eq take_bit_nat_eq_self)
    then have l16: "unat (ucast len :: u16) = unat len" "unat len \<le> length (uart_contents c)" "unat len \<le> 255"
      using assms(6) unat_byte [of len] by (auto simp: unsigned_ucast_eq)
    from poll_get [OF assms(4), of "ucast len"] l16 obtain rc c' dst where
      get: "uartBufControl_t_get c (ucast len) (Some (replicate 255 0)) = Some (rc, c', Some dst)"
      "uart_wf c'" "uart_contents c' = drop (unat len) (uart_contents c)" "take (unat len) dst = take (unat len) (uart_contents c)"
      by auto
    have "portContextRequestPollCb True True (deviceFd This) (Some d) (Some This)
        = Some (0, Some (This\<lparr>rx := Some b', tx := Some c'\<rparr>), take (unat len) (uart_contents c))"
      using assms(1,3) put(1) n0 get(1,4)
      by (simp add: portContextRequestPollCb_def Let_def del: take_append flip: n_def data_def len_def)
    with False put(2,3) get(2,3) len l16 show ?thesis
      by (intro exI [of _ b'] exI [of _ c'] exI [of _ "take (unat len) (uart_contents c)"]) simp
  qed
qed

text \<open>The cells of a table with one port, with the events asked for and found.\<close>

definition port_cell :: "int \<Rightarrow> u16 \<Rightarrow> u16 \<Rightarrow> POLLFD list" where
  "port_cell fd ev rv = \<lparr>poll_fd = fd, poll_events = ev, poll_revents = rv\<rparr> # replicate 9 NEW_POLLFD"

definition port_hands :: "(portFct, unit) HAND list" where
  "port_hands = new_hand (Some RequestPollCb) (Some EventPollCb) () () # replicate 9 NEW_HAND"

lemma length_port_cell [simp]: "length (port_cell fd ev rv) = 10" "length port_hands = 10"
  by (simp_all add: port_cell_def port_hands_def)

lemma port_cell_free: "free_cells (Suc 0) (port_cell fd ev rv)"
  by (auto simp: free_cells_def port_cell_def NEW_POLLFD_def nth_Cons split: nat.splits)

lemma replicate_10: "replicate 10 x = x # replicate 9 x"
  by (simp add: numeral_eq_Suc)

lemma port_registered_eq: "port_registered fd = tbl (port_cell fd 0 0) port_hands 1"
proof -
  let ?t = "\<lparr>tbPoll = Some (NEW_POLLFD # replicate 9 NEW_POLLFD), handPoll = Some (NEW_HAND # replicate 9 NEW_HAND),
      szTbPoll = 10, nbPoll = 0\<rparr> :: (portFct, unit) polltable_t"
  have "grow_table True True (no_tbl :: (portFct, unit) polltable_t) = Some ?t"
    by (simp add: grow_table_def SZPOLL_def replicate_10)
  moreover have "scan_fd (\<lambda>x. x < 0) 0 10 ?t = Some (Some 0)"
  proof -
    have ten: "(10 :: nat) = Suc 9" by simp
    show ?thesis unfolding ten scan_fd.simps by (simp add: tb_get_def idx_def NEW_POLLFD_def)
  qed
  ultimately show ?thesis
    by (simp add: port_registered_def rtl_pollAdd_def port_cell_def port_hands_def new_hand_def tb_set_def hand_set_def idx_def)
qed

lemma registered_port_cell:
  assumes "0 \<le> fd"
  shows "look (port_cell fd ev rv) port_hands = [fd \<mapsto> (Init (Some RequestPollCb), Init (Some EventPollCb), Init (), Init (), ev)]"
proof
  fix x
  have cells: "poll_fd (port_cell fd ev rv ! j) = (if j = 0 then fd else -1)" if "j < 10" for j
    using that by (auto simp: port_cell_def nth_Cons NEW_POLLFD_def split: nat.splits)
  then have "uniq (port_cell fd ev rv)" by (simp add: uniq_def)
  from look_Some [OF this, of 0 fd port_hands] cells [of 0] assms
  have "look (port_cell fd ev rv) port_hands fd = Some (reg_of (port_cell fd ev rv ! 0) (port_hands ! 0))" by simp
  moreover have "look (port_cell fd ev rv) port_hands x = None" if "x \<noteq> fd"
  proof (cases "x < 0")
    case False
    with that cells show ?thesis by (intro look_None) simp
  qed (simp add: look_def)
  ultimately show "look (port_cell fd ev rv) port_hands x =
      [fd \<mapsto> (Init (Some RequestPollCb), Init (Some EventPollCb), Init (), Init (), ev)] x"
    by (cases "x = fd") (simp_all add: reg_of_def port_cell_def port_hands_def new_hand_def)
qed

definition all_ready :: poll_sys where
  "all_ready ps timeout = (1, map (\<lambda>p. if poll_fd p \<ge> 0 then poll_events p else 0) ps, 0)"

subsection \<open>Properties\<close>

text \<open>C12: one turn of the main loop with a started port among the registered descriptors: whatever \<open>poll\<close> and
  \<open>read\<close> answer (data, nothing, an error), \<open>rtl_poll\<close> returns without undefined behaviour, the table stays well
  formed and the port keeps its invariant, also when its functions take descriptors off the table.\<close>

theorem main_loop_keeps_port:
  assumes "poll_ok t" "port_running (io_port w)" "\<forall>d. io_read w = Some d \<longrightarrow> length d \<le> 255"
    "\<forall>qs. length (fst (snd (sys qs timeout))) = length qs"
  shows "\<exists>nb t' w'. rtl_poll sys port_fct t timeout w = Some (nb, t', w') \<and> poll_ok t' \<and> port_running (io_port w')"
proof -
  have "io_ok w" using assms(2,3) by (simp add: io_ok_def split: option.splits)
  from rtl_poll_returns [where sys = sys and timeout = timeout, OF port_fct_well_behaved assms(1) order_refl this assms(4)] show ?thesis
    unfolding io_ok_def by blast
qed

text \<open>C13: one turn of the main loop for a connected port that is alone in a fresh poll table, when \<open>poll\<close>
  reports everything asked for as ready and the read gives between 1 and 255 bytes that fit in the free room
  of the receive buffer (a read that does not fit is dropped, an empty one disconnects the port): the bytes
  read are appended to the receive buffer, and the first bytes of the transmit buffer are handed to
  \<open>write\<close>, in order and once: all of them when fewer than 255 are buffered, otherwise as many as have just
  been read. The port stays registered, for writing only when bytes were waiting.\<close>

theorem main_loop_moves_bytes:
  assumes "rx P = Some b" "uart_wf b" "tx P = Some c" "uart_wf c" "0 < length d" "length d \<le> 255"
    "length (uart_contents b) + length d \<le> uart_capacity b" "0 \<le> deviceFd P"
  shows "\<exists>t b' c' written. rtl_poll all_ready port_fct (port_registered (deviceFd P)) timeout \<lparr>io_port = P, io_read = Some d, io_out = out\<rparr>
      = Some (1, t, \<lparr>io_port = P\<lparr>rx := Some b', tx := Some c'\<rparr>, io_read = Some d, io_out = out @ written\<rparr>) \<and>
    uart_contents b' = uart_contents b @ d \<and> written @ uart_contents c' = uart_contents c \<and>
    length written = (if length (uart_contents c) < 255 then length (uart_contents c) else length d) \<and>
    registered t = [deviceFd P \<mapsto> (Init (Some RequestPollCb), Init (Some EventPollCb), Init (), Init (),
                                   if uart_contents c = [] then POLLIN else POLLIN OR POLLOUT)]"
proof -
  define fd where "fd = deviceFd P"
  define w where "w = \<lparr>io_port = P, io_read = Some d, io_out = out\<rparr>"
  define ev :: u16 where "ev = (if uart_contents c = [] then 1 else 5)"
  have fd: "0 \<le> fd" using assms(8) by (simp add: fd_def)
  have bz: "(uartBufControl_t_getBufferedSize c \<noteq> 0) = (uart_contents c \<noteq> [])"
    using unat_getBufferedSize [OF assms(4)] by (metis length_0_conv unat_0 unat_eq_zero)
  have ask: "request_turn port_fct 0 (tbl (port_cell fd 0 0) port_hands 1) w = Some (1, tbl (port_cell fd ev 0) port_hands 1, w)"
    using fd assms(3) bz
    by (simp add: request_turn_def tbl_access port_fct_def portContextEventPollCb_def w_def ev_def port_cell_def port_hands_def new_hand_def
        fd_def [symmetric])
  have requested: "rtl_pollRequest port_fct (tbl (port_cell fd 0 0) port_hands 1) w = Some (1, tbl (port_cell fd ev 0) port_hands 1, w)"
    unfolding rtl_pollRequest_def
    using free_turns(1) [OF port_cell_free, of _ fd ev 0 port_fct port_hands 1]
    by (intro poll_loop_first ask) simp_all
  have found: "all_ready (port_cell fd ev 0) timeout = (1, ev # replicate 9 0, 0)"
    using fd by (simp add: all_ready_def port_cell_def NEW_POLLFD_def)
  have stored: "store_revents (ev # replicate 9 0) (tbl (port_cell fd ev 0) port_hands 1 :: (portFct, unit) polltable_t) = tbl (port_cell fd ev ev) port_hands 1"
    by (simp add: store_revents_def port_cell_def NEW_POLLFD_def numeral_eq_Suc)
  from request_cb_moves [OF assms(1-7)] obtain b' c' written where
    cb: "portContextRequestPollCb True (uart_contents c \<noteq> []) fd (Some d) (Some P) = Some (0, Some (P\<lparr>rx := Some b', tx := Some c'\<rparr>), written)"
    and b': "uart_contents b' = uart_contents b @ d" and c': "written @ uart_contents c' = uart_contents c"
    "length written = (if length (uart_contents c) < 255 then length (uart_contents c) else length d)"
    by (auto simp: fd_def)
  define w' where "w' = \<lparr>io_port = P\<lparr>rx := Some b', tx := Some c'\<rparr>, io_read = Some d, io_out = out @ written\<rparr>"
  have ev: "(word_of_int (sint ev) :: u16) = ev" "ev AND POLL_MASK \<noteq> 0" "ev AND POLLIN = POLLIN" "(ev AND POLLOUT = POLLOUT) = (uart_contents c \<noteq> [])"
    by (simp_all add: ev_def POLL_MASK_def const_defs)
  have "scan_turn port_fct 0 (tbl (port_cell fd ev ev) port_hands 1) w = Some (1, tbl (port_cell fd ev 0) port_hands 1, w')"
    using fd cb ev
    by (simp add: scan_turn_def tbl_access port_fct_def w_def w'_def port_cell_def port_hands_def new_hand_def fd_def [symmetric])
  then have "rtl_pollScan port_fct (tbl (port_cell fd ev ev) port_hands 1) w = Some (1, tbl (port_cell fd ev 0) port_hands 1, w')"
    unfolding rtl_pollScan_def
    using free_turns(2) [OF port_cell_free, of _ fd ev 0 port_fct port_hands 1]
    by (intro poll_loop_first) simp_all
  with requested found stored have "rtl_poll all_ready port_fct (port_registered fd) timeout w = Some (1, tbl (port_cell fd ev 0) port_hands 1, w')"
    by (simp add: rtl_poll_def port_registered_eq Let_def)
  moreover have "registered (tbl (port_cell fd ev 0) port_hands 1) =
    [fd \<mapsto> (Init (Some RequestPollCb), Init (Some EventPollCb), Init (), Init (), if uart_contents c = [] then POLLIN else POLLIN OR POLLOUT)]"
    using registered_port_cell [OF fd, of ev 0] by (simp add: ev_def const_defs)
  ultimately show ?thesis using b' c' by (auto simp: w_def w'_def fd_def)
qed

theorem main_loop_keeps_port_witness:
  "\<exists>nb t' w'. rtl_poll all_ready port_fct (port_registered 3) 0 \<lparr>io_port = apiPort, io_read = Some [], io_out = []\<rparr> = Some (nb, t', w') \<and>
    poll_ok t' \<and> port_running (io_port w')"
proof -
  have "poll_ok (port_registered 3)"
    by (simp add: port_registered_eq poll_ok_tbl slots_ok_def used_def port_cell_def port_hands_def NEW_POLLFD_def list_all2_conv_all_nth nth_Cons
        split: nat.splits)
  moreover have "\<forall>qs. length (fst (snd (all_ready qs 0))) = length qs" by (simp add: all_ready_def)
  ultimately show ?thesis
    using main_loop_keeps_port [of "port_registered 3" "\<lparr>io_port = apiPort, io_read = Some [], io_out = []\<rparr>" all_ready 0] apiPort_running by simp
qed

theorem main_loop_moves_bytes_witness:
  "\<exists>t b' c' written. rtl_poll all_ready port_fct (port_registered 3) 0 \<lparr>io_port = samplePort\<lparr>rx := Some sampleUart, tx := Some bigUartSent\<rparr>, io_read = Some [7, 8], io_out = []\<rparr>
      = Some (1, t, \<lparr>io_port = samplePort\<lparr>rx := Some b', tx := Some c'\<rparr>, io_read = Some [7, 8], io_out = written\<rparr>) \<and>
    uart_contents b' = uart_contents sampleUart @ [7, 8] \<and> written @ uart_contents c' = [254, 2, 33, 8, 5, 6, 40] \<and> length written = 7"
proof -
  have "uart_wf bigUartSent" "uart_contents bigUartSent = [254, 2, 33, 8, 5, 6, 40]"
    by (simp_all add: bigUartSent_def bigUart_def uart_wf_def uart_contents_def ring_def uartBufControl_t_init_def)
  with main_loop_moves_bytes [of "samplePort\<lparr>rx := Some sampleUart, tx := Some bigUartSent\<rparr>" sampleUart bigUartSent "[7, 8]" 0 "[]"]
  show ?thesis by (auto simp: sampleUart_simps samplePort_def)
qed

end
