(* ===== verification/Watteco_Encode.thy ===== *)
theory Watteco_Encode
  imports Ong_Prelude
begin

unbundle bit_operations_syntax

section \<open>ZCL messages of the Watteco sensors: tables and encoder (watteco/lib/infoproto.c, encode.c)\<close>

text \<open>
  The messages that the Watteco driver exchanges with its sensors: the tables of attributes, clusters
  and commands, and the encoder. The union \<open>u_param\<close> of a message is a value that says which of its members was
  stored last; reading another member is not modelled (\<open>None\<close>). Every store of the encoder goes to the
  end of what it has written, so the functions give the bytes they write; the store of the frame
  checks them against the size of the buffer. The names in the tables serve the human-readable text only
  and are left out with it, as are the traces.
\<close>

subsection \<open>Data (watteco/include/watteco.h)\<close>

definition W_ZCL_ATTR_MAX :: nat where "W_ZCL_ATTR_MAX = 15"
definition W_ZCL_SIZE :: nat where "W_ZCL_SIZE = 200"
definition W_ZCL_TIC_SIZE :: nat where "W_ZCL_TIC_SIZE = 170"
definition W_ZCL_EPN_MAX :: u8 where "W_ZCL_EPN_MAX = 8"

definition W_CMD_READ_ATTR_RQST :: u8 where [const_defs]: "W_CMD_READ_ATTR_RQST = 0x00"
definition W_CMD_READ_ATTR_RESP :: u8 where [const_defs]: "W_CMD_READ_ATTR_RESP = 0x01"
definition W_CMD_WRIT_ATTR_RQST :: u8 where [const_defs]: "W_CMD_WRIT_ATTR_RQST = 0x05"
definition W_CMD_REPO_CONF_RQST :: u8 where [const_defs]: "W_CMD_REPO_CONF_RQST = 0x06"
definition W_CMD_REPO_CONF_RESP :: u8 where [const_defs]: "W_CMD_REPO_CONF_RESP = 0x07"
definition W_CMD_READ_CONF_RQST :: u8 where [const_defs]: "W_CMD_READ_CONF_RQST = 0x08"
definition W_CMD_READ_CONF_RESP :: u8 where [const_defs]: "W_CMD_READ_CONF_RESP = 0x09"
definition W_CMD_REPO_ATTR_EVNT :: u8 where [const_defs]: "W_CMD_REPO_ATTR_EVNT = 0x0A"
definition W_CMD_COMMAND_RQST :: u8 where [const_defs]: "W_CMD_COMMAND_RQST = 0x50"

definition W_CLAT :: "u16 \<Rightarrow> u16 \<Rightarrow> u32" where
  "W_CLAT cl at = push_bit 16 (ucast cl) + ucast at"

definition W_CLU_ONOFF :: u16 where [const_defs]: "W_CLU_ONOFF = 0x0006"
definition W_CLU_SIMPLEMETER :: u16 where [const_defs]: "W_CLU_SIMPLEMETER = 0x0052"
definition W_CLU_TEMPERATURE :: u16 where [const_defs]: "W_CLU_TEMPERATURE = 0x0402"
definition W_CLU_HUMIDITY :: u16 where [const_defs]: "W_CLU_HUMIDITY = 0x0405"
definition W_CLU_OCCUPANCY :: u16 where [const_defs]: "W_CLU_OCCUPANCY = 0x0406"
definition W_CLU_ANALOGINPUT :: u16 where [const_defs]: "W_CLU_ANALOGINPUT = 0x000C"
definition W_CLU_BINARYINPUT :: u16 where [const_defs]: "W_CLU_BINARYINPUT = 0x000F"
definition W_CLU_ILLUMINANCE :: u16 where [const_defs]: "W_CLU_ILLUMINANCE = 0x0400"
definition W_CLU_CONFIGURATION :: u16 where [const_defs]: "W_CLU_CONFIGURATION = 0x0050"
definition W_CLU_TICICE :: u16 where [const_defs]: "W_CLU_TICICE = 0x0053"
definition W_CLU_TICCBE :: u16 where [const_defs]: "W_CLU_TICCBE = 0x0054"
definition W_CLU_TICCJE :: u16 where [const_defs]: "W_CLU_TICCJE = 0x0055"

record t_zcl_attribut =
  at_cl_id :: u16
  at_id :: u16
  at_type :: u8
  at_ssval :: int

record t_zcl_cluster =
  cl_id :: u16
  cl_tb_attr :: "t_zcl_attribut list"

record t_zcl_command =
  cm_id :: u8
  cm_response :: bool
  cm_id_offset :: nat
  cm_val_offset :: nat
  cm_stat_offset :: nat
  cm_direction_offset :: nat

record t_zcl_byteN_value =
  bn_valsz :: u8
  bn_value :: bytes

record t_zcl_metering_value =
  mv_metersz :: u8
  mv_sumWh :: u32
  mv_sumVarh :: u32
  mv_count :: u16
  mv_curWh :: u16
  mv_curVarh :: u16

record t_zcl_simple_config =
  sc_min_time :: u16
  sc_max_time :: u16
  sc_min_change :: u32

record t_zcl_metering_config =
  mc_min_time :: u16
  mc_max_time :: u16
  mc_metersz :: u8
  mc_sumWh :: u32
  mc_sumVarh :: u32
  mc_count :: u16
  mc_curWh :: u16
  mc_curVarh :: u16

record t_zcl_tic_config =
  tc_min_time :: u16
  tc_max_time :: u16
  tc_sz :: u8
  tc_data :: bytes

record t_zcl_power_config =
  pc_min_time :: u16
  pc_max_time :: u16
  pc_mode :: u8
  pc_source :: u8
  pc_level :: "u16 list"

record t_zcl_power_value =
  pv_sz :: u8
  pv_mode :: u8
  pv_source :: u8
  pv_count :: u8
  pv_level :: "u16 list"

record t_zcl_simple_desc =
  sd_nbclin :: u8
  sd_clin :: "u16 list"
  sd_epin :: bytes
  sd_nbclout :: u8
  sd_clout :: "u16 list"
  sd_epout :: bytes
  sd_nbep :: u8

record t_zcl_tic_data =
  td_sz :: u8
  td_data :: bytes

datatype u_param =
    NoParam
  | ByteN t_zcl_byteN_value
  | Uint1 u8
  | Uint2 u16
  | Uint4 u32
  | Metering t_zcl_metering_value
  | SimpleConfig t_zcl_simple_config
  | MeteringConfig t_zcl_metering_config
  | TicConfig t_zcl_tic_config
  | PowerConfig t_zcl_power_config
  | SimpleDesc t_zcl_simple_desc
  | PowerValue t_zcl_power_value
  | TicData t_zcl_tic_data

record t_zcl_msg =
  u_pack :: bytes
  m_epn :: u8
  m_cmd :: u8
  m_status :: u8
  m_direction :: u8
  m_cluster_id :: u16
  m_attr_id :: u16
  m_size :: u32
  m_xxcode :: u8
  m_cmd_value :: u8
  m_param :: u_param

subsection \<open>Tables\<close>

definition attribut :: "u16 \<Rightarrow> u16 \<Rightarrow> u8 \<Rightarrow> int \<Rightarrow> t_zcl_attribut" where
  "attribut cl at ty ss = \<lparr>at_cl_id = cl, at_id = at, at_type = ty, at_ssval = ss\<rparr>"

definition TbAttribut :: "t_zcl_attribut list" where
  "TbAttribut =
    [attribut W_CLU_ONOFF 0x0000 0x10 1,
     attribut W_CLU_SIMPLEMETER 0x0000 0x41 0,
     attribut W_CLU_TEMPERATURE 0x0000 0x29 2, attribut W_CLU_TEMPERATURE 0x0001 0x29 2, attribut W_CLU_TEMPERATURE 0x0002 0x29 2,
     attribut W_CLU_HUMIDITY 0x0000 0x21 2, attribut W_CLU_HUMIDITY 0x0001 0x21 2, attribut W_CLU_HUMIDITY 0x0002 0x21 2,
     attribut W_CLU_OCCUPANCY 0x0000 0x18 1, attribut W_CLU_OCCUPANCY 0x0001 0x30 1, attribut W_CLU_OCCUPANCY 0x0010 0x20 1,
     attribut W_CLU_OCCUPANCY 0x0011 0x20 1,
     attribut W_CLU_ANALOGINPUT 0x0055 0x39 4, attribut W_CLU_ANALOGINPUT 0x0100 0x23 4,
     attribut W_CLU_BINARYINPUT 0x0054 0x10 1, attribut W_CLU_BINARYINPUT 0x0055 0x10 1, attribut W_CLU_BINARYINPUT 0x0100 0x23 4,
     attribut W_CLU_BINARYINPUT 0x0400 0x18 1, attribut W_CLU_BINARYINPUT 0x0401 0x21 2, attribut W_CLU_BINARYINPUT 0x0402 0x23 4,
     attribut W_CLU_ILLUMINANCE 0x0000 0x21 2, attribut W_CLU_ILLUMINANCE 0x0001 0x21 2, attribut W_CLU_ILLUMINANCE 0x0002 0x21 2,
     attribut W_CLU_CONFIGURATION 0x0000 0x41 (-16), attribut W_CLU_CONFIGURATION 0x0001 0x21 2,
     attribut W_CLU_CONFIGURATION 0x0002 0x4C 0, attribut W_CLU_CONFIGURATION 0x0004 0x4C 0, attribut W_CLU_CONFIGURATION 0x0006 0x41 0,
     attribut W_CLU_TICICE 0x0000 0x41 0, attribut W_CLU_TICICE 0x0001 0x41 0, attribut W_CLU_TICICE 0x0002 0x41 0,
     attribut W_CLU_TICICE 0x0010 0x20 1,
     attribut W_CLU_TICCBE 0x0000 0x41 0, attribut W_CLU_TICCBE 0x0010 0x20 1,
     attribut W_CLU_TICCJE 0x0000 0x41 0, attribut W_CLU_TICCJE 0x0010 0x20 1]"

definition TbClusterInit :: "t_zcl_cluster list" where
  "TbClusterInit = map (\<lambda>c. \<lparr>cl_id = c, cl_tb_attr = []\<rparr>)
    [W_CLU_ONOFF, W_CLU_SIMPLEMETER, W_CLU_TEMPERATURE, W_CLU_HUMIDITY, W_CLU_OCCUPANCY, W_CLU_ANALOGINPUT, W_CLU_BINARYINPUT,
     W_CLU_ILLUMINANCE, W_CLU_CONFIGURATION, W_CLU_TICICE, W_CLU_TICCBE, W_CLU_TICCJE]"

definition TbCommand :: "t_zcl_command list" where
  "TbCommand =
    [\<lparr>cm_id = W_CMD_READ_ATTR_RQST, cm_response = False, cm_id_offset = 4, cm_val_offset = 0, cm_stat_offset = 0, cm_direction_offset = 0\<rparr>,
     \<lparr>cm_id = W_CMD_READ_ATTR_RESP, cm_response = True, cm_id_offset = 4, cm_val_offset = 8, cm_stat_offset = 6, cm_direction_offset = 0\<rparr>,
     \<lparr>cm_id = W_CMD_REPO_CONF_RQST, cm_response = False, cm_id_offset = 5, cm_val_offset = 8, cm_stat_offset = 0, cm_direction_offset = 4\<rparr>,
     \<lparr>cm_id = W_CMD_REPO_CONF_RESP, cm_response = True, cm_id_offset = 6, cm_val_offset = 0, cm_stat_offset = 4, cm_direction_offset = 5\<rparr>,
     \<lparr>cm_id = W_CMD_READ_CONF_RQST, cm_response = False, cm_id_offset = 5, cm_val_offset = 0, cm_stat_offset = 0, cm_direction_offset = 4\<rparr>,
     \<lparr>cm_id = W_CMD_READ_CONF_RESP, cm_response = True, cm_id_offset = 6, cm_val_offset = 9, cm_stat_offset = 4, cm_direction_offset = 5\<rparr>,
     \<lparr>cm_id = W_CMD_REPO_ATTR_EVNT, cm_response = True, cm_id_offset = 4, cm_val_offset = 7, cm_stat_offset = 0, cm_direction_offset = 0\<rparr>,
     \<lparr>cm_id = W_CMD_WRIT_ATTR_RQST, cm_response = False, cm_id_offset = 4, cm_val_offset = 7, cm_stat_offset = 0, cm_direction_offset = 0\<rparr>,
     \<lparr>cm_id = W_CMD_COMMAND_RQST, cm_response = False, cm_id_offset = 0, cm_val_offset = 4, cm_stat_offset = 0, cm_direction_offset = 0\<rparr>]"

definition AwZclCommand :: "u8 \<Rightarrow> t_zcl_command option" where
  "AwZclCommand cmd = find (\<lambda>c. cm_id c = cmd) TbCommand"

definition cluster_in :: "t_zcl_cluster list \<Rightarrow> u16 \<Rightarrow> t_zcl_cluster option" where
  "cluster_in tb c = find (\<lambda>cl. cl_id cl = c) tb"

text \<open>\<open>AwZclInitProto\<close> links each attribute to the first cluster of its identifier, up to a maximal
  number.\<close>

fun link_attribut :: "t_zcl_attribut \<Rightarrow> t_zcl_cluster list \<Rightarrow> t_zcl_cluster list" where
  "link_attribut at [] = []"
| "link_attribut at (cl # cls) =
     (if cl_id cl = at_cl_id at
      then (if length (cl_tb_attr cl) < W_ZCL_ATTR_MAX then cl\<lparr>cl_tb_attr := cl_tb_attr cl @ [at]\<rparr> else cl) # cls
      else cl # link_attribut at cls)"

definition AwZclInitProto :: "t_zcl_cluster list \<Rightarrow> t_zcl_cluster list" where
  "AwZclInitProto tb = fold link_attribut TbAttribut tb"

definition TbCluster :: "t_zcl_cluster list" where
  "TbCluster = AwZclInitProto TbClusterInit"

definition AwZclCluster :: "u16 \<Rightarrow> t_zcl_cluster option" where
  "AwZclCluster cluster = cluster_in TbCluster cluster"

definition AwZclAttribut :: "u16 \<Rightarrow> u16 \<Rightarrow> t_zcl_attribut option" where
  "AwZclAttribut clid atid =
    (case AwZclCluster clid of
       None \<Rightarrow> None
     | Some cluster \<Rightarrow> find (\<lambda>a. at_id a = atid) (cl_tb_attr cluster))"

subsection \<open>The encoder\<close>

text \<open>A number on two, three and four bytes, most significant first.\<close>

definition be2 :: "u16 \<Rightarrow> bytes" where
  "be2 v = [ucast (drop_bit 8 v), ucast (v AND 0x00FF)]"

definition be3 :: "u32 \<Rightarrow> bytes" where
  "be3 v = [ucast (drop_bit 16 (v AND 0x00FF0000)), ucast (drop_bit 8 (v AND 0x0000FF00)), ucast (v AND 0x000000FF)]"

definition be4 :: "u32 \<Rightarrow> bytes" where
  "be4 v = [ucast (drop_bit 24 v), ucast (drop_bit 16 v), ucast (drop_bit 8 v), ucast v]"

definition AwZclEncodeSimpleConfig :: "t_zcl_simple_config \<Rightarrow> nat \<Rightarrow> bytes" where
  "AwZclEncodeSimpleConfig cfg nbb =
    be2 (sc_min_time cfg) @ be2 (sc_max_time cfg) @
    (if nbb = 1 then [ucast (sc_min_change cfg AND 0x000000FF)]
     else if nbb = 4 then be4 (sc_min_change cfg)
     else [ucast (drop_bit 8 (sc_min_change cfg)), ucast (sc_min_change cfg AND 0x00FF)])"

definition AwZclEncodeMeteringConfig :: "t_zcl_metering_config \<Rightarrow> bytes \<times> t_zcl_metering_config" where
  "AwZclEncodeMeteringConfig cfg0 =
    (let cfg = (if mc_metersz cfg0 = 0 then cfg0\<lparr>mc_metersz := 0x0c\<rparr> else cfg0) in
     (be2 (mc_min_time cfg) @ be2 (mc_max_time cfg) @ [mc_metersz cfg] @ be3 (mc_sumWh cfg) @ be3 (mc_sumVarh cfg) @
      be2 (mc_count cfg) @ be2 (mc_curWh cfg) @ be2 (mc_curVarh cfg), cfg))"

definition AwZclEncodeTicConfig :: "t_zcl_tic_config \<Rightarrow> bytes exec" where
  "AwZclEncodeTicConfig cfg =
    (if tc_sz cfg = 0 then Some (be2 (tc_min_time cfg) @ be2 (tc_max_time cfg) @ [tc_sz cfg])
     else do {
       d \<leftarrow> memread 0 (unat (tc_sz cfg)) (tc_data cfg);
       Some (be2 (tc_min_time cfg) @ be2 (tc_max_time cfg) @ [tc_sz cfg] @ d)
     })"

definition power_count :: "u8 \<Rightarrow> nat" where
  "power_count source = length (filter (\<lambda>m. source AND m = m) [0x01, 0x02, 0x04, 0x08, 0x10])"

definition AwZclEncodePowerConfig :: "t_zcl_power_config \<Rightarrow> bytes exec" where
  "AwZclEncodePowerConfig cfg =
    (let count = power_count (pc_source cfg) in do {
       levels \<leftarrow> memread 0 count (pc_level cfg);
       Some (be2 (pc_min_time cfg) @ be2 (pc_max_time cfg) @ [of_nat (2 + count * 2), pc_mode cfg, pc_source cfg] @
             concat (map be2 levels))
     })"

text \<open>The labels of the switch of \<open>AwZclEncodeRepoConfRqst\<close>, by the size of the reported change.\<close>

definition CONF2_CLATS :: "u32 list" where
  "CONF2_CLATS = [W_CLAT W_CLU_TEMPERATURE 0, W_CLAT W_CLU_HUMIDITY 0, W_CLAT W_CLU_ILLUMINANCE 0, W_CLAT W_CLU_BINARYINPUT 0x0401]"

definition CONF1_CLATS :: "u32 list" where
  "CONF1_CLATS = [W_CLAT W_CLU_ONOFF 0, W_CLAT W_CLU_OCCUPANCY 0, W_CLAT W_CLU_BINARYINPUT 0x0055, W_CLAT W_CLU_BINARYINPUT 0x0054,
                  W_CLAT W_CLU_BINARYINPUT 0x0400]"

definition CONF4_CLATS :: "u32 list" where
  "CONF4_CLATS = [W_CLAT W_CLU_ANALOGINPUT 0x0055, W_CLAT W_CLU_BINARYINPUT 0x0402]"

definition TIC_CLATS :: "u32 list" where
  "TIC_CLATS = [W_CLAT W_CLU_TICICE 0, W_CLAT W_CLU_TICICE 1, W_CLAT W_CLU_TICICE 2, W_CLAT W_CLU_TICCBE 0, W_CLAT W_CLU_TICCJE 0]"

definition AwZclEncodeRepoConfRqst :: "t_zcl_msg \<Rightarrow> (bytes \<times> t_zcl_msg) exec" where
  "AwZclEncodeRepoConfRqst mess =
    (let at = AwZclAttribut (m_cluster_id mess) (m_attr_id mess);
         clat = W_CLAT (m_cluster_id mess) (m_attr_id mess);
         simple = (\<lambda>nbb. do {
           a \<leftarrow> at;
           cfg \<leftarrow> (case m_param mess of SimpleConfig c \<Rightarrow> Some c | _ \<Rightarrow> None);
           Some (at_type a # AwZclEncodeSimpleConfig cfg nbb, mess)
         })
     in if clat \<in> set CONF2_CLATS then simple 2
        else if clat \<in> set CONF1_CLATS then simple 1
        else if clat \<in> set CONF4_CLATS then simple 4
        else if clat = W_CLAT W_CLU_SIMPLEMETER 0 then do {
          a \<leftarrow> at;
          cfg \<leftarrow> (case m_param mess of MeteringConfig c \<Rightarrow> Some c | _ \<Rightarrow> None);
          let (out, cfg') = AwZclEncodeMeteringConfig cfg;
          Some (at_type a # out, mess\<lparr>m_param := MeteringConfig cfg'\<rparr>)
        }
        else if clat \<in> set TIC_CLATS then do {
          a \<leftarrow> at;
          cfg \<leftarrow> (case m_param mess of TicConfig c \<Rightarrow> Some c | _ \<Rightarrow> None);
          out \<leftarrow> AwZclEncodeTicConfig cfg;
          Some (at_type a # out, mess)
        }
        else if clat = W_CLAT W_CLU_CONFIGURATION 0x0006 then do {
          a \<leftarrow> at;
          cfg \<leftarrow> (case m_param mess of PowerConfig c \<Rightarrow> Some c | _ \<Rightarrow> None);
          out \<leftarrow> AwZclEncodePowerConfig cfg;
          Some (at_type a # out, mess)
        }
        else Some ([], mess\<lparr>m_xxcode := 0\<rparr>))"

definition AwZclEncodeReadConfResp :: "t_zcl_msg \<Rightarrow> (bytes \<times> t_zcl_msg) exec" where
  "AwZclEncodeReadConfResp mess = AwZclEncodeRepoConfRqst mess"

definition AwZclEncodeReadAttrResp :: "t_zcl_msg \<Rightarrow> (bytes \<times> t_zcl_msg) exec" where
  "AwZclEncodeReadAttrResp mess =
    (case AwZclAttribut (m_cluster_id mess) (m_attr_id mess) of
       None \<Rightarrow> Some ([], mess)
     | Some at \<Rightarrow>
         let clat = W_CLAT (m_cluster_id mess) (m_attr_id mess) in
         if at_ssval at > 0
         then (if at_ssval at = 1
               then (case m_param mess of Uint1 v \<Rightarrow> Some ([at_type at, v], mess) | _ \<Rightarrow> None)
               else if at_ssval at = 2
               then (case m_param mess of Uint2 v \<Rightarrow> Some (at_type at # be2 v, mess) | _ \<Rightarrow> None)
               else if at_ssval at = 4
               then (case m_param mess of Uint4 v \<Rightarrow> Some (at_type at # be4 v, mess) | _ \<Rightarrow> None)
               else Some ([at_type at], mess))
         else if at_ssval at < 0
         then (case m_param mess of
                 ByteN rep \<Rightarrow>
                   let ssval = min (nat (- at_ssval at)) W_ZCL_SIZE;
                       rep' = (if unat (bn_valsz rep) > ssval then rep\<lparr>bn_valsz := of_nat ssval\<rparr> else rep)
                   in do {
                     d \<leftarrow> memread 0 (unat (bn_valsz rep')) (bn_value rep');
                     Some ([at_type at, bn_valsz rep'] @ d, mess\<lparr>m_param := ByteN rep'\<rparr>)
                   }
               | _ \<Rightarrow> None)
         else if clat = W_CLAT W_CLU_SIMPLEMETER 0
         then (case m_param mess of
                 Metering rep \<Rightarrow>
                   Some ([at_type at, mv_metersz rep] @ be3 (mv_sumWh rep) @ be3 (mv_sumVarh rep) @
                         be2 (mv_count rep) @ be2 (mv_curWh rep) @ be2 (mv_curVarh rep), mess)
               | _ \<Rightarrow> None)
         else if clat \<in> set TIC_CLATS
         then (case m_param mess of
                 TicData rep \<Rightarrow>
                   if td_sz rep > 0
                   then do { d \<leftarrow> memread 0 (unat (td_sz rep)) (td_data rep); Some ([at_type at, td_sz rep] @ d, mess) }
                   else Some ([at_type at, td_sz rep], mess)
               | _ \<Rightarrow> None)
         else Some ([], mess\<lparr>m_xxcode := 0\<rparr>))"

definition AwZclEncodeWritAttrRqst :: "t_zcl_msg \<Rightarrow> (bytes \<times> t_zcl_msg) exec" where
  "AwZclEncodeWritAttrRqst mess = AwZclEncodeReadAttrResp mess"

text \<open>The frame that \<open>AwZclEncode\<close> writes.\<close>

definition encode_frame :: "t_zcl_msg \<Rightarrow> (bytes \<times> t_zcl_msg) exec" where
  "encode_frame mess0 =
    (let mess = (if m_epn mess0 \<ge> W_ZCL_EPN_MAX then mess0\<lparr>m_epn := 0\<rparr> else mess0);
         head = [0x11 OR push_bit 5 (m_epn mess), m_cmd mess] @ be2 (m_cluster_id mess);
         atid = be2 (m_attr_id mess);
         cmd = m_cmd mess
     in if cmd = W_CMD_READ_ATTR_RQST then Some (head @ atid, mess)
        else if cmd = W_CMD_REPO_CONF_RQST
        then do { (out, mess') \<leftarrow> AwZclEncodeRepoConfRqst mess; Some (head @ [m_direction mess] @ atid @ out, mess') }
        else if cmd = W_CMD_WRIT_ATTR_RQST
        then do { (out, mess') \<leftarrow> AwZclEncodeWritAttrRqst mess; Some (head @ atid @ out, mess') }
        else if cmd = W_CMD_COMMAND_RQST then Some (head @ [m_cmd_value mess], mess)
        else if cmd = W_CMD_READ_CONF_RQST then Some (head @ [m_direction mess] @ atid, mess)
        else if cmd = W_CMD_READ_ATTR_RESP
        then do { (out, mess') \<leftarrow> AwZclEncodeReadAttrResp mess; Some (head @ atid @ [m_status mess] @ out, mess') }
        else if cmd = W_CMD_REPO_ATTR_EVNT
        then do { (out, mess') \<leftarrow> AwZclEncodeReadAttrResp mess; Some (head @ atid @ out, mess') }
        else if cmd = W_CMD_REPO_CONF_RESP then Some (head @ [m_status mess, m_direction mess] @ atid, mess)
        else if cmd = W_CMD_READ_CONF_RESP
        then do { (out, mess') \<leftarrow> AwZclEncodeReadConfResp mess; Some (head @ [m_status mess, m_direction mess] @ atid @ out, mess') }
        else Some (head, mess\<lparr>m_xxcode := 0\<rparr>))"

text \<open>The result is the length of the frame, the message, and the user's buffer if there is one. Without it
  the frame goes to the message itself.\<close>

definition AwZclEncode ::
  "t_zcl_msg \<Rightarrow> bytes option \<Rightarrow> nat \<Rightarrow> (int \<times> t_zcl_msg \<times> bytes option) exec" where
  "AwZclEncode mess str szmax0 =
    (let buf = (case str of None \<Rightarrow> u_pack mess | Some b \<Rightarrow> b);
         szmax = (case str of None \<Rightarrow> W_ZCL_SIZE | Some b \<Rightarrow> szmax0)
     in do {
       cleared \<leftarrow> memcpy_at 0 (replicate szmax 0) buf;
       (frame, mess') \<leftarrow> encode_frame (mess\<lparr>m_size := 0, m_xxcode := 69\<rparr>);
       buf' \<leftarrow> memcpy_at 0 frame cleared;
       let mess'' = mess'\<lparr>m_size := of_nat (length frame)\<rparr>;
       Some (int (length frame),
             (if str = None then mess''\<lparr>u_pack := buf'\<rparr> else mess''),
             (if str = None then None else Some buf'))
     })"

end
