(* ===== verification/Watteco_Decode.thy ===== *)
theory Watteco_Decode
  imports Watteco_Encode
begin

unbundle bit_operations_syntax

section \<open>ZCL messages of the Watteco sensors: decoder (watteco/lib/decode.c)\<close>

text \<open>
  The decoder of the frames that the sensors send, for a call without a text buffer (\<open>f\<close> is \<open>NULL\<close>). A
  pointer into the frame is an index into \<open>u_pack\<close>; a read behind its 200 bytes, or a store behind an array
  of the decoded value, is undefined behaviour (\<open>None\<close>). A byte shifted into the sign bit of an \<open>int\<close> is read as
  the bit pattern, which is what compilers make of it.
\<close>

subsection \<open>Reading the frame\<close>

definition ntoh2 :: "u8 \<Rightarrow> u8 \<Rightarrow> u16" where
  "ntoh2 a b = push_bit 8 (ucast a) OR ucast b"

definition rd1 :: "bytes \<Rightarrow> nat \<Rightarrow> u8 exec" where
  "rd1 pack off = idx pack off"

definition rd2 :: "bytes \<Rightarrow> nat \<Rightarrow> u16 exec" where
  "rd2 pack off = do { a \<leftarrow> idx pack off; b \<leftarrow> idx pack (off + 1); Some (ntoh2 a b) }"

definition rd3 :: "bytes \<Rightarrow> nat \<Rightarrow> u32 exec" where
  "rd3 pack off = do {
     a \<leftarrow> idx pack off; b \<leftarrow> idx pack (off + 1); c \<leftarrow> idx pack (off + 2);
     Some (push_bit 16 (ucast a) OR push_bit 8 (ucast b) OR ucast c)
   }"

definition rd4 :: "bytes \<Rightarrow> nat \<Rightarrow> u32 exec" where
  "rd4 pack off = do {
     a \<leftarrow> idx pack off; b \<leftarrow> idx pack (off + 1); c \<leftarrow> idx pack (off + 2); d \<leftarrow> idx pack (off + 3);
     Some (push_bit 24 (ucast a) OR push_bit 16 (ucast b) OR push_bit 8 (ucast c) OR ucast d)
   }"

subsection \<open>Values\<close>

text \<open>One of the two lists of clusters of a descriptor, the second one when \<open>done\<close>; the index where it stops
  is returned.\<close>

fun desc_clusters :: "bool \<Rightarrow> u8 \<Rightarrow> nat \<Rightarrow> nat \<Rightarrow> nat \<Rightarrow> t_zcl_simple_desc \<Rightarrow> bytes \<Rightarrow> (nat \<times> t_zcl_simple_desc) exec" where
  "desc_clusters finished epn pend 0 param desc pack = Some (param, desc)"
| "desc_clusters finished epn pend (Suc n) param desc pack =
     (if \<not> param < pend then Some (param, desc)
      else do {
        supported \<leftarrow> rd2 pack param;
        desc' \<leftarrow> (if \<not> finished
                 then if unat (sd_nbclin desc) < length (sd_clin desc) \<and> unat (sd_nbclin desc) < length (sd_epin desc)
                      then Some (desc\<lparr>sd_clin := (sd_clin desc)[unat (sd_nbclin desc) := supported],
                                      sd_epin := (sd_epin desc)[unat (sd_nbclin desc) := epn],
                                      sd_nbclin := sd_nbclin desc + 1\<rparr>)
                      else None
                 else if unat (sd_nbclout desc) < length (sd_clout desc) \<and> unat (sd_nbclout desc) < length (sd_epout desc)
                      then Some (desc\<lparr>sd_clout := (sd_clout desc)[unat (sd_nbclout desc) := supported],
                                      sd_epout := (sd_epout desc)[unat (sd_nbclout desc) := epn],
                                      sd_nbclout := sd_nbclout desc + 1\<rparr>)
                      else None);
        desc_clusters finished epn pend n (param + 2) desc' pack
      })"

definition AwZclDecodeSimpleDesc ::
  "u8 \<Rightarrow> nat \<Rightarrow> t_zcl_simple_desc \<Rightarrow> nat \<Rightarrow> bytes \<Rightarrow> (nat \<times> t_zcl_simple_desc) exec" where
  "AwZclDecodeSimpleDesc epn param desc pend pack = do {
     nb \<leftarrow> rd1 pack param;
     (p1, d1) \<leftarrow> desc_clusters False epn pend (unat nb) (param + 1) desc pack;
     if \<not> p1 < pend then Some (p1 - param, d1)
     else do {
       nb2 \<leftarrow> rd1 pack p1;
       if nb2 > 0
       then do {
         (p2, d2) \<leftarrow> desc_clusters True epn pend (unat nb2) (p1 + 1) d1 pack;
         Some (p2 - param, d2)
       }
       else Some (p1 + 1 - param, d1)
     }
   }"

definition DESC0 :: t_zcl_simple_desc where
  "DESC0 = \<lparr>sd_nbclin = 0, sd_clin = replicate 10 0, sd_epin = replicate 10 0, sd_nbclout = 0, sd_clout = replicate 10 0,
            sd_epout = replicate 10 0, sd_nbep = 0\<rparr>"

fun desc_endpoints :: "nat \<Rightarrow> nat \<Rightarrow> nat \<Rightarrow> t_zcl_simple_desc \<Rightarrow> bytes \<Rightarrow> t_zcl_simple_desc exec" where
  "desc_endpoints pend 0 param desc pack = Some desc"
| "desc_endpoints pend (Suc n) param desc pack =
     (if \<not> param < pend then Some desc
      else do {
        epn \<leftarrow> rd1 pack param;
        (sz, desc') \<leftarrow> AwZclDecodeSimpleDesc epn (param + 1) desc pend pack;
        desc_endpoints pend n (param + 1 + sz) desc' pack
      })"

definition AwZclDecodeSimpleConfig :: "bytes \<Rightarrow> nat \<Rightarrow> nat \<Rightarrow> u_param exec" where
  "AwZclDecodeSimpleConfig pack param nbbytes = do {
     mint \<leftarrow> rd2 pack param;
     maxt \<leftarrow> rd2 pack (param + 2);
     minc \<leftarrow> (if nbbytes = 1 then map_option ucast (rd1 pack (param + 4))
             else if nbbytes = 4 then rd4 pack (param + 4)
             else map_option ucast (rd2 pack (param + 4)));
     Some (SimpleConfig \<lparr>sc_min_time = mint, sc_max_time = maxt, sc_min_change = minc\<rparr>)
   }"

definition AwZclDecodeMeteringValue :: "bytes \<Rightarrow> nat \<Rightarrow> u_param exec" where
  "AwZclDecodeMeteringValue pack param = do {
     sz \<leftarrow> rd1 pack param;
     sumWh \<leftarrow> rd3 pack (param + 1);
     sumVarh \<leftarrow> rd3 pack (param + 4);
     count \<leftarrow> rd2 pack (param + 7);
     curWh \<leftarrow> rd2 pack (param + 9);
     curVarh \<leftarrow> rd2 pack (param + 11);
     Some (Metering \<lparr>mv_metersz = sz, mv_sumWh = sumWh, mv_sumVarh = sumVarh, mv_count = count,
                     mv_curWh = curWh, mv_curVarh = curVarh\<rparr>)
   }"

definition AwZclDecodeMeteringConfig :: "bytes \<Rightarrow> nat \<Rightarrow> u_param exec" where
  "AwZclDecodeMeteringConfig pack param = do {
     mint \<leftarrow> rd2 pack param;
     maxt \<leftarrow> rd2 pack (param + 2);
     sz \<leftarrow> rd1 pack (param + 4);
     sumWh \<leftarrow> rd3 pack (param + 5);
     sumVarh \<leftarrow> rd3 pack (param + 8);
     count \<leftarrow> rd2 pack (param + 11);
     curWh \<leftarrow> rd2 pack (param + 13);
     curVarh \<leftarrow> rd2 pack (param + 15);
     Some (MeteringConfig \<lparr>mc_min_time = mint, mc_max_time = maxt, mc_metersz = sz, mc_sumWh = sumWh, mc_sumVarh = sumVarh,
                           mc_count = count, mc_curWh = curWh, mc_curVarh = curVarh\<rparr>)
   }"

fun decode_levels :: "nat \<Rightarrow> nat \<Rightarrow> nat \<Rightarrow> u16 list \<Rightarrow> bytes \<Rightarrow> u16 list exec" where
  "decode_levels 0 i param levels pack = Some levels"
| "decode_levels (Suc n) i param levels pack = do {
     v \<leftarrow> rd2 pack param;
     if i < length levels then decode_levels n (Suc i) (param + 2) (levels[i := v]) pack else None
   }"

subsection \<open>Parameters\<close>

text \<open>The value is stored in the union, or the union is left alone; the result is what the function returns.\<close>

definition AwZclDecodeRepoConfRqst :: "t_zcl_msg \<Rightarrow> u16 \<Rightarrow> u16 \<Rightarrow> nat \<Rightarrow> (int \<times> t_zcl_msg) exec" where
  "AwZclDecodeRepoConfRqst m clid atid param =
    (let clat = W_CLAT clid atid in do {
       val \<leftarrow> (if clat \<in> set CONF2_CLATS then AwZclDecodeSimpleConfig (u_pack m) param 2
              else if clat \<in> set CONF1_CLATS then AwZclDecodeSimpleConfig (u_pack m) param 1
              else if clat \<in> set CONF4_CLATS then AwZclDecodeSimpleConfig (u_pack m) param 4
              else if clat = W_CLAT W_CLU_SIMPLEMETER 0 then AwZclDecodeMeteringConfig (u_pack m) param
              else Some (m_param m));
       Some (sint clat, m\<lparr>m_param := val\<rparr>)
     })"

definition AwZclDecodeReadConfResp :: "t_zcl_msg \<Rightarrow> u16 \<Rightarrow> u16 \<Rightarrow> nat \<Rightarrow> (int \<times> t_zcl_msg) exec" where
  "AwZclDecodeReadConfResp m clid atid param = AwZclDecodeRepoConfRqst m clid atid param"

definition AwZclDecodeReadAttrResp :: "t_zcl_msg \<Rightarrow> u16 \<Rightarrow> u16 \<Rightarrow> nat \<Rightarrow> nat \<Rightarrow> (int \<times> t_zcl_msg) exec" where
  "AwZclDecodeReadAttrResp m clid atid param pend =
    (case AwZclAttribut clid atid of
       None \<Rightarrow> Some (-1, m)
     | Some at \<Rightarrow>
         let clat = W_CLAT clid atid;
             pack = u_pack m;
             set_param = (\<lambda>v. (sint clat, m\<lparr>m_param := v\<rparr>))
         in if at_ssval at = 1 then map_option (\<lambda>v. set_param (Uint1 v)) (rd1 pack param)
            else if at_ssval at = 2 then map_option (\<lambda>v. set_param (Uint2 v)) (rd2 pack param)
            else if at_ssval at = 4 then map_option (\<lambda>v. set_param (Uint4 v)) (rd4 pack param)
            else if clat = W_CLAT W_CLU_SIMPLEMETER 0 then map_option set_param (AwZclDecodeMeteringValue pack param)
            else if clat \<in> set TIC_CLATS then do {
              sz \<leftarrow> rd1 pack param;
              d \<leftarrow> memread (param + 1) (unat sz) pack;
              data \<leftarrow> memcpy_at 0 d (replicate W_ZCL_TIC_SIZE 0);
              Some (set_param (TicData \<lparr>td_sz = sz, td_data = data\<rparr>))
            }
            else if clat = W_CLAT W_CLU_CONFIGURATION 0x0000 then
              (if - at_ssval at < 0 \<or> - at_ssval at > int W_ZCL_SIZE then Some (-2, m)
               else do {
                 lg \<leftarrow> rd1 pack param;
                 if lg = 0 \<or> unat lg > W_ZCL_SIZE then Some (-3, m)
                 else do {
                   d \<leftarrow> memread (param + 1) (unat lg) pack;
                   value \<leftarrow> memcpy_at 0 d (replicate W_ZCL_SIZE 0);
                   Some (set_param (ByteN \<lparr>bn_valsz = lg, bn_value = value\<rparr>))
                 }
               })
            else if clat = W_CLAT W_CLU_CONFIGURATION 0x0002 then do {
              tot \<leftarrow> rd2 pack param;
              (sz, desc) \<leftarrow> AwZclDecodeSimpleDesc 0 (param + 2) DESC0 pend pack;
              Some (set_param (SimpleDesc desc))
            }
            else if clat = W_CLAT W_CLU_CONFIGURATION 0x0004 then do {
              tot \<leftarrow> rd2 pack param;
              nb \<leftarrow> rd1 pack (param + 2);
              desc \<leftarrow> desc_endpoints pend (unat nb) (param + 3) (DESC0\<lparr>sd_nbep := nb\<rparr>) pack;
              Some (set_param (SimpleDesc desc))
            }
            else if clat = W_CLAT W_CLU_CONFIGURATION 0x0006 then do {
              sz \<leftarrow> rd1 pack param;
              mode \<leftarrow> rd1 pack (param + 1);
              source \<leftarrow> rd1 pack (param + 2);
              let count = (sz - 2) div 2;
              levels \<leftarrow> decode_levels (unat count) 0 (param + 3) (replicate 10 0) pack;
              Some (set_param (PowerValue \<lparr>pv_sz = sz, pv_mode = mode, pv_source = source, pv_count = count, pv_level = levels\<rparr>))
            }
            else Some (sint clat, m))"

definition AwZclDecodeRepoAttrResp :: "t_zcl_msg \<Rightarrow> u16 \<Rightarrow> u16 \<Rightarrow> nat \<Rightarrow> nat \<Rightarrow> (int \<times> t_zcl_msg) exec" where
  "AwZclDecodeRepoAttrResp m clid atid param pend = AwZclDecodeReadAttrResp m clid atid param pend"

definition AwZclDecodeWritAttrRqst :: "t_zcl_msg \<Rightarrow> u16 \<Rightarrow> u16 \<Rightarrow> nat \<Rightarrow> nat \<Rightarrow> (int \<times> t_zcl_msg) exec" where
  "AwZclDecodeWritAttrRqst m clid atid param pend = AwZclDecodeReadAttrResp m clid atid param pend"

subsection \<open>Frames\<close>

definition ZCL_MSG0 :: t_zcl_msg where
  "ZCL_MSG0 = \<lparr>u_pack = replicate W_ZCL_SIZE 0, m_epn = 0, m_cmd = 0, m_status = 0, m_direction = 0, m_cluster_id = 0,
               m_attr_id = 0, m_size = 0, m_xxcode = 0, m_cmd_value = 0, m_param = NoParam\<rparr>"

text \<open>The attribute of a command: the error, or its identifier with its entry in the table if there is one.\<close>

definition command_attribut :: "t_zcl_command \<Rightarrow> u16 \<Rightarrow> bytes \<Rightarrow> (int + u16 \<times> t_zcl_attribut option) exec" where
  "command_attribut cmd clid pack =
    (let found = (\<lambda>off err. do {
           atid \<leftarrow> rd2 pack off;
           Some (case AwZclAttribut clid atid of None \<Rightarrow> Inl err | Some at \<Rightarrow> Inr (atid, Some at))
         });
         id = cm_id cmd
     in if id = W_CMD_READ_ATTR_RQST \<or> id = W_CMD_READ_ATTR_RESP \<or> id = W_CMD_REPO_ATTR_EVNT then found 4 (-4)
        else if id = W_CMD_WRIT_ATTR_RQST then found 4 (-44)
        else if id = W_CMD_REPO_CONF_RQST \<or> id = W_CMD_REPO_CONF_RESP \<or> id = W_CMD_READ_CONF_RQST \<or> id = W_CMD_READ_CONF_RESP
        then found (cm_id_offset cmd) (-5)
        else if id = W_CMD_COMMAND_RQST then Some (Inr (0xFFFF, None))
        else Some (Inl (-6)))"

definition decode_param :: "t_zcl_command \<Rightarrow> u16 \<Rightarrow> u16 \<Rightarrow> int \<Rightarrow> t_zcl_msg \<Rightarrow> (int \<times> t_zcl_msg) exec" where
  "decode_param cmd clid atid sz m =
    (let param = cm_val_offset cmd; pend = nat sz; id = cm_id cmd
     in if id = W_CMD_READ_ATTR_RQST \<or> id = W_CMD_READ_CONF_RQST \<or> id = W_CMD_REPO_CONF_RESP \<or> id = W_CMD_COMMAND_RQST
        then Some (-8, m)
        else if id = W_CMD_READ_ATTR_RESP then AwZclDecodeReadAttrResp m clid atid param pend
        else if id = W_CMD_REPO_ATTR_EVNT then AwZclDecodeRepoAttrResp m clid atid param pend
        else if id = W_CMD_READ_CONF_RESP then AwZclDecodeReadConfResp m clid atid param
        else if id = W_CMD_REPO_CONF_RQST then AwZclDecodeRepoConfRqst m clid atid param
        else if id = W_CMD_WRIT_ATTR_RQST then AwZclDecodeWritAttrRqst m clid atid param pend
        else Some (-9, m))"

definition decode_frame :: "t_zcl_msg \<Rightarrow> int \<Rightarrow> (int \<times> t_zcl_msg) exec" where
  "decode_frame m0 sz = do {
     flag \<leftarrow> rd1 (u_pack m0) 0;
     if flag AND 0x1F \<noteq> 0x11 then Some (-111, m0)
     else do {
       let m1 = m0\<lparr>m_epn := (if drop_bit 5 flag \<ge> W_ZCL_EPN_MAX then 0 else drop_bit 5 flag), m_size := word_of_int sz\<rparr>;
       cmid \<leftarrow> rd1 (u_pack m0) 1;
       clid \<leftarrow> rd2 (u_pack m0) 2;
       (case AwZclCommand cmid of
          None \<Rightarrow> Some (-2, m1)
        | Some cmd \<Rightarrow>
            (case AwZclCluster clid of
               None \<Rightarrow> Some (-3, m1)
             | Some cl \<Rightarrow> do {
                 r \<leftarrow> command_attribut cmd clid (u_pack m0);
                 (case r of
                    Inl err \<Rightarrow> Some (err, m1)
                  | Inr (atid, at) \<Rightarrow> do {
                      let m2 = m1\<lparr>m_cmd := cm_id cmd, m_cluster_id := clid, m_attr_id := atid, m_status := 0, m_direction := 0,
                                  m_cmd_value := 0\<rparr>;
                      if cm_id cmd = W_CMD_COMMAND_RQST
                      then do { c1 \<leftarrow> rd1 (u_pack m0) (cm_val_offset cmd); Some (sint (W_CLAT clid 0), m2\<lparr>m_cmd_value := c1\<rparr>) }
                      else do {
                        m3 \<leftarrow> (if cm_response cmd \<and> cm_stat_offset cmd \<noteq> 0
                              then do { c \<leftarrow> rd1 (u_pack m0) (cm_stat_offset cmd); Some (m2\<lparr>m_status := c\<rparr>) } else Some m2);
                        m4 \<leftarrow> (if cm_direction_offset cmd \<noteq> 0
                              then do { c \<leftarrow> rd1 (u_pack m0) (cm_direction_offset cmd); Some (m3\<lparr>m_direction := c\<rparr>) } else Some m3);
                        if cm_val_offset cmd = 0 then Some (sint (W_CLAT clid atid), m4)
                        else if int (cm_val_offset cmd) > sz then Some (-7, m4)
                        else decode_param cmd clid atid sz m4
                      }
                    })
               }))
     }
   }"

definition AwZclDecode :: "t_zcl_msg option \<Rightarrow> bytes option \<Rightarrow> int \<Rightarrow> (int \<times> t_zcl_msg option) exec" where
  "AwZclDecode mOpt bin sz =
    (case mOpt of
       None \<Rightarrow> Some (-1, None)
     | Some m \<Rightarrow>
         (case bin of
            None \<Rightarrow> map_option (\<lambda>(ret, m'). (ret, Some m')) (decode_frame m sz)
          | Some b \<Rightarrow>
              if sz \<le> 0 \<or> sz > int W_ZCL_SIZE then Some (-11, Some m)
              else do {
                d \<leftarrow> memread 0 (nat sz) b;
                pack \<leftarrow> memcpy_at 0 d (replicate W_ZCL_SIZE 0);
                map_option (\<lambda>(ret, m'). (ret, Some m')) (decode_frame (ZCL_MSG0\<lparr>u_pack := pack\<rparr>) sz)
              }))"

end
