(* ===== verification/Watteco_Codec.thy ===== *)
theory Watteco_Codec
  imports Watteco_Decode
begin

unbundle bit_operations_syntax

section \<open>ZCL messages of the Watteco sensors: what decoding makes of an encoded frame\<close>

text \<open>
  The byte order of encoder and decoder, the round trip of each kind of parameter, the round trip of whole
  messages, and the frames on which the decoder leaves its arrays. The round trip covers the messages
  whose parameters can be put on the wire (\<open>wire_param\<close>), those of covconfig.c included: what comes back
  (\<open>received\<close>) differs where the decoder has no case or writes a field of its own.
\<close>

subsection \<open>Numbers\<close>

lemma ntoh2_be2: "ntoh2 (ucast (drop_bit 8 v)) (ucast (v AND 0x00FF)) = v"
proof (rule bit_word_eqI)
  have m: "(0x00FF :: u16) = mask 8" by (simp add: mask_eq_exp_minus_1)
  fix n assume n: "n < LENGTH(16)"
  then have "n < 16" by simp
  then have "n < 8 \<or> (\<exists>k. n = 8 + k \<and> k < 8)" by (intro disjCI exI [of _ "n - 8"]) arith
  then show "bit (ntoh2 (ucast (drop_bit 8 v)) (ucast (v AND 0x00FF))) n \<longleftrightarrow> bit v n"
    unfolding m ntoh2_def by (auto simp: bit_simps)
qed

lemma be3_value:
  assumes "v < 0x1000000"
  shows "push_bit 16 (ucast (ucast (drop_bit 16 (v AND 0x00FF0000)) :: u8)) OR
         push_bit 8 (ucast (ucast (drop_bit 8 (v AND 0x0000FF00)) :: u8)) OR
         ucast (ucast (v AND 0x000000FF) :: u8) = (v :: u32)"
proof (rule bit_word_eqI)
  fix n assume n: "n < LENGTH(32)"
  have m: "(0x00FF0000 :: u32) = push_bit 16 (mask 8)" "(0x0000FF00 :: u32) = push_bit 8 (mask 8)" "(0x000000FF :: u32) = mask 8"
    by (simp_all add: mask_eq_exp_minus_1)
  have "take_bit 24 v = v"
    using assms by (subst word_unat_eq_iff) (simp add: unsigned_take_bit_eq take_bit_nat_eq_self word_less_nat_alt)
  then have top: "bit v n \<Longrightarrow> n < 24"
    by (metis bit_take_bit_iff)
  have "n < 8 \<or> (\<exists>k. n = 8 + k \<and> k < 8) \<or> (\<exists>k. n = 16 + k \<and> k < 8) \<or> \<not> n < 24"
    by (cases "n < 8"; cases "n < 16"; intro disjCI exI [of _ "n - 8"] exI [of _ "n - 16"]) arith+
  with top show "bit (push_bit 16 (ucast (ucast (drop_bit 16 (v AND 0x00FF0000)) :: u8)) OR
         push_bit 8 (ucast (ucast (drop_bit 8 (v AND 0x0000FF00)) :: u8)) OR
         ucast (ucast (v AND 0x000000FF) :: u8) :: u32) n \<longleftrightarrow> bit v n"
    using n unfolding m by (elim disjE exE conjE) (simp_all add: bit_simps, auto)
qed

lemma be4_value:
  "push_bit 24 (ucast (ucast (drop_bit 24 v) :: u8)) OR push_bit 16 (ucast (ucast (drop_bit 16 v) :: u8)) OR
   push_bit 8 (ucast (ucast (drop_bit 8 v) :: u8)) OR ucast (ucast v :: u8) = (v :: u32)"
proof (rule bit_word_eqI)
  fix n assume "n < LENGTH(32)"
  then have n: "n < 32" by simp
  have "n < 8 \<or> (\<exists>k. n = 8 + k \<and> k < 8) \<or> (\<exists>k. n = 16 + k \<and> k < 8) \<or> (\<exists>k. n = 24 + k \<and> k < 8)"
    using n by (cases "n < 8"; cases "n < 16"; cases "n < 24"; intro disjCI exI [of _ "n - 8"] exI [of _ "n - 16"] exI [of _ "n - 24"]) arith+
  then show "bit (push_bit 24 (ucast (ucast (drop_bit 24 v) :: u8)) OR push_bit 16 (ucast (ucast (drop_bit 16 v) :: u8)) OR
   push_bit 8 (ucast (ucast (drop_bit 8 v) :: u8)) OR ucast (ucast v :: u8) :: u32) n \<longleftrightarrow> bit v n"
    by (elim disjE exE conjE) (simp_all add: bit_simps)
qed

lemma rd_cons [simp]:
  "rd1 (a # xs) 0 = Some a" "rd1 (a # xs) (Suc k) = rd1 xs k"
  "rd2 (a # xs) (Suc k) = rd2 xs k" "rd3 (a # xs) (Suc k) = rd3 xs k" "rd4 (a # xs) (Suc k) = rd4 xs k"
  by (simp_all add: rd1_def rd2_def rd3_def rd4_def idx_def eval_nat_numeral)

lemma rd_numeral [simp]:
  "rd1 (a # xs) (numeral k) = rd1 xs (pred_numeral k)" "rd2 (a # xs) (numeral k) = rd2 xs (pred_numeral k)"
  "rd3 (a # xs) (numeral k) = rd3 xs (pred_numeral k)" "rd4 (a # xs) (numeral k) = rd4 xs (pred_numeral k)"
  by (simp_all add: numeral_eq_Suc)

lemma rd2_be2 [simp]: "rd2 (be2 v @ xs) 0 = Some v"
  by (simp add: rd2_def be2_def idx_def ntoh2_be2)

lemma rd3_be3 [simp]: "v < 0x1000000 \<Longrightarrow> rd3 (be3 v @ xs) 0 = Some v"
  using be3_value [of v] by (simp add: rd3_def be3_def idx_def)

lemma rd4_be4 [simp]: "rd4 (be4 v @ xs) 0 = Some v"
  using be4_value [of v] by (simp add: rd4_def be4_def idx_def)

lemma length_be [simp]: "length (be2 v) = 2" "length (be3 w) = 3" "length (be4 w) = 4"
  by (simp_all add: be2_def be3_def be4_def)

text \<open>Reading behind a prefix.\<close>

lemma idx_append: "length xs \<le> k \<Longrightarrow> idx (xs @ ys) k = idx ys (k - length xs)"
  by (auto simp: idx_def nth_append)

lemma rd_append:
  "length xs \<le> k \<Longrightarrow> rd1 (xs @ ys) k = rd1 ys (k - length xs)"
  "length xs \<le> k \<Longrightarrow> rd2 (xs @ ys) k = rd2 ys (k - length xs)"
  "length xs \<le> k \<Longrightarrow> rd3 (xs @ ys) k = rd3 ys (k - length xs)"
  "length xs \<le> k \<Longrightarrow> rd4 (xs @ ys) k = rd4 ys (k - length xs)"
  by (simp_all add: rd1_def rd2_def rd3_def rd4_def idx_append Suc_diff_le numeral_3_eq_3)

lemmas rd_skip [simp] = rd_append [of "be2 v" for v, unfolded length_be] rd_append [of "be3 w" for w, unfolded length_be]

lemma memread_append: "memread (length xs + k) n (xs @ ys) = memread k n ys"
  by (simp add: memread_def)

subsection \<open>Parameters\<close>

lemma decode_append:
  "AwZclDecodeSimpleConfig (xs @ ys) (length xs) nbb = AwZclDecodeSimpleConfig ys 0 nbb"
  "AwZclDecodeMeteringValue (xs @ ys) (length xs) = AwZclDecodeMeteringValue ys 0"
  "AwZclDecodeMeteringConfig (xs @ ys) (length xs) = AwZclDecodeMeteringConfig ys 0"
  by (simp_all add: AwZclDecodeSimpleConfig_def AwZclDecodeMeteringValue_def AwZclDecodeMeteringConfig_def rd_append numeral_2_eq_2)

lemma low_byte: "v < 0x100 \<Longrightarrow> ucast (ucast (v AND 0xFF) :: u8) = (v :: u32)"
proof (rule bit_word_eqI)
  have m: "(0xFF :: u32) = mask 8" by (simp add: mask_eq_exp_minus_1)
  assume "v < 0x100"
  then have "take_bit 8 v = v"
    by (subst word_unat_eq_iff) (simp add: unsigned_take_bit_eq take_bit_nat_eq_self word_less_nat_alt)
  then have "bit v n \<Longrightarrow> n < 8" for n
    by (metis bit_take_bit_iff)
  then show "bit (ucast (ucast (v AND 0xFF) :: u8) :: u32) n \<longleftrightarrow> bit v n" if "n < LENGTH(32)" for n
    using that unfolding m by (auto simp: bit_simps)
qed

lemma low_bytes: "v < 0x10000 \<Longrightarrow> ucast (ntoh2 (ucast (drop_bit 8 v)) (ucast (v AND 0xFF))) = (v :: u32)"
proof (rule bit_word_eqI)
  have m: "(0xFF :: u32) = mask 8" by (simp add: mask_eq_exp_minus_1)
  assume "v < 0x10000"
  then have "take_bit 16 v = v"
    by (subst word_unat_eq_iff) (simp add: unsigned_take_bit_eq take_bit_nat_eq_self word_less_nat_alt)
  then have small: "bit v n \<Longrightarrow> n < 16" for n
    by (metis bit_take_bit_iff)
  fix n :: nat
  have "n < 8 \<or> (\<exists>k. n = 8 + k)" by (intro disjCI exI [of _ "n - 8"]) arith
  with small [of n] show "bit (ucast (ntoh2 (ucast (drop_bit 8 v)) (ucast (v AND 0xFF))) :: u32) n \<longleftrightarrow> bit v n"
    unfolding m ntoh2_def by (auto simp: bit_simps)
qed

lemma simple_config_roundtrip:
  assumes "nbb = 1 \<Longrightarrow> sc_min_change c < 0x100" "nbb = 2 \<Longrightarrow> sc_min_change c < 0x10000" "nbb \<in> {1, 2, 4}"
  shows "AwZclDecodeSimpleConfig (AwZclEncodeSimpleConfig c nbb @ ys) 0 nbb = Some (SimpleConfig c)"
proof -
  have two: "rd2 (ucast (drop_bit 8 v) # ucast (v AND 0xFF) # ys) 0 = Some (ntoh2 (ucast (drop_bit 8 v)) (ucast (v AND 0xFF)))" for v :: u32
    by (simp add: rd2_def idx_def)
  from assms show ?thesis
    by (auto simp: AwZclEncodeSimpleConfig_def AwZclDecodeSimpleConfig_def two low_byte low_bytes)
qed

lemma metering_config_roundtrip:
  assumes "mc_metersz c \<noteq> 0" "mc_sumWh c < 0x1000000" "mc_sumVarh c < 0x1000000"
  shows "snd (AwZclEncodeMeteringConfig c) = c \<and>
         AwZclDecodeMeteringConfig (fst (AwZclEncodeMeteringConfig c) @ ys) 0 = Some (MeteringConfig c)"
  using assms by (simp add: AwZclEncodeMeteringConfig_def AwZclDecodeMeteringConfig_def Let_def)

text \<open>Every attribute of the tables has the size that goes with its kind of value.\<close>

definition attr_kind :: "t_zcl_attribut \<Rightarrow> bool" where
  "attr_kind a =
    (let clat = W_CLAT (at_cl_id a) (at_id a);
         special = [W_CLAT W_CLU_SIMPLEMETER 0, W_CLAT W_CLU_CONFIGURATION 2, W_CLAT W_CLU_CONFIGURATION 4,
                    W_CLAT W_CLU_CONFIGURATION 6] @ TIC_CLATS
     in if clat = W_CLAT W_CLU_CONFIGURATION 0 then at_ssval a = -16
        else if clat \<in> set special then at_ssval a = 0 else at_ssval a \<in> {1, 2, 4})"

lemma tables_kind: "\<forall>c \<in> set TbCluster. \<forall>a \<in> set (cl_tb_attr c). at_cl_id a = cl_id c \<and> attr_kind a"
  by code_simp

lemma AwZclAttribut_SomeD:
  assumes "AwZclAttribut clid atid = Some a"
  shows "at_cl_id a = clid" "at_id a = atid" "attr_kind a" "AwZclCluster clid \<noteq> None"
proof -
  from assms obtain c where c: "find (\<lambda>cl. cl_id cl = clid) TbCluster = Some c" "find (\<lambda>a. at_id a = atid) (cl_tb_attr c) = Some a"
    by (auto simp: AwZclAttribut_def AwZclCluster_def cluster_in_def split: option.splits)
  from c(1) have "c \<in> set TbCluster" "cl_id c = clid" by (auto simp: find_Some_iff)
  moreover from c(2) have "a \<in> set (cl_tb_attr c)" "at_id a = atid" by (auto simp: find_Some_iff)
  ultimately show "at_cl_id a = clid" "at_id a = atid" "attr_kind a" using tables_kind by auto
  show "AwZclCluster clid \<noteq> None" using c(1) by (simp add: AwZclCluster_def cluster_in_def)
qed

text \<open>The values that a frame may carry for an attribute, and their bytes behind the type.\<close>

definition value_ok :: "t_zcl_attribut \<Rightarrow> u32 \<Rightarrow> u_param \<Rightarrow> bool" where
  "value_ok a clat p =
    (case p of
       Uint1 v \<Rightarrow> at_ssval a = 1
     | Uint2 v \<Rightarrow> at_ssval a = 2
     | Uint4 v \<Rightarrow> at_ssval a = 4
     | Metering r \<Rightarrow> clat = W_CLAT W_CLU_SIMPLEMETER 0 \<and> mv_sumWh r < 0x1000000 \<and> mv_sumVarh r < 0x1000000
     | TicData r \<Rightarrow> clat \<in> set TIC_CLATS \<and> unat (td_sz r) \<le> W_ZCL_TIC_SIZE \<and> length (td_data r) = W_ZCL_TIC_SIZE \<and>
                   drop (unat (td_sz r)) (td_data r) = replicate (W_ZCL_TIC_SIZE - unat (td_sz r)) 0
     | ByteN r \<Rightarrow> clat = W_CLAT W_CLU_CONFIGURATION 0 \<and> 0 < bn_valsz r \<and> bn_valsz r \<le> 16 \<and> length (bn_value r) = W_ZCL_SIZE \<and>
                   drop (unat (bn_valsz r)) (bn_value r) = replicate (W_ZCL_SIZE - unat (bn_valsz r)) 0
     | _ \<Rightarrow> False)"

definition value_bytes :: "u_param \<Rightarrow> bytes" where
  "value_bytes p =
    (case p of
       Uint1 v \<Rightarrow> [v]
     | Uint2 v \<Rightarrow> be2 v
     | Uint4 v \<Rightarrow> be4 v
     | Metering r \<Rightarrow> mv_metersz r # be3 (mv_sumWh r) @ be3 (mv_sumVarh r) @ be2 (mv_count r) @ be2 (mv_curWh r) @ be2 (mv_curVarh r)
     | TicData r \<Rightarrow> td_sz r # take (unat (td_sz r)) (td_data r)
     | ByteN r \<Rightarrow> bn_valsz r # take (unat (bn_valsz r)) (bn_value r)
     | _ \<Rightarrow> [])"

definition conf_size :: "u32 \<Rightarrow> nat" where
  "conf_size clat = (if clat \<in> set CONF2_CLATS then 2 else if clat \<in> set CONF1_CLATS then 1 else 4)"

definition conf_ok :: "u32 \<Rightarrow> u_param \<Rightarrow> bool" where
  "conf_ok clat p =
    (case p of
       SimpleConfig c \<Rightarrow> clat \<in> set CONF2_CLATS \<and> sc_min_change c < 0x10000 \<or> clat \<in> set CONF1_CLATS \<and> sc_min_change c < 0x100 \<or>
                        clat \<in> set CONF4_CLATS
     | MeteringConfig c \<Rightarrow> clat = W_CLAT W_CLU_SIMPLEMETER 0 \<and> mc_metersz c \<noteq> 0 \<and> mc_sumWh c < 0x1000000 \<and> mc_sumVarh c < 0x1000000
     | TicConfig c \<Rightarrow> clat \<in> set TIC_CLATS \<and> unat (tc_sz c) \<le> W_ZCL_TIC_SIZE \<and> length (tc_data c) = W_ZCL_TIC_SIZE
     | PowerConfig c \<Rightarrow> clat = W_CLAT W_CLU_CONFIGURATION 6 \<and> length (pc_level c) = 10
     | _ \<Rightarrow> False)"

definition conf_bytes :: "u32 \<Rightarrow> u_param \<Rightarrow> bytes" where
  "conf_bytes clat p =
    (case p of
       SimpleConfig c \<Rightarrow> AwZclEncodeSimpleConfig c (conf_size clat)
     | MeteringConfig c \<Rightarrow> fst (AwZclEncodeMeteringConfig c)
     | TicConfig c \<Rightarrow> be2 (tc_min_time c) @ be2 (tc_max_time c) @ [tc_sz c] @ take (unat (tc_sz c)) (tc_data c)
     | PowerConfig c \<Rightarrow> be2 (pc_min_time c) @ be2 (pc_max_time c) @
         [of_nat (2 + power_count (pc_source c) * 2), pc_mode c, pc_source c] @
         concat (map be2 (take (power_count (pc_source c)) (pc_level c)))
     | _ \<Rightarrow> [])"

text \<open>What a frame keeps of the parameter of a message: the reported change cut to its size, the sums of a
  meter to 24 bits, an undefined kind of meter sent as 0x0c, a string of bytes to its 16 first bytes. The
  arrays behind the announced lengths are not sent.\<close>

definition wire_param :: "u32 \<Rightarrow> u_param \<Rightarrow> u_param" where
  "wire_param clat p =
    (case p of
       SimpleConfig c \<Rightarrow> SimpleConfig (c\<lparr>sc_min_change := take_bit (8 * conf_size clat) (sc_min_change c)\<rparr>)
     | MeteringConfig c \<Rightarrow> MeteringConfig (c\<lparr>mc_metersz := (if mc_metersz c = 0 then 0x0c else mc_metersz c),
                            mc_sumWh := take_bit 24 (mc_sumWh c), mc_sumVarh := take_bit 24 (mc_sumVarh c)\<rparr>)
     | Metering r \<Rightarrow> Metering (r\<lparr>mv_sumWh := take_bit 24 (mv_sumWh r), mv_sumVarh := take_bit 24 (mv_sumVarh r)\<rparr>)
     | TicData r \<Rightarrow> TicData (r\<lparr>td_data := take (unat (td_sz r)) (td_data r) @ replicate (W_ZCL_TIC_SIZE - unat (td_sz r)) 0\<rparr>)
     | ByteN r \<Rightarrow> (let n = min 16 (unat (bn_valsz r))
                   in ByteN (r\<lparr>bn_valsz := of_nat n, bn_value := take n (bn_value r) @ replicate (W_ZCL_SIZE - n) 0\<rparr>))
     | _ \<Rightarrow> p)"

text \<open>The parameters a message may have: a value of the kind of its attribute, a configuration of the kind
  of its attribute, with arrays of the size of the C structures.\<close>

definition value_given :: "t_zcl_attribut \<Rightarrow> u32 \<Rightarrow> u_param \<Rightarrow> bool" where
  "value_given a clat p =
    (case p of
       Uint1 v \<Rightarrow> at_ssval a = 1
     | Uint2 v \<Rightarrow> at_ssval a = 2
     | Uint4 v \<Rightarrow> at_ssval a = 4
     | Metering r \<Rightarrow> clat = W_CLAT W_CLU_SIMPLEMETER 0
     | TicData r \<Rightarrow> clat \<in> set TIC_CLATS \<and> unat (td_sz r) \<le> W_ZCL_TIC_SIZE \<and> length (td_data r) = W_ZCL_TIC_SIZE
     | ByteN r \<Rightarrow> clat = W_CLAT W_CLU_CONFIGURATION 0 \<and> 0 < bn_valsz r \<and> length (bn_value r) = W_ZCL_SIZE
     | _ \<Rightarrow> False)"

definition conf_given :: "u32 \<Rightarrow> u_param \<Rightarrow> bool" where
  "conf_given clat p =
    (case p of
       SimpleConfig c \<Rightarrow> clat \<in> set CONF1_CLATS \<union> set CONF2_CLATS \<union> set CONF4_CLATS
     | MeteringConfig c \<Rightarrow> clat = W_CLAT W_CLU_SIMPLEMETER 0
     | TicConfig c \<Rightarrow> clat \<in> set TIC_CLATS \<and> unat (tc_sz c) \<le> W_ZCL_TIC_SIZE \<and> length (tc_data c) = W_ZCL_TIC_SIZE
     | PowerConfig c \<Rightarrow> clat = W_CLAT W_CLU_CONFIGURATION 6 \<and> length (pc_level c) = 10
     | _ \<Rightarrow> False)"

lemmas clat_defs = W_CLAT_def CONF1_CLATS_def CONF2_CLATS_def CONF4_CLATS_def TIC_CLATS_def const_defs

lemma clats_apart:
  "clat \<in> set TIC_CLATS \<Longrightarrow> clat \<noteq> W_CLAT W_CLU_SIMPLEMETER 0 \<and> clat \<noteq> W_CLAT W_CLU_CONFIGURATION 0"
  "clat \<in> set CONF1_CLATS \<Longrightarrow> clat \<notin> set CONF2_CLATS"
  "clat \<in> set CONF4_CLATS \<Longrightarrow> clat \<notin> set CONF2_CLATS \<and> clat \<notin> set CONF1_CLATS"
  "W_CLAT W_CLU_SIMPLEMETER 0 \<notin> set CONF1_CLATS \<union> set CONF2_CLATS \<union> set CONF4_CLATS \<union> set TIC_CLATS"
  "W_CLAT W_CLU_CONFIGURATION 0 \<notin> set TIC_CLATS" "W_CLAT W_CLU_CONFIGURATION 0 \<noteq> W_CLAT W_CLU_SIMPLEMETER 0"
  "clat \<in> set TIC_CLATS \<Longrightarrow> clat \<notin> set CONF1_CLATS \<union> set CONF2_CLATS \<union> set CONF4_CLATS"
  "W_CLAT W_CLU_CONFIGURATION 6 \<notin> set CONF1_CLATS \<union> set CONF2_CLATS \<union> set CONF4_CLATS \<union> set TIC_CLATS"
  "W_CLAT W_CLU_CONFIGURATION 6 \<noteq> W_CLAT W_CLU_SIMPLEMETER 0"
  by (auto simp: clat_defs)

lemma small_word: "unat (of_nat (min 16 (unat (b :: u8))) :: u8) = min 16 (unat b)"
  by (rule unat_of_nat_u8) simp

lemma take_bit_less: "take_bit 8 v < 0x100" "take_bit 16 v < 0x10000" "take_bit 24 v < 0x1000000" for v :: u32
  using take_bit_nat_less_exp [of 8 "unat v"] take_bit_nat_less_exp [of 16 "unat v"] take_bit_nat_less_exp [of 24 "unat v"]
  by (simp_all add: word_less_nat_alt unsigned_take_bit_eq)

lemma low_bits:
  "ucast (take_bit 8 v AND 0xFF) = (ucast (v AND 0xFF) :: u8)"
  "ucast (take_bit 16 v AND 0xFF) = (ucast (v AND 0xFF) :: u8)"
  "ucast (drop_bit 8 (take_bit 16 v)) = (ucast (drop_bit 8 v) :: u8)"
  "be3 (take_bit 24 v) = be3 v" "take_bit 32 v = v" for v :: u32
proof -
  have m: "(0xFF :: u32) = mask 8" "(0x00FF0000 :: u32) = push_bit 16 (mask 8)" "(0x0000FF00 :: u32) = push_bit 8 (mask 8)"
    by (simp_all add: mask_eq_exp_minus_1)
  show "ucast (take_bit 8 v AND 0xFF) = (ucast (v AND 0xFF) :: u8)" "ucast (take_bit 16 v AND 0xFF) = (ucast (v AND 0xFF) :: u8)"
    "ucast (drop_bit 8 (take_bit 16 v)) = (ucast (drop_bit 8 v) :: u8)" "be3 (take_bit 24 v) = be3 v"
    unfolding be3_def m by (auto intro!: bit_word_eqI simp: bit_simps)
  show "take_bit 32 v = v" by (rule bit_word_eqI) (simp add: bit_simps)
qed

text \<open>The encoder writes what the frame keeps of the parameter, and that is in a form that the decoder
  gives back.\<close>

lemma value_wire: "value_given a clat p \<Longrightarrow> value_ok a clat (wire_param clat p)"
  using take_bit_less
  by (cases p) (auto simp: value_given_def value_ok_def wire_param_def Let_def small_word word_le_nat_alt word_less_nat_alt
      W_ZCL_SIZE_def W_ZCL_TIC_SIZE_def min_def split: if_splits)

lemma conf_wire: "conf_given clat p \<Longrightarrow> conf_ok clat (wire_param clat p)"
  using take_bit_less clats_apart(2, 3) [of clat]
  by (cases p) (auto simp: conf_given_def conf_ok_def wire_param_def conf_size_def)

lemma encode_value:
  assumes a: "AwZclAttribut (m_cluster_id m) (m_attr_id m) = Some a"
    and ok: "value_given a (W_CLAT (m_cluster_id m) (m_attr_id m)) (m_param m)"
  shows "\<exists>m1. AwZclEncodeReadAttrResp m =
    Some (at_type a # value_bytes (wire_param (W_CLAT (m_cluster_id m) (m_attr_id m)) (m_param m)), m1)"
proof (cases "m_param m")
  case (ByteN r)
  with ok have r: "W_CLAT (m_cluster_id m) (m_attr_id m) = W_CLAT W_CLU_CONFIGURATION 0" "length (bn_value r) = 200"
    by (simp_all add: value_given_def W_ZCL_SIZE_def)
  with AwZclAttribut_SomeD [OF a] have s: "at_ssval a = -16" by (simp add: attr_kind_def)
  show ?thesis
    using a ByteN s r
    by (auto simp: AwZclEncodeReadAttrResp_def wire_param_def value_bytes_def Let_def memread_def small_word W_ZCL_SIZE_def min_def)
qed (use a ok AwZclAttribut_SomeD [OF a] clats_apart in
     \<open>auto simp: AwZclEncodeReadAttrResp_def value_given_def value_bytes_def wire_param_def attr_kind_def Let_def memread_def
        low_bits word_greater_zero_iff W_ZCL_SIZE_def W_ZCL_TIC_SIZE_def\<close>)

lemma power_count_le: "power_count src \<le> 5"
  unfolding power_count_def by (rule order_trans [OF length_filter_le]) simp

lemma encode_conf:
  assumes a: "AwZclAttribut (m_cluster_id m) (m_attr_id m) = Some a"
    and ok: "conf_given (W_CLAT (m_cluster_id m) (m_attr_id m)) (m_param m)"
  shows "\<exists>m1. AwZclEncodeRepoConfRqst m =
    Some (at_type a # conf_bytes (W_CLAT (m_cluster_id m) (m_attr_id m))
                        (wire_param (W_CLAT (m_cluster_id m) (m_attr_id m)) (m_param m)), m1)"
proof (cases "m_param m")
  case (SimpleConfig c)
  with ok have "W_CLAT (m_cluster_id m) (m_attr_id m) \<in> set CONF2_CLATS \<union> set CONF1_CLATS \<union> set CONF4_CLATS"
    by (auto simp: conf_given_def)
  with a SimpleConfig clats_apart(2, 3) [of "W_CLAT (m_cluster_id m) (m_attr_id m)"] show ?thesis
    by (auto simp: AwZclEncodeRepoConfRqst_def conf_bytes_def conf_size_def wire_param_def AwZclEncodeSimpleConfig_def low_bits Let_def)
next
  case (MeteringConfig c)
  with ok have "W_CLAT (m_cluster_id m) (m_attr_id m) = W_CLAT W_CLU_SIMPLEMETER 0" by (simp add: conf_given_def)
  with a MeteringConfig clats_apart(4) show ?thesis
    by (simp add: AwZclEncodeRepoConfRqst_def conf_bytes_def wire_param_def AwZclEncodeMeteringConfig_def low_bits Let_def)
next
  case (TicConfig c)
  with ok have t: "W_CLAT (m_cluster_id m) (m_attr_id m) \<in> set TIC_CLATS" "unat (tc_sz c) \<le> length (tc_data c)"
    by (simp_all add: conf_given_def)
  have "unat (tc_sz c) = 0" if "tc_sz c = 0" using that by simp
  with a TicConfig t clats_apart(1, 7) [OF t(1)] show ?thesis
    by (auto simp: AwZclEncodeRepoConfRqst_def AwZclEncodeTicConfig_def conf_bytes_def wire_param_def memread_def Let_def)
next
  case (PowerConfig c)
  with ok have t: "W_CLAT (m_cluster_id m) (m_attr_id m) = W_CLAT W_CLU_CONFIGURATION 6" "length (pc_level c) = 10"
    by (simp_all add: conf_given_def)
  have "power_count (pc_source c) \<le> length (pc_level c)" using power_count_le [of "pc_source c"] t(2) by simp
  with a PowerConfig t(1) clats_apart(8, 9) show ?thesis
    by (auto simp: AwZclEncodeRepoConfRqst_def AwZclEncodePowerConfig_def conf_bytes_def wire_param_def memread_def Let_def)
qed (use ok in \<open>simp_all add: conf_given_def\<close>)

lemma memread_block: "n \<le> length v \<Longrightarrow> memread (Suc (length pre)) n (pre @ x # take n v @ suf) = Some (take n v)"
  by (simp add: memread_def)

lemma memcpy_block:
  "n \<le> length v \<Longrightarrow> drop n v = replicate (N - n) 0 \<Longrightarrow> n \<le> N \<Longrightarrow> memcpy_at 0 (take n v) (replicate N 0) = Some v"
  using append_take_drop_id [of n v] by (simp add: memcpy_at_def min_absorb2)

lemma metering_value_roundtrip:
  assumes "mv_sumWh r < 0x1000000" "mv_sumVarh r < 0x1000000"
  shows "AwZclDecodeMeteringValue (pre @ value_bytes (Metering r) @ suf) (length pre) = Some (Metering r)"
proof -
  from assms have "AwZclDecodeMeteringValue (value_bytes (Metering r) @ suf) 0 = Some (Metering r)"
    by (simp add: value_bytes_def AwZclDecodeMeteringValue_def)
  then show ?thesis by (simp only: decode_append)
qed

lemma decode_value:
  assumes a: "AwZclAttribut clid atid = Some a" and ok: "value_ok a (W_CLAT clid atid) p"
    and pack: "u_pack d = pre @ value_bytes p @ suf"
  shows "AwZclDecodeReadAttrResp d clid atid (length pre) pend = Some (sint (W_CLAT clid atid), d\<lparr>m_param := p\<rparr>)"
proof -
  from AwZclAttribut_SomeD [OF a] have k: "at_cl_id a = clid" "at_id a = atid" "attr_kind a" by auto
  show ?thesis
  proof (cases p)
    case (ByteN r)
    with ok have r: "W_CLAT clid atid = W_CLAT W_CLU_CONFIGURATION 0" "0 < bn_valsz r" "unat (bn_valsz r) \<le> 16"
        "length (bn_value r) = 200" "drop (unat (bn_valsz r)) (bn_value r) = replicate (200 - unat (bn_valsz r)) 0"
      by (simp_all add: value_ok_def word_le_nat_alt W_ZCL_SIZE_def)
    with k have "at_ssval a = -16" by (simp add: attr_kind_def)
    with a pack ByteN r clats_apart(5, 6) show ?thesis
      by (simp add: AwZclDecodeReadAttrResp_def value_bytes_def Let_def rd_append memread_block memcpy_block W_ZCL_SIZE_def
          word_greater_zero_iff)
  next
    case (TicData r)
    with ok have r: "W_CLAT clid atid \<in> set TIC_CLATS" "unat (td_sz r) \<le> 170"
        "length (td_data r) = 170" "drop (unat (td_sz r)) (td_data r) = replicate (170 - unat (td_sz r)) 0"
      by (simp_all add: value_ok_def W_ZCL_TIC_SIZE_def)
    with k clats_apart(1) [OF r(1)] have "at_ssval a = 0" by (simp add: attr_kind_def)
    with a pack TicData r clats_apart(1) [OF r(1)] show ?thesis
      by (simp add: AwZclDecodeReadAttrResp_def value_bytes_def Let_def rd_append memread_block memcpy_block W_ZCL_TIC_SIZE_def)
  next
    case (Metering r)
    with ok have r: "W_CLAT clid atid = W_CLAT W_CLU_SIMPLEMETER 0" "mv_sumWh r < 0x1000000" "mv_sumVarh r < 0x1000000"
      by (simp_all add: value_ok_def)
    with k clats_apart(6) have "at_ssval a = 0" by (simp add: attr_kind_def)
    with a pack Metering r show ?thesis
      by (simp add: AwZclDecodeReadAttrResp_def Let_def metering_value_roundtrip)
  qed (use ok a pack in \<open>simp_all add: AwZclDecodeReadAttrResp_def value_ok_def value_bytes_def Let_def rd_append\<close>)
qed

text \<open>The decoder has no case for the configurations of meter data and of power levels: it leaves the
  parameter of the message alone.\<close>

definition received :: "u_param \<Rightarrow> u_param" where
  "received p = (case p of TicConfig _ \<Rightarrow> NoParam | PowerConfig _ \<Rightarrow> NoParam | _ \<Rightarrow> p)"

lemma decode_conf:
  assumes ok: "conf_ok (W_CLAT clid atid) p" and pack: "u_pack d = pre @ conf_bytes (W_CLAT clid atid) p @ suf"
    and d: "m_param d = NoParam"
  shows "AwZclDecodeRepoConfRqst d clid atid (length pre) = Some (sint (W_CLAT clid atid), d\<lparr>m_param := received p\<rparr>)"
proof (cases p)
  case (SimpleConfig c)
  with ok have "W_CLAT clid atid \<in> set CONF2_CLATS \<union> set CONF1_CLATS \<union> set CONF4_CLATS"
    by (auto simp: conf_ok_def)
  with ok pack SimpleConfig clats_apart(2, 3) [of "W_CLAT clid atid"] show ?thesis
    by (auto simp: AwZclDecodeRepoConfRqst_def conf_ok_def conf_bytes_def conf_size_def received_def Let_def decode_append simple_config_roundtrip)
next
  case (MeteringConfig c)
  with ok pack clats_apart(4) show ?thesis
    by (auto simp: AwZclDecodeRepoConfRqst_def conf_ok_def conf_bytes_def received_def Let_def decode_append metering_config_roundtrip)
next
  case (TicConfig c)
  with ok have "W_CLAT clid atid \<in> set TIC_CLATS" by (simp add: conf_ok_def)
  from clats_apart(1, 7) [OF this] TicConfig d show ?thesis
    by (cases d) (simp add: AwZclDecodeRepoConfRqst_def received_def Let_def)
next
  case (PowerConfig c)
  with ok have "W_CLAT clid atid = W_CLAT W_CLU_CONFIGURATION 6" by (simp add: conf_ok_def)
  with clats_apart(8, 9) PowerConfig d show ?thesis
    by (cases d) (simp add: AwZclDecodeRepoConfRqst_def received_def Let_def)
qed (use ok in \<open>simp_all add: conf_ok_def\<close>)

subsection \<open>Messages\<close>

definition value_command :: "u8 \<Rightarrow> bool" where
  "value_command cmd = (cmd = W_CMD_READ_ATTR_RESP \<or> cmd = W_CMD_REPO_ATTR_EVNT \<or> cmd = W_CMD_WRIT_ATTR_RQST)"

definition conf_command :: "u8 \<Rightarrow> bool" where
  "conf_command cmd = (cmd = W_CMD_REPO_CONF_RQST \<or> cmd = W_CMD_READ_CONF_RESP)"

definition status_command :: "u8 \<Rightarrow> bool" where
  "status_command cmd = (cmd = W_CMD_READ_ATTR_RESP \<or> cmd = W_CMD_REPO_CONF_RESP \<or> cmd = W_CMD_READ_CONF_RESP)"

definition direction_command :: "u8 \<Rightarrow> bool" where
  "direction_command cmd =
    (cmd = W_CMD_REPO_CONF_RQST \<or> cmd = W_CMD_REPO_CONF_RESP \<or> cmd = W_CMD_READ_CONF_RQST \<or> cmd = W_CMD_READ_CONF_RESP)"

text \<open>The messages that the driver builds: an end point in range, a known command for a known attribute (or
  cluster), with a parameter of the kind that belongs to it.\<close>

definition watteco_ok :: "t_zcl_msg \<Rightarrow> bool" where
  "watteco_ok m =
    (m_epn m < W_ZCL_EPN_MAX \<and> AwZclCommand (m_cmd m) \<noteq> None \<and>
     (if m_cmd m = W_CMD_COMMAND_RQST then AwZclCluster (m_cluster_id m) \<noteq> None
      else case AwZclAttribut (m_cluster_id m) (m_attr_id m) of
             None \<Rightarrow> False
           | Some a \<Rightarrow>
               let clat = W_CLAT (m_cluster_id m) (m_attr_id m)
               in (value_command (m_cmd m) \<longrightarrow> value_given a clat (m_param m)) \<and> (conf_command (m_cmd m) \<longrightarrow> conf_given clat (m_param m))))"

text \<open>What decoding gives for a message: the fields that its command carries, and what the frame keeps of
  its parameter.\<close>

definition decoded :: "t_zcl_msg \<Rightarrow> bytes \<Rightarrow> nat \<Rightarrow> t_zcl_msg" where
  "decoded m pack n =
    \<lparr>u_pack = pack, m_epn = m_epn m, m_cmd = m_cmd m,
     m_status = (if status_command (m_cmd m) then m_status m else 0),
     m_direction = (if direction_command (m_cmd m) then m_direction m else 0),
     m_cluster_id = m_cluster_id m,
     m_attr_id = (if m_cmd m = W_CMD_COMMAND_RQST then 0xFFFF else m_attr_id m),
     m_size = of_nat n, m_xxcode = 0,
     m_cmd_value = (if m_cmd m = W_CMD_COMMAND_RQST then m_cmd_value m else 0),
     m_param = (if value_command (m_cmd m) \<or> conf_command (m_cmd m)
                then received (wire_param (W_CLAT (m_cluster_id m) (m_attr_id m)) (m_param m)) else NoParam)\<rparr>"

lemma flag_byte:
  assumes "e < W_ZCL_EPN_MAX"
  shows "(0x11 OR push_bit 5 e) AND 0x1F = 0x11" "drop_bit 5 (0x11 OR push_bit 5 e) = e"
proof -
  have "e = of_nat (unat e)" by simp
  moreover have "unat e < 8" using assms by (simp add: W_ZCL_EPN_MAX_def word_less_nat_alt)
  then have "unat e \<in> set [0 ..< 8]" by simp
  ultimately have "e \<in> of_nat ` set [0 ..< 8]" by blast
  then have "e \<in> {0, 1, 2, 3, 4, 5, 6, 7}" by (simp add: upt_rec insert_commute)
  then show "(0x11 OR push_bit 5 e) AND 0x1F = 0x11" "drop_bit 5 (0x11 OR push_bit 5 e) = e"
    by auto
qed

lemma commands:
  "AwZclCommand W_CMD_READ_ATTR_RQST = Some (TbCommand ! 0)" "AwZclCommand W_CMD_READ_ATTR_RESP = Some (TbCommand ! 1)"
  "AwZclCommand W_CMD_REPO_CONF_RQST = Some (TbCommand ! 2)" "AwZclCommand W_CMD_REPO_CONF_RESP = Some (TbCommand ! 3)"
  "AwZclCommand W_CMD_READ_CONF_RQST = Some (TbCommand ! 4)" "AwZclCommand W_CMD_READ_CONF_RESP = Some (TbCommand ! 5)"
  "AwZclCommand W_CMD_REPO_ATTR_EVNT = Some (TbCommand ! 6)" "AwZclCommand W_CMD_WRIT_ATTR_RQST = Some (TbCommand ! 7)"
  "AwZclCommand W_CMD_COMMAND_RQST = Some (TbCommand ! 8)"
  by (simp_all add: AwZclCommand_def TbCommand_def const_defs)

lemma known_commands:
  "AwZclCommand c = Some cm \<Longrightarrow>
   cm_id cm = c \<and> c \<in> {W_CMD_READ_ATTR_RQST, W_CMD_READ_ATTR_RESP, W_CMD_REPO_CONF_RQST, W_CMD_REPO_CONF_RESP, W_CMD_READ_CONF_RQST,
         W_CMD_READ_CONF_RESP, W_CMD_REPO_ATTR_EVNT, W_CMD_WRIT_ATTR_RQST, W_CMD_COMMAND_RQST}"
  by (auto simp: AwZclCommand_def TbCommand_def split: if_splits)

text \<open>A frame up to its parameter.\<close>

lemma decode_frame_attr:
  assumes pack: "pack = (0x11 OR push_bit 5 e) # c # be2 cl @ rest" and e: "e < W_ZCL_EPN_MAX"
    and cm: "AwZclCommand c = Some cm" "c \<noteq> W_CMD_COMMAND_RQST" and cl: "AwZclCluster cl \<noteq> None"
    and at: "command_attribut cm cl pack = Some (Inr (atid, Some a))"
    and st: "(if cm_response cm \<and> cm_stat_offset cm \<noteq> 0 then rd1 pack (cm_stat_offset cm) else Some 0) = Some st"
    and dir: "(if cm_direction_offset cm \<noteq> 0 then rd1 pack (cm_direction_offset cm) else Some 0) = Some dir"
  shows "decode_frame (ZCL_MSG0\<lparr>u_pack := pack\<rparr>) sz =
    (let d = \<lparr>u_pack = pack, m_epn = e, m_cmd = c, m_status = st, m_direction = dir, m_cluster_id = cl, m_attr_id = atid,
              m_size = word_of_int sz, m_xxcode = 0, m_cmd_value = 0, m_param = NoParam\<rparr>
     in if cm_val_offset cm = 0 then Some (sint (W_CLAT cl atid), d)
        else if int (cm_val_offset cm) > sz then Some (-7, d) else decode_param cm cl atid sz d)"
proof -
  have head: "rd1 pack 0 = Some (0x11 OR push_bit 5 e)" "rd1 pack 1 = Some c" "rd2 pack 2 = Some cl"
    by (simp_all add: pack)
  have "\<not> W_ZCL_EPN_MAX \<le> e" using e by simp
  with head cm cl at st dir flag_byte [OF e] known_commands [OF cm(1)] show ?thesis
    by (auto simp: decode_frame_def ZCL_MSG0_def Let_def split: if_splits)
qed


text \<open>A frame that decodes to the message it encodes.\<close>

definition roundtrips :: "t_zcl_msg \<Rightarrow> bytes \<Rightarrow> bool" where
  "roundtrips m frame =
    ((\<exists>m1. encode_frame m = Some (frame, m1)) \<and> frame \<noteq> [] \<and> length frame \<le> W_ZCL_SIZE \<and>
     (\<forall>suf. decode_frame (ZCL_MSG0\<lparr>u_pack := frame @ suf\<rparr>) (int (length frame)) =
        Some (sint (W_CLAT (m_cluster_id m) (if m_cmd m = W_CMD_COMMAND_RQST then 0 else m_attr_id m)),
              decoded m (frame @ suf) (length frame))))"

lemma roundtripsI:
  assumes "\<exists>m1. encode_frame m = Some (frame, m1)" "length frame \<le> W_ZCL_SIZE" "frame \<noteq> []"
    and "\<And>suf. decode_frame (ZCL_MSG0\<lparr>u_pack := frame @ suf\<rparr>) (int (length frame)) =
      Some (sint (W_CLAT (m_cluster_id m) i), decoded m (frame @ suf) (length frame))"
    and "i = (if m_cmd m = W_CMD_COMMAND_RQST then 0 else m_attr_id m)"
  shows "\<exists>frame. roundtrips m frame"
  using assms by (auto simp: roundtrips_def)

lemma length_value_bytes: "value_ok a clat p \<Longrightarrow> length (value_bytes p) \<le> 171"
  by (cases p) (auto simp: value_ok_def value_bytes_def W_ZCL_TIC_SIZE_def W_ZCL_SIZE_def word_le_nat_alt)

lemma length_be2s: "length (concat (map be2 vs)) = 2 * length vs"
  by (induction vs) simp_all

lemma length_conf_bytes: "conf_ok clat p \<Longrightarrow> length (conf_bytes clat p) \<le> 175"
  using power_count_le
  by (cases p) (auto simp: conf_ok_def conf_bytes_def AwZclEncodeSimpleConfig_def AwZclEncodeMeteringConfig_def length_be2s
      W_ZCL_TIC_SIZE_def min_def)

lemma value_frame:
  assumes ok: "watteco_ok m" and cmd: "value_command (m_cmd m)"
  shows "\<exists>frame. roundtrips m frame"
proof -
  let ?c = "m_cluster_id m" and ?i = "m_attr_id m" and ?p = "wire_param (W_CLAT (m_cluster_id m) (m_attr_id m)) (m_param m)" and ?flag = "0x11 OR push_bit 5 (m_epn m)"
  from cmd have nc: "m_cmd m \<noteq> W_CMD_COMMAND_RQST" by (auto simp: value_command_def const_defs)
  with ok cmd obtain a where e: "m_epn m < W_ZCL_EPN_MAX" and a: "AwZclAttribut ?c ?i = Some a" and g: "value_given a (W_CLAT ?c ?i) (m_param m)"
    by (auto simp: watteco_ok_def Let_def split: option.splits)
  note v = value_wire [OF g]
  then have rc: "received ?p = ?p" by (cases ?p) (simp_all add: received_def value_ok_def)
  define pre where "pre = [?flag, m_cmd m] @ be2 ?c @ be2 ?i @ (if m_cmd m = W_CMD_READ_ATTR_RESP then [m_status m] else []) @ [at_type a]"
  have dv: "AwZclDecodeReadAttrResp d ?c ?i (length pre) pend = Some (sint (W_CLAT ?c ?i), d\<lparr>m_param := ?p\<rparr>)"
    if "u_pack d = pre @ value_bytes ?p @ suf" for d suf pend
    using decode_value [OF a v that] .
  have enc: "\<exists>m1. encode_frame m = Some (pre @ value_bytes ?p, m1)"
    using e cmd encode_value [OF a g]
    by (auto simp: encode_frame_def pre_def value_command_def AwZclEncodeWritAttrRqst_def Let_def const_defs)
  have dec: "decode_frame (ZCL_MSG0\<lparr>u_pack := pre @ value_bytes ?p @ suf\<rparr>) (int (length pre + k)) =
      Some (sint (W_CLAT ?c ?i), decoded m (pre @ value_bytes ?p @ suf) (length pre + k))" for suf k
  proof -
    have pack: "pre @ value_bytes ?p @ suf = ?flag # m_cmd m # be2 ?c @ (drop 4 pre @ value_bytes ?p @ suf)"
      by (simp add: pre_def be2_def)
    from cmd obtain cm where cm: "AwZclCommand (m_cmd m) = Some cm" and
        k: "m_cmd m = W_CMD_READ_ATTR_RESP \<and> cm = TbCommand ! 1 \<or> m_cmd m = W_CMD_REPO_ATTR_EVNT \<and> cm = TbCommand ! 6 \<or>
            m_cmd m = W_CMD_WRIT_ATTR_RQST \<and> cm = TbCommand ! 7"
      by (auto simp: value_command_def commands)
    let ?pack = "pre @ value_bytes ?p @ suf"
    have at: "command_attribut cm ?c ?pack = Some (Inr (?i, Some a))"
      using k a by (elim disjE conjE; simp add: command_attribut_def TbCommand_def pre_def const_defs)
    have st: "(if cm_response cm \<and> cm_stat_offset cm \<noteq> 0 then rd1 ?pack (cm_stat_offset cm) else Some 0) =
        Some (if status_command (m_cmd m) then m_status m else 0)"
      using k by (elim disjE conjE; simp add: TbCommand_def pre_def status_command_def const_defs)
    have dir: "(if cm_direction_offset cm \<noteq> 0 then rd1 ?pack (cm_direction_offset cm) else Some 0) =
        Some (if direction_command (m_cmd m) then m_direction m else 0)"
      using k by (elim disjE conjE; simp add: TbCommand_def direction_command_def const_defs)
    have off: "cm_val_offset cm = length pre" "pre \<noteq> []"
      using k by (elim disjE conjE; simp add: TbCommand_def pre_def const_defs)+
    have par: "decode_param cm ?c ?i sz d = AwZclDecodeReadAttrResp d ?c ?i (length pre) (nat sz)" for sz d
      using k off(1) by (elim disjE conjE; simp add: decode_param_def AwZclDecodeRepoAttrResp_def AwZclDecodeWritAttrRqst_def
          TbCommand_def Let_def const_defs)
    show ?thesis
      using decode_frame_attr [OF pack e cm nc AwZclAttribut_SomeD(4) [OF a] at st dir] dv [of _ suf] cmd nc
      by (simp add: off par decoded_def rc Let_def)
  qed
  have "length pre \<le> 8" "pre \<noteq> []" by (simp_all add: pre_def)
  then show ?thesis
    using enc dec [of _ "length (value_bytes ?p)"] length_value_bytes [OF v] nc
    by (intro exI [of _ "pre @ value_bytes ?p"]) (simp add: roundtrips_def W_ZCL_SIZE_def)
qed

lemma conf_frame:
  assumes ok: "watteco_ok m" and cmd: "conf_command (m_cmd m)"
  shows "\<exists>frame. roundtrips m frame"
proof -
  let ?c = "m_cluster_id m" and ?i = "m_attr_id m" and ?p = "wire_param (W_CLAT (m_cluster_id m) (m_attr_id m)) (m_param m)" and ?flag = "0x11 OR push_bit 5 (m_epn m)"
  let ?body = "conf_bytes (W_CLAT ?c ?i) ?p"
  from cmd have nc: "m_cmd m \<noteq> W_CMD_COMMAND_RQST" by (auto simp: conf_command_def const_defs)
  with ok cmd obtain a where e: "m_epn m < W_ZCL_EPN_MAX" and a: "AwZclAttribut ?c ?i = Some a" and g: "conf_given (W_CLAT ?c ?i) (m_param m)"
    by (auto simp: watteco_ok_def Let_def split: option.splits)
  note v = conf_wire [OF g]
  define pre where "pre = [?flag, m_cmd m] @ be2 ?c @ (if m_cmd m = W_CMD_READ_CONF_RESP then [m_status m] else []) @ [m_direction m] @
      be2 ?i @ [at_type a]"
  have dv: "AwZclDecodeRepoConfRqst d ?c ?i (length pre) = Some (sint (W_CLAT ?c ?i), d\<lparr>m_param := received ?p\<rparr>)"
    if "u_pack d = pre @ ?body @ suf" "m_param d = NoParam" for d suf
    using decode_conf [OF v that] .
  have enc: "\<exists>m1. encode_frame m = Some (pre @ ?body, m1)"
    using e cmd encode_conf [OF a g]
    by (auto simp: encode_frame_def pre_def conf_command_def AwZclEncodeReadConfResp_def Let_def const_defs)
  have dec: "decode_frame (ZCL_MSG0\<lparr>u_pack := pre @ ?body @ suf\<rparr>) (int (length pre + k)) =
      Some (sint (W_CLAT ?c ?i), decoded m (pre @ ?body @ suf) (length pre + k))" for suf k
  proof -
    let ?pack = "pre @ ?body @ suf"
    have pack: "?pack = ?flag # m_cmd m # be2 ?c @ (drop 4 pre @ ?body @ suf)"
      by (simp add: pre_def be2_def)
    from cmd obtain cm where cm: "AwZclCommand (m_cmd m) = Some cm" and
        k: "m_cmd m = W_CMD_REPO_CONF_RQST \<and> cm = TbCommand ! 2 \<or> m_cmd m = W_CMD_READ_CONF_RESP \<and> cm = TbCommand ! 5"
      by (auto simp: conf_command_def commands)
    have at: "command_attribut cm ?c ?pack = Some (Inr (?i, Some a))"
      using k a by (elim disjE conjE; simp add: command_attribut_def TbCommand_def pre_def const_defs)
    have st: "(if cm_response cm \<and> cm_stat_offset cm \<noteq> 0 then rd1 ?pack (cm_stat_offset cm) else Some 0) =
        Some (if status_command (m_cmd m) then m_status m else 0)"
      using k by (elim disjE conjE; simp add: TbCommand_def pre_def status_command_def const_defs)
    have dir: "(if cm_direction_offset cm \<noteq> 0 then rd1 ?pack (cm_direction_offset cm) else Some 0) =
        Some (if direction_command (m_cmd m) then m_direction m else 0)"
      using k by (elim disjE conjE; simp add: TbCommand_def pre_def direction_command_def const_defs)
    have off: "cm_val_offset cm = length pre" "pre \<noteq> []"
      using k by (elim disjE conjE; simp add: TbCommand_def pre_def const_defs)+
    have par: "decode_param cm ?c ?i sz d = AwZclDecodeRepoConfRqst d ?c ?i (length pre)" for sz d
      using k off(1) by (elim disjE conjE; simp add: decode_param_def AwZclDecodeReadConfResp_def TbCommand_def Let_def const_defs)
    show ?thesis
      using decode_frame_attr [OF pack e cm nc AwZclAttribut_SomeD(4) [OF a] at st dir] dv [of _ suf] cmd nc
      by (simp add: off par decoded_def Let_def)
  qed
  have "length pre \<le> 9" "pre \<noteq> []" by (simp_all add: pre_def)
  then show ?thesis
    using enc dec [of _ "length ?body"] length_conf_bytes [OF v] nc
    by (intro exI [of _ "pre @ ?body"]) (simp add: roundtrips_def W_ZCL_SIZE_def)
qed

lemma plain_frame:
  assumes ok: "watteco_ok m" and cmd: "m_cmd m = W_CMD_READ_ATTR_RQST \<or> m_cmd m = W_CMD_READ_CONF_RQST \<or> m_cmd m = W_CMD_REPO_CONF_RESP"
  shows "\<exists>frame. roundtrips m frame"
proof -
  let ?c = "m_cluster_id m" and ?i = "m_attr_id m" and ?flag = "0x11 OR push_bit 5 (m_epn m)"
  from cmd have nc: "m_cmd m \<noteq> W_CMD_COMMAND_RQST" by (auto simp: const_defs)
  with ok obtain a where e: "m_epn m < W_ZCL_EPN_MAX" and a: "AwZclAttribut ?c ?i = Some a"
    by (auto simp: watteco_ok_def Let_def split: option.splits)
  define mid where "mid = (if m_cmd m = W_CMD_READ_ATTR_RQST then [] else
      if m_cmd m = W_CMD_REPO_CONF_RESP then [m_status m, m_direction m] else [m_direction m])"
  let ?frame = "?flag # m_cmd m # be2 ?c @ mid @ be2 ?i"
  have enc: "\<exists>m1. encode_frame m = Some (?frame, m1)"
    using e cmd by (auto simp: encode_frame_def mid_def const_defs)
  have dec: "decode_frame (ZCL_MSG0\<lparr>u_pack := ?frame @ suf\<rparr>) (int n) = Some (sint (W_CLAT ?c ?i), decoded m (?frame @ suf) n)" for suf n
  proof -
    let ?pack = "?frame @ suf"
    have pack: "?pack = ?flag # m_cmd m # be2 ?c @ (mid @ be2 ?i @ suf)" by simp
    from cmd obtain cm where cm: "AwZclCommand (m_cmd m) = Some cm" and
        k: "m_cmd m = W_CMD_READ_ATTR_RQST \<and> cm = TbCommand ! 0 \<or> m_cmd m = W_CMD_READ_CONF_RQST \<and> cm = TbCommand ! 4 \<or>
            m_cmd m = W_CMD_REPO_CONF_RESP \<and> cm = TbCommand ! 3"
      by (auto simp: commands)
    have at: "command_attribut cm ?c ?pack = Some (Inr (?i, Some a))"
      using k a by (elim disjE conjE; simp add: command_attribut_def TbCommand_def mid_def const_defs)
    have st: "(if cm_response cm \<and> cm_stat_offset cm \<noteq> 0 then rd1 ?pack (cm_stat_offset cm) else Some 0) =
        Some (if status_command (m_cmd m) then m_status m else 0)"
      using k by (elim disjE conjE; simp add: TbCommand_def mid_def status_command_def const_defs)
    have dir: "(if cm_direction_offset cm \<noteq> 0 then rd1 ?pack (cm_direction_offset cm) else Some 0) =
        Some (if direction_command (m_cmd m) then m_direction m else 0)"
      using k by (elim disjE conjE; simp add: TbCommand_def mid_def direction_command_def const_defs)
    have off: "cm_val_offset cm = 0" "\<not> value_command (m_cmd m)" "\<not> conf_command (m_cmd m)"
      using k by (elim disjE conjE; simp add: TbCommand_def value_command_def conf_command_def const_defs)+
    show ?thesis
      using decode_frame_attr [OF pack e cm nc AwZclAttribut_SomeD(4) [OF a] at st dir] nc
      by (simp add: off decoded_def Let_def)
  qed
  show ?thesis
    by (rule roundtripsI [OF enc _ _ dec]) (use nc in \<open>simp_all add: mid_def W_ZCL_SIZE_def\<close>)
qed

lemma command_frame:
  assumes ok: "watteco_ok m" and cmd: "m_cmd m = W_CMD_COMMAND_RQST"
  shows "\<exists>frame. roundtrips m frame"
proof -
  let ?frame = "(0x11 OR push_bit 5 (m_epn m)) # m_cmd m # be2 (m_cluster_id m) @ [m_cmd_value m]"
  from ok cmd obtain cl where e: "m_epn m < W_ZCL_EPN_MAX" and cl: "AwZclCluster (m_cluster_id m) = Some cl"
    by (auto simp: watteco_ok_def)
  have enc: "\<exists>m1. encode_frame m = Some (?frame, m1)"
    using e cmd by (simp add: encode_frame_def const_defs)
  have "\<not> W_ZCL_EPN_MAX \<le> m_epn m" using e by simp
  then have dec: "decode_frame (ZCL_MSG0\<lparr>u_pack := ?frame @ suf\<rparr>) (int n) =
      Some (sint (W_CLAT (m_cluster_id m) 0), decoded m (?frame @ suf) n)" for suf n
    using cmd cl flag_byte [OF e]
    by (simp add: decode_frame_def ZCL_MSG0_def commands TbCommand_def command_attribut_def decoded_def status_command_def
        direction_command_def value_command_def conf_command_def Let_def const_defs AwZclCommand_def)
  show ?thesis
    by (rule roundtripsI [OF enc _ _ dec]) (use cmd in \<open>simp_all add: W_ZCL_SIZE_def\<close>)
qed

lemma frame_roundtrips: "watteco_ok m \<Longrightarrow> \<exists>frame. roundtrips m frame"
  using value_frame [of m] conf_frame [of m] plain_frame [of m] command_frame [of m] known_commands [of "m_cmd m"]
  by (auto simp: watteco_ok_def value_command_def conf_command_def)

lemma AwZclDecode_bytes:
  assumes "0 < length b" "length b \<le> W_ZCL_SIZE"
  shows "AwZclDecode (Some m0) (Some b) (int (length b)) =
    map_option (\<lambda>(ret, m). (ret, Some m))
      (decode_frame (ZCL_MSG0\<lparr>u_pack := b @ replicate (W_ZCL_SIZE - length b) 0\<rparr>) (int (length b)))"
  using assms by (simp add: AwZclDecode_def mem_simps)

text \<open>C20: a message that the driver may build (an end point in range, a known command for a known attribute
  or cluster, a value or a report configuration of the attribute's kind, arrays of the C sizes), once encoded
  into its own buffer, decodes from the bytes of the frame to the same end point, command, cluster and
  attribute, to the status, direction and command byte where its command carries them, and to what the frame
  keeps of the parameter: numbers cut to the frame's 8, 16 or 24 bits, a meter kind 0 sent as 0x0c, at most
  16 bytes of a byte string. The report configurations of meter data and of power levels are encoded,
  but the decoder has no case for them and gives back no parameter. The frame fits the 200 bytes of the buffer.\<close>

theorem watteco_roundtrip:
  assumes "watteco_ok m" "length (u_pack m) = W_ZCL_SIZE"
  shows "\<exists>n m'. AwZclEncode m None szmax = Some (int n, m', None) \<and> n \<le> W_ZCL_SIZE \<and>
    AwZclDecode (Some m0) (Some (take n (u_pack m'))) (int n) =
      Some (sint (W_CLAT (m_cluster_id m) (if m_cmd m = W_CMD_COMMAND_RQST then 0 else m_attr_id m)),
            Some (decoded m (u_pack m') n))"
proof -
  let ?m = "m\<lparr>m_size := 0, m_xxcode := 69\<rparr>"
  have "watteco_ok ?m" using assms(1) by (simp add: watteco_ok_def Let_def split: option.splits if_splits)
  from frame_roundtrips [OF this] obtain frame m1 where f: "roundtrips ?m frame" "encode_frame ?m = Some (frame, m1)"
    by (auto simp: roundtrips_def)
  let ?pack = "frame @ replicate (W_ZCL_SIZE - length frame) 0"
  have enc: "AwZclEncode m None szmax =
      Some (int (length frame), m1\<lparr>m_size := of_nat (length frame), u_pack := ?pack\<rparr>, None)"
    using f assms(2) by (simp add: AwZclEncode_def roundtrips_def mem_simps Let_def)
  have "decoded ?m = decoded m" by (simp add: decoded_def fun_eq_iff)
  with f(1) AwZclDecode_bytes [of frame m0] have
    "AwZclDecode (Some m0) (Some frame) (int (length frame)) =
      Some (sint (W_CLAT (m_cluster_id m) (if m_cmd m = W_CMD_COMMAND_RQST then 0 else m_attr_id m)),
            Some (decoded m ?pack (length frame)))"
    by (simp add: roundtrips_def)
  with enc f(1) show ?thesis
    by (intro exI [of _ "length frame"] exI [of _ "m1\<lparr>m_size := of_nat (length frame), u_pack := ?pack\<rparr>"])
       (simp add: roundtrips_def)
qed

definition TEMPERATURE_REPORT :: t_zcl_msg where
  "TEMPERATURE_REPORT = ZCL_MSG0\<lparr>m_epn := 2, m_cmd := W_CMD_REPO_ATTR_EVNT, m_cluster_id := W_CLU_TEMPERATURE, m_param := Uint2 2150\<rparr>"

text \<open>The configuration that the driver builds for a meter: the kind of meter is left zero.\<close>

definition METER_CONFIG :: t_zcl_msg where
  "METER_CONFIG = ZCL_MSG0\<lparr>m_cmd := W_CMD_REPO_CONF_RQST, m_cluster_id := W_CLU_SIMPLEMETER,
     m_param := MeteringConfig \<lparr>mc_min_time = 300, mc_max_time = 3600, mc_metersz = 0, mc_sumWh = 1, mc_sumVarh = 1,
                                mc_count = 0, mc_curWh = 0, mc_curVarh = 0\<rparr>\<rparr>"

theorem watteco_roundtrip_witness:
  "(\<exists>n m'. AwZclEncode TEMPERATURE_REPORT None 0 = Some (int n, m', None) \<and> n \<le> W_ZCL_SIZE \<and>
     AwZclDecode (Some ZCL_MSG0) (Some (take n (u_pack m'))) (int n) =
       Some (sint (W_CLAT W_CLU_TEMPERATURE 0), Some (decoded TEMPERATURE_REPORT (u_pack m') n))) \<and>
   (\<exists>n m' d. AwZclEncode METER_CONFIG None 0 = Some (int n, m', None) \<and>
     AwZclDecode (Some ZCL_MSG0) (Some (take n (u_pack m'))) (int n) = Some (sint (W_CLAT W_CLU_SIMPLEMETER 0), Some d) \<and>
     m_param d = MeteringConfig \<lparr>mc_min_time = 300, mc_max_time = 3600, mc_metersz = 0x0c, mc_sumWh = 1, mc_sumVarh = 1,
                                mc_count = 0, mc_curWh = 0, mc_curVarh = 0\<rparr>)"
proof
  have ok: "watteco_ok TEMPERATURE_REPORT" "watteco_ok METER_CONFIG" by code_simp+
  have len: "length (u_pack TEMPERATURE_REPORT) = W_ZCL_SIZE" "length (u_pack METER_CONFIG) = W_ZCL_SIZE"
    by (simp_all add: TEMPERATURE_REPORT_def METER_CONFIG_def ZCL_MSG0_def)
  have f: "m_cluster_id TEMPERATURE_REPORT = W_CLU_TEMPERATURE" "m_attr_id TEMPERATURE_REPORT = 0"
    "m_cmd TEMPERATURE_REPORT \<noteq> W_CMD_COMMAND_RQST" "m_cluster_id METER_CONFIG = W_CLU_SIMPLEMETER" "m_attr_id METER_CONFIG = 0"
    "m_cmd METER_CONFIG \<noteq> W_CMD_COMMAND_RQST"
    by (simp_all add: TEMPERATURE_REPORT_def METER_CONFIG_def ZCL_MSG0_def const_defs)
  show "\<exists>n m'. AwZclEncode TEMPERATURE_REPORT None 0 = Some (int n, m', None) \<and> n \<le> W_ZCL_SIZE \<and>
     AwZclDecode (Some ZCL_MSG0) (Some (take n (u_pack m'))) (int n) =
       Some (sint (W_CLAT W_CLU_TEMPERATURE 0), Some (decoded TEMPERATURE_REPORT (u_pack m') n))"
    using watteco_roundtrip [OF ok(1) len(1), of 0 ZCL_MSG0] f by simp
  have "m_param (decoded METER_CONFIG pack n) = MeteringConfig \<lparr>mc_min_time = 300, mc_max_time = 3600, mc_metersz = 0x0c,
      mc_sumWh = 1, mc_sumVarh = 1, mc_count = 0, mc_curWh = 0, mc_curVarh = 0\<rparr>" for pack n
    by (simp add: decoded_def METER_CONFIG_def conf_command_def received_def wire_param_def)
  then show "\<exists>n m' d. AwZclEncode METER_CONFIG None 0 = Some (int n, m', None) \<and>
     AwZclDecode (Some ZCL_MSG0) (Some (take n (u_pack m'))) (int n) = Some (sint (W_CLAT W_CLU_SIMPLEMETER 0), Some d) \<and>
     m_param d = MeteringConfig \<lparr>mc_min_time = 300, mc_max_time = 3600, mc_metersz = 0x0c, mc_sumWh = 1, mc_sumVarh = 1,
                                mc_count = 0, mc_curWh = 0, mc_curVarh = 0\<rparr>"
    using watteco_roundtrip [OF ok(2) len(2), of 0 ZCL_MSG0] f by auto
qed

subsection \<open>Frames from outside\<close>

lemma rd_in [mem_simps]:
  "k < length xs \<Longrightarrow> rd1 xs k = Some (xs ! k)" "k + 1 < length xs \<Longrightarrow> rd2 xs k = Some (ntoh2 (xs ! k) (xs ! (k + 1)))"
  "k + 2 < length xs \<Longrightarrow> rd3 xs k \<noteq> None" "k + 3 < length xs \<Longrightarrow> rd4 xs k \<noteq> None"
  by (auto simp: rd1_def rd2_def rd3_def rd4_def idx_def)

lemma decode_levels_cases:
  "i + n \<le> length levels \<Longrightarrow> param + 2 * n \<le> length pack \<Longrightarrow> decode_levels n i param levels pack \<noteq> None"
  "i \<le> length levels \<Longrightarrow> length levels < i + n \<Longrightarrow> decode_levels n i param levels pack = None"
proof (induction n i param levels pack rule: decode_levels.induct)
  case (2 n i param levels pack)
  { case 1 then show ?case using "2.IH"(1) by (auto simp: mem_simps) }
  { case 2 then show ?case using "2.IH"(2) by (cases "rd2 pack param") auto }
qed auto

lemma digits_inj:
  assumes "(y :: nat) < k" "w < k"
  shows "x * k + y = z * k + w \<longleftrightarrow> x = z \<and> y = w"
proof
  assume "x * k + y = z * k + w"
  then have "(x * k + y) div k = (z * k + w) div k" "(x * k + y) mod k = (z * k + w) mod k" by simp_all
  then show "x = z \<and> y = w" using assms by simp
qed simp

lemma W_CLAT_inj: "W_CLAT a b = W_CLAT c d \<longleftrightarrow> a = c \<and> b = d"
proof -
  have u: "unat (W_CLAT x y) = unat x * 65536 + unat y" for x y
  proof -
    have "unat x * 65536 + unat y < 2 ^ 32" using unat_u16_bound [of x] unat_u16_bound [of y] by simp
    moreover have "unat (ucast x :: u32) = unat x" "unat (ucast y :: u32) = unat y"
      using unat_u16_bound [of x] unat_u16_bound [of y] by (simp_all add: unsigned_ucast_eq take_bit_nat_eq_self)
    ultimately show ?thesis
      by (simp add: W_CLAT_def push_bit_eq_mult unat_word_ariths)
  qed
  have "W_CLAT a b = W_CLAT c d \<longleftrightarrow> unat (W_CLAT a b) = unat (W_CLAT c d)" by (simp add: word_eq_unat_iff)
  also have "\<dots> \<longleftrightarrow> a = c \<and> b = d"
    unfolding u by (subst digits_inj) (simp_all add: unat_u16_bound word_eq_unat_iff)
  finally show ?thesis .
qed

text \<open>The parameters whose length the frame does not choose.\<close>

lemma plain_value_defined:
  assumes "param + 13 \<le> length (u_pack m)" "clid \<notin> {W_CLU_CONFIGURATION, W_CLU_TICICE, W_CLU_TICCBE, W_CLU_TICCJE}"
  shows "AwZclDecodeReadAttrResp m clid atid param pend \<noteq> None"
proof (cases "AwZclAttribut clid atid")
  case (Some a)
  have ids: "at_cl_id a = clid" "at_id a = atid" "attr_kind a" using AwZclAttribut_SomeD [OF Some] by auto
  have out: "W_CLAT clid atid \<notin> set TIC_CLATS" "W_CLAT clid atid \<noteq> W_CLAT W_CLU_CONFIGURATION k" for k
    using assms(2) by (auto simp: TIC_CLATS_def W_CLAT_inj)
  obtain v w where "AwZclDecodeMeteringValue (u_pack m) param = Some v" "rd4 (u_pack m) param = Some w"
    using assms(1) by (auto simp: AwZclDecodeMeteringValue_def rd1_def rd2_def rd3_def rd4_def idx_def)
  with Some ids out assms(1) show ?thesis
    by (auto simp: AwZclDecodeReadAttrResp_def attr_kind_def Let_def mem_simps)
qed (simp add: AwZclDecodeReadAttrResp_def)

lemma plain_conf_defined:
  assumes "param + 17 \<le> length (u_pack m)"
  shows "AwZclDecodeRepoConfRqst m clid atid param \<noteq> None"
proof -
  have "AwZclDecodeMeteringConfig (u_pack m) param \<noteq> None" "AwZclDecodeSimpleConfig (u_pack m) param nbb \<noteq> None" for nbb
    using assms by (auto simp: AwZclDecodeMeteringConfig_def AwZclDecodeSimpleConfig_def rd1_def rd2_def rd3_def rd4_def idx_def)
  then show ?thesis by (simp add: AwZclDecodeRepoConfRqst_def Let_def bind_eq_None_conv del: not_None_eq)
qed

lemma decode_param_defined:
  assumes "AwZclCommand c = Some cm" "length (u_pack m) = W_ZCL_SIZE"
    "clid \<notin> {W_CLU_CONFIGURATION, W_CLU_TICICE, W_CLU_TICCBE, W_CLU_TICCJE}"
  shows "decode_param cm clid atid sz m \<noteq> None"
proof -
  have "cm_val_offset cm \<le> 9" using assms(1) by (auto simp: AwZclCommand_def TbCommand_def split: if_splits)
  then show ?thesis
    using assms(2,3) plain_value_defined [of "cm_val_offset cm" m clid] plain_conf_defined [of "cm_val_offset cm" m]
    by (simp add: decode_param_def AwZclDecodeRepoAttrResp_def AwZclDecodeWritAttrRqst_def AwZclDecodeReadConfResp_def
        Let_def W_ZCL_SIZE_def del: not_None_eq)
qed

lemma command_attribut_defined:
  assumes "AwZclCommand c = Some cm" "length pack = W_ZCL_SIZE"
  shows "command_attribut cm clid pack \<noteq> None"
proof -
  have "cm_id_offset cm \<le> 6" using assms(1) by (auto simp: AwZclCommand_def TbCommand_def split: if_splits)
  then show ?thesis using assms(2) by (auto simp: command_attribut_def Let_def mem_simps W_ZCL_SIZE_def)
qed

text \<open>C21: decoding never leaves the frame's buffer or an array of the message, whatever the bytes, for every cluster but
  the configuration and the three electricity meters' data (whose values carry their own lengths).\<close>

theorem watteco_decode_defined:
  assumes "0 < length b" "length b \<le> W_ZCL_SIZE" "pack = b @ replicate (W_ZCL_SIZE - length b) 0"
    "ntoh2 (pack ! 2) (pack ! 3) \<notin> {W_CLU_CONFIGURATION, W_CLU_TICICE, W_CLU_TICCBE, W_CLU_TICCJE}"
  shows "AwZclDecode (Some m0) (Some b) (int (length b)) \<noteq> None"
proof -
  have l: "length pack = W_ZCL_SIZE" using assms by simp
  have small: "cm_val_offset cm < W_ZCL_SIZE \<and> cm_stat_offset cm < W_ZCL_SIZE \<and> cm_direction_offset cm < W_ZCL_SIZE"
    if "AwZclCommand c = Some cm" for c cm
    using that by (auto simp: AwZclCommand_def TbCommand_def W_ZCL_SIZE_def split: if_splits)
  have "decode_frame (ZCL_MSG0\<lparr>u_pack := pack\<rparr>) (int (length b)) \<noteq> None"
  proof (cases "AwZclCommand (pack ! 1)")
    case None
    with l show ?thesis by (simp add: decode_frame_def Let_def mem_simps W_ZCL_SIZE_def)
  next
    case (Some cm)
    have "rd1 pack k = Some (pack ! k)" if "k < W_ZCL_SIZE" for k using that l by (simp add: mem_simps)
    moreover have "rd2 pack 2 = Some (ntoh2 (pack ! 2) (pack ! 3))" using l by (simp add: mem_simps W_ZCL_SIZE_def)
    moreover obtain r where "command_attribut cm (ntoh2 (pack ! 2) (pack ! 3)) pack = Some r"
      using command_attribut_defined [OF Some l, of "ntoh2 (pack ! 2) (pack ! 3)"] by blast
    ultimately show ?thesis
      using Some small [OF Some] decode_param_defined [OF Some _ assms(4)] l
      by (cases r) (simp_all add: decode_frame_def Let_def bind_eq_None_conv W_ZCL_SIZE_def split: option.split prod.split del: not_None_eq)
  qed
  then show ?thesis using AwZclDecode_bytes [of b m0] assms by simp
qed

theorem watteco_decode_defined_witness:
  "AwZclDecode (Some ZCL_MSG0) (Some [0x31, 0x09, 0x04, 0x02, 0xFF]) 5 \<noteq> None"
  using watteco_decode_defined [of "[0x31, 0x09, 0x04, 0x02, 0xFF]" _ ZCL_MSG0, OF _ _ refl]
  by (simp add: ntoh2_def W_ZCL_SIZE_def const_defs)

text \<open>A report of an attribute that is not a simple value.\<close>

lemma decode_report:
  assumes pack: "pack = 0x11 # W_CMD_REPO_ATTR_EVNT # be2 cl @ be2 atid @ rest" and a: "AwZclAttribut cl atid = Some a" and sz: "7 \<le> sz"
  shows "\<exists>d. u_pack d = pack \<and> decode_frame (ZCL_MSG0\<lparr>u_pack := pack\<rparr>) sz = AwZclDecodeReadAttrResp d cl atid 7 (nat sz)"
proof -
  let ?cm = "TbCommand ! 6"
  have p: "pack = (0x11 OR push_bit 5 0) # W_CMD_REPO_ATTR_EVNT # be2 cl @ (be2 atid @ rest)" by (simp add: pack)
  have nc: "W_CMD_REPO_ATTR_EVNT \<noteq> W_CMD_COMMAND_RQST" "0 < W_ZCL_EPN_MAX" by (simp_all add: const_defs W_ZCL_EPN_MAX_def)
  have at: "command_attribut ?cm cl pack = Some (Inr (atid, Some a))"
    using a by (simp add: pack command_attribut_def TbCommand_def const_defs)
  have "decode_param ?cm cl atid sz d = AwZclDecodeReadAttrResp d cl atid 7 (nat sz)" for d
    by (simp add: decode_param_def AwZclDecodeRepoAttrResp_def TbCommand_def Let_def const_defs)
  with decode_frame_attr [OF p nc(2) commands(7) nc(1) AwZclAttribut_SomeD(4) [OF a] at, of 0 0 sz] sz show ?thesis
    by (simp add: TbCommand_def Let_def) (metis t_zcl_msg.select_convs(1))
qed

lemma half_count: "unat ((n - 2) div 2 :: u8) \<le> 10 \<longleftrightarrow> 2 \<le> unat n \<and> unat n < 24"
proof (cases "2 \<le> unat n")
  case True
  then have "unat (n - 2) = unat n - 2" by (simp add: unat_sub word_le_nat_alt)
  with True show ?thesis by (simp add: unat_div) arith
next
  case False
  then have "n = 0 \<or> n = 1" by (auto simp: word_eq_unat_iff)
  then show ?thesis by auto
qed

lemma tic_length:
  assumes "u_pack d = pre @ n # rest" "length pre = 7" "length rest = 192"
  shows "AwZclDecodeReadAttrResp d W_CLU_TICCBE 0 7 pend = None \<longleftrightarrow> 170 < unat n"
proof -
  have "AwZclAttribut W_CLU_TICCBE 0 = Some (attribut W_CLU_TICCBE 0 0x41 0)" by code_simp
  moreover have "rd1 (u_pack d) 7 = Some n" using assms by (simp add: rd_append)
  moreover have "memread 8 (unat n) (u_pack d) = (if unat n \<le> 192 then Some (take (unat n) rest) else None)"
    using assms by (simp add: memread_def)
  moreover have "W_CLAT W_CLU_TICCBE 0 \<in> set TIC_CLATS" by (simp add: TIC_CLATS_def)
  ultimately show ?thesis
    using assms(3) clats_apart(1) [of "W_CLAT W_CLU_TICCBE 0"]
    by (simp add: AwZclDecodeReadAttrResp_def attribut_def Let_def memcpy_at_def W_ZCL_TIC_SIZE_def min_def)
qed

lemma power_length:
  assumes "u_pack d = pre @ n # rest" "length pre = 7" "length rest = 192"
  shows "AwZclDecodeReadAttrResp d W_CLU_CONFIGURATION 6 7 pend = None \<longleftrightarrow> unat n < 2 \<or> 24 \<le> unat n"
proof -
  let ?count = "unat ((n - 2) div 2)"
  have "AwZclAttribut W_CLU_CONFIGURATION 6 = Some (attribut W_CLU_CONFIGURATION 6 0x41 0)" by code_simp
  moreover have "rd1 (u_pack d) 7 = Some n" "rd1 (u_pack d) 8 = Some (rest ! 0)" "rd1 (u_pack d) 9 = Some (rest ! 1)"
    using assms by (simp_all add: rd_append mem_simps nth_append)
  moreover have "W_CLAT W_CLU_CONFIGURATION 6 \<notin> set TIC_CLATS" "W_CLAT W_CLU_CONFIGURATION 6 \<noteq> W_CLAT W_CLU_SIMPLEMETER 0"
    "W_CLAT W_CLU_CONFIGURATION 6 \<noteq> W_CLAT W_CLU_CONFIGURATION 0" "W_CLAT W_CLU_CONFIGURATION 6 \<noteq> W_CLAT W_CLU_CONFIGURATION 2"
    "W_CLAT W_CLU_CONFIGURATION 6 \<noteq> W_CLAT W_CLU_CONFIGURATION 4"
    by (simp_all add: clat_defs)
  moreover have "decode_levels ?count 0 10 (replicate 10 0) (u_pack d) = None \<longleftrightarrow> \<not> ?count \<le> 10"
    using decode_levels_cases(1) [of 0 ?count "replicate 10 0" 10 "u_pack d"] decode_levels_cases(2) [of 0 "replicate 10 0" ?count 10 "u_pack d"] assms by auto
  ultimately have "AwZclDecodeReadAttrResp d W_CLU_CONFIGURATION 6 7 pend = None \<longleftrightarrow> \<not> ?count \<le> 10"
    by (simp add: AwZclDecodeReadAttrResp_def attribut_def Let_def bind_eq_None_conv)
  then show ?thesis using half_count [of n] by auto
qed

lemma decode_report_bytes:
  assumes "length data \<le> 192" "AwZclAttribut cl atid = Some a"
  shows "\<exists>d. u_pack d = ([0x11, 0x0A] @ be2 cl @ be2 atid @ [0x41]) @ n # data @ replicate (192 - length data) 0 \<and>
    (AwZclDecode (Some m0) (Some ([0x11, 0x0A] @ be2 cl @ be2 atid @ [0x41, n] @ data)) (int (8 + length data)) = None \<longleftrightarrow>
     AwZclDecodeReadAttrResp d cl atid 7 (8 + length data) = None)"
proof -
  define b where "b = [0x11, 0x0A] @ be2 cl @ be2 atid @ [0x41, n] @ data"
  have len: "length b = 8 + length data" by (simp add: b_def)
  have p: "b @ replicate (W_ZCL_SIZE - length b) 0 =
      0x11 # W_CMD_REPO_ATTR_EVNT # be2 cl @ be2 atid @ ([0x41, n] @ data @ replicate (192 - length data) 0)"
    unfolding len by (simp add: b_def W_ZCL_SIZE_def const_defs)
  have "7 \<le> int (length b)" using len by simp
  from decode_report [OF p assms(2) this] obtain d where d: "u_pack d = b @ replicate (W_ZCL_SIZE - length b) 0"
    "decode_frame (ZCL_MSG0\<lparr>u_pack := b @ replicate (W_ZCL_SIZE - length b) 0\<rparr>) (int (length b)) =
     AwZclDecodeReadAttrResp d cl atid 7 (nat (int (length b)))" by blast
  have "AwZclDecode (Some m0) (Some b) (int (length b)) = None \<longleftrightarrow> AwZclDecodeReadAttrResp d cl atid 7 (length b) = None"
  proof -
    have "0 < length b" "length b \<le> W_ZCL_SIZE" using len assms(1) by (simp_all add: W_ZCL_SIZE_def)
    from AwZclDecode_bytes [OF this, of m0] show ?thesis unfolding d(2) nat_int by simp
  qed
  moreover have "u_pack d = ([0x11, 0x0A] @ be2 cl @ be2 atid @ [0x41]) @ n # data @ replicate (192 - length data) 0"
    unfolding d(1) p by (simp add: const_defs)
  ultimately have "u_pack d = ([0x11, 0x0A] @ be2 cl @ be2 atid @ [0x41]) @ n # data @ replicate (192 - length data) 0 \<and>
    (AwZclDecode (Some m0) (Some b) (int (length b)) = None \<longleftrightarrow> AwZclDecodeReadAttrResp d cl atid 7 (length b) = None)" by (intro conjI)
  then show ?thesis unfolding len unfolding b_def by (rule exI [of _ d])
qed

text \<open>C36: the two lengths that the decoder takes from the frame without a check: a report of meter data overruns the 170
  bytes of the message exactly when its length byte is above 170, and a report of power levels overruns the ten levels
  exactly when its size byte is 0 or 1 (the count wraps around to 127) or at least 24.\<close>

theorem watteco_lengths_unchecked:
  assumes "length data \<le> 192"
  shows "(AwZclDecode (Some m0) (Some ([0x11, 0x0A, 0x00, 0x54, 0x00, 0x00, 0x41, n] @ data)) (int (8 + length data)) = None \<longleftrightarrow>
          170 < unat n) \<and>
         (AwZclDecode (Some m0) (Some ([0x11, 0x0A, 0x00, 0x50, 0x00, 0x06, 0x41, n] @ data)) (int (8 + length data)) = None \<longleftrightarrow>
          unat n < 2 \<or> 24 \<le> unat n)"
proof
  have be: "be2 W_CLU_TICCBE = [0x00, 0x54]" "be2 0 = [0x00, 0x00]" "be2 W_CLU_CONFIGURATION = [0x00, 0x50]" "be2 6 = [0x00, 0x06]"
    by (simp_all add: be2_def const_defs)
  have "AwZclAttribut W_CLU_TICCBE 0 = Some (attribut W_CLU_TICCBE 0 0x41 0)" by code_simp
  from decode_report_bytes [OF assms this, of n m0] obtain d where
    d: "u_pack d = ([0x11, 0x0A] @ be2 W_CLU_TICCBE @ be2 0 @ [0x41]) @ n # data @ replicate (192 - length data) 0" and
    e: "AwZclDecode (Some m0) (Some ([0x11, 0x0A] @ be2 W_CLU_TICCBE @ be2 0 @ [0x41, n] @ data)) (int (8 + length data)) = None \<longleftrightarrow>
     AwZclDecodeReadAttrResp d W_CLU_TICCBE 0 7 (8 + length data) = None" by (elim exE conjE)
  have "length (data @ replicate (192 - length data) (0 :: u8)) = 192" using assms by simp
  from tic_length [OF d _ this]
  have "AwZclDecodeReadAttrResp d W_CLU_TICCBE 0 7 (8 + length data) = None \<longleftrightarrow> 170 < unat n" by simp
  from trans [OF e this] show "AwZclDecode (Some m0) (Some ([0x11, 0x0A, 0x00, 0x54, 0x00, 0x00, 0x41, n] @ data))
      (int (8 + length data)) = None \<longleftrightarrow> 170 < unat n"
    unfolding be append_Cons append_Nil .
  have "AwZclAttribut W_CLU_CONFIGURATION 6 = Some (attribut W_CLU_CONFIGURATION 6 0x41 0)" by code_simp
  from decode_report_bytes [OF assms this, of n m0] obtain d where
    d: "u_pack d = ([0x11, 0x0A] @ be2 W_CLU_CONFIGURATION @ be2 6 @ [0x41]) @ n # data @ replicate (192 - length data) 0" and
    e: "AwZclDecode (Some m0) (Some ([0x11, 0x0A] @ be2 W_CLU_CONFIGURATION @ be2 6 @ [0x41, n] @ data)) (int (8 + length data)) = None \<longleftrightarrow>
     AwZclDecodeReadAttrResp d W_CLU_CONFIGURATION 6 7 (8 + length data) = None" by (elim exE conjE)
  have "length (data @ replicate (192 - length data) (0 :: u8)) = 192" using assms by simp
  from power_length [OF d _ this]
  have "AwZclDecodeReadAttrResp d W_CLU_CONFIGURATION 6 7 (8 + length data) = None \<longleftrightarrow> unat n < 2 \<or> 24 \<le> unat n" by simp
  from trans [OF e this] show "AwZclDecode (Some m0) (Some ([0x11, 0x0A, 0x00, 0x50, 0x00, 0x06, 0x41, n] @ data))
      (int (8 + length data)) = None \<longleftrightarrow> unat n < 2 \<or> 24 \<le> unat n"
    unfolding be append_Cons append_Nil .
qed

theorem watteco_lengths_unchecked_witness:
  "AwZclDecode (Some ZCL_MSG0) (Some [0x11, 0x0A, 0x00, 0x54, 0x00, 0x00, 0x41, 171]) 8 = None \<and>
   AwZclDecode (Some ZCL_MSG0) (Some [0x11, 0x0A, 0x00, 0x50, 0x00, 0x06, 0x41, 0]) 8 = None \<and>
   AwZclDecode (Some ZCL_MSG0) (Some [0x11, 0x0A, 0x00, 0x50, 0x00, 0x06, 0x41, 22]) 8 \<noteq> None"
  using watteco_lengths_unchecked [of "[]" ZCL_MSG0 171] watteco_lengths_unchecked [of "[]" ZCL_MSG0 0]
    watteco_lengths_unchecked [of "[]" ZCL_MSG0 22]
  by (simp del: not_None_eq)

end
