(* ===== verification/Spec2Isabelle.thy ===== *)
theory Spec2Isabelle
  imports Rtl_Base64 Rtl_Htbl Rtl_Imsg Uart_Buf Format_Znp Format_Af Request_Manager Znp_Start Azap_Api_Impl Zcl_Safety
    Port_Context Port_Run Azap_Api Azap_Safety Zcl_Attr_Val Attr_Codec Attr_Time Azap_Attribute Azap_Tools
    Rtl_Path Rtl_Poll Port_Poll Watteco_Codec
begin

text \<open>
  Verification of the AZAP ZigBee driver library of the ONG gateway (src/drivers/AZAP) and of the
  parts of the runtime library (src/common/rtbase) that carry the gateway's data: the Base64 codec,
  the hash tables, the message and timer queues, the poll table of the main loop, the variables in
  strings. The message codec of a second driver, for the Watteco sensors (src/drivers/watteco), is a part of its own.

  \<^bold>\<open>The program.\<close> AZAP drives a TI CC2530 ZigBee dongle behind a serial line. Bytes read from the
  TTY enter a ring buffer, from which an incremental parser takes ZNP frames. While the dongle is
  being configured, the frames feed the start state machine; afterwards they are ZDO and ZCL
  messages, which are parsed, correlated with a pending request and handed to the user through a
  table of callbacks. A request of the user is formatted, admitted by the request manager (the
  dongle supports few requests at a time) or postponed, framed, and put into the transmit ring
  buffer that the poll loop drains. Two clocks age the requests and run the receive path.

  \<^bold>\<open>The theories\<close>, in the order of the code's layers:

  \<^item> \<open>Ong_Prelude\<close>: C integers as words, arrays as lists with checked accesses, shared lemmas. An
    operation that can run into undefined behaviour returns an option, \<open>None\<close> being the
    undefined behaviour; a theorem that concludes \<open>Some\<close> therefore is a memory safety theorem too.
  \<^item> \<open>Rtl_Base64\<close> (rtbase/lib/base64.c): the codec, equal to a reference that regroups bits, its round
    trip, and the bounds of the decoder on arbitrary input.
  \<^item> \<open>Rtl_Htbl\<close> (rtbase/lib/hashtbl.c): the chained hash table. The locale \<open>unique_dict\<close> is a
    dictionary that refuses to overwrite, interpreted on tables with string and with number keys;
    the data that a table owns is released once.
  \<^item> \<open>Rtl_Imsg\<close> (rtbase/lib/message.c): the queue of messages and timers as a step relation with
    its invariant. The locale \<open>stable_queue\<close> is the contract of the timer list.
  \<^item> \<open>Rtl_Poll\<close> (rtbase/lib/poll.c): the table of descriptors and the functions to call for them, a
    map from descriptors to registrations (the locale \<open>step_refinement\<close> is the contract), and the turn
    of the main loop, with functions that may change the table.
  \<^item> \<open>Rtl_Path\<close> (rtbase/lib/dolpath.c, dolpath2.c): the replacement of variables in a string, equal to the
    value of a template, and the size of the buffer it needs.
  \<^item> \<open>Uart_Buf\<close> (uart\_buf\_control.c): the ring buffer and the frame parser. The locale
    \<open>byte_fifo\<close> is the contract of a bounded byte queue, interpreted on the ring; the parser refines
    a reference parser on the byte stream, for every way of cutting the stream into reads.
  \<^item> \<open>Format_Znp\<close> (format\_znp.c, format\_znp\_sys.c, format\_znp\_zdo.c): field codecs and frames; a
    frame sent is received.
  \<^item> \<open>Format_Af\<close> (format\_znp\_af.c): AF and ZCL messages, the parsers of ZCL responses.
  \<^item> \<open>Azap_Types\<close>: the structs shared by the components below.
  \<^item> \<open>Request_Manager\<close> (request\_context.c, postponed\_request\_elts.c, request\_manager.c): admission,
    postponement, correlation, ageing. The locale \<open>admission\<close> is the contract between the check and
    the scheduler. The expiry of a request calls a member of the user's table of callbacks without
    testing it: the call through NULL is \<open>None\<close>, and a tick is defined exactly when every request
    that expires has its callback (\<open>age_None_iff\<close>, \<open>tic_None_iff\<close>, \<open>tic_calls_null\<close>).
  \<^item> \<open>Znp_Start\<close> (znp\_start\_sm.c): the start procedure as a step relation with its invariant,
    reachability and termination; a run with a dongle that answers.
  \<^item> \<open>Azap_Api_Impl\<close>, \<open>Zcl_Safety\<close> (azap\_api\_impl.c): delivery of each message to its callback, and
    the memory safety of the ZCL parsers it uses.
  \<^item> \<open>Port_Context\<close>, \<open>Port_Run\<close> (port\_context.c): the port that owns all of the above, and the
    invariant that its receive path and its sending keep. A request that is sent has put its frame
    (\<open>request_frame\<close>) behind what the transmit buffer held; one without room is refused (\<open>filed\<close>).
  \<^item> \<open>Port_Poll\<close> (port\_context.c with rtbase/lib/poll.c): the two poll functions of a port run by the main
    loop: its invariant is kept whatever the system answers, and the bytes of a turn that fit move between TTY and buffers.
  \<^item> \<open>Azap_Api\<close>, \<open>Azap_Safety\<close> (azap\_api.c, azap\_endpoint.c): the API calls over the table of ports; the
    locale \<open>payload_encoder\<close> is shared by the three ZCL encoders; any legal sequence of calls is
    free of undefined behaviour, legal meaning among other things that a request comes with the callbacks it
    can end in.
  \<^item> \<open>Zcl_Attr_Val\<close>, \<open>Attr_Codec\<close>, \<open>Attr_Time\<close> (azap\_zcl\_attr\_val.c): the typed attribute values, with
    an invariant that every operation keeps, the bounds of the serializer, the encoding of each
    class of values and its round trip, and the inputs for which they fail. The C library's
    calendar functions and the conversions between \<open>float\<close> and \<open>double\<close> are defined on integers and bit
    patterns.
  \<^item> \<open>Azap_Attribute\<close> (azap\_attribute.c, azap\_endpoint.c): the attribute list of an end point. The locale
    \<open>first_wins\<close> is the contract of a store that keeps the first entry of a key.
  \<^item> \<open>Azap_Tools\<close> (azap\_tools.c): hexadecimal text, its round trips, and the five rotating buffers.

  \<^item> \<open>Watteco_Encode\<close>, \<open>Watteco_Decode\<close>, \<open>Watteco_Codec\<close> (drivers/watteco/lib/infoproto.c, encode.c, decode.c):
    the tables of the ZCL messages, the encoder and the decoder; what the driver sends decodes to what
    it encoded, up to the parameters the decoder has no case for (\<open>wire_param\<close>, \<open>received\<close>), the frames on
    which the decoder stays inside its arrays, and the lengths it does not check.

  \<^bold>\<open>Bounds and fuel.\<close> The loop of \<open>getNextZNPMsg\<close> has as fuel more turns than there are
  buffered bytes, each turn taking one; the scanning loops of the ZCL parsers have 256 turns, more
  than an 8-bit length allows; the theorems show that the fuel is never used up.
  The loops of \<open>rtl_poll\<close> read the size of the table again in each turn and are partial functions: they
  end when the called functions let the table grow to a bounded size.

  \<^bold>\<open>Abstractions.\<close> Linked lists are HOL lists in chain order; \<open>malloc\<close>, the clock, the content of fresh
  memory and the answers of the operating system are arguments; the user's callbacks are logged
  and do not call back into the library, the table that holds them says which are NULL; traces, and the text that the Watteco decoder writes for people, are left out.

  \<^bold>\<open>Not modelled.\<close> The text that azapZclAttrVal\_t\_getStringRep makes for display, the \<open>%lg\<close> directive of
  \<open>sscanf\<close> (a parameter), the statistics printout, the API functions that only trace and return
  false, the parts of rtbase that only call the operating system or that no program of the repository
  calls (traces, clocks, directories, ini files, file names), and the rest of the repository: the XO object library, the dIa agent, the other drivers
  and the Java service layer.
\<close>

end
